(* ===== verification/AMC_Prelude.thy ===== *)
theory AMC_Prelude
  imports Main "HOL-Library.Multiset" "HOL-Library.List_Lexorder" "HOL-Library.Char_ord"
begin

section \<open>Shared types, automation and generic lemmas\<close>

text \<open>
  This theory holds what every component of the development uses: Python strings and the
  string functions the code calls, rows of a database table as lists of records, a state
  and exception monad with its Hoare rules, and the named collections the component
  proofs hand to the simplifier.

  A Python \<open>str\<close> is a \<open>string\<close> whose characters are the code points U+0000 to U+00FF;
  \<open>utf8\<close> is their UTF-8 encoding, so \<open>len\<close>, comparison and encoding are exact on that
  range. Python compares strings by code point, which is the lexicographic order of
  \<^theory_text>\<open>List_Lexorder\<close> over \<^theory_text>\<open>Char_ord\<close>.
\<close>

named_theorems prog_defs "definitions of the state and exception monad"
named_theorems hoare_rules "weakest-precondition rules of the monad"
named_theorems model_simps "unfolding facts of the component models"

subsection \<open>Python strings\<close>

type_synonym bytes = string

definition utf8_char :: "char \<Rightarrow> bytes" where
  "utf8_char c = (let n = of_char c :: nat in
     if n < 128 then [c] else [char_of (192 + n div 64), char_of (128 + n mod 64)])"

definition utf8 :: "string \<Rightarrow> bytes" where
  "utf8 s = concat (map utf8_char s)"

definition digit_char :: "nat \<Rightarrow> char" where
  "digit_char d = char_of (48 + d)"

fun str_nat :: "nat \<Rightarrow> string" where
  "str_nat n = (if n < 10 then [digit_char n] else str_nat (n div 10) @ [digit_char (n mod 10)])"

declare str_nat.simps [simp del]

definition str_int :: "int \<Rightarrow> string" where
  "str_int i = (if i < 0 then CHR ''-'' # str_nat (nat (- i)) else str_nat (nat i))"

definition lower_char :: "char \<Rightarrow> char" where
  "lower_char c = (let n = of_char c :: nat in
     if 65 \<le> n \<and> n \<le> 90 \<or> 192 \<le> n \<and> n \<le> 222 \<and> n \<noteq> 215 then char_of (n + 32) else c)"

definition lower :: "string \<Rightarrow> string" where
  "lower s = map lower_char s"

definition upper_char :: "char \<Rightarrow> char" where
  "upper_char c = (let n = of_char c :: nat in
     if 97 \<le> n \<and> n \<le> 122 \<or> 224 \<le> n \<and> n \<le> 254 \<and> n \<noteq> 247 then char_of (n - 32) else c)"

text \<open>\<open>str.upper\<close>, for strings without the three characters whose capital is outside Latin-1.\<close>

definition upper :: "string \<Rightarrow> string" where
  "upper s = map upper_char s"

definition is_space :: "char \<Rightarrow> bool" where
  "is_space c = (let n = of_char c :: nat in
     9 \<le> n \<and> n \<le> 13 \<or> 28 \<le> n \<and> n \<le> 32 \<or> n = 133 \<or> n = 160)"

definition strip :: "string \<Rightarrow> string" where
  "strip s = rev (dropWhile is_space (rev (dropWhile is_space s)))"

definition starts_with :: "string \<Rightarrow> string \<Rightarrow> bool" where
  "starts_with p s = (take (length p) s = p)"

definition ends_with :: "string \<Rightarrow> string \<Rightarrow> bool" where
  "ends_with p s = (rev (take (length p) (rev s)) = p)"

fun join :: "string \<Rightarrow> string list \<Rightarrow> string" where
  "join sep [] = []"
| "join sep [x] = x"
| "join sep (x # y # r) = x @ sep @ join sep (y # r)"

lemma digit_char_code: "d < 10 \<Longrightarrow> of_char (digit_char d) = (48 + d :: nat)"
  by (simp add: digit_char_def)

lemma digit_char_inj: "a < 10 \<Longrightarrow> b < 10 \<Longrightarrow> digit_char a = digit_char b \<Longrightarrow> a = b"
  by (metis add_left_imp_eq digit_char_code)

lemma str_nat_nonempty [simp]: "str_nat n \<noteq> []"
  by (subst str_nat.simps) simp

lemma str_nat_digits: "c \<in> set (str_nat n) \<Longrightarrow> \<exists>d<10. c = digit_char d"
proof (induction n rule: str_nat.induct)
  case (1 n)
  show ?case
  proof (cases "n < 10")
    case True
    with "1.prems" show ?thesis by (auto simp: str_nat.simps [of n])
  next
    case False
    with "1.prems" have "c \<in> set (str_nat (n div 10)) \<or> c = digit_char (n mod 10)"
      by (auto simp: str_nat.simps [of n])
    then show ?thesis using False "1.IH" by (metis mod_less_divisor zero_less_numeral)
  qed
qed

lemma str_nat_code: "c \<in> set (str_nat n) \<Longrightarrow> 48 \<le> (of_char c :: nat) \<and> of_char c \<le> (57 :: nat)"
  by (auto dest!: str_nat_digits simp: digit_char_code)

lemma str_nat_inj: "str_nat m = str_nat n \<Longrightarrow> m = n"
proof (induction m arbitrary: n rule: str_nat.induct)
  case (1 m)
  have *: "length (str_nat k) = 1 \<longleftrightarrow> k < 10" for k
    by (subst str_nat.simps) simp
  show ?case
  proof (cases "m < 10")
    case True
    then have "n < 10" using "1.prems" * by metis
    with True "1.prems" show ?thesis
      by (auto simp: str_nat.simps [of m] str_nat.simps [of n] intro: digit_char_inj)
  next
    case False
    then have n: "\<not> n < 10" using "1.prems" * by metis
    have "str_nat (m div 10) @ [digit_char (m mod 10)] = str_nat (n div 10) @ [digit_char (n mod 10)]"
      using "1.prems" False n by (simp add: str_nat.simps [of m] str_nat.simps [of n])
    then have "str_nat (m div 10) = str_nat (n div 10)" and "digit_char (m mod 10) = digit_char (n mod 10)"
      by auto
    then have "m div 10 = n div 10" and "m mod 10 = n mod 10"
      using "1.IH" False by (auto intro: digit_char_inj)
    then show ?thesis by (metis div_mod_decomp)
  qed
qed

lemma str_int_inj: "str_int i = str_int j \<Longrightarrow> i = j"
proof -
  have no_minus: "CHR ''-'' \<notin> set (str_nat n)" for n
    by (auto dest!: str_nat_code)
  assume eq: "str_int i = str_int j"
  then show ?thesis
    unfolding str_int_def using no_minus
    by (auto split: if_splits dest!: str_nat_inj; metis list.set_intros(1))
qed

lemma str_int_code: "c \<in> set (str_int i) \<Longrightarrow> of_char c \<noteq> (58 :: nat) \<and> of_char c \<noteq> (59 :: nat)"
  by (auto simp: str_int_def split: if_splits dest!: str_nat_code)

lemma split_at_char:
  assumes "a @ x # r = b @ x # s" and "x \<notin> set a" and "x \<notin> set b"
  shows "a = b \<and> r = s"
proof -
  have "takeWhile (\<lambda>c. c \<noteq> x) (a @ x # r) = a" and "takeWhile (\<lambda>c. c \<noteq> x) (b @ x # s) = b"
    using assms(2,3) by (auto simp: takeWhile_append)
  then have "a = b" using assms(1) by simp
  then show ?thesis using assms(1) by simp
qed

lemma append_same_length: "a @ r = b @ s \<Longrightarrow> length a = length b \<Longrightarrow> a = b \<and> r = s"
  by simp

lemma utf8_char_prefix:
  assumes "utf8_char c @ r = utf8_char d @ s"
  shows "c = d \<and> r = s"
proof -
  let ?c = "of_char c :: nat" and ?d = "of_char d :: nat"
  have b: "?c < 256" "?d < 256" by simp_all
  have small: "192 + n div 64 < 256" "128 + n mod 64 < 256" if "n < 256" for n :: nat
    using that by auto
  have code: "of_char (char_of n :: char) = n" if "n < 256" for n :: nat
    using that by (simp add: take_bit_eq_mod)
  show ?thesis
  proof (cases "?c < 128"; cases "?d < 128")
    assume "\<not> ?c < 128" "\<not> ?d < 128"
    then have *: "char_of (192 + ?c div 64) = (char_of (192 + ?d div 64) :: char)"
      "char_of (128 + ?c mod 64) = (char_of (128 + ?d mod 64) :: char)" "r = s"
      using assms by (auto simp: utf8_char_def Let_def)
    from arg_cong [OF *(1), where f = "of_char :: char \<Rightarrow> nat"] have "?c div 64 = ?d div 64"
      by (simp only: code small b add_left_cancel)
    moreover from arg_cong [OF *(2), where f = "of_char :: char \<Rightarrow> nat"] have "?c mod 64 = ?d mod 64"
      by (simp only: code small b add_left_cancel)
    ultimately have "?c = ?d" by (metis div_mod_decomp)
    then show ?thesis using *(3) by simp
  next
    assume "?c < 128" "\<not> ?d < 128"
    then have "c = char_of (192 + ?d div 64)" using assms by (simp add: utf8_char_def Let_def)
    then have "?c = 192 + ?d div 64" using code [OF small(1) [OF b(2)]] by metis
    with \<open>?c < 128\<close> show ?thesis by simp
  next
    assume "\<not> ?c < 128" "?d < 128"
    then have "d = char_of (192 + ?c div 64)" using assms by (simp add: utf8_char_def Let_def)
    then have "?d = 192 + ?c div 64" using code [OF small(1) [OF b(1)]] by metis
    with \<open>?d < 128\<close> show ?thesis by simp
  qed (use assms in \<open>auto simp: utf8_char_def Let_def\<close>)
qed

lemma utf8_char_nonempty [simp]: "utf8_char c \<noteq> []"
  by (auto simp: utf8_char_def Let_def)

lemma utf8_inj: "utf8 s = utf8 t \<Longrightarrow> s = t"
proof (induction s arbitrary: t)
  case Nil
  then show ?case by (cases t) (auto simp: utf8_def)
next
  case (Cons c s)
  then obtain d u where t: "t = d # u" by (cases t) (auto simp: utf8_def)
  with Cons.prems have "utf8_char c @ utf8 s = utf8_char d @ utf8 u" by (simp add: utf8_def)
  then have "c = d" and "utf8 s = utf8 u" by (auto dest: utf8_char_prefix)
  then show ?case using Cons.IH t by simp
qed

subsection \<open>Tables: lists of rows\<close>

text \<open>
  A table is the list of its rows in insertion order. \<open>row_by\<close> is a \<open>SELECT\<close> by key,
  \<open>update_rows\<close> an \<open>UPDATE ... WHERE\<close>, and \<open>count_rows\<close> its \<open>rowcount\<close>.
\<close>

definition row_by :: "('r \<Rightarrow> 'k) \<Rightarrow> 'k \<Rightarrow> 'r list \<Rightarrow> 'r option" where
  "row_by key k rows = find (\<lambda>r. key r = k) rows"

definition update_rows :: "('r \<Rightarrow> bool) \<Rightarrow> ('r \<Rightarrow> 'r) \<Rightarrow> 'r list \<Rightarrow> 'r list" where
  "update_rows p f rows = map (\<lambda>r. if p r then f r else r) rows"

definition count_rows :: "('r \<Rightarrow> bool) \<Rightarrow> 'r list \<Rightarrow> nat" where
  "count_rows p rows = length (filter p rows)"

lemma row_by_Nil [simp]: "row_by key k [] = None"
  by (simp add: row_by_def)

lemma row_by_Cons [simp]: "row_by key k (r # rs) = (if key r = k then Some r else row_by key k rs)"
  by (simp add: row_by_def)

lemma row_by_append:
  "row_by key k (rs @ qs) = (case row_by key k rs of None \<Rightarrow> row_by key k qs | Some r \<Rightarrow> Some r)"
  by (induction rs) auto

lemma row_by_SomeD: "row_by key k rs = Some r \<Longrightarrow> r \<in> set rs \<and> key r = k"
  by (induction rs) (auto split: if_splits)

lemma row_by_None: "row_by key k rs = None \<longleftrightarrow> k \<notin> key ` set rs"
  by (induction rs) auto

lemma row_by_distinct:
  "distinct (map key rs) \<Longrightarrow> r \<in> set rs \<Longrightarrow> row_by key (key r) rs = Some r"
  by (induction rs) auto

lemma update_rows_Nil [simp]: "update_rows p f [] = []"
  by (simp add: update_rows_def)

lemma update_rows_Cons [simp]:
  "update_rows p f (r # rs) = (if p r then f r else r) # update_rows p f rs"
  by (simp add: update_rows_def)

lemma map_update_rows:
  "(\<And>r. p r \<Longrightarrow> g (f r) = g r) \<Longrightarrow> map g (update_rows p f rows) = map g rows"
  by (induction rows) auto

lemma set_update_rows: "set (update_rows p f rows) = (\<lambda>r. if p r then f r else r) ` set rows"
  by (simp add: update_rows_def)

lemma length_update_rows [simp]: "length (update_rows p f rows) = length rows"
  by (simp add: update_rows_def)

lemma update_rows_id: "(\<And>r. r \<in> set rows \<Longrightarrow> \<not> p r) \<Longrightarrow> update_rows p f rows = rows"
  by (induction rows) auto

lemma count_rows_0: "count_rows p rows = 0 \<longleftrightarrow> (\<forall>r\<in>set rows. \<not> p r)"
  by (auto simp: count_rows_def filter_empty_conv)

lemma count_rows_key:
  assumes "distinct (map key rows)" and "\<And>r. p r \<Longrightarrow> key r = k"
  shows "count_rows p rows = (case row_by key k rows of None \<Rightarrow> 0 | Some r \<Rightarrow> if p r then 1 else 0)"
  using assms(1)
proof (induction rows)
  case (Cons r rows)
  show ?case
  proof (cases "key r = k")
    case True
    with Cons.prems have "row_by key k rows = None" by (auto simp: row_by_None)
    with True Cons show ?thesis by (simp add: count_rows_def)
  next
    case False
    with assms(2) have "\<not> p r" by blast
    with False Cons show ?thesis by (simp add: count_rows_def)
  qed
qed (simp add: count_rows_def)

lemma row_by_update_rows:
  assumes "\<And>r. p r \<Longrightarrow> key (f r) = key r"
  shows "row_by key k (update_rows p f rows) =
    (case row_by key k rows of None \<Rightarrow> None | Some r \<Rightarrow> Some (if p r then f r else r))"
  using assms by (induction rows) auto

text \<open>
  \<open>d[k] = v\<close> on a dict, and \<open>INSERT ... ON CONFLICT DO UPDATE\<close> on a table: the row of that
  key is replaced in place, a new key goes to the end.
\<close>

definition upsert :: "('r \<Rightarrow> 'k) \<Rightarrow> 'r \<Rightarrow> 'r list \<Rightarrow> 'r list" where
  "upsert key v rows = (case row_by key (key v) rows of
     None \<Rightarrow> rows @ [v]
   | Some _ \<Rightarrow> update_rows (\<lambda>r. key r = key v) (\<lambda>_. v) rows)"

lemma row_by_replace:
  "row_by key k (update_rows (\<lambda>r. key r = key v) (\<lambda>_. v) rows) =
    (case row_by key k rows of None \<Rightarrow> None | Some r \<Rightarrow> Some (if k = key v then v else r))"
  by (induction rows) auto

lemma map_key_replace: "map key (update_rows (\<lambda>r. key r = key v) (\<lambda>_. v) rows) = map key rows"
  by (induction rows) auto

lemma row_by_upsert [simp]:
  "row_by key k (upsert key v rows) = (if k = key v then Some v else row_by key k rows)"
  by (auto simp: upsert_def row_by_append row_by_replace split: option.splits)

lemma set_upsert: "set (upsert key v rows) \<subseteq> insert v (set rows)"
  by (auto simp: upsert_def set_update_rows split: option.splits)

lemma in_upsert: "r \<in> set rows \<Longrightarrow> key r \<noteq> key v \<Longrightarrow> r \<in> set (upsert key v rows)"
  by (auto simp: upsert_def set_update_rows split: option.splits)

lemma distinct_upsert: "distinct (map key rows) \<Longrightarrow> distinct (map key (upsert key v rows))"
  by (auto simp: upsert_def row_by_None map_key_replace split: option.splits)

text \<open>\<open>{**a, **b}\<close> on dicts.\<close>

definition dict_merge :: "(string \<times> 'v) list \<Rightarrow> (string \<times> 'v) list \<Rightarrow> (string \<times> 'v) list" where
  "dict_merge a b = fold (upsert fst) b a"

lemma filter_distinct_key: "x \<in> set xs \<Longrightarrow> distinct (map key xs) \<Longrightarrow> filter (\<lambda>y. key y = key x) xs = [x]"
  by (induction xs) (auto simp: filter_empty_conv image_iff split: if_splits)

text \<open>\<open>str.split\<close> on one character.\<close>

fun split_on :: "char \<Rightarrow> string \<Rightarrow> string list" where
  "split_on c [] = [[]]"
| "split_on c (x # xs) = (if x = c then [] # split_on c xs
     else case split_on c xs of [] \<Rightarrow> [[x]] | y # ys \<Rightarrow> (x # y) # ys)"

lemma split_on_nonempty [simp]: "split_on c s \<noteq> []"
  by (cases s) (auto split: list.splits)

lemma split_on_clean: "t \<in> set (split_on c s) \<Longrightarrow> c \<notin> set t"
  by (induction c s arbitrary: t rule: split_on.induct) (auto split: if_splits list.splits)

lemma split_on_chars: "t \<in> set (split_on c s) \<Longrightarrow> set t \<subseteq> set s"
  by (induction c s arbitrary: t rule: split_on.induct) (fastforce split: if_splits list.splits)+

lemma split_on_length: "sum_list (map length (split_on c s)) + length (split_on c s) = length s + 1"
  by (induction c s rule: split_on.induct) (auto split: list.splits)

lemma split_on_append: "c \<notin> set t \<Longrightarrow> split_on c (t @ c # s) = t # split_on c s"
  by (induction t) auto

lemma split_on_plain: "c \<notin> set t \<Longrightarrow> split_on c t = [t]"
  by (induction t) auto

lemma split_on_join: "ts \<noteq> [] \<Longrightarrow> (\<And>t. t \<in> set ts \<Longrightarrow> c \<notin> set t) \<Longrightarrow> split_on c (join [c] ts) = ts"
proof (induction "[c]" ts rule: join.induct)
  case (3 t u ts)
  then show ?case by (simp add: split_on_append)
qed (auto simp: split_on_plain)

lemma length_join: "ts \<noteq> [] \<Longrightarrow> length (join [c] ts) + 1 = sum_list (map length ts) + length ts"
  by (induction "[c]" ts rule: join.induct) auto

end
