(* ===== verification/Prog_Monad.thy ===== *)
theory Prog_Monad
  imports AMC_Prelude
begin

section \<open>Stateful programs with exceptions\<close>

text \<open>
  A Python function that reads and writes the database and may raise is a function from
  the state to its outcome and the state it leaves: \<open>Inl e\<close> for an exception \<open>e\<close>,
  \<open>Inr a\<close> for a returned value. A raise keeps the writes made before it, as the code's
  committed transactions do; \<open>atomic\<close> is one \<open>with transaction(write=True)\<close> block, which
  rolls back when its body raises. \<open>wp\<close> is the weakest precondition of a program for a
  postcondition on returns and one on exceptions; its rules are equations, so the
  simplifier computes it.
\<close>

type_synonym ('s, 'e, 'a) prog = "'s \<Rightarrow> ('e + 'a) \<times> 's"

definition ret :: "'a \<Rightarrow> ('s, 'e, 'a) prog" where
  "ret a = (\<lambda>s. (Inr a, s))"

definition raise :: "'e \<Rightarrow> ('s, 'e, 'a) prog" where
  "raise e = (\<lambda>s. (Inl e, s))"

definition bnd :: "('s, 'e, 'a) prog \<Rightarrow> ('a \<Rightarrow> ('s, 'e, 'b) prog) \<Rightarrow> ('s, 'e, 'b) prog" where
  "bnd m f = (\<lambda>s. case m s of (Inl e, t) \<Rightarrow> (Inl e, t) | (Inr a, t) \<Rightarrow> f a t)"

definition gets :: "('s \<Rightarrow> 'a) \<Rightarrow> ('s, 'e, 'a) prog" where
  "gets f = (\<lambda>s. (Inr (f s), s))"

definition modify :: "('s \<Rightarrow> 's) \<Rightarrow> ('s, 'e, unit) prog" where
  "modify f = (\<lambda>s. (Inr (), f s))"

definition on_true :: "bool \<Rightarrow> ('s, 'e, unit) prog \<Rightarrow> ('s, 'e, unit) prog" where
  "on_true b m = (if b then m else ret ())"

definition guard :: "bool \<Rightarrow> 'e \<Rightarrow> ('s, 'e, unit) prog" where
  "guard b e = (if b then ret () else raise e)"

definition catch :: "('s, 'e, 'a) prog \<Rightarrow> ('e \<Rightarrow> ('s, 'e, 'a) prog) \<Rightarrow> ('s, 'e, 'a) prog" where
  "catch m h = (\<lambda>s. case m s of (Inl e, t) \<Rightarrow> h e t | (Inr a, t) \<Rightarrow> (Inr a, t))"

definition attempt :: "('s, 'd, 'a) prog \<Rightarrow> ('s, 'e, 'd + 'a) prog" where
  "attempt m = (\<lambda>s. case m s of (r, t) \<Rightarrow> (Inr r, t))"

definition mapE :: "('d \<Rightarrow> 'e) \<Rightarrow> ('s, 'd, 'a) prog \<Rightarrow> ('s, 'e, 'a) prog" where
  "mapE g m = (\<lambda>s. case m s of (Inl d, t) \<Rightarrow> (Inl (g d), t) | (Inr a, t) \<Rightarrow> (Inr a, t))"

definition atomic :: "('s, 'e, 'a) prog \<Rightarrow> ('s, 'e, 'a) prog" where
  "atomic m = (\<lambda>s. case m s of (Inl e, t) \<Rightarrow> (Inl e, s) | (Inr a, t) \<Rightarrow> (Inr a, t))"

definition of_sum :: "'e + 'a \<Rightarrow> ('s, 'e, 'a) prog" where
  "of_sum r = (\<lambda>s. (r, s))"

fun each :: "('x \<Rightarrow> ('s, 'e, 'a) prog) \<Rightarrow> 'x list \<Rightarrow> ('s, 'e, 'a list) prog" where
  "each f [] = ret []"
| "each f (x # xs) = bnd (f x) (\<lambda>a. bnd (each f xs) (\<lambda>as. ret (a # as)))"

definition wp :: "('s, 'e, 'a) prog \<Rightarrow> ('a \<Rightarrow> 's \<Rightarrow> bool) \<Rightarrow> ('e \<Rightarrow> 's \<Rightarrow> bool) \<Rightarrow> 's \<Rightarrow> bool" where
  "wp m Q E s = (case m s of (Inl e, t) \<Rightarrow> E e t | (Inr a, t) \<Rightarrow> Q a t)"

lemmas prog_unfold [prog_defs] =
  ret_def raise_def bnd_def gets_def modify_def on_true_def guard_def catch_def attempt_def mapE_def
  atomic_def of_sum_def

lemma wp_ret [hoare_rules]:
  "wp (ret a) Q E = Q a"
  by (auto simp: wp_def ret_def fun_eq_iff Let_def split: prod.splits sum.splits option.splits)

lemma wp_raise [hoare_rules]:
  "wp (raise e) Q E = E e"
  by (auto simp: wp_def raise_def fun_eq_iff Let_def split: prod.splits sum.splits option.splits)

lemma wp_bnd [hoare_rules]:
  "wp (bnd m f) Q E = wp m (\<lambda>a. wp (f a) Q E) E"
  by (auto simp: wp_def bnd_def fun_eq_iff Let_def split: prod.splits sum.splits option.splits)

lemma wp_gets [hoare_rules]:
  "wp (gets f) Q E = (\<lambda>s. Q (f s) s)"
  by (auto simp: wp_def gets_def fun_eq_iff Let_def split: prod.splits sum.splits option.splits)

lemma wp_modify [hoare_rules]:
  "wp (modify f) Q E = (\<lambda>s. Q () (f s))"
  by (auto simp: wp_def modify_def fun_eq_iff Let_def split: prod.splits sum.splits option.splits)

lemma wp_on_true [hoare_rules]:
  "wp (on_true b m) Q E = (\<lambda>s. if b then wp m Q E s else Q () s)"
  by (auto simp: wp_def on_true_def ret_def fun_eq_iff Let_def split: prod.splits sum.splits option.splits)

lemma wp_guard [hoare_rules]:
  "wp (guard b e) Q E = (\<lambda>s. if b then Q () s else E e s)"
  by (auto simp: wp_def guard_def ret_def raise_def fun_eq_iff Let_def split: prod.splits sum.splits option.splits)

lemma wp_catch [hoare_rules]:
  "wp (catch m h) Q E = wp m Q (\<lambda>e. wp (h e) Q E)"
  by (auto simp: wp_def catch_def fun_eq_iff Let_def split: prod.splits sum.splits option.splits)

lemma wp_attempt [hoare_rules]:
  "wp (attempt m) Q E = wp m (\<lambda>a. Q (Inr a)) (\<lambda>d. Q (Inl d))"
  by (auto simp: wp_def attempt_def fun_eq_iff Let_def split: prod.splits sum.splits option.splits)

lemma wp_mapE [hoare_rules]:
  "wp (mapE g m) Q E = wp m Q (\<lambda>d. E (g d))"
  by (auto simp: wp_def mapE_def fun_eq_iff Let_def split: prod.splits sum.splits option.splits)

lemma wp_atomic [hoare_rules]:
  "wp (atomic m) Q E = (\<lambda>s. wp m Q (\<lambda>e _. E e s) s)"
  by (auto simp: wp_def atomic_def fun_eq_iff Let_def split: prod.splits sum.splits option.splits)

lemma wp_of_sum [hoare_rules]:
  "wp (of_sum r) Q E = (\<lambda>s. case r of Inl e \<Rightarrow> E e s | Inr a \<Rightarrow> Q a s)"
  by (auto simp: wp_def of_sum_def fun_eq_iff Let_def split: prod.splits sum.splits option.splits)

lemma wp_if [hoare_rules]:
  "wp (if b then m else n) Q E = (\<lambda>s. if b then wp m Q E s else wp n Q E s)"
  by (auto simp: wp_def  fun_eq_iff Let_def split: prod.splits sum.splits option.splits)

lemma wp_option [hoare_rules]:
  "wp (case x of None \<Rightarrow> m | Some a \<Rightarrow> f a) Q E = (\<lambda>s. case x of None \<Rightarrow> wp m Q E s | Some a \<Rightarrow> wp (f a) Q E s)"
  by (auto simp: wp_def  fun_eq_iff Let_def split: prod.splits sum.splits option.splits)

lemma wp_sum [hoare_rules]:
  "wp (case x of Inl d \<Rightarrow> f d | Inr a \<Rightarrow> g a) Q E = (\<lambda>s. case x of Inl d \<Rightarrow> wp (f d) Q E s | Inr a \<Rightarrow> wp (g a) Q E s)"
  by (auto simp: wp_def  fun_eq_iff Let_def split: prod.splits sum.splits option.splits)

lemma wp_prod [hoare_rules]:
  "wp (case x of (a, b) \<Rightarrow> f a b) Q E = (\<lambda>s. case x of (a, b) \<Rightarrow> wp (f a b) Q E s)"
  by (auto simp: wp_def  fun_eq_iff Let_def split: prod.splits sum.splits option.splits)

lemma wp_Let [hoare_rules]:
  "wp (let x = e in f x) Q E = (let x = e in wp (f x) Q E)"
  by (auto simp: wp_def  fun_eq_iff Let_def split: prod.splits sum.splits option.splits)

lemma wp_mono:
  "wp m Q E s \<Longrightarrow> (\<And>a t. Q a t \<Longrightarrow> Q' a t) \<Longrightarrow> (\<And>e t. E e t \<Longrightarrow> E' e t) \<Longrightarrow> wp m Q' E' s"
  by (auto simp: wp_def split: prod.splits sum.splits)

lemma wp_conj: "wp m Q E s \<Longrightarrow> wp m Q' E' s \<Longrightarrow> wp m (\<lambda>a t. Q a t \<and> Q' a t) (\<lambda>e t. E e t \<and> E' e t) s"
  by (auto simp: wp_def split: prod.splits sum.splits)

lemma wp_apply: "wp m Q E s \<Longrightarrow> m s = (Inr a, t) \<Longrightarrow> Q a t"
  by (simp add: wp_def)

lemma wp_applyE: "wp m Q E s \<Longrightarrow> m s = (Inl e, t) \<Longrightarrow> E e t"
  by (simp add: wp_def)

text \<open>An invariant of the state that a program keeps however it ends.\<close>

definition keeps :: "('s \<Rightarrow> bool) \<Rightarrow> ('s, 'e, 'a) prog \<Rightarrow> bool" where
  "keeps I m \<longleftrightarrow> (\<forall>s. I s \<longrightarrow> wp m (\<lambda>_. I) (\<lambda>_. I) s)"

lemma keepsD: "keeps I m \<Longrightarrow> I s \<Longrightarrow> I (snd (m s))"
  by (cases "m s"; cases "fst (m s)") (force simp: keeps_def wp_def)+

lemma keepsI: "(\<And>s. I s \<Longrightarrow> I (snd (m s))) \<Longrightarrow> keeps I m"
  by (fastforce simp: keeps_def wp_def split: prod.splits sum.splits)

lemma keeps_wp: "keeps I m \<Longrightarrow> I s \<Longrightarrow> (\<And>a t. I t \<Longrightarrow> Q a t) \<Longrightarrow> (\<And>e t. I t \<Longrightarrow> E e t) \<Longrightarrow> wp m Q E s"
  unfolding keeps_def by (blast intro: wp_mono)

lemma wp_each:
  assumes "\<And>x s. x \<in> set xs \<Longrightarrow> I s \<Longrightarrow> wp (f x) (\<lambda>_. I) (\<lambda>_. I) s" and "I s"
  shows "wp (each f xs) (\<lambda>_. I) (\<lambda>_. I) s"
  using assms
proof (induction xs arbitrary: s)
  case (Cons x xs)
  have rest: "wp (each f xs) (\<lambda>_. I) (\<lambda>_. I) t" if "I t" for t
    using Cons.IH [OF Cons.prems(1) that] by simp
  have "wp (f x) (\<lambda>_. I) (\<lambda>_. I) s" using Cons.prems by simp
  then have "wp (f x) (\<lambda>a. wp (bnd (each f xs) (\<lambda>as. ret (a # as))) (\<lambda>_. I) (\<lambda>_. I)) (\<lambda>_. I) s"
    by (rule wp_mono) (simp_all add: wp_bnd wp_ret rest)
  then show ?case by (simp add: wp_bnd)
qed (simp add: wp_ret)

end
