(* ===== verification/Canonical.thy ===== *)
theory Canonical
  imports AMC_Prelude
begin

section \<open>AMC-CANON-1: canonical bytes and hashes\<close>

text \<open>
  Models \<^verbatim>\<open>agency/execution/canonical.py\<close>. Every hash of the control plane (bindings,
  payloads, transition chains, audit checkpoints) is SHA-256 over \<open>canonical_bytes\<close>.
  \<open>json\<close> is the Python value: \<open>JDict\<close> is a mapping with string keys in iteration order,
  \<open>JBadKeys\<close> a mapping with a key that is not a string, \<open>JModel\<close> an object with
  \<open>model_dump\<close>, \<open>JOther\<close> any other type by its name. A finite float is given by
  \<open>Decimal(str(value))\<close>, its coefficient and exponent. SHA-256 itself
  (\<open>hashlib.sha256(..).hexdigest()\<close>) is the parameter \<open>H\<close> of every definition that hashes.
\<close>

datatype pyfloat = NonFinite | Dec int int

datatype json =
    JNull
  | JBool bool
  | JInt int
  | JFloat pyfloat
  | JStr string
  | JBytes bytes
  | JList "json list"
  | JDict "(string \<times> json) list"
  | JBadKeys
  | JModel json
  | JOther string

datatype canon_error = NonFiniteFloat | KeysMustBeStrings | UnsupportedType string

definition hash_protocol :: string where
  "hash_protocol = ''AMC-CANON-1''"

subsection \<open>Decimal text of a float\<close>

text \<open>\<open>Decimal.normalize\<close> strips trailing zeros of the coefficient.\<close>

function decimal_normalize :: "nat \<Rightarrow> int \<Rightarrow> nat \<times> int" where
  "decimal_normalize c e = (if c \<noteq> 0 \<and> c mod 10 = 0 then decimal_normalize (c div 10) (e + 1) else (c, e))"
  by pat_completeness auto
termination by (relation "measure fst") auto

declare decimal_normalize.simps [simp del]

definition fixed_text :: "nat \<Rightarrow> int \<Rightarrow> string" where
  "fixed_text c e =
     (let ds = str_nat c in
      if e \<ge> 0 then ds @ replicate (nat e) (CHR ''0'')
      else let k = nat (- e) in
        if k < length ds then take (length ds - k) ds @ ''.'' @ drop (length ds - k) ds
        else ''0.'' @ replicate (k - length ds) (CHR ''0'') @ ds)"

definition rstrip_char :: "char \<Rightarrow> string \<Rightarrow> string" where
  "rstrip_char c s = rev (dropWhile (\<lambda>x. x = c) (rev s))"

fun decimal_text :: "pyfloat \<Rightarrow> canon_error + string" where
  "decimal_text NonFinite = Inl NonFiniteFloat"
| "decimal_text (Dec c e) =
     (if c = 0 then Inr ''0''
      else let (n, x) = decimal_normalize (nat \<bar>c\<bar>) e;
               text = (if c < 0 then ''-'' else []) @ fixed_text n x in
        Inr (if CHR ''.'' \<in> set text then rstrip_char (CHR ''.'') (rstrip_char (CHR ''0'') text) else text))"

subsection \<open>The encoder\<close>

fun sequence :: "('e + 'a) list \<Rightarrow> 'e + 'a list" where
  "sequence [] = Inr []"
| "sequence (Inl e # _) = Inl e"
| "sequence (Inr a # rs) = (case sequence rs of Inl e \<Rightarrow> Inl e | Inr as \<Rightarrow> Inr (a # as))"

definition enc_str :: "string \<Rightarrow> bytes" where
  "enc_str s = (let raw = utf8 s in ''S'' @ str_nat (length raw) @ '':'' @ raw)"

fun enc :: "json \<Rightarrow> canon_error + bytes" and
    enc_fields :: "(string \<times> json) list \<Rightarrow> (string \<times> (canon_error + bytes)) list" and
    enc_items :: "json list \<Rightarrow> (canon_error + bytes) list" where
  "enc JNull = Inr ''N''"
| "enc (JBool b) = Inr (if b then ''B1'' else ''B0'')"
| "enc (JInt i) = Inr (''I'' @ str_int i @ '';'')"
| "enc (JFloat f) = (case decimal_text f of Inl e \<Rightarrow> Inl e | Inr t \<Rightarrow> Inr (''F'' @ t @ '';''))"
| "enc (JStr s) = Inr (enc_str s)"
| "enc (JBytes raw) = Inr (''Y'' @ str_nat (length raw) @ '':'' @ raw)"
| "enc (JDict kvs) =
     (case sequence (map (\<lambda>(k, r). case r of Inl e \<Rightarrow> Inl e | Inr b \<Rightarrow> Inr (enc_str k @ b))
                         (sort_key (\<lambda>kr. utf8 (fst kr)) (enc_fields kvs))) of
        Inl e \<Rightarrow> Inl e
      | Inr items \<Rightarrow> Inr (''D'' @ str_nat (length kvs) @ '':'' @ concat items))"
| "enc JBadKeys = Inl KeysMustBeStrings"
| "enc (JList vs) =
     (case sequence (enc_items vs) of
        Inl e \<Rightarrow> Inl e
      | Inr items \<Rightarrow> Inr (''L'' @ str_nat (length vs) @ '':'' @ concat items))"
| "enc (JModel v) = enc v"
| "enc (JOther t) = Inl (UnsupportedType t)"
| "enc_fields [] = []"
| "enc_fields ((k, v) # kvs) = (k, enc v) # enc_fields kvs"
| "enc_items [] = []"
| "enc_items (v # vs) = enc v # enc_items vs"

definition canonical_bytes :: "json \<Rightarrow> canon_error + bytes" where
  "canonical_bytes v = (case enc v of Inl e \<Rightarrow> Inl e | Inr b \<Rightarrow> Inr (hash_protocol @ [char_of (0::nat)] @ b))"

definition canonical_hash :: "(bytes \<Rightarrow> string) \<Rightarrow> json \<Rightarrow> canon_error + string" where
  "canonical_hash H v = (case canonical_bytes v of Inl e \<Rightarrow> Inl e | Inr b \<Rightarrow> Inr (H b))"

definition hash_binary :: "(bytes \<Rightarrow> string) \<Rightarrow> bytes \<Rightarrow> string" where
  "hash_binary H raw = H raw"

record manifest_file =
  mf_path :: string
  mf_byte_hash :: string
  mf_size :: int
  mf_media_type :: "string option"

definition manifest_entry :: "manifest_file \<Rightarrow> json" where
  "manifest_entry f = JDict [
     (''path'', JStr (mf_path f)),
     (''byte_hash'', JStr (mf_byte_hash f)),
     (''size'', JInt (mf_size f)),
     (''media_type'', JStr (case mf_media_type f of
        None \<Rightarrow> ''application/octet-stream''
      | Some t \<Rightarrow> if t = [] then ''application/octet-stream'' else t))]"

definition hash_multifile_manifest :: "(bytes \<Rightarrow> string) \<Rightarrow> manifest_file list \<Rightarrow> canon_error + string" where
  "hash_multifile_manifest H files =
     canonical_hash H (JList (map manifest_entry (sort_key (\<lambda>f. utf8 (mf_path f)) files)))"

subsection \<open>What the encoder keeps of a value\<close>

text \<open>
  \<open>canon\<close> is the specification: the value with mappings as key-sorted lists, floats as
  their decimal text, and model objects replaced by their dump. The encoder is injective
  on it, so two values have equal bytes only when they are equal up to mapping order,
  float text and model wrapping.
\<close>

datatype tree =
    TNull
  | TBool bool
  | TInt int
  | TFloat string
  | TStr string
  | TBytes bytes
  | TList "tree list"
  | TDict "(string \<times> tree) list"

fun canon :: "json \<Rightarrow> canon_error + tree" and
    canon_fields :: "(string \<times> json) list \<Rightarrow> (string \<times> (canon_error + tree)) list" and
    canon_items :: "json list \<Rightarrow> (canon_error + tree) list" where
  "canon JNull = Inr TNull"
| "canon (JBool b) = Inr (TBool b)"
| "canon (JInt i) = Inr (TInt i)"
| "canon (JFloat f) = (case decimal_text f of Inl e \<Rightarrow> Inl e | Inr t \<Rightarrow> Inr (TFloat t))"
| "canon (JStr s) = Inr (TStr s)"
| "canon (JBytes raw) = Inr (TBytes raw)"
| "canon (JDict kvs) =
     (case sequence (map (\<lambda>(k, r). case r of Inl e \<Rightarrow> Inl e | Inr t \<Rightarrow> Inr (k, t))
                         (sort_key (\<lambda>kr. utf8 (fst kr)) (canon_fields kvs))) of
        Inl e \<Rightarrow> Inl e | Inr kts \<Rightarrow> Inr (TDict kts))"
| "canon JBadKeys = Inl KeysMustBeStrings"
| "canon (JList vs) = (case sequence (canon_items vs) of Inl e \<Rightarrow> Inl e | Inr ts \<Rightarrow> Inr (TList ts))"
| "canon (JModel v) = canon v"
| "canon (JOther t) = Inl (UnsupportedType t)"
| "canon_fields [] = []"
| "canon_fields ((k, v) # kvs) = (k, canon v) # canon_fields kvs"
| "canon_items [] = []"
| "canon_items (v # vs) = canon v # canon_items vs"

fun tree_bytes :: "tree \<Rightarrow> bytes" and
    fields_bytes :: "(string \<times> tree) list \<Rightarrow> bytes" and
    items_bytes :: "tree list \<Rightarrow> bytes" where
  "tree_bytes TNull = ''N''"
| "tree_bytes (TBool b) = (if b then ''B1'' else ''B0'')"
| "tree_bytes (TInt i) = ''I'' @ str_int i @ '';''"
| "tree_bytes (TFloat t) = ''F'' @ t @ '';''"
| "tree_bytes (TStr s) = enc_str s"
| "tree_bytes (TBytes raw) = ''Y'' @ str_nat (length raw) @ '':'' @ raw"
| "tree_bytes (TDict kts) = ''D'' @ str_nat (length kts) @ '':'' @ fields_bytes kts"
| "tree_bytes (TList ts) = ''L'' @ str_nat (length ts) @ '':'' @ items_bytes ts"
| "fields_bytes [] = []"
| "fields_bytes ((k, t) # kts) = enc_str k @ tree_bytes t @ fields_bytes kts"
| "items_bytes [] = []"
| "items_bytes (t # ts) = tree_bytes t @ items_bytes ts"

subsection \<open>The encoder is the bytes of the canonical tree\<close>

lemma sequence_map_sum:
  "sequence (map (map_sum id f) rs) = map_sum id (map f) (sequence rs)"
  by (induction rs rule: sequence.induct) (auto split: sum.splits)

lemma sort_key_map: "sort_key f (map g xs) = map g (sort_key (\<lambda>x. f (g x)) xs)"
proof -
  have ins: "insort_key f (g x) (map g ys) = map g (insort_key (\<lambda>x. f (g x)) x ys)" for x ys
    by (induction ys) auto
  show ?thesis by (induction xs) (auto simp: ins)
qed

lemma length_sequence: "sequence rs = Inr as \<Longrightarrow> length as = length rs"
  by (induction rs arbitrary: as rule: sequence.induct) (auto split: sum.splits)

lemma length_fields [simp]: "length (enc_fields kvs) = length kvs" "length (canon_fields kvs) = length kvs"
  by (induction kvs) auto

lemma length_items [simp]: "length (enc_items vs) = length vs" "length (canon_items vs) = length vs"
  by (induction vs) auto

lemma fields_bytes_concat: "fields_bytes kts = concat (map (\<lambda>(k, t). enc_str k @ tree_bytes t) kts)"
  by (induction kts) auto

lemma items_bytes_concat: "items_bytes ts = concat (map tree_bytes ts)"
  by (induction ts) auto

lemma seq_fields_bytes:
  "sequence (map (\<lambda>(k, r). case r of Inl e \<Rightarrow> Inl e | Inr b \<Rightarrow> Inr (enc_str k @ b))
      (map (\<lambda>(k, r). (k, map_sum id tree_bytes r)) krs)) =
   map_sum id (map (\<lambda>(k, t). enc_str k @ tree_bytes t))
     (sequence (map (\<lambda>(k, r). case r of Inl e \<Rightarrow> Inl e | Inr t \<Rightarrow> Inr (k, t)) krs))"
proof -
  have "map (\<lambda>(k, r). case r of Inl e \<Rightarrow> Inl e | Inr b \<Rightarrow> Inr (enc_str k @ b))
      (map (\<lambda>(k, r). (k, map_sum id tree_bytes r)) krs) =
    map (map_sum id (\<lambda>(k, t). enc_str k @ tree_bytes t))
      (map (\<lambda>(k, r). case r of Inl e \<Rightarrow> Inl e | Inr t \<Rightarrow> Inr (k, t)) krs)"
    by (auto split: sum.splits)
  then show ?thesis by (metis sequence_map_sum)
qed

lemma enc_canon:
  "enc v = map_sum id tree_bytes (canon v)"
  "enc_fields kvs = map (\<lambda>(k, r). (k, map_sum id tree_bytes r)) (canon_fields kvs)"
  "enc_items vs = map (map_sum id tree_bytes) (canon_items vs)"
proof (induction v and kvs and vs rule: enc_enc_fields_enc_items.induct)
  case (7 kvs)
  let ?ks = "sort_key (\<lambda>kr. utf8 (fst kr)) (canon_fields kvs)"
  let ?S = "sequence (map (\<lambda>(k, r). case r of Inl e \<Rightarrow> Inl e | Inr t \<Rightarrow> Inr (k, t)) ?ks)"
  have "sort_key (\<lambda>kr. utf8 (fst kr)) (enc_fields kvs) = map (\<lambda>(k, r). (k, map_sum id tree_bytes r)) ?ks"
    by (simp add: 7 sort_key_map case_prod_beta id_def)
  then have enc: "enc (JDict kvs) = (case map_sum id (map (\<lambda>(k, t). enc_str k @ tree_bytes t)) ?S of
      Inl e \<Rightarrow> Inl e
    | Inr items \<Rightarrow> Inr (''D'' @ str_nat (length kvs) @ '':'' @ concat items))"
    by (simp only: enc.simps seq_fields_bytes)
  show ?case
  proof (cases ?S)
    case (Inr kts)
    then have "length kts = length kvs" using length_sequence [OF Inr] by simp
    with enc Inr show ?thesis by (simp add: fields_bytes_concat del: enc.simps)
  qed (use enc in \<open>simp del: enc.simps\<close>)
next
  case (9 vs)
  then have enc: "enc (JList vs) = (case map_sum id (map tree_bytes) (sequence (canon_items vs)) of
      Inl e \<Rightarrow> Inl e
    | Inr items \<Rightarrow> Inr (''L'' @ str_nat (length vs) @ '':'' @ concat items))"
    by (simp only: enc.simps sequence_map_sum)
  show ?case
  proof (cases "sequence (canon_items vs)")
    case (Inr ts)
    then have "length ts = length vs" using length_sequence [OF Inr] by simp
    with enc Inr show ?thesis by (simp add: items_bytes_concat del: enc.simps)
  qed (use enc in \<open>simp del: enc.simps\<close>)
qed (auto split: sum.splits)

text \<open>The decimal text of a float has no semicolon, so the terminator ends it.\<close>

lemma fixed_text_code: "c \<in> set (fixed_text n e) \<Longrightarrow> c \<noteq> CHR '';''"
  by (auto simp: fixed_text_def Let_def split: if_splits
      dest!: str_nat_code in_set_takeD in_set_dropD)

lemma rstrip_char_subset: "set (rstrip_char c s) \<subseteq> set s"
  unfolding rstrip_char_def by (metis set_dropWhileD set_rev subsetI)

lemma decimal_text_code: "decimal_text f = Inr t \<Longrightarrow> CHR '';'' \<notin> set t"
proof (cases f)
  case (Dec c e)
  assume t: "decimal_text f = Inr t"
  show ?thesis
  proof (cases "c = 0")
    case False
    obtain n x where nx: "decimal_normalize (nat \<bar>c\<bar>) e = (n, x)" by fastforce
    let ?text = "(if c < 0 then ''-'' else []) @ fixed_text n x"
    have "t = ?text \<or> t = rstrip_char (CHR ''.'') (rstrip_char (CHR ''0'') ?text)"
      using t False nx Dec by (simp add: Let_def split: if_split_asm)
    then have "set t \<subseteq> set ?text"
      using rstrip_char_subset [of "CHR ''.''" "rstrip_char (CHR ''0'') ?text"]
        rstrip_char_subset [of "CHR ''0''" ?text] by auto
    moreover have "CHR '';'' \<notin> set ?text" by (auto dest: fixed_text_code)
    ultimately show ?thesis by blast
  qed (use t Dec in auto)
qed simp

fun tree_ok :: "tree \<Rightarrow> bool" and fields_ok :: "(string \<times> tree) list \<Rightarrow> bool" and
    items_ok :: "tree list \<Rightarrow> bool" where
  "tree_ok (TFloat t) = (CHR '';'' \<notin> set t)"
| "tree_ok (TDict kts) = fields_ok kts"
| "tree_ok (TList ts) = items_ok ts"
| "tree_ok _ = True"
| "fields_ok [] = True"
| "fields_ok ((k, t) # kts) = (tree_ok t \<and> fields_ok kts)"
| "items_ok [] = True"
| "items_ok (t # ts) = (tree_ok t \<and> items_ok ts)"

lemma fields_ok_iff: "fields_ok kts \<longleftrightarrow> (\<forall>(k, t)\<in>set kts. tree_ok t)"
  by (induction kts) auto

lemma items_ok_iff: "items_ok ts \<longleftrightarrow> (\<forall>t\<in>set ts. tree_ok t)"
  by (induction ts) auto

lemma sequence_set: "sequence rs = Inr as \<Longrightarrow> set as = {a. Inr a \<in> set rs}"
  by (induction rs arbitrary: as rule: sequence.induct) (auto split: sum.splits)

lemma canon_ok:
  "canon v = Inr t \<Longrightarrow> tree_ok t"
  "(k, Inr t) \<in> set (canon_fields kvs) \<Longrightarrow> tree_ok t"
  "Inr t \<in> set (canon_items vs) \<Longrightarrow> tree_ok t"
proof (induction v and kvs and vs arbitrary: t and k t and t rule: canon_canon_fields_canon_items.induct)
  case (4 f)
  then show ?case by (auto split: sum.splits dest: decimal_text_code)
next
  case (7 kvs)
  then show ?case
    by (fastforce split: sum.splits dest!: sequence_set simp: fields_ok_iff set_eq_iff)
next
  case (9 vs)
  then show ?case by (auto split: sum.splits dest!: sequence_set simp: items_ok_iff set_eq_iff)
qed (auto split: if_splits)

subsection \<open>Prefix-freeness and injectivity\<close>

lemma length_prefixed:
  assumes "str_nat (length x) @ CHR '':'' # x @ r = str_nat (length y) @ CHR '':'' # y @ s"
  shows "x = y \<and> r = s"
proof -
  have no_colon: "CHR '':'' \<notin> set (str_nat n)" for n by (auto dest: str_nat_code)
  from split_at_char [OF assms no_colon no_colon]
  have "str_nat (length x) = str_nat (length y)" and "x @ r = y @ s" by auto
  then show ?thesis by (auto dest!: str_nat_inj)
qed

lemma count_prefixed:
  assumes "str_nat m @ CHR '':'' # r = str_nat n @ CHR '':'' # s"
  shows "m = n \<and> r = s"
proof -
  have no_colon: "CHR '':'' \<notin> set (str_nat n)" for n by (auto dest: str_nat_code)
  from split_at_char [OF assms no_colon no_colon] show ?thesis by (auto dest: str_nat_inj)
qed

lemma enc_str_prefix: "enc_str k @ r = enc_str l @ s \<Longrightarrow> k = l \<and> r = s"
  by (auto simp: enc_str_def Let_def dest!: length_prefixed utf8_inj)

lemma tree_prefix:
  "tree_bytes a @ r = tree_bytes b @ s \<Longrightarrow> tree_ok a \<Longrightarrow> tree_ok b \<Longrightarrow> a = b \<and> r = s"
  "fields_bytes kts @ r = fields_bytes lts @ s \<Longrightarrow> length kts = length lts \<Longrightarrow>
     fields_ok kts \<Longrightarrow> fields_ok lts \<Longrightarrow> kts = lts \<and> r = s"
  "items_bytes ts @ r = items_bytes us @ s \<Longrightarrow> length ts = length us \<Longrightarrow>
     items_ok ts \<Longrightarrow> items_ok us \<Longrightarrow> ts = us \<and> r = s"
proof (induction a and kts and ts arbitrary: b r s and lts r s and us r s
    rule: tree_bytes_fields_bytes_items_bytes.induct)
  case (3 i)
  have semi: "CHR '';'' \<notin> set (str_int i)" for i by (auto dest: str_int_code)
  from "3.prems"(1) show ?case
    by (cases b) (auto simp: enc_str_def Let_def dest!: split_at_char [OF _ semi semi] str_int_inj split: if_splits)
next
  case (4 t)
  from "4.prems" show ?case
    by (cases b) (auto simp: enc_str_def Let_def dest: split_at_char split: if_splits)
next
  case (5 t)
  from "5.prems"(1) show ?case
    by (cases b) (auto simp: enc_str_def Let_def dest!: length_prefixed utf8_inj split: if_splits)
next
  case (6 raw)
  from "6.prems"(1) show ?case
    by (cases b) (auto simp: enc_str_def Let_def dest!: length_prefixed split: if_splits)
next
  case (7 kts)
  show ?case
  proof (cases b)
    case (TDict lts)
    with "7.prems"(1) have "length kts = length lts" "fields_bytes kts @ r = fields_bytes lts @ s"
      by (auto dest: count_prefixed)
    with "7.IH" [of r lts s] "7.prems"(2,3) TDict show ?thesis by simp
  qed (use "7.prems"(1) in \<open>auto simp: enc_str_def Let_def split: if_splits\<close>)
next
  case (8 ts)
  show ?case
  proof (cases b)
    case (TList us)
    with "8.prems"(1) have "length ts = length us" "items_bytes ts @ r = items_bytes us @ s"
      by (auto dest: count_prefixed)
    with "8.IH" [of r us s] "8.prems"(2,3) TList show ?thesis by simp
  qed (use "8.prems"(1) in \<open>auto simp: enc_str_def Let_def split: if_splits\<close>)
next
  case (10 k t kts)
  from "10.prems"(2) obtain l u lts' where lts: "lts = (l, u) # lts'" by (cases lts) auto
  with "10.prems"(1) have "enc_str k @ (tree_bytes t @ fields_bytes kts @ r)
      = enc_str l @ (tree_bytes u @ fields_bytes lts' @ s)" by simp
  then have kl: "k = l" and rest: "tree_bytes t @ (fields_bytes kts @ r) = tree_bytes u @ (fields_bytes lts' @ s)"
    by (auto dest: enc_str_prefix)
  from "10.prems"(2-4) lts have "tree_ok t" "tree_ok u" "fields_ok kts" "fields_ok lts'" "length kts = length lts'" by auto
  then have "t = u" "fields_bytes kts @ r = fields_bytes lts' @ s" using "10.IH"(1) [OF rest] by simp_all
  with "10.IH"(2) [of r lts' s] \<open>fields_ok kts\<close> \<open>fields_ok lts'\<close> \<open>length kts = length lts'\<close> kl lts
  show ?case by simp
next
  case (12 t ts)
  from "12.prems"(2) obtain u us' where us: "us = u # us'" by (cases us) auto
  with "12.prems"(1) have rest: "tree_bytes t @ (items_bytes ts @ r) = tree_bytes u @ (items_bytes us' @ s)" by simp
  from "12.prems"(2-4) us have ok: "tree_ok t" "tree_ok u" "items_ok ts" "items_ok us'" "length ts = length us'" by auto
  then have "t = u" "items_bytes ts @ r = items_bytes us' @ s" using "12.IH"(1) [OF rest] by simp_all
  with "12.IH"(2) [of r us' s] ok us show ?case by simp
next
  case 1
  then show ?case by (cases b) (auto simp: enc_str_def Let_def split: if_splits)
next
  case (2 c)
  then show ?case by (cases b) (auto simp: enc_str_def Let_def split: if_splits)
qed simp_all

lemma enc_inj:
  assumes "enc v = Inr x" and "enc w = Inr x"
  shows "canon v = canon w"
proof -
  obtain a b where ab: "canon v = Inr a" "canon w = Inr b" "x = tree_bytes a" "x = tree_bytes b"
    using assms by (cases "canon v"; cases "canon w") (auto simp: enc_canon(1))
  then have "a = b" using tree_prefix(1) [of a "[]" b "[]"] canon_ok(1) by simp
  with ab show ?thesis by simp
qed

lemma canonical_bytes_inj:
  "canonical_bytes v = Inr x \<Longrightarrow> canonical_bytes w = Inr x \<Longrightarrow> canon v = canon w"
  by (auto simp: canonical_bytes_def split: sum.splits intro: enc_inj)

lemma canonical_bytes_canon: "canonical_bytes v = Inr x \<Longrightarrow> \<exists>t. canon v = Inr t"
  by (cases "canon v") (auto simp: canonical_bytes_def enc_canon(1))

subsection \<open>Values that always hash\<close>

text \<open>
  A value built from null, booleans, integers, strings, lists and mappings with string keys
  (no floats, no foreign objects) always has canonical bytes. \<open>chash\<close> is
  \<open>canonical_hash\<close> on such values; the control plane hashes only these in its own records.
\<close>

fun plain :: "json \<Rightarrow> bool" and plain_fields :: "(string \<times> json) list \<Rightarrow> bool" and plain_items :: "json list \<Rightarrow> bool" where
  "plain (JFloat _) = False"
| "plain JBadKeys = False"
| "plain (JOther _) = False"
| "plain (JModel v) = plain v"
| "plain (JDict kvs) = plain_fields kvs"
| "plain (JList vs) = plain_items vs"
| "plain _ = True"
| "plain_fields [] = True"
| "plain_fields ((k, v) # kvs) = (plain v \<and> plain_fields kvs)"
| "plain_items [] = True"
| "plain_items (v # vs) = (plain v \<and> plain_items vs)"

definition chash :: "(bytes \<Rightarrow> string) \<Rightarrow> json \<Rightarrow> string" where
  "chash H v = (case canonical_hash H v of Inl _ \<Rightarrow> [] | Inr h \<Rightarrow> h)"

lemma plain_items_iff [simp]: "plain_items vs \<longleftrightarrow> (\<forall>v\<in>set vs. plain v)"
  by (induction vs) auto

lemma plain_fields_iff [simp]: "plain_fields kvs \<longleftrightarrow> (\<forall>kv\<in>set kvs. plain (snd kv))"
  by (induction kvs) auto

lemma sequence_Inr: "\<forall>r\<in>set rs. \<exists>a. r = Inr a \<Longrightarrow> \<exists>as. sequence rs = Inr as"
  by (induction rs rule: sequence.induct) (auto split: sum.splits)

lemma enc_fields_map: "enc_fields kvs = map (\<lambda>(k, v). (k, enc v)) kvs"
  by (induction kvs) auto

lemma enc_items_map: "enc_items vs = map enc vs"
  by (induction vs) auto

lemma plain_enc:
  "plain v \<Longrightarrow> \<exists>b. enc v = Inr b"
  "plain_fields kvs \<Longrightarrow> \<forall>(k, r)\<in>set (enc_fields kvs). \<exists>b. r = Inr b"
  "plain_items vs \<Longrightarrow> \<forall>r\<in>set (enc_items vs). \<exists>b. r = Inr b"
proof (induction v and kvs and vs rule: plain_plain_fields_plain_items.induct)
  case (5 kvs)
  then have "\<forall>r\<in>set (map (\<lambda>(k, r). case r of Inl e \<Rightarrow> Inl e | Inr b \<Rightarrow> Inr (enc_str k @ b))
      (sort_key (\<lambda>kr. utf8 (fst kr)) (enc_fields kvs))). \<exists>a. r = Inr a"
    by fastforce
  from sequence_Inr [OF this] show ?case by auto
next
  case (6 vs)
  then have "\<forall>r\<in>set (enc_items vs). \<exists>b. r = Inr b" by simp
  from sequence_Inr [OF this] show ?case by auto
qed auto

lemma chash_plain: "plain v \<Longrightarrow> canonical_hash H v = Inr (chash H v)"
  using plain_enc(1) by (fastforce simp: chash_def canonical_hash_def canonical_bytes_def)

definition opt_str :: "string option \<Rightarrow> json" where
  "opt_str x = (case x of None \<Rightarrow> JNull | Some s \<Rightarrow> JStr s)"

definition str_list :: "string list \<Rightarrow> json" where
  "str_list xs = JList (map JStr xs)"

lemma plain_opt_str [simp]: "plain (opt_str x)"
  by (simp add: opt_str_def split: option.splits)

lemma plain_str_list [simp]: "plain (str_list xs)"
  by (simp add: str_list_def)

definition opt_int :: "int option \<Rightarrow> json" where
  "opt_int x = (case x of None \<Rightarrow> JNull | Some i \<Rightarrow> JInt i)"

lemma plain_opt_int [simp]: "plain (opt_int x)"
  by (simp add: opt_int_def split: option.splits)

lemma canon_opt_str [simp]: "canon (opt_str x) = Inr (case x of None \<Rightarrow> TNull | Some s \<Rightarrow> TStr s)"
  by (simp add: opt_str_def split: option.splits)

lemma chash_binds:
  assumes "plain v" and "plain w" and "chash H v = chash H w"
  shows "canon v = canon w \<or> (\<exists>x y. canonical_bytes v = Inr x \<and> canonical_bytes w = Inr y \<and> x \<noteq> y \<and> H x = H y)"
  using assms chash_plain [of v H] chash_plain [of w H]
  by (auto simp: canonical_hash_def split: sum.splits dest: canonical_bytes_inj)

subsection \<open>Properties\<close>

text \<open>
  C10. The canonical encoding is injective: two values with the same canonical bytes are
  the same value up to the order of mapping entries, the decimal text of floats and the
  wrapping of model objects. So equal hashes of different values are a SHA-256 collision
  on the two encodings.
\<close>
theorem canonical_hash_binds:
  assumes "canonical_hash H v = Inr h" and "canonical_hash H w = Inr h"
  shows "canon v = canon w \<or>
    (\<exists>x y. canonical_bytes v = Inr x \<and> canonical_bytes w = Inr y \<and> x \<noteq> y \<and> H x = H y)"
  using assms by (auto simp: canonical_hash_def split: sum.splits dest: canonical_bytes_inj)

theorem canonical_hash_binds_witness:
  "canonical_hash id (JDict [(''a'', JInt 1), (''b'', JNull)]) = canonical_hash id (JDict [(''b'', JNull), (''a'', JInt 1)])
   \<and> canon (JDict [(''a'', JInt 1), (''b'', JNull)]) = canon (JDict [(''b'', JNull), (''a'', JInt 1)])"
proof -
  have eq: "canonical_hash id (JDict [(''a'', JInt 1), (''b'', JNull)])
    = canonical_hash id (JDict [(''b'', JNull), (''a'', JInt 1)])" by code_simp
  obtain h where h: "canonical_hash id (JDict [(''a'', JInt 1), (''b'', JNull)]) = Inr h"
    by (simp add: canonical_hash_def canonical_bytes_def utf8_def utf8_char_def)
  from canonical_hash_binds [OF h h [unfolded eq]] eq show ?thesis by auto
qed

text \<open>
  C25. The hash of a mapping does not depend on the order its entries were inserted in:
  any reordering of the same entries (keys of a mapping are distinct) has the same
  canonical bytes, errors included.
\<close>
theorem canonical_bytes_order_independent:
  assumes "mset kvs = mset kvs'" and "distinct (map fst kvs)"
  shows "canonical_bytes (JDict kvs) = canonical_bytes (JDict kvs')"
proof -
  let ?f = "\<lambda>kr. utf8 (fst kr)" and ?e = "\<lambda>(k, v). (k, enc v)"
  have "mset (enc_fields kvs) = mset (enc_fields kvs')"
    using assms(1) by (simp add: enc_fields_map)
  moreover have "inj_on ?f (set (enc_fields kvs))"
    using assms(2) by (auto simp: inj_on_def enc_fields_map dest!: utf8_inj dest: eq_key_imp_eq_value)
  ultimately have "sort_key ?f (enc_fields kvs) = sort_key ?f (enc_fields kvs')"
    by (intro sort_key_inj_key_eq) auto
  moreover have "length kvs = length kvs'" using assms(1) by (metis size_mset)
  ultimately show ?thesis by (simp only: canonical_bytes_def enc.simps)
qed

theorem canonical_bytes_order_independent_witness:
  "canonical_bytes (JDict [(''b'', JInt 2), (''a'', JInt 1)]) = canonical_bytes (JDict [(''a'', JInt 1), (''b'', JInt 2)])"
  by (rule canonical_bytes_order_independent) (simp_all add: add_mset_commute)

end
