(* ===== verification/Runtime.thy ===== *)
theory Runtime
  imports Prog_Monad Canonical
begin

section \<open>The runtime: clock, identifiers and timestamps\<close>

text \<open>
  What the code takes from its runtime: SHA-256, the UTC clock, \<open>uuid4\<close> and pydantic's JSON
  form of a datetime. They are the fields of \<open>env\<close>; the clock and the identifier source are
  functions of how often they were read, and \<open>world\<close> counts the reads, so two reads may
  differ and the model never assumes that they do. A datetime is its microseconds since
  1970-01-01T00:00:00Z. \<open>iso\<close> is \<^verbatim>\<open>persistence/actions.py\<close>'s text of it
  (\<open>%Y-%m-%dT%H:%M:%S.%fZ\<close>, for years 1000 to 9999).
\<close>

record env =
  env_hash :: "bytes \<Rightarrow> string"
  env_clock :: "nat \<Rightarrow> int"
  env_uuid :: "nat \<Rightarrow> string"
  env_dt_json :: "int \<Rightarrow> string"

record world =
  w_reads :: nat
  w_uuids :: nat

definition utc_now :: "env \<Rightarrow> ('a world_scheme, 'e, int) prog" where
  "utc_now V = bnd (gets w_reads) (\<lambda>k. bnd (modify (w_reads_update Suc)) (\<lambda>_. ret (env_clock V k)))"

definition uuid4_hex :: "env \<Rightarrow> ('a world_scheme, 'e, string) prog" where
  "uuid4_hex V = bnd (gets w_uuids) (\<lambda>k. bnd (modify (w_uuids_update Suc)) (\<lambda>_. ret (env_uuid V k)))"

lemma wp_utc_now [hoare_rules]:
  "wp (utc_now V) Q E = (\<lambda>s. Q (env_clock V (w_reads s)) (w_reads_update Suc s))"
  by (simp add: utc_now_def hoare_rules fun_eq_iff)

lemma wp_uuid4_hex [hoare_rules]:
  "wp (uuid4_hex V) Q E = (\<lambda>s. Q (env_uuid V (w_uuids s)) (w_uuids_update Suc s))"
  by (simp add: uuid4_hex_def hoare_rules fun_eq_iff)

subsection \<open>Civil dates\<close>

definition us_per_day :: int where "us_per_day = 86400000000"

text \<open>Year, month and day of a day number, in the proleptic Gregorian calendar.\<close>

definition civil :: "int \<Rightarrow> int \<times> int \<times> int" where
  "civil days =
    (let z = days + 719468;
         era = z div 146097;
         doe = z mod 146097;
         yoe = (doe - doe div 1460 + doe div 36524 - doe div 146096) div 365;
         doy = doe - (365 * yoe + yoe div 4 - yoe div 100);
         mp = (5 * doy + 2) div 153;
         d = doy - (153 * mp + 2) div 5 + 1;
         m = (if mp < 10 then mp + 3 else mp - 9)
     in (yoe + era * 400 + (if m \<le> 2 then 1 else 0), m, d))"

text \<open>\<open>timedelta(seconds=n)\<close>.\<close>

definition seconds :: "int \<Rightarrow> int" where "seconds n = n * 1000000"

definition pad :: "nat \<Rightarrow> int \<Rightarrow> string" where
  "pad w n = (let ds = str_nat (nat n) in replicate (w - length ds) (CHR ''0'') @ ds)"

definition iso :: "int \<Rightarrow> string" where
  "iso us =
    (let (y, m, d) = civil (us div us_per_day);
         t = us mod us_per_day;
         secs = t div 1000000
     in pad 4 y @ ''-'' @ pad 2 m @ ''-'' @ pad 2 d @ ''T'' @ pad 2 (secs div 3600) @ '':'' @
        pad 2 (secs div 60 mod 60) @ '':'' @ pad 2 (secs mod 60) @ ''.'' @ pad 6 (t mod 1000000) @ ''Z'')"

definition now_iso :: "env \<Rightarrow> ('a world_scheme, 'e, string) prog" where
  "now_iso V = bnd (utc_now V) (\<lambda>t. ret (iso t))"

text \<open>\<open>moment.replace(hour=0, minute=0, second=0, microsecond=0)\<close>, and the same with \<open>day=1\<close>.\<close>

definition day_start :: "int \<Rightarrow> int" where
  "day_start us = us div us_per_day * us_per_day"

definition month_start :: "int \<Rightarrow> int" where
  "month_start us = (let (y, m, d) = civil (us div us_per_day) in (us div us_per_day - (d - 1)) * us_per_day)"

lemma wp_now_iso [hoare_rules]:
  "wp (now_iso V) Q E = (\<lambda>s. Q (iso (env_clock V (w_reads s))) (w_reads_update Suc s))"
  by (simp add: now_iso_def hoare_rules fun_eq_iff)

lemma iso_epoch: "iso 0 = ''1970-01-01T00:00:00.000000Z''"
  by code_simp

lemma iso_sample: "iso 1709209845000123 = ''2024-02-29T12:30:45.000123Z''"
  by code_simp

end
