(* ===== verification/Trust_Store.thy ===== *)
theory Trust_Store
  imports Runtime
begin

section \<open>Trust kernel: records and stores\<close>

text \<open>
  Models \<^verbatim>\<open>agency/reliability/models.py\<close> and \<^verbatim>\<open>agency/reliability/store.py\<close>. The
  \<open>Protocol\<close> class \<^verbatim>\<open>ReliabilityStore\<close> is the record \<open>rel_store\<close> of its methods, and the
  locale \<open>reliability_store\<close> states what the kernel relies on: what each \<open>put\<close> leaves in
  \<open>state\<close>. The in-memory and the SQLite store are two interpretations. A \<open>payload\<close> column
  holds the model itself (pydantic's \<open>model_dump_json\<close> and \<open>model_validate_json\<close> are inverse
  on these models), and a table without \<open>ORDER BY\<close> is read in insertion order.
\<close>

subsection \<open>Records\<close>

datatype binding_status = Bind_ACTIVE | Bind_REVOKED

record binding =
  bi_tenant :: string
  bi_project :: string
  bi_status :: binding_status
  bi_hash :: string
  bi_created :: int
  bi_revoked :: "int option"

datatype policy_effect = Pol_ALLOW | Pol_DENY | Pol_REQUIRE_APPROVAL

fun policy_effect_value :: "policy_effect \<Rightarrow> string" where
  "policy_effect_value Pol_ALLOW = ''ALLOW''"
| "policy_effect_value Pol_DENY = ''DENY''"
| "policy_effect_value Pol_REQUIRE_APPROVAL = ''REQUIRE_APPROVAL''"

record policy_decision =
  pd_id :: string
  pd_tenant :: string
  pd_project :: string
  pd_subject :: string
  pd_action :: string
  pd_target :: string
  pd_version :: string
  pd_input_hash :: string
  pd_effect :: policy_effect
  pd_authority_refs :: "string list"
  pd_evidence_refs :: "string list"
  pd_hash :: string
  pd_decided :: int

datatype idem_status = Idem_CLAIMED | Idem_SUCCEEDED | Idem_FAILED | Idem_AMBIGUOUS

record idem_record =
  id_key :: string
  id_tenant :: string
  id_project :: string
  id_operation :: string
  id_request_hash :: string
  id_status :: idem_status
  id_result :: "string option"
  id_created :: int
  id_updated :: int

datatype outbox_status = Out_PENDING | Out_CLAIMED | Out_DELIVERED | Out_FAILED

record outbox_message =
  ob_id :: string
  ob_tenant :: string
  ob_project :: string
  ob_topic :: string
  ob_payload_hash :: string
  ob_payload_ref :: string
  ob_key :: string
  ob_status :: outbox_status
  ob_attempts :: int
  ob_claimed_by :: "string option"
  ob_next_attempt :: "int option"
  ob_delivered :: "int option"
  ob_last_error :: "string option"
  ob_created :: int

record audit_checkpoint =
  au_seq :: int
  au_tenant :: string
  au_project :: string
  au_event :: string
  au_object :: string
  au_payload_hash :: string
  au_previous :: string
  au_hash :: string
  au_created :: int

datatype recovery_status = Rec_OPEN | Rec_RECONCILED | Rec_COMPENSATED | Rec_ESCALATED

fun recovery_status_value :: "recovery_status \<Rightarrow> string" where
  "recovery_status_value Rec_OPEN = ''OPEN''"
| "recovery_status_value Rec_RECONCILED = ''RECONCILED''"
| "recovery_status_value Rec_COMPENSATED = ''COMPENSATED''"
| "recovery_status_value Rec_ESCALATED = ''ESCALATED''"

record recovery_case =
  rc_id :: string
  rc_tenant :: string
  rc_project :: string
  rc_operation :: string
  rc_reason :: string
  rc_execution :: "string option"
  rc_observation :: "string option"
  rc_key :: "string option"
  rc_status :: recovery_status
  rc_evidence :: "string list"
  rc_created :: int
  rc_resolved :: "int option"

record rel_snapshot =
  sn_tenant :: string
  sn_project :: string
  sn_policy_decisions :: int
  sn_pending_outbox :: int
  sn_open_recovery :: int
  sn_audit_head :: string
  sn_idempotency :: int

record rel_state =
  rs_bindings :: "binding list"
  rs_policies :: "policy_decision list"
  rs_idempotency :: "idem_record list"
  rs_outbox :: "outbox_message list"
  rs_audits :: "audit_checkpoint list"
  rs_recovery :: "recovery_case list"

definition empty_rel_state :: rel_state where
  "empty_rel_state = \<lparr>rs_bindings = [], rs_policies = [], rs_idempotency = [], rs_outbox = [],
     rs_audits = [], rs_recovery = []\<rparr>"

datatype rel_error =
    Reliability string
  | StoreError string
  | IntegrityError
  | HashError canon_error

subsection \<open>The store protocol\<close>

record 's rel_store =
  st_state :: "'s \<Rightarrow> rel_state"
  st_put_binding :: "binding \<Rightarrow> ('s, rel_error, unit) prog"
  st_put_policy :: "policy_decision \<Rightarrow> ('s, rel_error, unit) prog"
  st_put_idempotency :: "idem_record \<Rightarrow> ('s, rel_error, unit) prog"
  st_put_outbox :: "outbox_message \<Rightarrow> ('s, rel_error, unit) prog"
  st_append_audit :: "audit_checkpoint \<Rightarrow> ('s, rel_error, unit) prog"
  st_put_recovery :: "recovery_case \<Rightarrow> ('s, rel_error, unit) prog"

subsection \<open>The in-memory store\<close>

definition mem_put_binding :: "binding \<Rightarrow> (rel_state, rel_error, unit) prog" where
  "mem_put_binding v = modify (rs_bindings_update (upsert bi_project v))"

definition mem_put_policy :: "policy_decision \<Rightarrow> (rel_state, rel_error, unit) prog" where
  "mem_put_policy v = bnd (gets rs_policies) (\<lambda>ps.
     bnd (guard (row_by pd_id (pd_id v) ps = None) (StoreError ''policy decision immutable'')) (\<lambda>_.
     modify (rs_policies_update (upsert pd_id v))))"

definition mem_put_idempotency :: "idem_record \<Rightarrow> (rel_state, rel_error, unit) prog" where
  "mem_put_idempotency v = modify (rs_idempotency_update (upsert id_key v))"

definition mem_put_outbox :: "outbox_message \<Rightarrow> (rel_state, rel_error, unit) prog" where
  "mem_put_outbox v = modify (rs_outbox_update (upsert ob_id v))"

definition mem_append_audit :: "audit_checkpoint \<Rightarrow> (rel_state, rel_error, unit) prog" where
  "mem_append_audit v = bnd (gets rs_audits) (\<lambda>as.
     bnd (guard (as \<noteq> [] \<longrightarrow> au_seq v = au_seq (last as) + 1) (StoreError ''audit sequence discontinuity'')) (\<lambda>_.
     bnd (guard (as = [] \<longrightarrow> au_seq v = 1) (StoreError ''audit sequence must start at 1'')) (\<lambda>_.
     modify (rs_audits_update (\<lambda>as. as @ [v])))))"

definition mem_put_recovery :: "recovery_case \<Rightarrow> (rel_state, rel_error, unit) prog" where
  "mem_put_recovery v = modify (rs_recovery_update (upsert rc_id v))"

definition mem_store :: "rel_state rel_store" where
  "mem_store = \<lparr>st_state = id, st_put_binding = mem_put_binding, st_put_policy = mem_put_policy,
     st_put_idempotency = mem_put_idempotency, st_put_outbox = mem_put_outbox,
     st_append_audit = mem_append_audit, st_put_recovery = mem_put_recovery\<rparr>"

lemmas mem_defs = mem_store_def mem_put_binding_def mem_put_policy_def mem_put_idempotency_def
  mem_put_outbox_def mem_append_audit_def mem_put_recovery_def

subsection \<open>The SQLite store\<close>

record sq_binding = sqb_project :: string  sqb_tenant :: string  sqb_payload :: binding
record sq_policy = sqp_id :: string  sqp_tenant :: string  sqp_project :: string  sqp_payload :: policy_decision
record sq_idem = sqi_key :: string  sqi_tenant :: string  sqi_project :: string  sqi_hash :: string  sqi_payload :: idem_record
record sq_outbox = sqo_id :: string  sqo_tenant :: string  sqo_project :: string  sqo_status :: outbox_status  sqo_payload :: outbox_message
record sq_audit = sqa_seq :: int  sqa_tenant :: string  sqa_project :: string  sqa_hash :: string  sqa_payload :: audit_checkpoint
record sq_recovery = sqr_id :: string  sqr_tenant :: string  sqr_project :: string  sqr_status :: recovery_status  sqr_payload :: recovery_case

record sq_db =
  sq_bindings :: "sq_binding list"
  sq_policies :: "sq_policy list"
  sq_idempotency :: "sq_idem list"
  sq_outboxes :: "sq_outbox list"
  sq_audits :: "sq_audit list"
  sq_recoveries :: "sq_recovery list"

definition sq_state :: "sq_db \<Rightarrow> rel_state" where
  "sq_state d = \<lparr>rs_bindings = map sqb_payload (sq_bindings d), rs_policies = map sqp_payload (sq_policies d),
     rs_idempotency = map sqi_payload (sq_idempotency d), rs_outbox = map sqo_payload (sq_outboxes d),
     rs_audits = map sqa_payload (sort_key sqa_seq (sq_audits d)), rs_recovery = map sqr_payload (sq_recoveries d)\<rparr>"

text \<open>\<open>INSERT ... ON CONFLICT(key) DO UPDATE\<close>: \<open>upd\<close> is the \<open>SET\<close> clause.\<close>

definition insert_or_update :: "('r \<Rightarrow> 'k) \<Rightarrow> ('r \<Rightarrow> 'r \<Rightarrow> 'r) \<Rightarrow> 'r \<Rightarrow> 'r list \<Rightarrow> 'r list" where
  "insert_or_update key upd v rows = (case row_by key (key v) rows of
     None \<Rightarrow> rows @ [v]
   | Some _ \<Rightarrow> update_rows (\<lambda>r. key r = key v) (upd v) rows)"

definition sq_put_binding :: "binding \<Rightarrow> (sq_db, rel_error, unit) prog" where
  "sq_put_binding v = modify (sq_bindings_update (insert_or_update sqb_project
     (\<lambda>n r. r\<lparr>sqb_tenant := sqb_tenant n, sqb_payload := sqb_payload n\<rparr>)
     \<lparr>sqb_project = bi_project v, sqb_tenant = bi_tenant v, sqb_payload = v\<rparr>))"

definition sq_put_policy :: "policy_decision \<Rightarrow> (sq_db, rel_error, unit) prog" where
  "sq_put_policy v = bnd (gets sq_policies) (\<lambda>ps.
     bnd (guard (row_by sqp_id (pd_id v) ps = None) (StoreError ''policy decision immutable'')) (\<lambda>_.
     modify (sq_policies_update (\<lambda>rs. rs @ [\<lparr>sqp_id = pd_id v, sqp_tenant = pd_tenant v,
       sqp_project = pd_project v, sqp_payload = v\<rparr>]))))"

definition sq_put_idempotency :: "idem_record \<Rightarrow> (sq_db, rel_error, unit) prog" where
  "sq_put_idempotency v = modify (sq_idempotency_update (insert_or_update sqi_key
     (\<lambda>n r. r\<lparr>sqi_tenant := sqi_tenant n, sqi_project := sqi_project n, sqi_hash := sqi_hash n, sqi_payload := sqi_payload n\<rparr>)
     \<lparr>sqi_key = id_key v, sqi_tenant = id_tenant v, sqi_project = id_project v, sqi_hash = id_request_hash v, sqi_payload = v\<rparr>))"

definition sq_put_outbox :: "outbox_message \<Rightarrow> (sq_db, rel_error, unit) prog" where
  "sq_put_outbox v = modify (sq_outboxes_update (insert_or_update sqo_id
     (\<lambda>n r. r\<lparr>sqo_status := sqo_status n, sqo_payload := sqo_payload n\<rparr>)
     \<lparr>sqo_id = ob_id v, sqo_tenant = ob_tenant v, sqo_project = ob_project v, sqo_status = ob_status v, sqo_payload = v\<rparr>))"

definition sq_last_seq :: "sq_audit list \<Rightarrow> int option" where
  "sq_last_seq rows = (case rev (sort_key sqa_seq rows) of [] \<Rightarrow> None | r # _ \<Rightarrow> Some (sqa_seq r))"

text \<open>\<open>seq\<close> is the primary key and \<open>checkpoint_hash\<close> is \<open>UNIQUE\<close>.\<close>

definition sq_append_audit :: "audit_checkpoint \<Rightarrow> (sq_db, rel_error, unit) prog" where
  "sq_append_audit v = bnd (gets sq_audits) (\<lambda>rows.
     bnd (guard (au_seq v = (case sq_last_seq rows of Some n \<Rightarrow> n + 1 | None \<Rightarrow> 1))
            (StoreError ''audit sequence discontinuity'')) (\<lambda>_.
     bnd (guard (row_by sqa_seq (au_seq v) rows = None \<and> row_by sqa_hash (au_hash v) rows = None) IntegrityError) (\<lambda>_.
     modify (sq_audits_update (\<lambda>rs. rs @ [\<lparr>sqa_seq = au_seq v, sqa_tenant = au_tenant v,
       sqa_project = au_project v, sqa_hash = au_hash v, sqa_payload = v\<rparr>])))))"

definition sq_put_recovery :: "recovery_case \<Rightarrow> (sq_db, rel_error, unit) prog" where
  "sq_put_recovery v = modify (sq_recoveries_update (insert_or_update sqr_id
     (\<lambda>n r. r\<lparr>sqr_status := sqr_status n, sqr_payload := sqr_payload n\<rparr>)
     \<lparr>sqr_id = rc_id v, sqr_tenant = rc_tenant v, sqr_project = rc_project v, sqr_status = rc_status v, sqr_payload = v\<rparr>))"

definition sqlite_store :: "sq_db rel_store" where
  "sqlite_store = \<lparr>st_state = sq_state, st_put_binding = sq_put_binding, st_put_policy = sq_put_policy,
     st_put_idempotency = sq_put_idempotency, st_put_outbox = sq_put_outbox,
     st_append_audit = sq_append_audit, st_put_recovery = sq_put_recovery\<rparr>"

lemmas sq_defs = sqlite_store_def sq_put_binding_def sq_put_policy_def sq_put_idempotency_def
  sq_put_outbox_def sq_append_audit_def sq_put_recovery_def

subsection \<open>The contract of a store\<close>

text \<open>
  The in-memory store is the specification: read through \<open>st_state\<close>, a call of a store does
  what the in-memory store does, with the same result, unless it fails with an
  \<open>IntegrityError\<close> (two checkpoints with one hash). The kernel appends only checkpoints
  whose number is one past the length of the chain.
\<close>

definition simulates :: "('s \<Rightarrow> bool) \<Rightarrow> ('s \<Rightarrow> 't) \<Rightarrow> ('s, rel_error, 'a) prog \<Rightarrow> ('t, rel_error, 'a) prog \<Rightarrow> 's \<Rightarrow> bool" where
  "simulates ok view m n s = (case m s of (r, t) \<Rightarrow> ok t \<and> (r = Inl IntegrityError \<or> n (view s) = (r, view t)))"

lemma simulates_wp:
  assumes "simulates ok view m n s" and "wp n Q (\<lambda>_ _. True) (view s)"
  shows "wp m (\<lambda>a t. ok t \<and> Q a (view t)) (\<lambda>_ _. True) s"
  using assms by (auto simp: simulates_def wp_def split: prod.splits sum.splits)

locale reliability_store =
  fixes S :: "'s rel_store" and ok :: "'s \<Rightarrow> bool"
  assumes put_binding: "ok s \<Longrightarrow> simulates ok (st_state S) (st_put_binding S b) (mem_put_binding b) s"
    and put_policy: "ok s \<Longrightarrow> simulates ok (st_state S) (st_put_policy S p) (mem_put_policy p) s"
    and put_idempotency: "ok s \<Longrightarrow> simulates ok (st_state S) (st_put_idempotency S i) (mem_put_idempotency i) s"
    and put_outbox: "ok s \<Longrightarrow> simulates ok (st_state S) (st_put_outbox S m) (mem_put_outbox m) s"
    and append_audit: "ok s \<Longrightarrow> au_seq a = int (length (rs_audits (st_state S s))) + 1 \<Longrightarrow>
      simulates ok (st_state S) (st_append_audit S a) (mem_append_audit a) s"
    and put_recovery: "ok s \<Longrightarrow> simulates ok (st_state S) (st_put_recovery S r) (mem_put_recovery r) s"
begin

lemma wp_put_binding:
  assumes "ok s"
  shows "wp (st_put_binding S v) (\<lambda>_ t. ok t \<and> st_state S t = rs_bindings_update (upsert bi_project v) (st_state S s)) (\<lambda>_ _. True) s"
  by (rule simulates_wp [OF put_binding [OF assms]]) (simp add: mem_put_binding_def hoare_rules)

lemma wp_put_policy:
  assumes "ok s"
  shows "wp (st_put_policy S v) (\<lambda>_ t. ok t \<and> row_by pd_id (pd_id v) (rs_policies (st_state S s)) = None \<and> st_state S t = rs_policies_update (upsert pd_id v) (st_state S s)) (\<lambda>_ _. True) s"
  by (rule simulates_wp [OF put_policy [OF assms]]) (simp add: mem_put_policy_def hoare_rules)

lemma wp_put_idempotency:
  assumes "ok s"
  shows "wp (st_put_idempotency S v) (\<lambda>_ t. ok t \<and> st_state S t = rs_idempotency_update (upsert id_key v) (st_state S s)) (\<lambda>_ _. True) s"
  by (rule simulates_wp [OF put_idempotency [OF assms]]) (simp add: mem_put_idempotency_def hoare_rules)

lemma wp_put_outbox:
  assumes "ok s"
  shows "wp (st_put_outbox S v) (\<lambda>_ t. ok t \<and> st_state S t = rs_outbox_update (upsert ob_id v) (st_state S s)) (\<lambda>_ _. True) s"
  by (rule simulates_wp [OF put_outbox [OF assms]]) (simp add: mem_put_outbox_def hoare_rules)

lemma wp_append_audit:
  assumes "ok s" and "au_seq v = int (length (rs_audits (st_state S s))) + 1"
  shows "wp (st_append_audit S v) (\<lambda>_ t. ok t \<and> st_state S t = rs_audits_update (\<lambda>as. as @ [v]) (st_state S s)) (\<lambda>_ _. True) s"
  by (rule simulates_wp [OF append_audit [OF assms]]) (simp add: mem_append_audit_def hoare_rules)

lemma wp_put_recovery:
  assumes "ok s"
  shows "wp (st_put_recovery S v) (\<lambda>_ t. ok t \<and> st_state S t = rs_recovery_update (upsert rc_id v) (st_state S s)) (\<lambda>_ _. True) s"
  by (rule simulates_wp [OF put_recovery [OF assms]]) (simp add: mem_put_recovery_def hoare_rules)

lemmas wp_puts = wp_put_binding wp_put_policy wp_put_idempotency wp_put_outbox wp_put_recovery

end

text \<open>The in-memory store meets its own contract; checkpoints are numbered from one.\<close>

definition numbered :: "int list \<Rightarrow> bool" where
  "numbered ns = (ns = map int [1..<Suc (length ns)])"

lemma numbered_Nil [simp]: "numbered []"
  by (simp add: numbered_def)

lemma numbered_snoc: "numbered ns \<Longrightarrow> n = int (length ns) + 1 \<Longrightarrow> numbered (ns @ [n])"
  by (simp add: numbered_def)

lemma numbered_last:
  assumes "numbered ns" and "ns \<noteq> []"
  shows "last ns = int (length ns)"
proof -
  have "last ns = last (map int [1..<Suc (length ns)])"
    using assms(1) unfolding numbered_def by (rule arg_cong)
  also have "\<dots> = int (length ns)" using assms(2) by (cases ns) (simp_all add: last_map)
  finally show ?thesis .
qed

lemma numbered_sorted: "numbered ns \<Longrightarrow> sorted ns"
  unfolding numbered_def by (metis sorted_map_mono sorted_upt mono_onI of_nat_mono)

definition mem_ok :: "rel_state \<Rightarrow> bool" where
  "mem_ok st = numbered (map au_seq (rs_audits st))"

interpretation mem: reliability_store mem_store mem_ok
proof
  fix s :: rel_state and a :: audit_checkpoint
  assume ok: "mem_ok s" and seq: "au_seq a = int (length (rs_audits (st_state mem_store s))) + 1"
  have "au_seq a = au_seq (last (rs_audits s)) + 1" if "rs_audits s \<noteq> []"
    using ok seq that numbered_last [of "map au_seq (rs_audits s)"]
    by (simp add: mem_ok_def mem_store_def last_map)
  then show "simulates mem_ok (st_state mem_store) (st_append_audit mem_store a) (mem_append_audit a) s"
    using ok seq by (auto simp: simulates_def mem_defs prog_defs mem_ok_def intro: numbered_snoc)
qed (auto simp: simulates_def mem_defs prog_defs mem_ok_def)

text \<open>The SQLite store refines it: every key column repeats the key of its payload.\<close>

definition sq_ok :: "sq_db \<Rightarrow> bool" where
  "sq_ok d = ((\<forall>r\<in>set (sq_bindings d). sqb_project r = bi_project (sqb_payload r)) \<and>
    (\<forall>r\<in>set (sq_policies d). sqp_id r = pd_id (sqp_payload r)) \<and>
    (\<forall>r\<in>set (sq_idempotency d). sqi_key r = id_key (sqi_payload r)) \<and>
    (\<forall>r\<in>set (sq_outboxes d). sqo_id r = ob_id (sqo_payload r)) \<and>
    (\<forall>r\<in>set (sq_audits d). sqa_seq r = au_seq (sqa_payload r)) \<and>
    (\<forall>r\<in>set (sq_recoveries d). sqr_id r = rc_id (sqr_payload r)) \<and>
    numbered (map sqa_seq (sq_audits d)))"

lemma row_by_map:
  "\<forall>r\<in>set rows. key r = key' (g r) \<Longrightarrow> row_by key' k (map g rows) = map_option g (row_by key k rows)"
  by (induction rows) auto

lemma map_insert_or_update:
  assumes "\<forall>r\<in>set rows. key r = key' (g r)" and "key v = key' w" and "g v = w" and "\<And>r. g (upd v r) = w"
  shows "upsert key' w (map g rows) = map g (insert_or_update key upd v rows)"
proof -
  have "map g (update_rows (\<lambda>r. key r = key v) (upd v) rows) = update_rows (\<lambda>r. key' r = key' w) (\<lambda>_. w) (map g rows)"
    using assms by (induction rows) auto
  with assms show ?thesis
    by (auto simp: insert_or_update_def upsert_def row_by_map split: option.splits)
qed

lemma set_insert_or_update:
  "r \<in> set (insert_or_update key upd v rows) \<Longrightarrow> r = v \<or> r \<in> set rows \<or> (\<exists>q\<in>set rows. key q = key v \<and> r = upd v q)"
  by (auto simp: insert_or_update_def set_update_rows split: option.splits if_splits)

lemma sq_audits_sorted: "sq_ok d \<Longrightarrow> sort_key sqa_seq (sq_audits d) = sq_audits d"
  by (simp add: sq_ok_def numbered_sorted sort_key_id_if_sorted)

lemma sq_last_seq_numbered:
  assumes "sq_ok d"
  shows "sq_last_seq (sq_audits d) = (if sq_audits d = [] then None else Some (int (length (sq_audits d))))"
  unfolding sq_last_seq_def sq_audits_sorted [OF assms]
  using assms numbered_last [of "map sqa_seq (sq_audits d)"]
  by (cases "sq_audits d" rule: rev_cases) (auto simp: sq_ok_def)

interpretation sq: reliability_store sqlite_store sq_ok
proof
  fix s :: sq_db
  assume ok: "sq_ok s"
  show "simulates sq_ok (st_state sqlite_store) (st_put_binding sqlite_store b) (mem_put_binding b) s" for b
    using ok by (auto simp: simulates_def sq_defs mem_defs prog_defs sq_state_def sq_ok_def
        dest!: set_insert_or_update intro!: map_insert_or_update)
  show "simulates sq_ok (st_state sqlite_store) (st_put_policy sqlite_store p) (mem_put_policy p) s" for p
    using ok by (auto simp: simulates_def sq_defs mem_defs prog_defs sq_state_def sq_ok_def row_by_map upsert_def
        split: option.splits)
  show "simulates sq_ok (st_state sqlite_store) (st_put_idempotency sqlite_store i) (mem_put_idempotency i) s" for i
    using ok by (auto simp: simulates_def sq_defs mem_defs prog_defs sq_state_def sq_ok_def
        dest!: set_insert_or_update intro!: map_insert_or_update)
  show "simulates sq_ok (st_state sqlite_store) (st_put_outbox sqlite_store m) (mem_put_outbox m) s" for m
    using ok by (auto simp: simulates_def sq_defs mem_defs prog_defs sq_state_def sq_ok_def
        dest!: set_insert_or_update intro!: map_insert_or_update)
  show "simulates sq_ok (st_state sqlite_store) (st_put_recovery sqlite_store r) (mem_put_recovery r) s" for r
    using ok by (auto simp: simulates_def sq_defs mem_defs prog_defs sq_state_def sq_ok_def
        dest!: set_insert_or_update intro!: map_insert_or_update)
next
  fix s :: sq_db and a :: audit_checkpoint
  assume ok: "sq_ok s" and seq: "au_seq a = int (length (rs_audits (st_state sqlite_store s))) + 1"
  let ?rows = "sq_audits s" and ?row = "\<lparr>sqa_seq = au_seq a, sqa_tenant = au_tenant a,
       sqa_project = au_project a, sqa_hash = au_hash a, sqa_payload = a\<rparr>"
  have n: "au_seq a = int (length ?rows) + 1" using seq by (simp add: sqlite_store_def sq_state_def)
  have num: "numbered (map sqa_seq (?rows @ [?row]))"
    using ok n by (simp add: sq_ok_def numbered_snoc)
  let ?s' = "sq_audits_update (\<lambda>rs. rs @ [?row]) s"
  have ok': "sq_ok ?s'" using ok num by (auto simp: sq_ok_def)
  have st': "sq_state ?s' = rs_audits_update (\<lambda>as. as @ [a]) (sq_state s)"
    using sq_audits_sorted [OF ok] sq_audits_sorted [OF ok'] by (simp add: sq_state_def)
  have last: "au_seq a = au_seq (last (rs_audits (sq_state s))) + 1" if "rs_audits (sq_state s) \<noteq> []"
  proof -
    have ne: "?rows \<noteq> []" using that sq_audits_sorted [OF ok] by (auto simp: sq_state_def)
    then have "sqa_seq (last ?rows) = int (length ?rows)"
      using ok numbered_last [of "map sqa_seq ?rows"] by (simp add: sq_ok_def last_map)
    moreover have "sqa_seq (last ?rows) = au_seq (sqa_payload (last ?rows))"
      using ok ne by (simp add: sq_ok_def)
    ultimately show ?thesis using n ne sq_audits_sorted [OF ok] by (simp add: sq_state_def last_map)
  qed
  have first: "au_seq a = 1" if "rs_audits (sq_state s) = []"
    using that seq by (simp add: sqlite_store_def)
  have guard_ok: "au_seq a = (case sq_last_seq ?rows of Some n \<Rightarrow> n + 1 | None \<Rightarrow> 1)"
    using n by (simp add: sq_last_seq_numbered [OF ok])
  show "simulates sq_ok (st_state sqlite_store) (st_append_audit sqlite_store a) (mem_append_audit a) s"
    using guard_ok ok ok' st' last first
    by (auto simp: simulates_def sqlite_store_def sq_append_audit_def mem_append_audit_def prog_defs)
qed

end
