(* ===== verification/Hash_Chain.thy ===== *)
theory Hash_Chain
  imports Canonical
begin

section \<open>Hash chains\<close>

text \<open>
  The contract of every tamper-evident history of the code base: an entry stores the hash
  of the entry before it and the canonical hash of its own body, which covers that link.
  The trust kernel's audit checkpoints (\<^verbatim>\<open>agency/reliability/service.py\<close>) and the
  transitions of an action (\<^verbatim>\<open>persistence/actions.py\<close>) interpret \<open>hash_chain\<close>.
\<close>

fun links :: "('e \<Rightarrow> 'p) \<Rightarrow> ('e \<Rightarrow> string) \<Rightarrow> ('e \<Rightarrow> json) \<Rightarrow> (string \<Rightarrow> 'p) \<Rightarrow> (bytes \<Rightarrow> string) \<Rightarrow> 'p \<Rightarrow> 'e list \<Rightarrow> bool" where
  "links prev stamp body up H p [] = True"
| "links prev stamp body up H p (e # es) =
    (prev e = p \<and> canonical_hash H (body e) = Inr (stamp e) \<and> links prev stamp body up H (up (stamp e)) es)"

text \<open>The link a next entry must carry.\<close>

definition chain_head :: "('e \<Rightarrow> string) \<Rightarrow> (string \<Rightarrow> 'p) \<Rightarrow> 'p \<Rightarrow> 'e list \<Rightarrow> 'p" where
  "chain_head stamp up zero es = (if es = [] then zero else up (stamp (last es)))"

text \<open>Two different byte strings with one hash.\<close>

definition collision :: "(bytes \<Rightarrow> string) \<Rightarrow> bool" where
  "collision H = (\<exists>x y. x \<noteq> y \<and> H x = H y)"

locale hash_chain =
  fixes prev :: "'e \<Rightarrow> 'p"
    and stamp :: "'e \<Rightarrow> string"
    and body :: "'e \<Rightarrow> json"
    and up :: "string \<Rightarrow> 'p"
    and content :: "'e \<Rightarrow> 'c"
  assumes body_content: "canon (body e) = Inr t \<Longrightarrow> canon (body f) = Inr t \<Longrightarrow> content e = content f \<and> prev e = prev f"
    and up_inj: "up a = up b \<Longrightarrow> a = b"
begin

lemma links_snoc:
  "links prev stamp body up H p (es @ [e]) \<longleftrightarrow>
    links prev stamp body up H p es \<and> prev e = chain_head stamp up p es \<and> canonical_hash H (body e) = Inr (stamp e)"
  by (induction es arbitrary: p) (auto simp: chain_head_def)

lemma same_stamp:
  assumes "canonical_hash H (body e) = Inr (stamp e)" "canonical_hash H (body f) = Inr (stamp f)" "stamp e = stamp f"
    "\<not> collision H"
  shows "content e = content f \<and> prev e = prev f"
proof -
  obtain x y where x: "canonical_bytes (body e) = Inr x" "H x = stamp e" and y: "canonical_bytes (body f) = Inr y" "H y = stamp f"
    using assms(1,2) by (auto simp: canonical_hash_def split: sum.splits)
  have "H x = H y" using x(2) y(2) assms(3) by simp
  then have "x = y" using assms(4) unfolding collision_def by blast
  then have same: "canon (body e) = canon (body f)" using x(1) y(1) by (intro canonical_bytes_inj) simp_all
  obtain t where t: "canon (body e) = Inr t"
    using canonical_bytes_canon [OF x(1)] by blast
  moreover have "canon (body f) = Inr t" using same t by argo
  ultimately show ?thesis by (rule body_content)
qed

text \<open>
  The head stamp binds the whole history: two verified chains of one length with the same
  head have the same entries, or a collision of the hash is at hand.
\<close>

lemma head_binds:
  assumes "links prev stamp body up H p es" and "links prev stamp body up H p fs"
    and "length es = length fs" and "chain_head stamp up p es = chain_head stamp up p fs"
    and "\<not> collision H"
  shows "map content es = map content fs"
  using assms
proof (induction es arbitrary: fs rule: rev_induct)
  case (snoc e es)
  from snoc.prems(3) obtain f gs where fs: "fs = gs @ [f]" by (cases fs rule: rev_cases) auto
  have le: "links prev stamp body up H p es" "prev e = chain_head stamp up p es" "canonical_hash H (body e) = Inr (stamp e)"
    using snoc.prems(1) by (simp_all add: links_snoc)
  have lf: "links prev stamp body up H p gs" "prev f = chain_head stamp up p gs" "canonical_hash H (body f) = Inr (stamp f)"
    using snoc.prems(2) by (simp_all add: links_snoc fs)
  have "stamp e = stamp f" using snoc.prems(4) up_inj by (simp add: chain_head_def fs)
  from same_stamp [OF le(3) lf(3) this snoc.prems(5)] have ef: "content e = content f" "prev e = prev f" by auto
  then have "map content es = map content gs"
    using snoc.IH [OF le(1) lf(1)] snoc.prems(3,5) le(2) lf(2) fs by simp
  with ef fs show ?case by simp
qed simp

end

text \<open>
  A chain whose first link is not the image of any hash: then the head also fixes the
  length, so two verified histories with one head are one history.
\<close>

locale rooted_chain = hash_chain prev stamp body up content
  for prev :: "'e \<Rightarrow> 'p" and stamp :: "'e \<Rightarrow> string" and body :: "'e \<Rightarrow> json" and up :: "string \<Rightarrow> 'p"
    and content :: "'e \<Rightarrow> 'c" +
  fixes root :: 'p
  assumes root_fresh: "root \<noteq> up h"
begin

lemma head_determines:
  assumes "links prev stamp body up H root es" and "links prev stamp body up H root fs"
    and "chain_head stamp up root es = chain_head stamp up root fs" and "\<not> collision H"
  shows "map content es = map content fs"
  using assms
proof (induction es arbitrary: fs rule: rev_induct)
  case Nil
  then show ?case using root_fresh by (auto simp: chain_head_def split: if_splits)
next
  case (snoc e es)
  have "fs \<noteq> []" using snoc.prems(3) root_fresh by (auto simp: chain_head_def dest: sym)
  then obtain f gs where fs: "fs = gs @ [f]" by (cases fs rule: rev_cases) auto
  have le: "links prev stamp body up H root es" "prev e = chain_head stamp up root es" "canonical_hash H (body e) = Inr (stamp e)"
    using snoc.prems(1) by (simp_all add: links_snoc)
  have lf: "links prev stamp body up H root gs" "prev f = chain_head stamp up root gs" "canonical_hash H (body f) = Inr (stamp f)"
    using snoc.prems(2) by (simp_all add: links_snoc fs)
  have "stamp e = stamp f" using snoc.prems(3) up_inj by (simp add: chain_head_def fs)
  from same_stamp [OF le(3) lf(3) this snoc.prems(4)] have ef: "content e = content f" "prev e = prev f" by auto
  then have "map content es = map content gs"
    using snoc.IH [OF le(1) lf(1) _ snoc.prems(4)] le(2) lf(2) by simp
  with ef fs show ?case by simp
qed

end

end
