(* ===== verification/Trust_Kernel.thy ===== *)
theory Trust_Kernel
  imports Trust_Store Hash_Chain
begin

section \<open>The trust kernel\<close>

text \<open>
  Models \<^verbatim>\<open>agency/reliability/service.py\<close>: tenant scope bindings, policy decisions,
  idempotency claims, the outbox, the audit chain and recovery cases, each operation a
  program over a \<open>rel_store\<close>. \<open>transact\<close> is \<^verbatim>\<open>with self.store.transaction()\<close>: the store
  rolls back when the block raises, the clock does not. Values hashed on behalf of callers
  (policy inputs, requests, payloads) may be any \<open>json\<close> and may fail to hash.
\<close>

record 's trust_world = world + tw_store :: 's

definition zero_hash :: string where
  "zero_hash = replicate 64 (CHR ''0'')"

definition on_store :: "('s, 'e, 'a) prog \<Rightarrow> ('s trust_world, 'e, 'a) prog" where
  "on_store m = (\<lambda>w. case m (tw_store w) of (r, s) \<Rightarrow> (r, w\<lparr>tw_store := s\<rparr>))"

definition transact :: "('s trust_world, 'e, 'a) prog \<Rightarrow> ('s trust_world, 'e, 'a) prog" where
  "transact m = (\<lambda>w. case m w of (Inl e, v) \<Rightarrow> (Inl e, v\<lparr>tw_store := tw_store w\<rparr>) | (Inr a, v) \<Rightarrow> (Inr a, v))"

definition the_state :: "'s rel_store \<Rightarrow> ('s trust_world, 'e, rel_state) prog" where
  "the_state S = gets (\<lambda>w. st_state S (tw_store w))"

definition hash_any :: "env \<Rightarrow> json \<Rightarrow> ('s trust_world, rel_error, string) prog" where
  "hash_any V v = of_sum (map_sum HashError id (canonical_hash (env_hash V) v))"

subsection \<open>Scope\<close>

definition scope_payload :: "string \<Rightarrow> string \<Rightarrow> json" where
  "scope_payload tenant project = JDict [(''tenant_id'', JStr tenant), (''project_id'', JStr project),
     (''protocol'', JStr ''AMC-SCOPE-1'')]"

definition bind_project :: "env \<Rightarrow> 's rel_store \<Rightarrow> string \<Rightarrow> string \<Rightarrow> ('s trust_world, rel_error, binding) prog" where
  "bind_project V S tenant project =
    bnd (utc_now V) (\<lambda>now.
    let b = \<lparr>bi_tenant = tenant, bi_project = project, bi_status = Bind_ACTIVE,
             bi_hash = chash (env_hash V) (scope_payload tenant project), bi_created = now, bi_revoked = None\<rparr> in
    bnd (the_state S) (\<lambda>st.
    bnd (guard (case row_by bi_project project (rs_bindings st) of None \<Rightarrow> True
                | Some c \<Rightarrow> \<not> (bi_tenant c \<noteq> tenant \<and> bi_status c = Bind_ACTIVE))
           (Reliability ''PROJECT_ALREADY_BOUND_TO_DIFFERENT_TENANT'')) (\<lambda>_.
    bnd (transact (on_store (st_put_binding S b))) (\<lambda>_. ret b))))"

definition scope_check :: "env \<Rightarrow> rel_state \<Rightarrow> string \<Rightarrow> string \<Rightarrow> rel_error + binding" where
  "scope_check V st tenant project = (case row_by bi_project project (rs_bindings st) of
     None \<Rightarrow> Inl (Reliability ''UNKNOWN_PROJECT_SCOPE'')
   | Some b \<Rightarrow>
       if bi_status b \<noteq> Bind_ACTIVE then Inl (Reliability ''PROJECT_SCOPE_REVOKED'')
       else if bi_tenant b \<noteq> tenant then Inl (Reliability ''CROSS_TENANT_ACCESS_DENIED'')
       else if bi_hash b \<noteq> chash (env_hash V) (scope_payload tenant project)
       then Inl (Reliability ''PROJECT_SCOPE_BINDING_TAMPERED'')
       else Inr b)"

definition assert_scope :: "env \<Rightarrow> 's rel_store \<Rightarrow> string \<Rightarrow> string \<Rightarrow> ('s trust_world, rel_error, binding) prog" where
  "assert_scope V S tenant project = bnd (the_state S) (\<lambda>st. of_sum (scope_check V st tenant project))"

subsection \<open>The audit chain\<close>

definition audit_payload :: "audit_checkpoint \<Rightarrow> json" where
  "audit_payload a = JDict [(''seq'', JInt (au_seq a)), (''tenant_id'', JStr (au_tenant a)),
     (''project_id'', JStr (au_project a)), (''event_type'', JStr (au_event a)),
     (''object_ref'', JStr (au_object a)), (''payload_hash'', JStr (au_payload_hash a)),
     (''previous_hash'', JStr (au_previous a))]"

definition next_audit :: "env \<Rightarrow> 's rel_store \<Rightarrow> string \<Rightarrow> string \<Rightarrow> string \<Rightarrow> string \<Rightarrow> string
    \<Rightarrow> ('s trust_world, rel_error, audit_checkpoint) prog" where
  "next_audit V S tenant project event obj payload_hash =
    bnd (the_state S) (\<lambda>st.
    bnd (utc_now V) (\<lambda>now.
    let a = \<lparr>au_seq = int (length (rs_audits st)) + 1, au_tenant = tenant, au_project = project,
             au_event = event, au_object = obj, au_payload_hash = payload_hash,
             au_previous = (if rs_audits st = [] then zero_hash else au_hash (last (rs_audits st))),
             au_hash = [], au_created = now\<rparr>
    in ret (a\<lparr>au_hash := chash (env_hash V) (audit_payload a)\<rparr>)))"

definition audit_event :: "env \<Rightarrow> 's rel_store \<Rightarrow> string \<Rightarrow> string \<Rightarrow> string \<Rightarrow> string \<Rightarrow> string
    \<Rightarrow> ('s trust_world, rel_error, unit) prog" where
  "audit_event V S tenant project event obj payload_hash =
    bnd (next_audit V S tenant project event obj payload_hash) (\<lambda>a. on_store (st_append_audit S a))"

fun verify_from :: "env \<Rightarrow> int \<Rightarrow> string \<Rightarrow> audit_checkpoint list \<Rightarrow> bool" where
  "verify_from V n previous [] = True"
| "verify_from V n previous (a # as) =
    (if au_seq a \<noteq> n \<or> au_previous a \<noteq> previous then False
     else if chash (env_hash V) (audit_payload a) \<noteq> au_hash a then False
     else verify_from V (n + 1) (au_hash a) as)"

definition verify_audit_chain :: "env \<Rightarrow> rel_state \<Rightarrow> bool" where
  "verify_audit_chain V st = verify_from V 1 zero_hash (rs_audits st)"

subsection \<open>Policy decisions\<close>

definition record_policy_decision :: "env \<Rightarrow> 's rel_store \<Rightarrow> string \<Rightarrow> string \<Rightarrow> string \<Rightarrow> string \<Rightarrow> string \<Rightarrow> string \<Rightarrow> string
    \<Rightarrow> json \<Rightarrow> policy_effect \<Rightarrow> string list \<Rightarrow> string list \<Rightarrow> ('s trust_world, rel_error, policy_decision) prog" where
  "record_policy_decision V S tenant project did subject action target version inp eff auths evs =
    bnd (assert_scope V S tenant project) (\<lambda>_.
    bnd (hash_any V inp) (\<lambda>input_hash.
    bnd (utc_now V) (\<lambda>now.
    let payload = JDict [(''tenant_id'', JStr tenant), (''project_id'', JStr project), (''decision_id'', JStr did),
          (''subject_ref'', JStr subject), (''action'', JStr action), (''target'', JStr target),
          (''policy_version'', JStr version), (''input_hash'', JStr input_hash),
          (''effect'', JStr (policy_effect_value eff)),
          (''required_authority_refs'', str_list (sort auths)), (''evidence_refs'', str_list (sort evs))];
        r = \<lparr>pd_id = did, pd_tenant = tenant, pd_project = project, pd_subject = subject, pd_action = action,
             pd_target = target, pd_version = version, pd_input_hash = input_hash, pd_effect = eff,
             pd_authority_refs = sort auths, pd_evidence_refs = sort evs,
             pd_hash = chash (env_hash V) payload, pd_decided = now\<rparr>
    in bnd (transact (bnd (on_store (st_put_policy S r)) (\<lambda>_.
              audit_event V S tenant project ''policy_decision'' did (pd_hash r)))) (\<lambda>_. ret r))))"

definition require_policy :: "policy_decision \<Rightarrow> string list \<Rightarrow> rel_error + unit" where
  "require_policy r authority_refs =
    (case pd_effect r of
       Pol_DENY \<Rightarrow> Inl (Reliability ''POLICY_DENIED'')
     | Pol_REQUIRE_APPROVAL \<Rightarrow>
         (let missing = filter (\<lambda>ref. ref \<notin> set authority_refs) (pd_authority_refs r) in
          if missing \<noteq> [] then Inl (Reliability (''POLICY_AUTHORITY_REQUIRED:'' @ join '','' (sort missing)))
          else Inr ())
     | Pol_ALLOW \<Rightarrow> Inr ())"

subsection \<open>Recovery cases\<close>

definition recovery_payload :: "env \<Rightarrow> recovery_case \<Rightarrow> json" where
  "recovery_payload V c = JDict [(''recovery_id'', JStr (rc_id c)), (''tenant_id'', JStr (rc_tenant c)),
     (''project_id'', JStr (rc_project c)), (''operation_id'', JStr (rc_operation c)), (''reason'', JStr (rc_reason c)),
     (''execution_ref'', opt_str (rc_execution c)), (''observation_ref'', opt_str (rc_observation c)),
     (''idempotency_key'', opt_str (rc_key c)), (''status'', JStr (recovery_status_value (rc_status c))),
     (''evidence_refs'', str_list (rc_evidence c)), (''created_at'', JStr (env_dt_json V (rc_created c))),
     (''resolved_at'', opt_str (map_option (env_dt_json V) (rc_resolved c)))]"

definition recovery_id :: "env \<Rightarrow> string \<Rightarrow> string \<Rightarrow> string \<Rightarrow> string \<Rightarrow> string" where
  "recovery_id V tenant project operation reason =
    ''recovery-'' @ take 24 (chash (env_hash V) (JDict [(''tenant_id'', JStr tenant), (''project_id'', JStr project),
       (''operation_id'', JStr operation), (''reason'', JStr reason)]))"

definition open_recovery_case :: "env \<Rightarrow> 's rel_store \<Rightarrow> string \<Rightarrow> string \<Rightarrow> string \<Rightarrow> string \<Rightarrow> string option
    \<Rightarrow> string option \<Rightarrow> string option \<Rightarrow> string list \<Rightarrow> ('s trust_world, rel_error, recovery_case) prog" where
  "open_recovery_case V S tenant project operation reason ex ob key evs =
    bnd (assert_scope V S tenant project) (\<lambda>_.
    let rid = recovery_id V tenant project operation reason in
    bnd (the_state S) (\<lambda>st.
    case row_by rc_id rid (rs_recovery st) of
      Some c \<Rightarrow> ret c
    | None \<Rightarrow>
        bnd (utc_now V) (\<lambda>now.
        let c = \<lparr>rc_id = rid, rc_tenant = tenant, rc_project = project, rc_operation = operation, rc_reason = reason,
                 rc_execution = ex, rc_observation = ob, rc_key = key, rc_status = Rec_OPEN, rc_evidence = evs,
                 rc_created = now, rc_resolved = None\<rparr>
        in bnd (transact (bnd (on_store (st_put_recovery S c)) (\<lambda>_.
                  audit_event V S tenant project ''recovery_opened'' rid (chash (env_hash V) (recovery_payload V c)))))
             (\<lambda>_. ret c))))"

record execution_receipt =
  er_result_ref :: "string option"
  er_key :: string

record observation_receipt =
  or_matches :: bool

definition execution_ref :: "string \<Rightarrow> execution_receipt \<Rightarrow> string option" where
  "execution_ref operation x = (case er_result_ref x of
     None \<Rightarrow> Some operation | Some r \<Rightarrow> if r = [] then Some operation else Some r)"

fun reconcile_pairs :: "env \<Rightarrow> 's rel_store \<Rightarrow> string \<Rightarrow> string \<Rightarrow> (string \<times> execution_receipt) list
    \<Rightarrow> (string \<times> observation_receipt) list \<Rightarrow> ('s trust_world, rel_error, recovery_case list) prog" where
  "reconcile_pairs V S tenant project [] obs = ret []"
| "reconcile_pairs V S tenant project ((operation, x) # xs) obs =
    (case map_of obs operation of
       None \<Rightarrow>
         bnd (open_recovery_case V S tenant project operation ''EXECUTION_WITHOUT_OBSERVATION''
                (execution_ref operation x) None (Some (er_key x)) []) (\<lambda>c.
         bnd (reconcile_pairs V S tenant project xs obs) (\<lambda>cs. ret (c # cs)))
     | Some ob \<Rightarrow>
         if \<not> or_matches ob then
           bnd (open_recovery_case V S tenant project operation ''OBSERVATION_MISMATCH''
                  (execution_ref operation x) (Some operation) (Some (er_key x)) []) (\<lambda>c.
           bnd (reconcile_pairs V S tenant project xs obs) (\<lambda>cs. ret (c # cs)))
         else reconcile_pairs V S tenant project xs obs)"

definition reconcile_receipt_pairs :: "env \<Rightarrow> 's rel_store \<Rightarrow> string \<Rightarrow> string \<Rightarrow> (string \<times> execution_receipt) list
    \<Rightarrow> (string \<times> observation_receipt) list \<Rightarrow> ('s trust_world, rel_error, recovery_case list) prog" where
  "reconcile_receipt_pairs V S tenant project executions observations =
    bnd (assert_scope V S tenant project) (\<lambda>_. reconcile_pairs V S tenant project executions observations)"

definition resolve_recovery :: "env \<Rightarrow> 's rel_store \<Rightarrow> string \<Rightarrow> string \<Rightarrow> string \<Rightarrow> recovery_status \<Rightarrow> string list
    \<Rightarrow> ('s trust_world, rel_error, recovery_case) prog" where
  "resolve_recovery V S tenant project rid status evs =
    bnd (guard (status \<noteq> Rec_OPEN) (Reliability ''RECOVERY_RESOLUTION_MUST_BE_TERMINAL'')) (\<lambda>_.
    bnd (assert_scope V S tenant project) (\<lambda>_.
    bnd (the_state S) (\<lambda>st.
    case row_by rc_id rid (rs_recovery st) of
      None \<Rightarrow> raise (Reliability ''UNKNOWN_RECOVERY_CASE'')
    | Some c \<Rightarrow>
        if rc_tenant c \<noteq> tenant \<or> rc_project c \<noteq> project then raise (Reliability ''UNKNOWN_RECOVERY_CASE'')
        else bnd (utc_now V) (\<lambda>now.
          let u = c\<lparr>rc_status := status, rc_evidence := sort (remdups (rc_evidence c @ evs)), rc_resolved := Some now\<rparr>
          in bnd (transact (bnd (on_store (st_put_recovery S u)) (\<lambda>_.
                    audit_event V S (rc_tenant c) (rc_project c) ''recovery_resolved'' rid
                      (chash (env_hash V) (recovery_payload V u))))) (\<lambda>_. ret u)))))"

subsection \<open>Idempotency claims\<close>

definition claim_idempotency :: "env \<Rightarrow> 's rel_store \<Rightarrow> string \<Rightarrow> string \<Rightarrow> string \<Rightarrow> string \<Rightarrow> json
    \<Rightarrow> ('s trust_world, rel_error, idem_record) prog" where
  "claim_idempotency V S tenant project key operation request =
    bnd (assert_scope V S tenant project) (\<lambda>_.
    bnd (hash_any V request) (\<lambda>request_hash.
    bnd (the_state S) (\<lambda>st.
    case row_by id_key key (rs_idempotency st) of
      Some x \<Rightarrow>
        if id_tenant x \<noteq> tenant \<or> id_project x \<noteq> project then raise (Reliability ''IDEMPOTENCY_SCOPE_CONFLICT'')
        else if id_operation x \<noteq> operation \<or> id_request_hash x \<noteq> request_hash then
          bnd (open_recovery_case V S tenant project operation ''IDEMPOTENCY_CONFLICT'' None None (Some key)
                 [id_request_hash x, request_hash]) (\<lambda>_.
          raise (Reliability ''IDEMPOTENCY_CONFLICT''))
        else ret x
    | None \<Rightarrow>
        bnd (utc_now V) (\<lambda>created. bnd (utc_now V) (\<lambda>updated.
        let r = \<lparr>id_key = key, id_tenant = tenant, id_project = project, id_operation = operation,
                 id_request_hash = request_hash, id_status = Idem_CLAIMED, id_result = None,
                 id_created = created, id_updated = updated\<rparr>
        in bnd (transact (on_store (st_put_idempotency S r))) (\<lambda>_. ret r))))))"

definition complete_idempotency :: "env \<Rightarrow> 's rel_store \<Rightarrow> string \<Rightarrow> string option \<Rightarrow> idem_status
    \<Rightarrow> ('s trust_world, rel_error, idem_record) prog" where
  "complete_idempotency V S key result status =
    bnd (the_state S) (\<lambda>st.
    case row_by id_key key (rs_idempotency st) of
      None \<Rightarrow> raise (Reliability ''UNKNOWN_IDEMPOTENCY_KEY'')
    | Some x \<Rightarrow>
        bnd (utc_now V) (\<lambda>now.
        let u = x\<lparr>id_status := status, id_result := result, id_updated := now\<rparr>
        in bnd (transact (on_store (st_put_idempotency S u))) (\<lambda>_. ret u)))"

subsection \<open>The outbox\<close>

definition enqueue_outbox :: "env \<Rightarrow> 's rel_store \<Rightarrow> string \<Rightarrow> string \<Rightarrow> string \<Rightarrow> string \<Rightarrow> json \<Rightarrow> string \<Rightarrow> string
    \<Rightarrow> ('s trust_world, rel_error, outbox_message) prog" where
  "enqueue_outbox V S tenant project mid topic payload payload_ref key =
    bnd (assert_scope V S tenant project) (\<lambda>_.
    bnd (the_state S) (\<lambda>st.
    bnd (hash_any V payload) (\<lambda>payload_hash.
    case row_by ob_id mid (rs_outbox st) of
      Some x \<Rightarrow>
        if ob_payload_hash x \<noteq> payload_hash \<or> ob_key x \<noteq> key then raise (Reliability ''OUTBOX_MESSAGE_CONFLICT'')
        else ret x
    | None \<Rightarrow>
        bnd (utc_now V) (\<lambda>now.
        let m = \<lparr>ob_id = mid, ob_tenant = tenant, ob_project = project, ob_topic = topic,
                 ob_payload_hash = payload_hash, ob_payload_ref = payload_ref, ob_key = key,
                 ob_status = Out_PENDING, ob_attempts = 0, ob_claimed_by = None, ob_next_attempt = None,
                 ob_delivered = None, ob_last_error = None, ob_created = now\<rparr>
        in bnd (transact (bnd (on_store (st_put_outbox S m)) (\<lambda>_.
                  audit_event V S tenant project ''outbox_enqueued'' mid payload_hash))) (\<lambda>_. ret m)))))"

definition claim_outbox :: "env \<Rightarrow> 's rel_store \<Rightarrow> string \<Rightarrow> string \<Rightarrow> ('s trust_world, rel_error, outbox_message) prog" where
  "claim_outbox V S mid worker =
    bnd (the_state S) (\<lambda>st.
    case row_by ob_id mid (rs_outbox st) of
      None \<Rightarrow> raise (Reliability ''UNKNOWN_OUTBOX_MESSAGE'')
    | Some x \<Rightarrow>
        if ob_status x = Out_DELIVERED then ret x
        else if ob_attempts x \<ge> 3 then raise (Reliability ''OUTBOX_RETRY_EXHAUSTED'')
        else let u = x\<lparr>ob_status := Out_CLAIMED, ob_claimed_by := Some worker, ob_attempts := ob_attempts x + 1\<rparr>
          in bnd (transact (on_store (st_put_outbox S u))) (\<lambda>_. ret u))"

definition mark_outbox_delivered :: "env \<Rightarrow> 's rel_store \<Rightarrow> string \<Rightarrow> ('s trust_world, rel_error, outbox_message) prog" where
  "mark_outbox_delivered V S mid =
    bnd (the_state S) (\<lambda>st.
    case row_by ob_id mid (rs_outbox st) of
      None \<Rightarrow> raise (Reliability ''UNKNOWN_OUTBOX_MESSAGE'')
    | Some x \<Rightarrow>
        bnd (utc_now V) (\<lambda>now.
        let u = x\<lparr>ob_status := Out_DELIVERED, ob_delivered := Some now, ob_last_error := None\<rparr>
        in bnd (transact (bnd (on_store (st_put_outbox S u)) (\<lambda>_.
                  audit_event V S (ob_tenant x) (ob_project x) ''outbox_delivered'' mid (ob_payload_hash x)))) (\<lambda>_. ret u)))"

definition mark_outbox_failed :: "env \<Rightarrow> 's rel_store \<Rightarrow> string \<Rightarrow> string \<Rightarrow> ('s trust_world, rel_error, outbox_message) prog" where
  "mark_outbox_failed V S mid err =
    bnd (the_state S) (\<lambda>st.
    case row_by ob_id mid (rs_outbox st) of
      None \<Rightarrow> raise (Reliability ''UNKNOWN_OUTBOX_MESSAGE'')
    | Some x \<Rightarrow>
        let u = x\<lparr>ob_status := Out_FAILED, ob_last_error := Some err\<rparr>
        in bnd (transact (on_store (st_put_outbox S u))) (\<lambda>_. ret u))"

subsection \<open>Snapshot\<close>

definition snapshot :: "env \<Rightarrow> 's rel_store \<Rightarrow> string \<Rightarrow> string \<Rightarrow> ('s trust_world, rel_error, rel_snapshot) prog" where
  "snapshot V S tenant project =
    bnd (assert_scope V S tenant project) (\<lambda>_.
    bnd (the_state S) (\<lambda>st.
    let audits = filter (\<lambda>a. au_tenant a = tenant \<and> au_project a = project) (rs_audits st) in
    ret \<lparr>sn_tenant = tenant, sn_project = project,
      sn_policy_decisions = int (count_rows (\<lambda>p. pd_tenant p = tenant \<and> pd_project p = project) (rs_policies st)),
      sn_pending_outbox = int (count_rows (\<lambda>m. ob_tenant m = tenant \<and> ob_project m = project \<and> ob_status m \<noteq> Out_DELIVERED) (rs_outbox st)),
      sn_open_recovery = int (count_rows (\<lambda>r. rc_tenant r = tenant \<and> rc_project r = project \<and> rc_status r = Rec_OPEN) (rs_recovery st)),
      sn_audit_head = (if audits = [] then zero_hash else au_hash (last audits)),
      sn_idempotency = int (count_rows (\<lambda>i. id_tenant i = tenant \<and> id_project i = project) (rs_idempotency st))\<rparr>))"

end
