(* ===== verification/Outbox.thy ===== *)
theory Outbox
  imports Trust_Kernel "HOL-Library.Product_Lexorder"
begin

section \<open>The outbox dispatcher\<close>

text \<open>
  Models \<^verbatim>\<open>agency/reliability/outbox.py\<close>. The authority check and the topic handlers are
  injected by the caller; a handler returns its result reference or raises, and is given
  by the class name of what it raises.
\<close>

datatype dispatcher_error = DispatchValueError string | OutboxDispatchError string

record outbox_dispatcher =
  dp_authorize :: "outbox_message \<Rightarrow> bool"
  dp_max_batch :: int
  dp_handlers :: "(string \<times> (outbox_message \<Rightarrow> string + string option)) list"

definition new_dispatcher :: "(outbox_message \<Rightarrow> bool) \<Rightarrow> int \<Rightarrow> dispatcher_error + outbox_dispatcher" where
  "new_dispatcher auth max_batch =
    (if max_batch \<le> 0 then Inl (DispatchValueError ''max_batch must be positive'')
     else Inr \<lparr>dp_authorize = auth, dp_max_batch = max_batch, dp_handlers = []\<rparr>)"

definition register_handler :: "string \<Rightarrow> (outbox_message \<Rightarrow> string + string option) \<Rightarrow> outbox_dispatcher
    \<Rightarrow> dispatcher_error + outbox_dispatcher" where
  "register_handler topic handler d =
    (if topic = [] then Inl (DispatchValueError ''topic is required'')
     else if map_of (dp_handlers d) topic \<noteq> None then Inl (OutboxDispatchError ''topic handler already registered'')
     else Inr (d\<lparr>dp_handlers := dp_handlers d @ [(topic, handler)]\<rparr>))"

datatype delivery_status =
    Del_ALREADY_DELIVERED
  | Del_BLOCKED_AUTHORITY
  | Del_BLOCKED_NO_HANDLER
  | Del_FAILED
  | Del_DELIVERED
  | Del_BLOCKED

record delivery_result =
  dr_message :: string
  dr_status :: delivery_status
  dr_result :: "string option"
  dr_error :: "string option"

definition dispatch_one :: "env \<Rightarrow> 's rel_store \<Rightarrow> outbox_dispatcher \<Rightarrow> string \<Rightarrow> string
    \<Rightarrow> ('s trust_world, rel_error, delivery_result) prog" where
  "dispatch_one V S d worker mid =
    bnd (the_state S) (\<lambda>st.
    let out = \<lparr>dr_message = mid, dr_status = Del_DELIVERED, dr_result = None, dr_error = None\<rparr> in
    case row_by ob_id mid (rs_outbox st) of
      None \<Rightarrow> raise (Reliability ''UNKNOWN_OUTBOX_MESSAGE'')
    | Some m \<Rightarrow>
        if ob_status m = Out_DELIVERED then ret (out\<lparr>dr_status := Del_ALREADY_DELIVERED\<rparr>)
        else if \<not> dp_authorize d m then ret (out\<lparr>dr_status := Del_BLOCKED_AUTHORITY\<rparr>)
        else case map_of (dp_handlers d) (ob_topic m) of
          None \<Rightarrow> ret (out\<lparr>dr_status := Del_BLOCKED_NO_HANDLER\<rparr>)
        | Some handler \<Rightarrow>
            bnd (claim_outbox V S mid worker) (\<lambda>claimed.
            case handler claimed of
              Inl exc \<Rightarrow> bnd (mark_outbox_failed V S mid exc) (\<lambda>_.
                ret (out\<lparr>dr_status := Del_FAILED, dr_error := Some exc\<rparr>))
            | Inr result \<Rightarrow> bnd (mark_outbox_delivered V S mid) (\<lambda>_.
                ret (out\<lparr>dr_result := result\<rparr>))))"

definition dispatch_pending :: "env \<Rightarrow> 's rel_store \<Rightarrow> outbox_dispatcher \<Rightarrow> string
    \<Rightarrow> ('s trust_world, rel_error, delivery_result list) prog" where
  "dispatch_pending V S d worker =
    bnd (the_state S) (\<lambda>st.
    let messages = sort_key (\<lambda>m. (ob_created m, ob_id m)) (filter (\<lambda>m. ob_status m \<noteq> Out_DELIVERED) (rs_outbox st)) in
    each (\<lambda>m. catch (dispatch_one V S d worker (ob_id m))
             (\<lambda>e. case e of
                Reliability text \<Rightarrow> ret \<lparr>dr_message = ob_id m, dr_status = Del_BLOCKED, dr_result = None, dr_error = Some text\<rparr>
              | _ \<Rightarrow> raise e))
         (take (nat (dp_max_batch d)) messages))"

end
