(* ===== verification/Trust_Safety.thy ===== *)
theory Trust_Safety
  imports Outbox
begin

section \<open>What the trust kernel guarantees\<close>

text \<open>
  The invariant \<open>trust_inv\<close> of the kernel's state, proved once for every \<open>reliability_store\<close>:
  the audit chain verifies, every binding carries the hash of its own scope, the keys of
  each table are distinct, and no message has more than three attempts on record. Then the
  effect of each operation, that the attempts on record are the claims made, the tamper evidence
  of the chain and the agreement of the SQLite store with the in-memory one.
\<close>

subsection \<open>The audit chain as a hash chain\<close>

definition audit_content :: "audit_checkpoint \<Rightarrow> int \<times> string \<times> string \<times> string \<times> string \<times> string" where
  "audit_content a = (au_seq a, au_tenant a, au_project a, au_event a, au_object a, au_payload_hash a)"

interpretation audit: hash_chain au_previous au_hash audit_payload id audit_content
proof
  show "audit_content a = audit_content b \<and> au_previous a = au_previous b"
    if "canon (audit_payload a) = Inr t" "canon (audit_payload b) = Inr t" for a b t
    using that by (auto simp: audit_payload_def audit_content_def utf8_def utf8_char_def)
qed simp

lemma plain_audit_payload [simp]: "plain (audit_payload a)"
  by (simp add: audit_payload_def)

lemma verify_from_snoc:
  "verify_from V n p (as @ [a]) \<longleftrightarrow> verify_from V n p as \<and> au_seq a = n + int (length as) \<and>
     au_previous a = chain_head au_hash id p as \<and> chash (env_hash V) (audit_payload a) = au_hash a"
  by (induction as arbitrary: n p) (auto simp: chain_head_def)

lemma verify_from_links:
  "verify_from V n p as \<Longrightarrow> links au_previous au_hash audit_payload id (env_hash V) p as"
  by (induction as arbitrary: n p) (auto simp: chash_plain split: if_splits)

lemma verify_from_seqs:
  "verify_from V n p as \<Longrightarrow> i < length as \<Longrightarrow> au_seq (as ! i) = n + int i"
proof (induction as arbitrary: n p i)
  case (Cons a as)
  then show ?case by (cases i) (fastforce split: if_splits)+
qed simp

subsection \<open>The invariant\<close>

definition bindings_ok :: "env \<Rightarrow> binding list \<Rightarrow> bool" where
  "bindings_ok V bs = (distinct (map bi_project bs) \<and>
     (\<forall>b\<in>set bs. bi_hash b = chash (env_hash V) (scope_payload (bi_tenant b) (bi_project b))))"

definition outbox_ok :: "outbox_message list \<Rightarrow> bool" where
  "outbox_ok ms = (distinct (map ob_id ms) \<and> (\<forall>m\<in>set ms. 0 \<le> ob_attempts m \<and> ob_attempts m \<le> 3))"

definition trust_inv :: "env \<Rightarrow> rel_state \<Rightarrow> bool" where
  "trust_inv V st = (verify_audit_chain V st \<and> bindings_ok V (rs_bindings st) \<and> outbox_ok (rs_outbox st) \<and>
     distinct (map pd_id (rs_policies st)) \<and> distinct (map id_key (rs_idempotency st)) \<and>
     distinct (map rc_id (rs_recovery st)))"

lemma outbox_ok_upsert:
  "outbox_ok ms \<Longrightarrow> 0 \<le> ob_attempts m \<Longrightarrow> ob_attempts m \<le> 3 \<Longrightarrow> outbox_ok (upsert ob_id m ms)"
  using set_upsert [of ob_id m ms] by (auto simp: outbox_ok_def distinct_upsert)

lemma outbox_ok_row: "outbox_ok ms \<Longrightarrow> row_by ob_id k ms = Some m \<Longrightarrow> 0 \<le> ob_attempts m \<and> ob_attempts m \<le> 3"
  by (auto simp: outbox_ok_def dest: row_by_SomeD)

lemma bindings_ok_upsert:
  "bindings_ok V bs \<Longrightarrow> bi_hash b = chash (env_hash V) (scope_payload (bi_tenant b) (bi_project b)) \<Longrightarrow>
   bindings_ok V (upsert bi_project b bs)"
  using set_upsert [of bi_project b bs] by (auto simp: bindings_ok_def distinct_upsert)

text \<open>The next checkpoint, and the state a commit leaves.\<close>

definition audit_next :: "env \<Rightarrow> rel_state \<Rightarrow> string \<Rightarrow> string \<Rightarrow> string \<Rightarrow> string \<Rightarrow> string \<Rightarrow> audit_checkpoint \<Rightarrow> bool" where
  "audit_next V st tenant project event obj h a =
    (au_seq a = int (length (rs_audits st)) + 1 \<and> au_tenant a = tenant \<and> au_project a = project \<and> au_event a = event \<and>
     au_object a = obj \<and> au_payload_hash a = h \<and> au_previous a = chain_head au_hash id zero_hash (rs_audits st) \<and>
     au_hash a = chash (env_hash V) (audit_payload a))"

lemma verify_audit_next:
  "verify_audit_chain V st \<Longrightarrow> audit_next V st t p e ob h a \<Longrightarrow> rs_audits st' = rs_audits st @ [a] \<Longrightarrow>
   verify_audit_chain V st'"
  by (simp add: verify_audit_chain_def verify_from_snoc audit_next_def)

context reliability_store
begin

abbreviation view :: "'s trust_world \<Rightarrow> rel_state" where
  "view w \<equiv> st_state S (tw_store w)"

abbreviation ok_world :: "'s trust_world \<Rightarrow> bool" where
  "ok_world w \<equiv> ok (tw_store w)"

lemma wp_the_state [hoare_rules]: "wp (the_state S) Q E = (\<lambda>w. Q (view w) w)"
  by (simp add: the_state_def hoare_rules)

lemma wp_on_store:
  "wp m (\<lambda>a s. Q a (w\<lparr>tw_store := s\<rparr>)) (\<lambda>e s. E e (w\<lparr>tw_store := s\<rparr>)) (tw_store w) \<Longrightarrow> wp (on_store m) Q E w"
  by (auto simp: wp_def on_store_def split: prod.splits sum.splits)

lemma wp_transact:
  "wp m Q (\<lambda>e v. E e (v\<lparr>tw_store := tw_store w\<rparr>)) w \<Longrightarrow> wp (transact m) Q E w"
  by (auto simp: wp_def transact_def split: prod.splits sum.splits)

text \<open>A transaction of one write.\<close>

lemma wp_commit:
  assumes "wp m (\<lambda>_ t. ok t \<and> P (st_state S t)) (\<lambda>_ _. True) (tw_store w)" and "ok_world w"
    and "\<And>v. ok_world v \<Longrightarrow> P (view v) \<Longrightarrow> Q () v" and "\<And>e v. tw_store v = tw_store w \<Longrightarrow> E e v"
  shows "wp (transact (on_store m)) Q E w"
proof (rule wp_transact, rule wp_on_store)
  show "wp m (\<lambda>a s. Q a (w\<lparr>tw_store := s\<rparr>)) (\<lambda>e s. E e (w\<lparr>tw_store := s, tw_store := tw_store w\<rparr>)) (tw_store w)"
    by (rule wp_mono [OF assms(1)]) (use assms(3,4) in auto)
qed

text \<open>A transaction of one write and its audit checkpoint.\<close>

lemma wp_audit_event:
  assumes "ok_world w"
    and "\<And>v a. ok_world v \<Longrightarrow> audit_next V (view w) tenant project event obj h a \<Longrightarrow>
      view v = rs_audits_update (\<lambda>as. as @ [a]) (view w) \<Longrightarrow> Q () v"
    and "\<And>e v. E e v"
  shows "wp (audit_event V S tenant project event obj h) Q E w"
proof -
  let ?a = "\<lparr>au_seq = int (length (rs_audits (view w))) + 1, au_tenant = tenant, au_project = project,
    au_event = event, au_object = obj, au_payload_hash = h,
    au_previous = if rs_audits (view w) = [] then zero_hash else au_hash (last (rs_audits (view w))),
    au_hash = [], au_created = env_clock V (w_reads w)\<rparr>"
  let ?b = "?a\<lparr>au_hash := chash (env_hash V) (audit_payload ?a)\<rparr>"
  let ?w = "w_reads_update Suc w"
  have b: "audit_next V (view w) tenant project event obj h ?b"
    by (simp add: audit_next_def chain_head_def audit_payload_def)
  have "wp (st_append_audit S ?b) (\<lambda>_ t. ok t \<and> st_state S t = rs_audits_update (\<lambda>as. as @ [?b]) (st_state S (tw_store ?w)))
     (\<lambda>_ _. True) (tw_store ?w)"
    by (rule wp_append_audit) (use assms(1) in simp_all)
  then have "wp (st_append_audit S ?b) (\<lambda>a s. Q a (?w\<lparr>tw_store := s\<rparr>)) (\<lambda>e s. E e (?w\<lparr>tw_store := s\<rparr>)) (tw_store ?w)"
    by (rule wp_mono) (use assms(2) [OF _ b] assms(3) in auto)
  then have "wp (on_store (st_append_audit S ?b)) Q E ?w" by (rule wp_on_store)
  then show "wp (audit_event V S tenant project event obj h) Q E w"
    unfolding audit_event_def next_audit_def wp_bnd wp_the_state wp_utc_now wp_Let wp_ret Let_def .
qed

definition good :: "env \<Rightarrow> 's trust_world \<Rightarrow> bool" where
  "good V w = (ok_world w \<and> trust_inv V (view w))"

lemma good_same_store: "good V w \<Longrightarrow> tw_store v = tw_store w \<Longrightarrow> good V v"
  by (simp add: good_def)

lemma good_reads [simp]: "good V (w_reads_update f w) = good V w"
  by (simp add: good_def)

lemma good_commit:
  assumes "good V w" and "wp m (\<lambda>_ t. ok t \<and> st_state S t = st') (\<lambda>_ _. True) (tw_store w)"
    and "trust_inv V st'" and "\<And>v. good V v \<Longrightarrow> view v = st' \<Longrightarrow> Q () v"
    and "\<And>e v. good V v \<Longrightarrow> tw_store v = tw_store w \<Longrightarrow> E e v"
  shows "wp (transact (on_store m)) Q E w"
proof (rule wp_commit [OF assms(2)])
  show "ok_world w" using assms(1) by (simp add: good_def)
  show "Q () v" if "ok_world v" "view v = st'" for v
    by (rule assms(4)) (use that assms(3) in \<open>simp_all add: good_def\<close>)
  show "E e v" if "tw_store v = tw_store w" for e v
    by (rule assms(5)) (use that assms(1) in \<open>simp_all add: good_def\<close>)
qed

lemma good_commit_audit:
  assumes "good V w" and "wp m (\<lambda>_ t. ok t \<and> R (view w) \<and> st_state S t = st') (\<lambda>_ _. True) (tw_store w)"
    and "R (view w) \<Longrightarrow> trust_inv V st'"
    and "\<And>v a. good V v \<Longrightarrow> R (view w) \<Longrightarrow> audit_next V st' tenant project event obj h a \<Longrightarrow>
       view v = rs_audits_update (\<lambda>as. as @ [a]) st' \<Longrightarrow> Q () v"
    and "\<And>e v. good V v \<Longrightarrow> tw_store v = tw_store w \<Longrightarrow> E e v"
  shows "wp (transact (bnd (on_store m) (\<lambda>_. audit_event V S tenant project event obj h))) Q E w"
proof (rule wp_transact)
  let ?E = "\<lambda>e v. E e (v\<lparr>tw_store := tw_store w\<rparr>)"
  have E: "?E e v" for e v
    using assms(1,5) by (simp add: good_def)
  have ev: "wp (audit_event V S tenant project event obj h) Q ?E (w\<lparr>tw_store := t\<rparr>)"
    if t: "ok t" "R (view w)" "st_state S t = st'" for t
  proof (rule wp_audit_event)
    fix v a
    assume "ok_world v" and a: "audit_next V (view (w\<lparr>tw_store := t\<rparr>)) tenant project event obj h a"
      and v: "view v = rs_audits_update (\<lambda>as. as @ [a]) (view (w\<lparr>tw_store := t\<rparr>))"
    have inv: "trust_inv V st'" using assms(3) t(2) .
    have "verify_audit_chain V (view v)"
      by (rule verify_audit_next [of V st']) (use inv a v t(3) in \<open>simp_all add: trust_inv_def\<close>)
    with inv v t(3) \<open>ok_world v\<close> have "good V v" by (simp add: good_def trust_inv_def)
    then show "Q () v" using assms(4) a v t by simp
  qed (use t E in simp_all)
  have "wp (on_store m) (\<lambda>_. wp (audit_event V S tenant project event obj h) Q ?E) ?E w"
    by (rule wp_on_store, rule wp_mono [OF assms(2)]) (use E [of _ w] in \<open>auto intro: ev\<close>)
  then show "wp (bnd (on_store m) (\<lambda>_. audit_event V S tenant project event obj h)) Q ?E w"
    by (simp add: wp_bnd)
qed

text \<open>Every operation keeps the invariant, whether it returns or raises.\<close>

lemma scope_keeps: "good V w \<Longrightarrow> (\<And>b v. scope_check V (view w) tenant project = Inr b \<Longrightarrow> v = w \<Longrightarrow> Q b v) \<Longrightarrow>
    (\<And>e. scope_check V (view w) tenant project = Inl e \<Longrightarrow> E e w) \<Longrightarrow>
    wp (assert_scope V S tenant project) Q E w"
  by (auto simp: assert_scope_def hoare_rules split: sum.splits)

lemma wp_assert_scope:
  "wp (assert_scope V S tenant project) Q E =
    (\<lambda>w. case scope_check V (view w) tenant project of Inl e \<Rightarrow> E e w | Inr b \<Rightarrow> Q b w)"
  by (simp add: assert_scope_def hoare_rules)

lemma wp_hash_any:
  "wp (hash_any V v) Q E =
    (\<lambda>w. case canonical_hash (env_hash V) v of Inl e \<Rightarrow> E (HashError e) w | Inr h \<Rightarrow> Q h w)"
  by (simp add: hash_any_def hoare_rules fun_eq_iff split: sum.splits)

lemma good_row_outbox:
  "good V w \<Longrightarrow> row_by ob_id k (rs_outbox (view w)) = Some m \<Longrightarrow> 0 \<le> ob_attempts m \<and> ob_attempts m \<le> 3 \<and> ob_id m = k"
  using outbox_ok_row [of "rs_outbox (view w)" k m] row_by_SomeD [of ob_id k "rs_outbox (view w)" m]
  by (auto simp: good_def trust_inv_def)

lemmas op_rules = hoare_rules wp_assert_scope wp_hash_any Let_def

lemma inv_tables:
  assumes "good V w"
  shows "ok_world w" "trust_inv V (view w)"
    "\<And>b. bi_hash b = chash (env_hash V) (scope_payload (bi_tenant b) (bi_project b)) \<Longrightarrow>
       trust_inv V (rs_bindings_update (upsert bi_project b) (view w))"
    "\<And>p. trust_inv V (rs_policies_update (upsert pd_id p) (view w))"
    "\<And>i. trust_inv V (rs_idempotency_update (upsert id_key i) (view w))"
    "\<And>m. 0 \<le> ob_attempts m \<Longrightarrow> ob_attempts m \<le> 3 \<Longrightarrow> trust_inv V (rs_outbox_update (upsert ob_id m) (view w))"
    "\<And>c. trust_inv V (rs_recovery_update (upsert rc_id c) (view w))"
  using assms by (auto simp: good_def trust_inv_def verify_audit_chain_def bindings_ok_upsert outbox_ok_upsert distinct_upsert)

lemma bind_project_keeps: "keeps (good V) (bind_project V S tenant project)"
  unfolding keeps_def bind_project_def
  by (auto simp: op_rules split: option.splits
      intro!: good_commit wp_put_binding [THEN wp_mono] inv_tables(1,3))

lemma record_policy_keeps:
  "keeps (good V) (record_policy_decision V S tenant project did subject action target version inp eff auths evs)"
  unfolding keeps_def record_policy_decision_def
  by (auto simp: op_rules split: option.splits sum.splits
      intro!: good_commit_audit [where R = "\<lambda>_. True"] wp_put_policy [THEN wp_mono] inv_tables(1,4))

lemma open_recovery_keeps: "keeps (good V) (open_recovery_case V S tenant project operation reason ex ob key evs)"
  unfolding keeps_def open_recovery_case_def
  by (auto simp: op_rules split: option.splits sum.splits
      intro!: good_commit_audit [where R = "\<lambda>_. True"] wp_put_recovery [THEN wp_mono] inv_tables(1,7))

lemma resolve_recovery_keeps: "keeps (good V) (resolve_recovery V S tenant project rid status evs)"
  unfolding keeps_def resolve_recovery_def
  by (auto simp: op_rules split: option.splits sum.splits
      intro!: good_commit_audit [where R = "\<lambda>_. True"] wp_put_recovery [THEN wp_mono] inv_tables(1,7))

lemma claim_idempotency_keeps: "keeps (good V) (claim_idempotency V S tenant project key operation request)"
  unfolding keeps_def claim_idempotency_def
  by (auto simp: op_rules split: option.splits sum.splits
      intro!: good_commit wp_put_idempotency [THEN wp_mono] inv_tables(1,5) keeps_wp [OF open_recovery_keeps])

lemma complete_idempotency_keeps: "keeps (good V) (complete_idempotency V S key result status)"
  unfolding keeps_def complete_idempotency_def
  by (auto simp: op_rules split: option.splits
      intro!: good_commit wp_put_idempotency [THEN wp_mono] inv_tables(1,5))

lemma enqueue_outbox_keeps: "keeps (good V) (enqueue_outbox V S tenant project mid topic payload ref key)"
  unfolding keeps_def enqueue_outbox_def
  by (auto simp: op_rules split: option.splits sum.splits
      intro!: good_commit_audit [where R = "\<lambda>_. True"] wp_put_outbox [THEN wp_mono] inv_tables(1,6))

lemma claim_outbox_keeps: "keeps (good V) (claim_outbox V S mid worker)"
  unfolding keeps_def claim_outbox_def
  by (auto simp: op_rules split: option.splits dest: good_row_outbox
      intro!: good_commit wp_put_outbox [THEN wp_mono] inv_tables(1,6))

lemma mark_delivered_keeps: "keeps (good V) (mark_outbox_delivered V S mid)"
  unfolding keeps_def mark_outbox_delivered_def
  by (auto simp: op_rules split: option.splits dest: good_row_outbox
      intro!: good_commit_audit [where R = "\<lambda>_. True"] wp_put_outbox [THEN wp_mono] inv_tables(1,6))

lemma mark_failed_keeps: "keeps (good V) (mark_outbox_failed V S mid err)"
  unfolding keeps_def mark_outbox_failed_def
  by (auto simp: op_rules split: option.splits dest: good_row_outbox
      intro!: good_commit wp_put_outbox [THEN wp_mono] inv_tables(1,6))

lemma snapshot_keeps: "keeps (good V) (snapshot V S tenant project)"
  unfolding keeps_def snapshot_def
  by (auto simp: op_rules split: sum.splits)

lemma reconcile_pairs_keeps: "keeps (good V) (reconcile_pairs V S tenant project executions observations)"
proof (induction executions)
  case Nil
  then show ?case by (simp add: keeps_def hoare_rules)
next
  case (Cons ox executions)
  obtain operation x where "ox = (operation, x)" by fastforce
  then show ?case
    by (auto simp: keeps_def op_rules split: option.splits
        intro!: keeps_wp [OF open_recovery_keeps] keeps_wp [OF Cons.IH])
qed

lemma reconcile_receipt_pairs_keeps: "keeps (good V) (reconcile_receipt_pairs V S tenant project executions observations)"
  unfolding keeps_def reconcile_receipt_pairs_def
  by (auto simp: op_rules split: sum.splits intro!: keeps_wp [OF reconcile_pairs_keeps])

lemma dispatch_one_keeps: "keeps (good V) (dispatch_one V S d worker mid)"
  unfolding keeps_def dispatch_one_def
  by (auto simp: op_rules split: option.splits sum.splits
      intro!: keeps_wp [OF claim_outbox_keeps] keeps_wp [OF mark_delivered_keeps] keeps_wp [OF mark_failed_keeps])

lemma dispatch_pending_keeps: "keeps (good V) (dispatch_pending V S d worker)"
  unfolding keeps_def dispatch_pending_def
  by (auto simp: op_rules split: rel_error.splits intro!: wp_each keeps_wp [OF dispatch_one_keeps])

end

subsection \<open>Runs of the kernel\<close>

text \<open>A call of the public interface, and a run: calls in any order, raised errors ignored.\<close>

datatype trust_call =
    C_bind string string
  | C_policy string string string string string string string json policy_effect "string list" "string list"
  | C_claim string string string string json
  | C_complete string "string option" idem_status
  | C_enqueue string string string string json string string
  | C_claim_outbox string string
  | C_delivered string
  | C_failed string string
  | C_recover string string string string "string option" "string option" "string option" "string list"
  | C_reconcile string string "(string \<times> execution_receipt) list" "(string \<times> observation_receipt) list"
  | C_resolve string string string recovery_status "string list"
  | C_snapshot string string
  | C_dispatch_one outbox_dispatcher string string
  | C_dispatch outbox_dispatcher string

definition discard :: "('s, 'e, 'a) prog \<Rightarrow> ('s, 'e, unit) prog" where
  "discard m = bnd m (\<lambda>_. ret ())"

fun trust_exec :: "env \<Rightarrow> 's rel_store \<Rightarrow> trust_call \<Rightarrow> ('s trust_world, rel_error, unit) prog" where
  "trust_exec V S (C_bind t p) = discard (bind_project V S t p)"
| "trust_exec V S (C_policy t p did sub act tgt ver inp eff auths evs) =
     discard (record_policy_decision V S t p did sub act tgt ver inp eff auths evs)"
| "trust_exec V S (C_claim t p key op req) = discard (claim_idempotency V S t p key op req)"
| "trust_exec V S (C_complete key result status) = discard (complete_idempotency V S key result status)"
| "trust_exec V S (C_enqueue t p mid topic payload ref key) = discard (enqueue_outbox V S t p mid topic payload ref key)"
| "trust_exec V S (C_claim_outbox mid worker) = discard (claim_outbox V S mid worker)"
| "trust_exec V S (C_delivered mid) = discard (mark_outbox_delivered V S mid)"
| "trust_exec V S (C_failed mid err) = discard (mark_outbox_failed V S mid err)"
| "trust_exec V S (C_recover t p op reason ex ob key evs) = discard (open_recovery_case V S t p op reason ex ob key evs)"
| "trust_exec V S (C_reconcile t p xs obs) = discard (reconcile_receipt_pairs V S t p xs obs)"
| "trust_exec V S (C_resolve t p rid status evs) = discard (resolve_recovery V S t p rid status evs)"
| "trust_exec V S (C_snapshot t p) = discard (snapshot V S t p)"
| "trust_exec V S (C_dispatch_one d worker mid) = discard (dispatch_one V S d worker mid)"
| "trust_exec V S (C_dispatch d worker) = discard (dispatch_pending V S d worker)"

definition trust_run :: "env \<Rightarrow> 's rel_store \<Rightarrow> trust_call list \<Rightarrow> 's trust_world \<Rightarrow> 's trust_world" where
  "trust_run V S calls w = foldl (\<lambda>v c. snd (trust_exec V S c v)) w calls"

definition new_world :: "'s \<Rightarrow> 's trust_world" where
  "new_world s = \<lparr>w_reads = 0, w_uuids = 0, tw_store = s\<rparr>"

definition empty_sq_db :: sq_db where
  "empty_sq_db = \<lparr>sq_bindings = [], sq_policies = [], sq_idempotency = [], sq_outboxes = [], sq_audits = [], sq_recoveries = []\<rparr>"

context reliability_store
begin

lemma discard_keeps: "keeps I m \<Longrightarrow> keeps I (discard m)"
  by (auto simp: keeps_def discard_def hoare_rules)

lemma trust_exec_keeps: "keeps (good V) (trust_exec V S c)"
  by (cases c) (auto intro!: discard_keeps bind_project_keeps record_policy_keeps claim_idempotency_keeps complete_idempotency_keeps
      enqueue_outbox_keeps claim_outbox_keeps mark_delivered_keeps mark_failed_keeps open_recovery_keeps
      reconcile_receipt_pairs_keeps resolve_recovery_keeps snapshot_keeps dispatch_one_keeps dispatch_pending_keeps)

lemma trust_run_good: "good V w \<Longrightarrow> good V (trust_run V S calls w)"
  unfolding trust_run_def
  by (induction calls arbitrary: w) (simp_all add: keepsD [OF trust_exec_keeps])

lemma trust_run_inv: "ok s \<Longrightarrow> trust_inv V (st_state S s) \<Longrightarrow> trust_inv V (view (trust_run V S calls (new_world s)))"
  using trust_run_good [of V "new_world s" calls] by (simp add: good_def new_world_def)

end

lemma empty_inv: "trust_inv V empty_rel_state"
  by (simp add: trust_inv_def empty_rel_state_def verify_audit_chain_def bindings_ok_def outbox_ok_def)

lemma empty_sq: "sq_ok empty_sq_db" "sq_state empty_sq_db = empty_rel_state"
  by (simp_all add: sq_ok_def empty_sq_db_def sq_state_def empty_rel_state_def)

subsection \<open>Scope isolation\<close>

text \<open>What belongs to other scopes than \<open>(tenant, project)\<close>, the bindings included.\<close>

definition others :: "string \<Rightarrow> string \<Rightarrow> rel_state \<Rightarrow> rel_state" where
  "others tenant project st = \<lparr>rs_bindings = rs_bindings st,
     rs_policies = filter (\<lambda>p. \<not> (pd_tenant p = tenant \<and> pd_project p = project)) (rs_policies st),
     rs_idempotency = filter (\<lambda>i. \<not> (id_tenant i = tenant \<and> id_project i = project)) (rs_idempotency st),
     rs_outbox = filter (\<lambda>m. \<not> (ob_tenant m = tenant \<and> ob_project m = project)) (rs_outbox st),
     rs_audits = filter (\<lambda>a. \<not> (au_tenant a = tenant \<and> au_project a = project)) (rs_audits st),
     rs_recovery = filter (\<lambda>r. \<not> (rc_tenant r = tenant \<and> rc_project r = project)) (rs_recovery st)\<rparr>"

lemma filter_upsert_new: "row_by key (key v) rows = None \<Longrightarrow> \<not> P v \<Longrightarrow> filter P (upsert key v rows) = filter P rows"
  by (simp add: upsert_def)

lemma filter_upsert_own:
  assumes "distinct (map key rows)" and "row_by key (key v) rows = Some c" and "\<not> P c" and "\<not> P v"
  shows "filter P (upsert key v rows) = filter P rows"
proof -
  have "filter P (update_rows (\<lambda>r. key r = key v) (\<lambda>_. v) rows) = filter P rows"
    using assms
  proof (induction rows)
    case (Cons r rows)
    show ?case
    proof (cases "key r = key v")
      case True
      with Cons.prems have "row_by key (key v) rows = None" by (auto simp: row_by_None)
      then have "update_rows (\<lambda>r. key r = key v) (\<lambda>_. v) rows = rows"
        by (intro update_rows_id) (metis row_by_None imageI)
      with True Cons.prems show ?thesis by auto
    qed (use Cons in auto)
  qed simp
  with assms(2) show ?thesis by (simp add: upsert_def)
qed

lemma others_audit:
  "audit_next V st t p event obj h a \<Longrightarrow> others t p (rs_audits_update (\<lambda>as. as @ [a]) st) = others t p st"
  by (simp add: others_def audit_next_def)

lemma others_policy:
  "row_by pd_id (pd_id r) (rs_policies st) = None \<Longrightarrow> pd_tenant r = t \<Longrightarrow> pd_project r = p \<Longrightarrow>
   others t p (rs_policies_update (upsert pd_id r) st) = others t p st"
  by (simp add: others_def filter_upsert_new)

lemma others_idempotency:
  "row_by id_key (id_key r) (rs_idempotency st) = None \<Longrightarrow> id_tenant r = t \<Longrightarrow> id_project r = p \<Longrightarrow>
   others t p (rs_idempotency_update (upsert id_key r) st) = others t p st"
  by (simp add: others_def filter_upsert_new)

lemma others_outbox:
  "row_by ob_id (ob_id r) (rs_outbox st) = None \<Longrightarrow> ob_tenant r = t \<Longrightarrow> ob_project r = p \<Longrightarrow>
   others t p (rs_outbox_update (upsert ob_id r) st) = others t p st"
  by (simp add: others_def filter_upsert_new)

lemma others_recovery:
  "row_by rc_id (rc_id r) (rs_recovery st) = None \<Longrightarrow> rc_tenant r = t \<Longrightarrow> rc_project r = p \<Longrightarrow>
   others t p (rs_recovery_update (upsert rc_id r) st) = others t p st"
  by (simp add: others_def filter_upsert_new)

lemma others_recovery_own:
  "row_by rc_id rid (rs_recovery st) = Some c \<Longrightarrow> distinct (map rc_id (rs_recovery st)) \<Longrightarrow> rc_id r = rc_id c \<Longrightarrow>
   rc_tenant c = t \<Longrightarrow> rc_project c = p \<Longrightarrow> rc_tenant r = t \<Longrightarrow> rc_project r = p \<Longrightarrow>
   others t p (rs_recovery_update (upsert rc_id r) st) = others t p st"
  by (frule row_by_SomeD) (simp add: others_def filter_upsert_own)

lemmas others_rules = others_audit others_policy others_idempotency others_outbox others_recovery

fun scope_of :: "trust_call \<Rightarrow> (string \<times> string) option" where
  "scope_of (C_policy t p _ _ _ _ _ _ _ _ _) = Some (t, p)"
| "scope_of (C_claim t p _ _ _) = Some (t, p)"
| "scope_of (C_enqueue t p _ _ _ _ _) = Some (t, p)"
| "scope_of (C_recover t p _ _ _ _ _ _) = Some (t, p)"
| "scope_of (C_reconcile t p _ _) = Some (t, p)"
| "scope_of (C_resolve t p _ _ _) = Some (t, p)"
| "scope_of (C_snapshot t p) = Some (t, p)"
| "scope_of _ = None"

context reliability_store
begin

abbreviation isolated :: "env \<Rightarrow> string \<Rightarrow> string \<Rightarrow> rel_state \<Rightarrow> 's trust_world \<Rightarrow> bool" where
  "isolated V t p X w \<equiv> good V w \<and> others t p (view w) = X"

lemma record_policy_isolated:
  "keeps (isolated V t p X) (record_policy_decision V S t p did subject action target version inp eff auths evs)"
  unfolding keeps_def record_policy_decision_def
  by (auto simp: op_rules others_rules split: option.splits sum.splits
      intro!: good_commit_audit [where R = "\<lambda>st. row_by pd_id did (rs_policies st) = None"]
        wp_put_policy [THEN wp_mono] inv_tables(1,4))

lemma open_recovery_isolated: "keeps (isolated V t p X) (open_recovery_case V S t p operation reason ex ob key evs)"
  unfolding keeps_def open_recovery_case_def
  by (auto simp: op_rules others_rules split: option.splits sum.splits
      intro!: good_commit_audit [where R = "\<lambda>_. True"] wp_put_recovery [THEN wp_mono] inv_tables(1,7))

lemma good_recoveries: "good V w \<Longrightarrow> distinct (map rc_id (rs_recovery (view w)))"
  by (simp add: good_def trust_inv_def)

lemma resolve_recovery_isolated: "keeps (isolated V t p X) (resolve_recovery V S t p rid status evs)"
  unfolding keeps_def resolve_recovery_def
  by (auto simp: op_rules others_rules others_recovery_own good_recoveries split: option.splits sum.splits
      intro!: good_commit_audit [where R = "\<lambda>_. True"] wp_put_recovery [THEN wp_mono] inv_tables(1,7))

lemma claim_idempotency_isolated: "keeps (isolated V t p X) (claim_idempotency V S t p key operation request)"
  unfolding keeps_def claim_idempotency_def
  by (auto simp: op_rules others_rules split: option.splits sum.splits
      intro!: good_commit wp_put_idempotency [THEN wp_mono] inv_tables(1,5) keeps_wp [OF open_recovery_isolated])

lemma enqueue_outbox_isolated: "keeps (isolated V t p X) (enqueue_outbox V S t p mid topic payload ref key)"
  unfolding keeps_def enqueue_outbox_def
  by (auto simp: op_rules others_rules split: option.splits sum.splits
      intro!: good_commit_audit [where R = "\<lambda>_. True"] wp_put_outbox [THEN wp_mono] inv_tables(1,6))

lemma snapshot_isolated: "keeps (isolated V t p X) (snapshot V S t p)"
  unfolding keeps_def snapshot_def
  by (auto simp: op_rules split: sum.splits)

lemma reconcile_isolated: "keeps (isolated V t p X) (reconcile_receipt_pairs V S t p executions observations)"
proof -
  have "keeps (isolated V t p X) (reconcile_pairs V S t p executions observations)"
  proof (induction executions)
    case Nil
    then show ?case by (simp add: keeps_def hoare_rules)
  next
    case (Cons ox executions)
    obtain operation x where "ox = (operation, x)" by fastforce
    then show ?case
      by (auto simp: keeps_def op_rules split: option.splits
          intro!: keeps_wp [OF open_recovery_isolated] keeps_wp [OF Cons.IH])
  qed
  then show ?thesis
    by (auto simp: keeps_def reconcile_receipt_pairs_def op_rules split: sum.splits)
qed

lemma trust_exec_isolated: "scope_of c = Some (t, p) \<Longrightarrow> keeps (isolated V t p X) (trust_exec V S c)"
  by (cases c) (auto intro!: discard_keeps record_policy_isolated claim_idempotency_isolated enqueue_outbox_isolated
      open_recovery_isolated reconcile_isolated resolve_recovery_isolated snapshot_isolated)

lemma trust_exec_out_of_scope:
  assumes "scope_of c = Some (t, p)" and "scope_check V (view w) t p = Inl e"
  shows "wp (trust_exec V S c) (\<lambda>_ _. False) (\<lambda>_ v. view v = view w) w"
  using assms
  by (cases c) (auto simp: discard_def record_policy_decision_def claim_idempotency_def enqueue_outbox_def
      open_recovery_case_def reconcile_receipt_pairs_def resolve_recovery_def snapshot_def op_rules)

end

subsection \<open>What a call leaves alone\<close>

text \<open>
  \<open>plain_view F\<close>: the part \<open>F\<close> of the state sees neither bindings, policies, checkpoints nor recovery cases,
  which most calls write; \<open>seen\<close> says that a world is good and \<open>F\<close> has the value it had.
\<close>

definition plain_view :: "(rel_state \<Rightarrow> 'b) \<Rightarrow> bool" where
  "plain_view F = (\<forall>st f g h i. F (rs_bindings_update f st) = F st \<and> F (rs_policies_update g st) = F st \<and>
     F (rs_audits_update h st) = F st \<and> F (rs_recovery_update i st) = F st)"

lemma plain_viewD:
  assumes "plain_view F"
  shows "F (rs_bindings_update f st) = F st" "F (rs_policies_update g st) = F st" "F (rs_audits_update h st) = F st"
    "F (rs_recovery_update i st) = F st"
  using assms by (simp_all add: plain_view_def)

context reliability_store
begin

abbreviation seen :: "env \<Rightarrow> (rel_state \<Rightarrow> 'b) \<Rightarrow> 'b \<Rightarrow> 's trust_world \<Rightarrow> bool" where
  "seen V F X w \<equiv> good V w \<and> F (view w) = X"

lemma open_recovery_seen:
  assumes "plain_view F"
  shows "keeps (seen V F X) (open_recovery_case V S t p operation reason ex ob key evs)"
  unfolding keeps_def open_recovery_case_def
  by (auto simp: op_rules plain_viewD [OF assms] split: option.splits sum.splits
      intro!: good_commit_audit [where R = "\<lambda>_. True"] wp_put_recovery [THEN wp_mono] inv_tables(1,7))

lemma reconcile_seen:
  assumes "plain_view F"
  shows "keeps (seen V F X) (reconcile_receipt_pairs V S t p executions observations)"
proof -
  have "keeps (seen V F X) (reconcile_pairs V S t p executions observations)"
  proof (induction executions)
    case Nil
    then show ?case by (simp add: keeps_def hoare_rules)
  next
    case (Cons ox executions)
    obtain operation x where "ox = (operation, x)" by fastforce
    then show ?case
      by (auto simp: keeps_def op_rules split: option.splits
          intro!: keeps_wp [OF open_recovery_seen [OF assms]] keeps_wp [OF Cons.IH])
  qed
  then show ?thesis
    by (auto simp: keeps_def reconcile_receipt_pairs_def op_rules split: sum.splits)
qed

lemma bind_seen:
  assumes "plain_view F"
  shows "keeps (seen V F X) (bind_project V S t p)"
  unfolding keeps_def bind_project_def
  by (auto simp: op_rules plain_viewD [OF assms] split: option.splits
      intro!: good_commit wp_put_binding [THEN wp_mono] inv_tables(1,3))

lemma policy_seen:
  assumes "plain_view F"
  shows "keeps (seen V F X) (record_policy_decision V S t p did subject action target version inp eff auths evs)"
  unfolding keeps_def record_policy_decision_def
  by (auto simp: op_rules plain_viewD [OF assms] split: option.splits sum.splits
      intro!: good_commit_audit [where R = "\<lambda>_. True"] wp_put_policy [THEN wp_mono] inv_tables(1,4))

lemma resolve_seen:
  assumes "plain_view F"
  shows "keeps (seen V F X) (resolve_recovery V S t p rid status evs)"
  unfolding keeps_def resolve_recovery_def
  by (auto simp: op_rules plain_viewD [OF assms] split: option.splits sum.splits
      intro!: good_commit_audit [where R = "\<lambda>_. True"] wp_put_recovery [THEN wp_mono] inv_tables(1,7))

lemma snapshot_seen: "keeps (seen V F X) (snapshot V S t p)"
  unfolding keeps_def snapshot_def
  by (auto simp: op_rules split: sum.splits)

lemmas plain_seen = open_recovery_seen reconcile_seen bind_seen policy_seen resolve_seen snapshot_seen

end

subsection \<open>A claim fixes its request\<close>

definition claim_of :: "idem_record \<Rightarrow> string \<times> string \<times> string \<times> string" where
  "claim_of x = (id_tenant x, id_project x, id_operation x, id_request_hash x)"

definition claimed :: "string \<Rightarrow> string \<times> string \<times> string \<times> string \<Rightarrow> rel_state \<Rightarrow> bool" where
  "claimed key c st = (map_option claim_of (row_by id_key key (rs_idempotency st)) = Some c)"

lemma claimed_other [simp]:
  "claimed k c (rs_outbox_update h st) = claimed k c st" "plain_view (claimed k c)"
  "claimed k c (rs_audits_update g st) = claimed k c st"
  by (simp_all add: claimed_def plain_view_def)

lemma claimed_insert:
  "claimed k c st \<Longrightarrow> row_by id_key (id_key r) (rs_idempotency st) = None \<Longrightarrow>
   claimed k c (rs_idempotency_update (upsert id_key r) st)"
  by (auto simp: claimed_def)

lemma claimed_update:
  "claimed k c st \<Longrightarrow> row_by id_key q (rs_idempotency st) = Some x \<Longrightarrow> id_key r = id_key x \<Longrightarrow> claim_of r = claim_of x \<Longrightarrow>
   claimed k c (rs_idempotency_update (upsert id_key r) st)"
  by (frule row_by_SomeD) (auto simp: claimed_def)

lemma claimed_status:
  "row_by id_key q (rs_idempotency st) = Some x \<Longrightarrow> claimed k c st \<Longrightarrow>
   claimed k c (rs_idempotency_update (upsert id_key (x\<lparr>id_status := a, id_result := b, id_updated := n\<rparr>)) st)"
  by (rule claimed_update) (simp_all add: claim_of_def)

context reliability_store
begin

abbreviation claim_kept :: "env \<Rightarrow> string \<Rightarrow> string \<times> string \<times> string \<times> string \<Rightarrow> 's trust_world \<Rightarrow> bool" where
  "claim_kept V k c w \<equiv> good V w \<and> claimed k c (view w)"

lemmas plain_claims = plain_seen(1-5) [OF claimed_other(2), where X = True, unfolded eq_True]
  snapshot_seen [where F = "claimed k c" and X = True, unfolded eq_True] for k c

lemma claim_outbox_claims: "keeps (claim_kept V k c) (claim_outbox V S mid worker)"
  unfolding keeps_def claim_outbox_def
  by (auto simp: op_rules split: option.splits dest: good_row_outbox
      intro!: good_commit wp_put_outbox [THEN wp_mono] inv_tables(1,6))

lemma mark_delivered_claims: "keeps (claim_kept V k c) (mark_outbox_delivered V S mid)"
  unfolding keeps_def mark_outbox_delivered_def
  by (auto simp: op_rules split: option.splits dest: good_row_outbox
      intro!: good_commit_audit [where R = "\<lambda>_. True"] wp_put_outbox [THEN wp_mono] inv_tables(1,6))

lemma mark_failed_claims: "keeps (claim_kept V k c) (mark_outbox_failed V S mid err)"
  unfolding keeps_def mark_outbox_failed_def
  by (auto simp: op_rules split: option.splits dest: good_row_outbox
      intro!: good_commit wp_put_outbox [THEN wp_mono] inv_tables(1,6))

lemma dispatch_one_claims: "keeps (claim_kept V k c) (dispatch_one V S d worker mid)"
  unfolding keeps_def dispatch_one_def
  by (auto simp: op_rules split: option.splits sum.splits
      intro!: keeps_wp [OF claim_outbox_claims] keeps_wp [OF mark_delivered_claims] keeps_wp [OF mark_failed_claims])

lemma claim_claims: "keeps (claim_kept V k c) (claim_idempotency V S t p key operation request)"
  unfolding keeps_def claim_idempotency_def
  by (auto simp: op_rules split: option.splits sum.splits
      intro!: good_commit wp_put_idempotency [THEN wp_mono] inv_tables(1,5) keeps_wp [OF plain_claims(1)]
      claimed_insert)

lemma complete_claims: "keeps (claim_kept V k c) (complete_idempotency V S key result status)"
  unfolding keeps_def complete_idempotency_def
  by (auto simp: op_rules split: option.splits
      intro!: good_commit wp_put_idempotency [THEN wp_mono] inv_tables(1,5) claimed_status)

lemma enqueue_claims: "keeps (claim_kept V k c) (enqueue_outbox V S t p mid topic payload ref key)"
  unfolding keeps_def enqueue_outbox_def
  by (auto simp: op_rules split: option.splits sum.splits
      intro!: good_commit_audit [where R = "\<lambda>_. True"] wp_put_outbox [THEN wp_mono] inv_tables(1,6))

lemma dispatch_claims: "keeps (claim_kept V k c) (dispatch_pending V S d worker)"
  unfolding keeps_def dispatch_pending_def
  by (auto simp: op_rules split: rel_error.splits intro!: wp_each keeps_wp [OF dispatch_one_claims])

lemma trust_exec_claims: "keeps (claim_kept V k c) (trust_exec V S call)"
  by (cases call) (auto intro!: discard_keeps plain_claims claim_claims complete_claims enqueue_claims
      claim_outbox_claims mark_delivered_claims mark_failed_claims dispatch_one_claims dispatch_claims)

lemma trust_run_claims: "claim_kept V k c w \<Longrightarrow> claim_kept V k c (trust_run V S calls w)"
proof (induction calls arbitrary: w)
  case (Cons call calls)
  have "claim_kept V k c (snd (trust_exec V S call w))" by (rule keepsD [OF trust_exec_claims Cons.prems])
  from Cons.IH [OF this] show ?case by (simp add: trust_run_def)
qed (simp add: trust_run_def)

text \<open>A successful claim: the record returned and stored is the caller's own.\<close>

lemma claim_returns:
  assumes "good V w"
  shows "wp (claim_idempotency V S t p key operation request)
    (\<lambda>r v. good V v \<and> (\<exists>h. canonical_hash (env_hash V) request = Inr h \<and> claim_of r = (t, p, operation, h) \<and>
       claimed key (t, p, operation, h) (view v) \<and>
       (\<forall>c. claimed key c (view w) \<longrightarrow> c = (t, p, operation, h)))) (\<lambda>_ _. True) w"
  using assms unfolding claim_idempotency_def
  by (auto simp: op_rules claim_of_def claimed_def split: option.splits sum.splits
      intro!: good_commit wp_put_idempotency [THEN wp_mono] inv_tables(1,5) keeps_wp [OF open_recovery_keeps])

end

subsection \<open>What a dispatch does\<close>

context reliability_store
begin

lemma wp_claim_outbox:
  assumes "good V w"
  shows "wp (claim_outbox V S mid worker)
    (\<lambda>r v. good V v \<and> row_by ob_id mid (rs_outbox (view v)) = Some r \<and>
       (\<exists>m. row_by ob_id mid (rs_outbox (view w)) = Some m \<and>
          (ob_status m \<noteq> Out_DELIVERED \<longrightarrow> ob_attempts m < 3 \<and> ob_attempts r = ob_attempts m + 1)))
    (\<lambda>e v. good V v \<and> view v = view w) w"
  using assms unfolding claim_outbox_def
  by (auto simp: op_rules split: option.splits dest: good_row_outbox
      intro!: good_commit wp_put_outbox [THEN wp_mono] inv_tables(1,6))

lemma wp_mark_delivered:
  assumes "good V w" and "row_by ob_id mid (rs_outbox (view w)) = Some m"
  shows "wp (mark_outbox_delivered V S mid)
    (\<lambda>r v. good V v \<and> row_by ob_id mid (rs_outbox (view v)) = Some r \<and> ob_attempts r = ob_attempts m \<and>
       ob_status r = Out_DELIVERED) (\<lambda>_ _. True) w"
  using assms unfolding mark_outbox_delivered_def
  by (auto simp: op_rules split: option.splits dest: good_row_outbox
      intro!: good_commit_audit [where R = "\<lambda>_. True"] wp_put_outbox [THEN wp_mono] inv_tables(1,6))

lemma wp_mark_failed:
  assumes "good V w" and "row_by ob_id mid (rs_outbox (view w)) = Some m"
  shows "wp (mark_outbox_failed V S mid err)
    (\<lambda>r v. good V v \<and> row_by ob_id mid (rs_outbox (view v)) = Some r \<and> ob_attempts r = ob_attempts m \<and>
       ob_status r = Out_FAILED) (\<lambda>_ _. True) w"
  using assms unfolding mark_outbox_failed_def
  by (auto simp: op_rules split: option.splits dest: good_row_outbox
      intro!: good_commit wp_put_outbox [THEN wp_mono] inv_tables(1,6))

lemma dispatch_one_effect:
  assumes "good V w"
  shows "wp (dispatch_one V S d worker mid)
    (\<lambda>r v. if dr_status r = Del_DELIVERED \<or> dr_status r = Del_FAILED
       then \<exists>m m' handler. row_by ob_id mid (rs_outbox (view w)) = Some m \<and> row_by ob_id mid (rs_outbox (view v)) = Some m' \<and>
          ob_status m \<noteq> Out_DELIVERED \<and> dp_authorize d m \<and> map_of (dp_handlers d) (ob_topic m) = Some handler \<and>
          ob_attempts m < 3 \<and> ob_attempts m' = ob_attempts m + 1 \<and>
          ob_status m' = (if dr_status r = Del_DELIVERED then Out_DELIVERED else Out_FAILED)
       else view v = view w) (\<lambda>_ _. True) w"
  using assms unfolding dispatch_one_def
  by (auto simp: op_rules split: option.splits sum.splits
      intro!: wp_claim_outbox [THEN wp_mono] wp_mark_delivered [THEN wp_mono] wp_mark_failed [THEN wp_mono])

end

subsection \<open>How often a message is claimed\<close>

text \<open>
  The claims of a message are counted from outside: a call of \<open>claim_outbox\<close> that returns a message
  not yet delivered, whether made directly or by a dispatcher for a message it may handle. The
  dispatcher goes on after a refusal and stops at any other error.
\<close>

definition tries :: "string \<Rightarrow> rel_state \<Rightarrow> int" where
  "tries mid st = (case row_by ob_id mid (rs_outbox st) of None \<Rightarrow> 0 | Some m \<Rightarrow> ob_attempts m)"

definition undelivered :: "string \<Rightarrow> rel_state \<Rightarrow> bool" where
  "undelivered mid st = (case row_by ob_id mid (rs_outbox st) of None \<Rightarrow> False | Some x \<Rightarrow> ob_status x \<noteq> Out_DELIVERED)"

definition takes_claim :: "env \<Rightarrow> 's rel_store \<Rightarrow> string \<Rightarrow> string \<Rightarrow> 's trust_world \<Rightarrow> bool" where
  "takes_claim V S mid worker w = (undelivered mid (st_state S (tw_store w)) \<and> \<not> isl (fst (claim_outbox V S mid worker w)))"

definition handles :: "outbox_dispatcher \<Rightarrow> string \<Rightarrow> rel_state \<Rightarrow> bool" where
  "handles d mid st = (case row_by ob_id mid (rs_outbox st) of
     None \<Rightarrow> False | Some x \<Rightarrow> dp_authorize d x \<and> map_of (dp_handlers d) (ob_topic x) \<noteq> None)"

definition one_claims :: "env \<Rightarrow> 's rel_store \<Rightarrow> outbox_dispatcher \<Rightarrow> string \<Rightarrow> string \<Rightarrow> string \<Rightarrow> 's trust_world \<Rightarrow> nat" where
  "one_claims V S d worker mid k w = of_bool (k = mid \<and> handles d k (st_state S (tw_store w)) \<and> takes_claim V S k worker w)"

fun batch_claims :: "env \<Rightarrow> 's rel_store \<Rightarrow> outbox_dispatcher \<Rightarrow> string \<Rightarrow> string \<Rightarrow> outbox_message list \<Rightarrow> 's trust_world \<Rightarrow> nat" where
  "batch_claims V S d worker mid [] w = 0"
| "batch_claims V S d worker mid (m # ms) w = one_claims V S d worker mid (ob_id m) w +
    (case dispatch_one V S d worker (ob_id m) w of
       (Inr _, v) \<Rightarrow> batch_claims V S d worker mid ms v
     | (Inl (Reliability _), v) \<Rightarrow> batch_claims V S d worker mid ms v
     | (Inl _, v) \<Rightarrow> 0)"

fun call_claims :: "env \<Rightarrow> 's rel_store \<Rightarrow> string \<Rightarrow> trust_call \<Rightarrow> 's trust_world \<Rightarrow> nat" where
  "call_claims V S mid (C_claim_outbox k worker) w = of_bool (k = mid \<and> takes_claim V S k worker w)"
| "call_claims V S mid (C_dispatch_one d worker k) w = one_claims V S d worker mid k w"
| "call_claims V S mid (C_dispatch d worker) w = batch_claims V S d worker mid (take (nat (dp_max_batch d))
     (sort_key (\<lambda>m. (ob_created m, ob_id m)) (filter (\<lambda>m. ob_status m \<noteq> Out_DELIVERED) (rs_outbox (st_state S (tw_store w)))))) w"
| "call_claims V S mid _ w = 0"

fun run_claims :: "env \<Rightarrow> 's rel_store \<Rightarrow> string \<Rightarrow> trust_call list \<Rightarrow> 's trust_world \<Rightarrow> nat" where
  "run_claims V S mid [] w = 0"
| "run_claims V S mid (c # cs) w = call_claims V S mid c w + run_claims V S mid cs (snd (trust_exec V S c w))"

lemma tries_other [simp]:
  "tries mid (rs_idempotency_update f st) = tries mid st" "tries mid (rs_audits_update g st) = tries mid st" "plain_view (tries mid)"
  by (simp_all add: tries_def plain_view_def)

lemma tries_upsert [simp]:
  "tries mid (rs_outbox_update (upsert ob_id m) st) = (if ob_id m = mid then ob_attempts m else tries mid st)"
  by (simp add: tries_def)

lemma tries_None: "row_by ob_id mid (rs_outbox st) = None \<Longrightarrow> tries mid st = 0"
  by (simp add: tries_def)

lemma tries_row: "row_by ob_id mid (rs_outbox st) = Some m \<Longrightarrow> tries mid st = ob_attempts m"
  by (simp add: tries_def)

context reliability_store
begin

lemma claim_tries:
  assumes "good V w"
  shows "wp (claim_outbox V S k worker)
    (\<lambda>_. seen V (tries mid) (tries mid (view w) + of_bool (k = mid \<and> undelivered k (view w))))
    (\<lambda>_. seen V (tries mid) (tries mid (view w))) w"
proof (cases "row_by ob_id k (rs_outbox (view w))")
  case (Some m)
  then have m: "tries k (view w) = ob_attempts m" "ob_id m = k" "undelivered k (view w) \<longleftrightarrow> ob_status m \<noteq> Out_DELIVERED"
    by (auto simp: undelivered_def tries_row dest: row_by_SomeD)
  show ?thesis
    using assms m unfolding claim_outbox_def
    by (auto simp: op_rules Some good_row_outbox [OF assms Some] intro!: good_commit wp_put_outbox [THEN wp_mono] inv_tables(1,6))
qed (use assms in \<open>simp add: claim_outbox_def op_rules\<close>)

lemma delivered_tries: "keeps (seen V (tries mid) n) (mark_outbox_delivered V S k)"
  unfolding keeps_def mark_outbox_delivered_def
  by (auto simp: op_rules split: option.splits dest: good_row_outbox
      intro!: good_commit_audit [where R = "\<lambda>_. True"] wp_put_outbox [THEN wp_mono] inv_tables(1,6))
     (metis row_by_SomeD tries_row)

lemma failed_tries: "keeps (seen V (tries mid) n) (mark_outbox_failed V S k err)"
  unfolding keeps_def mark_outbox_failed_def
  by (auto simp: op_rules split: option.splits dest: good_row_outbox
      intro!: good_commit wp_put_outbox [THEN wp_mono] inv_tables(1,6))
     (metis row_by_SomeD tries_row)

lemma enqueue_tries: "keeps (seen V (tries mid) n) (enqueue_outbox V S t p k topic payload ref key)"
  unfolding keeps_def enqueue_outbox_def
  by (auto simp: op_rules tries_None split: option.splits sum.splits
      intro!: good_commit_audit [where R = "\<lambda>_. True"] wp_put_outbox [THEN wp_mono] inv_tables(1,6))

lemma claim_request_tries: "keeps (seen V (tries mid) n) (claim_idempotency V S t p key operation request)"
  unfolding keeps_def claim_idempotency_def
  by (auto simp: op_rules split: option.splits sum.splits
      intro!: good_commit wp_put_idempotency [THEN wp_mono] inv_tables(1,5) keeps_wp [OF open_recovery_seen [OF tries_other(3)]])

lemma complete_tries: "keeps (seen V (tries mid) n) (complete_idempotency V S key result status)"
  unfolding keeps_def complete_idempotency_def
  by (auto simp: op_rules split: option.splits
      intro!: good_commit wp_put_idempotency [THEN wp_mono] inv_tables(1,5))

lemma claim_counted:
  assumes "good V w" and "claim_outbox V S k worker w = (r, v)"
  shows "seen V (tries mid) (tries mid (view w) + of_bool (k = mid \<and> takes_claim V S k worker w)) v"
  using claim_tries [OF assms(1), of k worker mid] assms(2) by (cases r) (auto simp: wp_def takes_claim_def)

lemma one_counted:
  assumes "good V w"
  shows "seen V (tries mid) (tries mid (view w) + int (one_claims V S d worker mid k w)) (snd (dispatch_one V S d worker k w))"
proof (cases "handles d k (view w) \<and> undelivered k (view w)")
  case True
  then obtain x h where x: "row_by ob_id k (rs_outbox (view w)) = Some x" "ob_status x \<noteq> Out_DELIVERED" "dp_authorize d x"
    "map_of (dp_handlers d) (ob_topic x) = Some h"
    by (auto simp: handles_def undelivered_def split: option.splits)
  obtain r v where run: "claim_outbox V S k worker w = (r, v)" by fastforce
  have v: "seen V (tries mid) (tries mid (view w) + int (one_claims V S d worker mid k w)) v"
    using claim_counted [OF assms run, of mid] True by (simp add: one_claims_def)
  let ?I = "seen V (tries mid) (tries mid (view v))"
  have marks: "wp (case h y of Inl exc \<Rightarrow> bnd (mark_outbox_failed V S k exc) (\<lambda>_. ret (a exc))
      | Inr res \<Rightarrow> bnd (mark_outbox_delivered V S k) (\<lambda>_. ret (b res))) (\<lambda>_. ?I) (\<lambda>_. ?I) v" for y a and b :: "string option \<Rightarrow> delivery_result"
    using v by (auto simp: hoare_rules split: sum.splits intro!: keeps_wp [OF delivered_tries] keeps_wp [OF failed_tries])
  have "wp (dispatch_one V S d worker k) (\<lambda>_. ?I) (\<lambda>_. ?I) w"
    using x v marks by (simp add: dispatch_one_def op_rules) (simp add: wp_def run split: sum.splits)
  then show ?thesis using v by (auto simp: wp_def split: prod.splits sum.splits)
next
  case False
  then have zero: "one_claims V S d worker mid k w = 0"
    by (auto simp: one_claims_def takes_claim_def)
  have "wp (dispatch_one V S d worker k) (\<lambda>_ v. v = w) (\<lambda>_ v. v = w) w"
    using False by (auto simp: dispatch_one_def op_rules handles_def undelivered_def split: option.splits)
  then show ?thesis using assms zero by (auto simp: wp_def split: prod.splits sum.splits)
qed

definition deliver_or_block :: "env \<Rightarrow> outbox_dispatcher \<Rightarrow> string \<Rightarrow> outbox_message \<Rightarrow> ('s trust_world, rel_error, delivery_result) prog" where
  "deliver_or_block V d worker m = catch (dispatch_one V S d worker (ob_id m)) (\<lambda>e. case e of
     Reliability text \<Rightarrow> ret \<lparr>dr_message = ob_id m, dr_status = Del_BLOCKED, dr_result = None, dr_error = Some text\<rparr>
   | _ \<Rightarrow> raise e)"

lemma deliver_or_block_cases:
  assumes "dispatch_one V S d worker (ob_id m) w = (r, v)"
  obtains (go) a where "deliver_or_block V d worker m w = (Inr a, v)"
      "batch_claims V S d worker mid (m # ms) w = one_claims V S d worker mid (ob_id m) w + batch_claims V S d worker mid ms v"
    | (stop) e where "deliver_or_block V d worker m w = (Inl e, v)"
      "batch_claims V S d worker mid (m # ms) w = one_claims V S d worker mid (ob_id m) w"
proof (cases r)
  case (Inl e)
  then show thesis using assms stop go by (cases e) (auto simp: deliver_or_block_def catch_def ret_def raise_def)
next
  case (Inr a)
  then show thesis using assms go by (simp add: deliver_or_block_def catch_def)
qed

lemma each_steps:
  "f x w = (Inr a, v) \<Longrightarrow> snd (each f (x # xs) w) = snd (each f xs v)" "f x w = (Inl e, v) \<Longrightarrow> snd (each f (x # xs) w) = v"
  by (auto simp: bnd_def ret_def split: prod.splits sum.splits)

lemma batch_counted:
  "good V w \<Longrightarrow> seen V (tries mid) (tries mid (view w) + int (batch_claims V S d worker mid ms w))
    (snd (each (deliver_or_block V d worker) ms w))"
proof (induction ms arbitrary: w)
  case (Cons m ms)
  obtain r v where run: "dispatch_one V S d worker (ob_id m) w = (r, v)" by fastforce
  have v: "seen V (tries mid) (tries mid (view w) + int (one_claims V S d worker mid (ob_id m) w)) v"
    using one_counted [OF Cons.prems, where mid = mid and d = d and worker = worker and k = "ob_id m"] run by simp
  show ?case
    using run
  proof (cases rule: deliver_or_block_cases [where mid = mid and ms = ms])
    case (go a)
    have "seen V (tries mid) (tries mid (view v) + int (batch_claims V S d worker mid ms v))
        (snd (each (deliver_or_block V d worker) ms v))" using v by (intro Cons.IH) simp
    then show ?thesis
      unfolding each_steps(1) [of "deliver_or_block V d worker", OF go(1)] go(2) of_nat_add conjunct2 [OF v] by (simp only: add.assoc)
  next
    case (stop e)
    then show ?thesis using v unfolding each_steps(2) [of "deliver_or_block V d worker", OF stop(1)] stop(2) by blast
  qed
qed (simp add: ret_def)

lemma call_counted:
  assumes "good V w"
  shows "seen V (tries mid) (tries mid (view w) + int (call_claims V S mid c w)) (snd (trust_exec V S c w))"
proof -
  have quiet: "keeps (seen V (tries mid) (tries mid (view w))) m \<Longrightarrow> seen V (tries mid) (tries mid (view w)) (snd (discard m w))"
    for m :: "('s trust_world, rel_error, 'a) prog"
    by (rule keepsD [OF discard_keeps], assumption) (simp add: assms)
  have run: "snd (discard m w) = snd (m w)" for m :: "('s trust_world, rel_error, 'a) prog"
    by (auto simp: discard_def bnd_def ret_def split: prod.splits sum.splits)
  show ?thesis
  proof (cases c)
    case (C_claim_outbox k worker)
    then show ?thesis using claim_counted [OF assms, of k worker _ _ mid] by (cases "claim_outbox V S k worker w") (simp add: run)
  next
    case (C_dispatch_one d worker k)
    then show ?thesis using one_counted [OF assms] by (simp add: run)
  next
    case (C_dispatch d worker)
    then show ?thesis using batch_counted [OF assms]
      by (simp add: run dispatch_pending_def deliver_or_block_def [abs_def] bnd_def the_state_def gets_def Let_def del: batch_claims.simps)
  qed (simp_all add: quiet plain_seen(1-5) [OF tries_other(3)] snapshot_seen claim_request_tries complete_tries enqueue_tries
      delivered_tries failed_tries)
qed

lemma run_counted:
  "good V w \<Longrightarrow> seen V (tries mid) (tries mid (view w) + int (run_claims V S mid calls w)) (trust_run V S calls w)"
proof (induction calls arbitrary: w)
  case (Cons c calls)
  then show ?case using call_counted [OF Cons.prems, where mid = mid and c = c] Cons.IH [of "snd (trust_exec V S c w)"] by (simp add: trust_run_def)
qed (simp add: trust_run_def)

end

subsection \<open>Agreement with the in-memory store\<close>

definition world_view :: "'s rel_store \<Rightarrow> 's trust_world \<Rightarrow> rel_state trust_world" where
  "world_view S w = \<lparr>w_reads = w_reads w, w_uuids = w_uuids w, tw_store = st_state S (tw_store w)\<rparr>"

definition refines :: "'s rel_store \<Rightarrow> ('s \<Rightarrow> bool) \<Rightarrow> ('s trust_world, rel_error, 'a) prog
    \<Rightarrow> (rel_state trust_world, rel_error, 'a) prog \<Rightarrow> bool" where
  "refines S ok m n = (\<forall>w. ok (tw_store w) \<longrightarrow> (case m w of (r, v) \<Rightarrow>
     ok (tw_store v) \<and> (r = Inl IntegrityError \<or> n (world_view S w) = (r, world_view S v))))"

lemma refines_ret: "refines S ok (ret a) (ret a)"
  by (simp add: refines_def ret_def)

lemma refines_raise: "refines S ok (raise e) (raise e)"
  by (simp add: refines_def raise_def)

lemma refines_of_sum: "refines S ok (of_sum r) (of_sum r)"
  by (simp add: refines_def of_sum_def)

lemma refines_guard: "refines S ok (guard b e) (guard b e)"
  by (simp add: refines_def guard_def ret_def raise_def)

lemma refines_utc_now: "refines S ok (utc_now V) (utc_now V)"
  by (simp add: refines_def utc_now_def bnd_def gets_def modify_def ret_def world_view_def)

lemma refines_the_state: "refines S ok (the_state S) (the_state mem_store)"
  by (simp add: refines_def the_state_def gets_def world_view_def mem_store_def)

lemma refines_bnd:
  fixes S :: "'s rel_store"
  assumes "refines S ok m n" and "\<And>a. refines S ok (f a) (g a)"
  shows "refines S ok (bnd m f) (bnd n g)"
  unfolding refines_def
proof (intro allI impI)
  fix w :: "'s trust_world"
  assume "ok (tw_store w)"
  with assms(1) have 1: "case m w of (r, v) \<Rightarrow> ok (tw_store v) \<and> (r = Inl IntegrityError \<or> n (world_view S w) = (r, world_view S v))"
    by (simp add: refines_def)
  obtain r v where mw: "m w = (r, v)" by fastforce
  show "case bnd m f w of (r, v) \<Rightarrow> ok (tw_store v) \<and> (r = Inl IntegrityError \<or> bnd n g (world_view S w) = (r, world_view S v))"
  proof (cases r)
    case (Inr a)
    have "case f a v of (q, u) \<Rightarrow> ok (tw_store u) \<and> (q = Inl IntegrityError \<or> g a (world_view S v) = (q, world_view S u))"
      using assms(2) [of a] 1 mw by (simp add: refines_def)
    with 1 mw Inr show ?thesis by (auto simp: bnd_def)
  qed (use 1 mw in \<open>auto simp: bnd_def\<close>)
qed

lemma refines_if: "(b \<Longrightarrow> refines S ok m n) \<Longrightarrow> (\<not> b \<Longrightarrow> refines S ok m' n') \<Longrightarrow> refines S ok (if b then m else m') (if b then n else n')"
  by simp

lemma refines_option:
  "refines S ok m n \<Longrightarrow> (\<And>a. refines S ok (f a) (g a)) \<Longrightarrow>
   refines S ok (case x of None \<Rightarrow> m | Some a \<Rightarrow> f a) (case x of None \<Rightarrow> n | Some a \<Rightarrow> g a)"
  by (cases x) simp_all

lemma refines_sum:
  "(\<And>a. refines S ok (f a) (f' a)) \<Longrightarrow> (\<And>a. refines S ok (g a) (g' a)) \<Longrightarrow>
   refines S ok (case x of Inl a \<Rightarrow> f a | Inr a \<Rightarrow> g a) (case x of Inl a \<Rightarrow> f' a | Inr a \<Rightarrow> g' a)"
  by (cases x) simp_all

lemma refines_each: "(\<And>x. refines S ok (f x) (g x)) \<Longrightarrow> refines S ok (each f xs) (each g xs)"
  by (induction xs) (auto intro: refines_ret refines_bnd)

lemma refines_catch:
  fixes S :: "'s rel_store"
  assumes "refines S ok m n" and "\<And>e. refines S ok (h e) (h' e)" and "h IntegrityError = raise IntegrityError"
  shows "refines S ok (catch m h) (catch n h')"
  unfolding refines_def
proof (intro allI impI)
  fix w :: "'s trust_world"
  assume "ok (tw_store w)"
  with assms(1) have 1: "case m w of (r, v) \<Rightarrow> ok (tw_store v) \<and> (r = Inl IntegrityError \<or> n (world_view S w) = (r, world_view S v))"
    by (simp add: refines_def)
  obtain r v where mw: "m w = (r, v)" by fastforce
  show "case catch m h w of (r, v) \<Rightarrow> ok (tw_store v) \<and> (r = Inl IntegrityError \<or> catch n h' (world_view S w) = (r, world_view S v))"
  proof (cases r)
    case (Inl e)
    have "case h e v of (q, u) \<Rightarrow> ok (tw_store u) \<and> (q = Inl IntegrityError \<or> h' e (world_view S v) = (q, world_view S u))"
      using assms(2) [of e] 1 mw by (simp add: refines_def)
    with 1 mw Inl assms(3) show ?thesis by (auto simp: catch_def raise_def)
  qed (use 1 mw in \<open>auto simp: catch_def\<close>)
qed

lemma refines_transact: "refines S ok m n \<Longrightarrow> refines S ok (transact m) (transact n)"
  by (fastforce simp: refines_def transact_def world_view_def split: prod.splits sum.splits)

lemma refines_on_store:
  "(\<And>s. ok s \<Longrightarrow> simulates ok (st_state S) m n s) \<Longrightarrow> refines S ok (on_store m) (on_store n)"
  by (fastforce simp: refines_def on_store_def simulates_def world_view_def split: prod.splits)

lemma refines_hash_any: "refines S ok (hash_any V v) (hash_any V v)"
  by (simp add: hash_any_def refines_of_sum)

lemmas refines_basic = refines_ret refines_raise refines_of_sum refines_guard refines_utc_now refines_the_state refines_hash_any

lemmas refines_intros = refines_basic refines_bnd refines_if refines_option refines_sum refines_transact

context reliability_store
begin

lemma refines_put:
  "refines S ok (on_store (st_put_binding S b)) (on_store (st_put_binding mem_store b))"
  "refines S ok (on_store (st_put_policy S p)) (on_store (st_put_policy mem_store p))"
  "refines S ok (on_store (st_put_idempotency S i)) (on_store (st_put_idempotency mem_store i))"
  "refines S ok (on_store (st_put_outbox S m)) (on_store (st_put_outbox mem_store m))"
  "refines S ok (on_store (st_put_recovery S r)) (on_store (st_put_recovery mem_store r))"
  using put_binding put_policy put_idempotency put_outbox put_recovery
  by (simp_all add: mem_store_def refines_on_store)

lemma refines_audit: "refines S ok (audit_event V S t p event obj h) (audit_event V mem_store t p event obj h)"
  unfolding refines_def
proof (intro allI impI)
  fix w :: "'s trust_world"
  assume ok: "ok (tw_store w)"
  let ?st = "view w"
  let ?a = "\<lparr>au_seq = int (length (rs_audits ?st)) + 1, au_tenant = t, au_project = p, au_event = event,
    au_object = obj, au_payload_hash = h,
    au_previous = if rs_audits ?st = [] then zero_hash else au_hash (last (rs_audits ?st)),
    au_hash = [], au_created = env_clock V (w_reads w)\<rparr>"
  let ?b = "?a\<lparr>au_hash := chash (env_hash V) (audit_payload ?a)\<rparr>"
  have "simulates ok (st_state S) (st_append_audit S ?b) (mem_append_audit ?b) (tw_store w)"
    by (rule append_audit) (use ok in simp_all)
  then show "case audit_event V S t p event obj h w of (r, v) \<Rightarrow> ok (tw_store v) \<and>
      (r = Inl IntegrityError \<or> audit_event V mem_store t p event obj h (world_view S w) = (r, world_view S v))"
    by (auto simp: audit_event_def next_audit_def the_state_def bnd_def gets_def utc_now_def modify_def ret_def Let_def
        on_store_def simulates_def world_view_def mem_store_def split: prod.splits)
qed

lemma refines_scope: "refines S ok (assert_scope V S t p) (assert_scope V mem_store t p)"
  unfolding assert_scope_def by (intro refines_intros)

lemmas refines_op = refines_intros refines_put refines_audit refines_scope

lemma refines_bind_project: "refines S ok (bind_project V S t p) (bind_project V mem_store t p)"
  unfolding bind_project_def Let_def by (intro refines_op)

lemma refines_policy:
  "refines S ok (record_policy_decision V S t p did sub act tgt ver inp eff auths evs)
     (record_policy_decision V mem_store t p did sub act tgt ver inp eff auths evs)"
  unfolding record_policy_decision_def Let_def by (intro refines_op)

lemma refines_open_recovery:
  "refines S ok (open_recovery_case V S t p op reason ex ob key evs) (open_recovery_case V mem_store t p op reason ex ob key evs)"
  unfolding open_recovery_case_def Let_def by (intro refines_op)

lemma refines_reconcile_pairs:
  "refines S ok (reconcile_pairs V S t p xs obs) (reconcile_pairs V mem_store t p xs obs)"
proof (induction xs)
  case (Cons ox xs)
  obtain operation x where "ox = (operation, x)" by fastforce
  with Cons show ?case by (auto intro!: refines_op refines_open_recovery)
qed (simp add: refines_ret)

lemma refines_reconcile:
  "refines S ok (reconcile_receipt_pairs V S t p xs obs) (reconcile_receipt_pairs V mem_store t p xs obs)"
  unfolding reconcile_receipt_pairs_def by (intro refines_op refines_reconcile_pairs)

lemma refines_resolve:
  "refines S ok (resolve_recovery V S t p rid status evs) (resolve_recovery V mem_store t p rid status evs)"
  unfolding resolve_recovery_def Let_def by (intro refines_op)

lemma refines_claim:
  "refines S ok (claim_idempotency V S t p key op req) (claim_idempotency V mem_store t p key op req)"
  unfolding claim_idempotency_def Let_def by (intro refines_op refines_open_recovery)

lemma refines_complete:
  "refines S ok (complete_idempotency V S key result status) (complete_idempotency V mem_store key result status)"
  unfolding complete_idempotency_def Let_def by (intro refines_op)

lemma refines_enqueue:
  "refines S ok (enqueue_outbox V S t p mid topic payload ref key) (enqueue_outbox V mem_store t p mid topic payload ref key)"
  unfolding enqueue_outbox_def Let_def by (intro refines_op)

lemma refines_claim_outbox: "refines S ok (claim_outbox V S mid worker) (claim_outbox V mem_store mid worker)"
  unfolding claim_outbox_def Let_def by (intro refines_op)

lemma refines_delivered: "refines S ok (mark_outbox_delivered V S mid) (mark_outbox_delivered V mem_store mid)"
  unfolding mark_outbox_delivered_def Let_def by (intro refines_op)

lemma refines_failed: "refines S ok (mark_outbox_failed V S mid err) (mark_outbox_failed V mem_store mid err)"
  unfolding mark_outbox_failed_def Let_def by (intro refines_op)

lemma refines_snapshot: "refines S ok (snapshot V S t p) (snapshot V mem_store t p)"
  unfolding snapshot_def Let_def by (intro refines_op)

lemma refines_dispatch_one: "refines S ok (dispatch_one V S d worker mid) (dispatch_one V mem_store d worker mid)"
  unfolding dispatch_one_def Let_def by (intro refines_op refines_claim_outbox refines_delivered refines_failed)

lemma refines_dispatch: "refines S ok (dispatch_pending V S d worker) (dispatch_pending V mem_store d worker)"
  unfolding dispatch_pending_def Let_def
  by (intro refines_bnd refines_the_state refines_each refines_catch refines_dispatch_one)
    (auto intro: refines_ret refines_raise split: rel_error.split)

lemma refines_exec: "refines S ok (trust_exec V S c) (trust_exec V mem_store c)"
  by (cases c) (auto simp: discard_def intro!: refines_bnd refines_ret refines_bind_project refines_policy refines_claim
      refines_complete refines_enqueue refines_claim_outbox refines_delivered refines_failed refines_open_recovery
      refines_reconcile refines_resolve refines_snapshot refines_dispatch_one refines_dispatch)

end

subsection \<open>Properties\<close>

text \<open>
  C8. Whatever calls reach the trust kernel over a SQLite store that starts empty, in any
  order and with any errors in between, the audit chain verifies, every binding carries the
  hash of its own tenant and project, keys are unique, and the attempts stored with an outbox message
  are exactly the times it was claimed, directly or by a dispatcher, which are at most three.
\<close>
theorem trust_kernel_invariant:
  "trust_inv V (sq_state (tw_store (trust_run V sqlite_store calls (new_world empty_sq_db)))) \<and>
   int (run_claims V sqlite_store mid calls (new_world empty_sq_db)) =
     tries mid (sq_state (tw_store (trust_run V sqlite_store calls (new_world empty_sq_db)))) \<and>
   run_claims V sqlite_store mid calls (new_world empty_sq_db) \<le> 3"
proof -
  let ?v = "trust_run V sqlite_store calls (new_world empty_sq_db)"
  have state: "st_state sqlite_store = sq_state" by (simp add: sqlite_store_def)
  have "sq.good V (new_world empty_sq_db)"
    by (simp add: sq.good_def new_world_def state empty_sq empty_inv)
  moreover have "tries mid empty_rel_state = 0" by (simp add: tries_def empty_rel_state_def)
  ultimately have v: "sq.good V ?v" "tries mid (sq_state (tw_store ?v)) = int (run_claims V sqlite_store mid calls (new_world empty_sq_db))"
    using sq.run_counted [of V "new_world empty_sq_db", where mid = mid and calls = calls] by (simp_all add: state new_world_def empty_sq)
  moreover have "tries mid (sq_state (tw_store ?v)) \<le> 3"
    using sq.good_row_outbox [OF v(1), of mid] by (auto simp: tries_def state split: option.splits)
  ultimately show ?thesis by (simp add: sq.good_def state)
qed

text \<open>The number of the last checkpoint is under its hash, so the head also fixes the length.\<close>

lemma head_fixes_length:
  assumes "verify_audit_chain V st" and "verify_audit_chain V st'" and "rs_audits st \<noteq> []" and "rs_audits st' \<noteq> []"
    and "chain_head au_hash id zero_hash (rs_audits st) = chain_head au_hash id zero_hash (rs_audits st')" and "\<not> collision (env_hash V)"
  shows "length (rs_audits st) = length (rs_audits st')"
proof -
  obtain as a bs b where ends: "rs_audits st = as @ [a]" "rs_audits st' = bs @ [b]"
    using assms(3,4) by (meson rev_exhaust)
  then have a: "au_seq a = int (length as) + 1" "canonical_hash (env_hash V) (audit_payload a) = Inr (au_hash a)"
    and b: "au_seq b = int (length bs) + 1" "canonical_hash (env_hash V) (audit_payload b) = Inr (au_hash b)"
    using assms(1,2) by (simp_all add: verify_audit_chain_def verify_from_snoc chash_plain)
  have "au_hash a = au_hash b" using assms(5) by (simp add: ends chain_head_def)
  then have "au_seq a = au_seq b" using audit.same_stamp [OF a(2) b(2) _ assms(6)] by (simp add: audit_content_def)
  then show ?thesis using a(1) b(1) by (simp add: ends)
qed

text \<open>
  C29. The head of the audit chain binds the whole history: of two states whose chains verify, both
  empty or both not, with the same head hash, the checkpoints are as many and agree one by one in number,
  tenant, project, event, object and payload hash, unless SHA-256 has a collision.
\<close>
theorem audit_chain_tamper_evident:
  assumes "verify_audit_chain V st" and "verify_audit_chain V st'"
    and "(rs_audits st = []) = (rs_audits st' = [])"
    and "chain_head au_hash id zero_hash (rs_audits st) = chain_head au_hash id zero_hash (rs_audits st')"
    and "\<not> collision (env_hash V)"
  shows "map audit_content (rs_audits st) = map audit_content (rs_audits st')"
proof (cases "rs_audits st = []")
  case False
  then have "length (rs_audits st) = length (rs_audits st')" using assms by (intro head_fixes_length) simp_all
  then show ?thesis
    by (intro audit.head_binds) (use assms in \<open>auto simp: verify_audit_chain_def intro: verify_from_links\<close>)
qed (use assms(3) in simp)


text \<open>
  C27. One idempotency key stands for one request: once a claim of a key was granted, and
  whatever calls follow, another claim of that key is granted only for the same tenant,
  project, operation and request (up to a SHA-256 collision), and it returns the same claim.
\<close>
theorem idempotency_key_binds_request:
  assumes "w = trust_run V sqlite_store calls (new_world empty_sq_db)"
    and "claim_idempotency V sqlite_store t p key operation request w = (Inr r, v)"
    and "claim_idempotency V sqlite_store t' p' key operation' request' (trust_run V sqlite_store later v) = (Inr r', v')"
    and "\<not> collision (env_hash V)"
  shows "t' = t \<and> p' = p \<and> operation' = operation \<and> canon request' = canon request \<and> claim_of r' = claim_of r"
proof -
  have state: "st_state sqlite_store = sq_state" by (simp add: sqlite_store_def)
  have good: "sq.good V w"
    unfolding assms(1) by (rule sq.trust_run_good) (simp add: sq.good_def new_world_def empty_sq empty_inv state)
  obtain h where h: "canonical_hash (env_hash V) request = Inr h" "claim_of r = (t, p, operation, h)"
    and v: "sq.good V v" "claimed key (t, p, operation, h) (st_state sqlite_store (tw_store v))"
    using wp_apply [OF sq.claim_returns [OF good] assms(2)] by blast
  have late: "sq.good V (trust_run V sqlite_store later v)"
    "claimed key (t, p, operation, h) (st_state sqlite_store (tw_store (trust_run V sqlite_store later v)))"
    using sq.trust_run_claims [where V = V and k = key and c = "(t, p, operation, h)" and w = v and calls = later] v by auto
  obtain h' where h': "canonical_hash (env_hash V) request' = Inr h'" "claim_of r' = (t', p', operation', h')"
    and same: "(t, p, operation, h) = (t', p', operation', h')"
    using wp_apply [OF sq.claim_returns [OF late(1)] assms(3)] late(2) by blast
  have "canon request' = canon request"
    using h(1) h'(1) same assms(4)
    by (auto simp: canonical_hash_def collision_def split: sum.splits) (metis canonical_bytes_inj)
  with h h' same show ?thesis by simp
qed

text \<open>
  A dispatch runs the handler only for a message that was not delivered, that the
  authority check allows and whose topic has a handler, and counts the attempt before; at
  the fourth attempt it is refused. Every other outcome leaves the store as it was.
\<close>
theorem dispatch_counts_attempts:
  assumes "w = trust_run V sqlite_store calls (new_world empty_sq_db)"
    and "dispatch_one V sqlite_store d worker mid w = (Inr r, v)"
  shows "if dr_status r = Del_DELIVERED \<or> dr_status r = Del_FAILED
    then \<exists>m m' handler. row_by ob_id mid (rs_outbox (sq_state (tw_store w))) = Some m \<and>
       row_by ob_id mid (rs_outbox (sq_state (tw_store v))) = Some m' \<and>
       ob_status m \<noteq> Out_DELIVERED \<and> dp_authorize d m \<and> map_of (dp_handlers d) (ob_topic m) = Some handler \<and>
       ob_attempts m < 3 \<and> ob_attempts m' = ob_attempts m + 1 \<and>
       ob_status m' = (if dr_status r = Del_DELIVERED then Out_DELIVERED else Out_FAILED)
    else sq_state (tw_store v) = sq_state (tw_store w)"
proof -
  have state: "st_state sqlite_store = sq_state" by (simp add: sqlite_store_def)
  have good: "sq.good V w"
    unfolding assms(1) by (rule sq.trust_run_good) (simp add: sq.good_def new_world_def empty_sq empty_inv state)
  from wp_apply [OF sq.dispatch_one_effect [OF good] assms(2)] show ?thesis unfolding state .
qed


definition sample_env :: env where
  "sample_env = \<lparr>env_hash = id, env_clock = int, env_uuid = str_nat, env_dt_json = iso\<rparr>"

lemma sample_no_collision: "\<not> collision (env_hash sample_env)"
  by (simp add: collision_def sample_env_def)

definition sample_checkpoint :: "int \<Rightarrow> audit_checkpoint" where
  "sample_checkpoint created = (let a = \<lparr>au_seq = 1, au_tenant = ''t'', au_project = ''p'', au_event = ''outbox_enqueued'',
     au_object = ''m'', au_payload_hash = ''h'', au_previous = zero_hash, au_hash = [], au_created = created\<rparr>
   in a\<lparr>au_hash := chash id (audit_payload a)\<rparr>)"

theorem audit_chain_tamper_evident_witness:
  "map audit_content (rs_audits (empty_rel_state\<lparr>rs_audits := [sample_checkpoint 5]\<rparr>)) =
   map audit_content (rs_audits (empty_rel_state\<lparr>rs_audits := [sample_checkpoint 9]\<rparr>))"
  by (rule audit_chain_tamper_evident [where V = sample_env])
    (simp_all add: verify_audit_chain_def sample_checkpoint_def sample_env_def Let_def audit_payload_def chain_head_def
      collision_def)

lemmas kernel_defs = trust_run_def discard_def new_world_def bind_project_def assert_scope_def scope_check_def
  the_state_def hash_any_def transact_def on_store_def next_audit_def audit_event_def enqueue_outbox_def
  claim_outbox_def mark_outbox_delivered_def mark_outbox_failed_def claim_idempotency_def dispatch_one_def
  sq_defs insert_or_update_def sq_state_def sq_last_seq_def empty_sq_db_def utc_now_def prog_defs Let_def

definition sample_world :: "sq_db trust_world" where
  "sample_world = trust_run sample_env sqlite_store
     [C_bind ''t'' ''p'', C_enqueue ''t'' ''p'' ''m'' ''mail'' (JInt 7) ''ref'' ''k''] (new_world empty_sq_db)"

definition sample_dispatcher :: outbox_dispatcher where
  "sample_dispatcher = \<lparr>dp_authorize = (\<lambda>_. True), dp_max_batch = 25, dp_handlers = [(''mail'', \<lambda>_. Inr (Some ''sent''))]\<rparr>"

lemma sample_hash: "canonical_hash (env_hash sample_env) (JInt i) = Inr (chash (env_hash sample_env) (JInt i))"
  by (rule chash_plain) simp

lemma sample_hashes_differ:
  assumes "au_seq a \<noteq> au_seq b"
  shows "chash (env_hash sample_env) (audit_payload a) \<noteq> chash (env_hash sample_env) (audit_payload b)"
proof
  assume "chash (env_hash sample_env) (audit_payload a) = chash (env_hash sample_env) (audit_payload b)"
  from chash_binds [OF plain_audit_payload plain_audit_payload this]
  have "canon (audit_payload a) = canon (audit_payload b)"
    using sample_no_collision unfolding collision_def by blast
  moreover obtain t where "canon (audit_payload a) = Inr t"
    by (simp add: audit_payload_def utf8_def utf8_char_def)
  ultimately have "audit_content a = audit_content b" using audit.body_content by metis
  with assms show False by (simp add: audit_content_def)
qed

definition sample_bound :: "sq_db trust_world" where
  "sample_bound = trust_run sample_env sqlite_store [C_bind ''t'' ''p''] (new_world empty_sq_db)"

theorem dispatch_counts_attempts_witness:
  "\<exists>r v m. dispatch_one sample_env sqlite_store sample_dispatcher ''w1'' ''m'' sample_world = (Inr r, v) \<and>
     row_by ob_id ''m'' (rs_outbox (sq_state (tw_store v))) = Some m \<and> ob_status m = Out_DELIVERED"
proof -
  have "\<exists>r v. dispatch_one sample_env sqlite_store sample_dispatcher ''w1'' ''m'' sample_world = (Inr r, v) \<and> dr_status r = Del_DELIVERED"
    by (simp add: sample_world_def sample_dispatcher_def kernel_defs sample_hash sample_hashes_differ)
  then obtain r v where r: "dispatch_one sample_env sqlite_store sample_dispatcher ''w1'' ''m'' sample_world = (Inr r, v)"
    "dr_status r = Del_DELIVERED" by blast
  from dispatch_counts_attempts [OF sample_world_def r(1)] r show ?thesis by auto
qed

theorem idempotency_key_binds_request_witness:
  "\<exists>r v r' v'. claim_idempotency sample_env sqlite_store ''t'' ''p'' ''k'' ''op'' (JInt 1) sample_bound = (Inr r, v) \<and>
     claim_idempotency sample_env sqlite_store ''t'' ''p'' ''k'' ''op'' (JInt 1) v = (Inr r', v') \<and> claim_of r' = claim_of r"
proof -
  let ?claim = "claim_idempotency sample_env sqlite_store ''t'' ''p'' ''k'' ''op'' (JInt 1)"
  have "\<exists>r v r' v'. ?claim sample_bound = (Inr r, v) \<and> ?claim v = (Inr r', v')"
    by (simp add: sample_bound_def kernel_defs sample_hash)
  then obtain r v r' v' where c: "?claim sample_bound = (Inr r, v)" "?claim v = (Inr r', v')" by blast
  then have "?claim (trust_run sample_env sqlite_store [] v) = (Inr r', v')" by (simp add: trust_run_def)
  from idempotency_key_binds_request [OF sample_bound_def c(1) this sample_no_collision] c show ?thesis by blast
qed



end
