(* ===== verification/Vocabulary.thy ===== *)
theory Vocabulary
  imports Canonical
begin

section \<open>Closed vocabularies of the action plane\<close>

text \<open>
  Models \<^verbatim>\<open>agency/actions/vocabulary.py\<close>: the risk classes R0 to R6, environments,
  operation kinds, audiences, data classes, controls and the autonomy dial, each an enum
  of the code. \<open>.._value\<close> is the enum's string value, \<open>.._rank\<close> its \<open>rank\<close> property.
\<close>

definition risk_policy_version :: string where
  "risk_policy_version = ''amc-action-risk/v1''"

datatype risk_class =
    R0
  | R1
  | R2
  | R3
  | R4
  | R5
  | R6

fun risk_class_value :: "risk_class \<Rightarrow> string" where
  "risk_class_value R0 = ''R0''"
| "risk_class_value R1 = ''R1''"
| "risk_class_value R2 = ''R2''"
| "risk_class_value R3 = ''R3''"
| "risk_class_value R4 = ''R4''"
| "risk_class_value R5 = ''R5''"
| "risk_class_value R6 = ''R6''"

fun risk_class_rank :: "risk_class \<Rightarrow> nat" where
  "risk_class_rank R0 = 0"
| "risk_class_rank R1 = 1"
| "risk_class_rank R2 = 2"
| "risk_class_rank R3 = 3"
| "risk_class_rank R4 = 4"
| "risk_class_rank R5 = 5"
| "risk_class_rank R6 = 6"

text \<open>Risk classes are ordered by rank, which is how the code compares them.\<close>

instantiation risk_class :: linorder
begin

definition less_eq_risk_class :: "risk_class \<Rightarrow> risk_class \<Rightarrow> bool" where
  "less_eq_risk_class a b = (risk_class_rank a \<le> risk_class_rank b)"

definition less_risk_class :: "risk_class \<Rightarrow> risk_class \<Rightarrow> bool" where
  "less_risk_class a b = (risk_class_rank a < risk_class_rank b)"

instance
proof
  fix a b c :: risk_class
  show "a < b \<longleftrightarrow> a \<le> b \<and> \<not> b \<le> a" by (auto simp: less_eq_risk_class_def less_risk_class_def)
  show "a \<le> a" by (simp add: less_eq_risk_class_def)
  show "a \<le> b \<Longrightarrow> b \<le> c \<Longrightarrow> a \<le> c" by (simp add: less_eq_risk_class_def)
  show "a \<le> b \<Longrightarrow> b \<le> a \<Longrightarrow> a = b"
    by (cases a; cases b) (simp_all add: less_eq_risk_class_def)
  show "a \<le> b \<or> b \<le> a" by (auto simp: less_eq_risk_class_def)
qed

end

definition all_risk_classes :: "risk_class list" where
  "all_risk_classes = [R0, R1, R2, R3, R4, R5, R6]"

datatype environment =
    Env_LOCAL
  | Env_SANDBOX
  | Env_LIVE

fun environment_value :: "environment \<Rightarrow> string" where
  "environment_value Env_LOCAL = ''LOCAL''"
| "environment_value Env_SANDBOX = ''SANDBOX''"
| "environment_value Env_LIVE = ''LIVE''"

datatype operation_kind =
    Op_READ
  | Op_CREATE_LOCAL
  | Op_WRITE_DRAFT
  | Op_PUBLISH
  | Op_COMMUNICATE
  | Op_SPEND
  | Op_DELETE
  | Op_TRANSFER
  | Op_PERMISSION_CHANGE
  | Op_POLICY_CHANGE

fun operation_kind_value :: "operation_kind \<Rightarrow> string" where
  "operation_kind_value Op_READ = ''READ''"
| "operation_kind_value Op_CREATE_LOCAL = ''CREATE_LOCAL''"
| "operation_kind_value Op_WRITE_DRAFT = ''WRITE_DRAFT''"
| "operation_kind_value Op_PUBLISH = ''PUBLISH''"
| "operation_kind_value Op_COMMUNICATE = ''COMMUNICATE''"
| "operation_kind_value Op_SPEND = ''SPEND''"
| "operation_kind_value Op_DELETE = ''DELETE''"
| "operation_kind_value Op_TRANSFER = ''TRANSFER''"
| "operation_kind_value Op_PERMISSION_CHANGE = ''PERMISSION_CHANGE''"
| "operation_kind_value Op_POLICY_CHANGE = ''POLICY_CHANGE''"

datatype reversibility =
    Rev_REVERSIBLE
  | Rev_COMPENSATABLE
  | Rev_IRREVERSIBLE

fun reversibility_value :: "reversibility \<Rightarrow> string" where
  "reversibility_value Rev_REVERSIBLE = ''REVERSIBLE''"
| "reversibility_value Rev_COMPENSATABLE = ''COMPENSATABLE''"
| "reversibility_value Rev_IRREVERSIBLE = ''IRREVERSIBLE''"

fun reversibility_rank :: "reversibility \<Rightarrow> nat" where
  "reversibility_rank Rev_REVERSIBLE = 0"
| "reversibility_rank Rev_COMPENSATABLE = 1"
| "reversibility_rank Rev_IRREVERSIBLE = 2"

datatype audience =
    Aud_NONE
  | Aud_INTERNAL
  | Aud_CLIENT
  | Aud_PUBLIC

fun audience_value :: "audience \<Rightarrow> string" where
  "audience_value Aud_NONE = ''NONE''"
| "audience_value Aud_INTERNAL = ''INTERNAL''"
| "audience_value Aud_CLIENT = ''CLIENT''"
| "audience_value Aud_PUBLIC = ''PUBLIC''"

fun audience_rank :: "audience \<Rightarrow> nat" where
  "audience_rank Aud_NONE = 0"
| "audience_rank Aud_INTERNAL = 1"
| "audience_rank Aud_CLIENT = 2"
| "audience_rank Aud_PUBLIC = 3"

datatype data_class =
    Data_PUBLIC
  | Data_INTERNAL
  | Data_CONFIDENTIAL
  | Data_RESTRICTED

fun data_class_value :: "data_class \<Rightarrow> string" where
  "data_class_value Data_PUBLIC = ''PUBLIC''"
| "data_class_value Data_INTERNAL = ''INTERNAL''"
| "data_class_value Data_CONFIDENTIAL = ''CONFIDENTIAL''"
| "data_class_value Data_RESTRICTED = ''RESTRICTED''"

fun data_class_rank :: "data_class \<Rightarrow> nat" where
  "data_class_rank Data_PUBLIC = 0"
| "data_class_rank Data_INTERNAL = 1"
| "data_class_rank Data_CONFIDENTIAL = 2"
| "data_class_rank Data_RESTRICTED = 3"

datatype retry_class =
    Retry_RETRY_SAFE
  | Retry_NON_RETRYABLE
  | Retry_COMPENSATABLE

fun retry_class_value :: "retry_class \<Rightarrow> string" where
  "retry_class_value Retry_RETRY_SAFE = ''RETRY_SAFE''"
| "retry_class_value Retry_NON_RETRYABLE = ''NON_RETRYABLE''"
| "retry_class_value Retry_COMPENSATABLE = ''COMPENSATABLE''"

datatype impl_status =
    Impl_DEFINED
  | Impl_IMPLEMENTED
  | Impl_TESTED
  | Impl_VERIFIED
  | Impl_LIVE_GATED
  | Impl_UNAVAILABLE
  | Impl_BLOCKED
  | Impl_NOT_IMPLEMENTED
  | Impl_PROVIDER_GAP
  | Impl_VOID_DETECTED

fun impl_status_value :: "impl_status \<Rightarrow> string" where
  "impl_status_value Impl_DEFINED = ''DEFINED''"
| "impl_status_value Impl_IMPLEMENTED = ''IMPLEMENTED''"
| "impl_status_value Impl_TESTED = ''TESTED''"
| "impl_status_value Impl_VERIFIED = ''VERIFIED''"
| "impl_status_value Impl_LIVE_GATED = ''LIVE_GATED''"
| "impl_status_value Impl_UNAVAILABLE = ''UNAVAILABLE''"
| "impl_status_value Impl_BLOCKED = ''BLOCKED''"
| "impl_status_value Impl_NOT_IMPLEMENTED = ''NOT_IMPLEMENTED''"
| "impl_status_value Impl_PROVIDER_GAP = ''PROVIDER_GAP''"
| "impl_status_value Impl_VOID_DETECTED = ''VOID_DETECTED''"

datatype control =
    Ctl_TENANT_SCOPE
  | Ctl_PURPOSE_RECORDED
  | Ctl_RATE_LIMIT
  | Ctl_DATA_ACCESS_CHECK
  | Ctl_WORK_CONTRACT
  | Ctl_OUTPUT_VALIDATION
  | Ctl_VERIFIED_TARGET
  | Ctl_IDEMPOTENCY
  | Ctl_REVERSIBLE_PLAN
  | Ctl_READ_BACK
  | Ctl_EXACT_APPROVAL
  | Ctl_APPROVAL_EXPIRY
  | Ctl_FINANCIAL_APPROVAL
  | Ctl_BUDGET_RESERVATION
  | Ctl_SPEND_RECONCILIATION
  | Ctl_STEP_UP_AUTH
  | Ctl_INDEPENDENT_APPROVER
  | Ctl_RECOVERY_ANALYSIS
  | Ctl_BLAST_RADIUS_REVIEW
  | Ctl_PRIVILEGED_REVIEW
  | Ctl_NO_SELF_APPROVAL
  | Ctl_POLICY_VERSION_PIN
  | Ctl_DEPENDENCY_IMPACT_REVIEW
  | Ctl_LIVE_GATE

fun control_value :: "control \<Rightarrow> string" where
  "control_value Ctl_TENANT_SCOPE = ''TENANT_SCOPE''"
| "control_value Ctl_PURPOSE_RECORDED = ''PURPOSE_RECORDED''"
| "control_value Ctl_RATE_LIMIT = ''RATE_LIMIT''"
| "control_value Ctl_DATA_ACCESS_CHECK = ''DATA_ACCESS_CHECK''"
| "control_value Ctl_WORK_CONTRACT = ''WORK_CONTRACT''"
| "control_value Ctl_OUTPUT_VALIDATION = ''OUTPUT_VALIDATION''"
| "control_value Ctl_VERIFIED_TARGET = ''VERIFIED_TARGET''"
| "control_value Ctl_IDEMPOTENCY = ''IDEMPOTENCY''"
| "control_value Ctl_REVERSIBLE_PLAN = ''REVERSIBLE_PLAN''"
| "control_value Ctl_READ_BACK = ''READ_BACK''"
| "control_value Ctl_EXACT_APPROVAL = ''EXACT_APPROVAL''"
| "control_value Ctl_APPROVAL_EXPIRY = ''APPROVAL_EXPIRY''"
| "control_value Ctl_FINANCIAL_APPROVAL = ''FINANCIAL_APPROVAL''"
| "control_value Ctl_BUDGET_RESERVATION = ''BUDGET_RESERVATION''"
| "control_value Ctl_SPEND_RECONCILIATION = ''SPEND_RECONCILIATION''"
| "control_value Ctl_STEP_UP_AUTH = ''STEP_UP_AUTH''"
| "control_value Ctl_INDEPENDENT_APPROVER = ''INDEPENDENT_APPROVER''"
| "control_value Ctl_RECOVERY_ANALYSIS = ''RECOVERY_ANALYSIS''"
| "control_value Ctl_BLAST_RADIUS_REVIEW = ''BLAST_RADIUS_REVIEW''"
| "control_value Ctl_PRIVILEGED_REVIEW = ''PRIVILEGED_REVIEW''"
| "control_value Ctl_NO_SELF_APPROVAL = ''NO_SELF_APPROVAL''"
| "control_value Ctl_POLICY_VERSION_PIN = ''POLICY_VERSION_PIN''"
| "control_value Ctl_DEPENDENCY_IMPACT_REVIEW = ''DEPENDENCY_IMPACT_REVIEW''"
| "control_value Ctl_LIVE_GATE = ''LIVE_GATE''"

text \<open>Minimum controls per class (\<^verbatim>\<open>CLASS_CONTROLS\<close>).\<close>

fun class_controls :: "risk_class \<Rightarrow> control set" where
  "class_controls R0 = {Ctl_TENANT_SCOPE, Ctl_PURPOSE_RECORDED, Ctl_RATE_LIMIT}"
| "class_controls R1 = {Ctl_TENANT_SCOPE, Ctl_WORK_CONTRACT, Ctl_OUTPUT_VALIDATION}"
| "class_controls R2 = {Ctl_TENANT_SCOPE, Ctl_VERIFIED_TARGET, Ctl_IDEMPOTENCY, Ctl_REVERSIBLE_PLAN, Ctl_READ_BACK}"
| "class_controls R3 = {Ctl_TENANT_SCOPE, Ctl_EXACT_APPROVAL, Ctl_APPROVAL_EXPIRY, Ctl_IDEMPOTENCY, Ctl_READ_BACK, Ctl_LIVE_GATE}"
| "class_controls R4 = {Ctl_TENANT_SCOPE, Ctl_EXACT_APPROVAL, Ctl_FINANCIAL_APPROVAL, Ctl_BUDGET_RESERVATION, Ctl_SPEND_RECONCILIATION, Ctl_APPROVAL_EXPIRY, Ctl_IDEMPOTENCY, Ctl_LIVE_GATE}"
| "class_controls R5 = {Ctl_TENANT_SCOPE, Ctl_EXACT_APPROVAL, Ctl_STEP_UP_AUTH, Ctl_INDEPENDENT_APPROVER, Ctl_RECOVERY_ANALYSIS, Ctl_BLAST_RADIUS_REVIEW, Ctl_APPROVAL_EXPIRY, Ctl_IDEMPOTENCY, Ctl_LIVE_GATE}"
| "class_controls R6 = {Ctl_TENANT_SCOPE, Ctl_EXACT_APPROVAL, Ctl_PRIVILEGED_REVIEW, Ctl_NO_SELF_APPROVAL, Ctl_POLICY_VERSION_PIN, Ctl_APPROVAL_EXPIRY, Ctl_LIVE_GATE}"

datatype autonomy_level =
    Auto_OBSERVE
  | Auto_DRAFT
  | Auto_PREPARE
  | Auto_REQUEST_APPROVAL

fun autonomy_level_value :: "autonomy_level \<Rightarrow> string" where
  "autonomy_level_value Auto_OBSERVE = ''OBSERVE''"
| "autonomy_level_value Auto_DRAFT = ''DRAFT''"
| "autonomy_level_value Auto_PREPARE = ''PREPARE''"
| "autonomy_level_value Auto_REQUEST_APPROVAL = ''REQUEST_APPROVAL''"

fun auto_ceiling :: "autonomy_level \<Rightarrow> risk_class" where
  "auto_ceiling Auto_OBSERVE = R0"
| "auto_ceiling Auto_DRAFT = R1"
| "auto_ceiling Auto_PREPARE = R2"
| "auto_ceiling Auto_REQUEST_APPROVAL = R2"

fun autonomy_rank :: "autonomy_level \<Rightarrow> nat" where
  "autonomy_rank Auto_OBSERVE = 0"
| "autonomy_rank Auto_DRAFT = 1"
| "autonomy_rank Auto_PREPARE = 2"
| "autonomy_rank Auto_REQUEST_APPROVAL = 3"

definition default_autonomy :: autonomy_level where
  "default_autonomy = Auto_DRAFT"

definition status_labels :: "(string \<times> string) list" where
  "status_labels = [
     (''PROVIDER_GAP'', ''Tool not connected''),
     (''BLOCKED_DEPENDENCY'', ''Waiting on prerequisite''),
     (''AWAITING_APPROVAL'', ''Approval required''),
     (''RECONCILING'', ''Checking outcome''),
     (''LIVE_GATED'', ''External action disabled''),
     (''VERIFIED'', ''Independently checked''),
     (''PROPOSED'', ''Proposed''),
     (''VALIDATED'', ''Validated''),
     (''PREPARED'', ''Prepared''),
     (''AUTHORIZED'', ''Ready to run''),
     (''RESERVED'', ''Budget reserved''),
     (''DISPATCHING'', ''Running''),
     (''OBSERVING'', ''Reading back the result''),
     (''COMPLETED'', ''Done and checked''),
     (''REJECTED'', ''Rejected''),
     (''BLOCKED'', ''Blocked''),
     (''EXPIRED'', ''Expired''),
     (''CANCELLED'', ''Cancelled''),
     (''FAILED'', ''Failed''),
     (''UNKNOWN'', ''Outcome unknown''),
     (''NEEDS_HUMAN'', ''Needs a person''),
     (''NOT_IMPLEMENTED'', ''Not available''),
     (''UNAVAILABLE'', ''Unavailable here''),
     (''IMPLEMENTED'', ''Available locally''),
     (''TESTED'', ''Available locally (tested)''),
     (''VOID_DETECTED'', ''No source definition'')]"

text \<open>\<open>STATUS_LABELS.get(state, state)\<close>.\<close>

definition status_label :: "string \<Rightarrow> string" where
  "status_label s = (case map_of status_labels s of Some l \<Rightarrow> l | None \<Rightarrow> s)"

end
