(* ===== verification/Risk.thy ===== *)
theory Risk
  imports Vocabulary
begin

section \<open>RiskEngine: deterministic R0 to R6 classification\<close>

text \<open>
  Models \<^verbatim>\<open>agency/actions/risk.py\<close>. \<open>assess\<close> keeps every class an action earns, takes the
  union of the controls of all of them and the controls single rules need, and explains each
  rule that fired. The two groups of lemmas below say what the classification promises: the
  facts of a request are monotone in the result, and a class the requester asks for can only
  raise it.
\<close>

definition bulk_mutation_threshold :: int where
  "bulk_mutation_threshold = 25"

definition governance_scope_prefixes :: "string list" where
  "governance_scope_prefixes = [''governance:'', ''permission:'', ''policy:'', ''role:'', ''credential:'']"

record risk_facts =
  rf_operation :: operation_kind
  rf_environment :: environment
  rf_data_class :: data_class
  rf_cost_minor :: int
  rf_currency :: "string option"
  rf_reversibility :: reversibility
  rf_audience :: audience
  rf_external :: bool
  rf_notifies :: bool
  rf_blast_radius :: int
  rf_scopes :: "string list"
  rf_dependents :: int
  rf_requested_class :: "risk_class option"

datatype effect = EffClass risk_class | EffControl control

fun effect_text :: "effect \<Rightarrow> string" where
  "effect_text (EffClass c) = ''class:'' @ risk_class_value c"
| "effect_text (EffControl c) = ''control:'' @ control_value c"

record explanation =
  ex_rule :: string
  ex_effect :: effect
  ex_reason :: string

record risk_assessment =
  ra_policy_version :: string
  ra_classes :: "risk_class list"
  ra_effective :: risk_class
  ra_controls :: "control list"
  ra_explanations :: "explanation list"
  ra_requires_approval :: bool
  ra_requires_financial_approval :: bool
  ra_requires_step_up :: bool
  ra_requires_privileged_review :: bool
  ra_live_gated :: bool
  ra_facts_hash :: string

subsection \<open>JSON forms\<close>

definition facts_json :: "risk_facts \<Rightarrow> json" where
  "facts_json f = JDict [
     (''operation'', JStr (operation_kind_value (rf_operation f))),
     (''environment'', JStr (environment_value (rf_environment f))),
     (''data_class'', JStr (data_class_value (rf_data_class f))),
     (''cost_minor'', JInt (rf_cost_minor f)),
     (''currency'', opt_str (rf_currency f)),
     (''reversibility'', JStr (reversibility_value (rf_reversibility f))),
     (''audience'', JStr (audience_value (rf_audience f))),
     (''external'', JBool (rf_external f)),
     (''notifies'', JBool (rf_notifies f)),
     (''blast_radius'', JInt (rf_blast_radius f)),
     (''scopes'', str_list (rf_scopes f)),
     (''dependents'', JInt (rf_dependents f)),
     (''requested_class'', opt_str (map_option risk_class_value (rf_requested_class f)))]"

definition explanation_json :: "explanation \<Rightarrow> json" where
  "explanation_json e = JDict [(''rule'', JStr (ex_rule e)), (''effect'', JStr (effect_text (ex_effect e))),
     (''reason'', JStr (ex_reason e))]"

definition assessment_json :: "risk_assessment \<Rightarrow> json" where
  "assessment_json r = JDict [
     (''policy_version'', JStr (ra_policy_version r)),
     (''classes'', str_list (map risk_class_value (ra_classes r))),
     (''effective'', JStr (risk_class_value (ra_effective r))),
     (''controls'', str_list (map control_value (ra_controls r))),
     (''explanations'', JList (map explanation_json (ra_explanations r))),
     (''requires_approval'', JBool (ra_requires_approval r)),
     (''requires_financial_approval'', JBool (ra_requires_financial_approval r)),
     (''requires_step_up'', JBool (ra_requires_step_up r)),
     (''requires_privileged_review'', JBool (ra_requires_privileged_review r)),
     (''live_gated'', JBool (ra_live_gated r)),
     (''facts_hash'', JStr (ra_facts_hash r))]"

lemma plain_facts_json [simp]: "plain (facts_json f)"
  by (simp add: facts_json_def)

lemma plain_assessment_json [simp]: "plain (assessment_json r)"
  by (auto simp: assessment_json_def explanation_json_def)

definition assessment_hash :: "(bytes \<Rightarrow> string) \<Rightarrow> risk_assessment \<Rightarrow> string" where
  "assessment_hash H r = chash H (assessment_json r)"

subsection \<open>Classification\<close>

text \<open>\<open>repr\<close> of a string and of a list of strings, as f-strings print them.\<close>

definition hex_digit :: "nat \<Rightarrow> char" where
  "hex_digit d = (if d < 10 then char_of (48 + d) else char_of (87 + d))"

definition repr_char :: "char \<Rightarrow> char \<Rightarrow> string" where
  "repr_char q c = (let n = of_char c :: nat in
     if c = q \<or> n = 92 then [char_of (92::nat), c]
     else if n = 9 then [char_of (92::nat), CHR ''t'']
     else if n = 10 then [char_of (92::nat), CHR ''n'']
     else if n = 13 then [char_of (92::nat), CHR ''r'']
     else if n < 32 \<or> 127 \<le> n \<and> n < 161 \<or> n = 173
       then [char_of (92::nat), CHR ''x'', hex_digit (n div 16), hex_digit (n mod 16)]
     else [c])"

definition repr_str :: "string \<Rightarrow> string" where
  "repr_str s = (let q = (if CHR 0x27 \<in> set s \<and> CHR 0x22 \<notin> set s then CHR 0x22 else CHR 0x27)
     in [q] @ concat (map (repr_char q) s) @ [q])"

definition repr_str_list :: "string list \<Rightarrow> string" where
  "repr_str_list xs = ''['' @ join '', '' (map repr_str xs) @ '']''"

definition governance_scopes :: "string list \<Rightarrow> string list" where
  "governance_scopes scopes =
     sort (filter (\<lambda>s. \<exists>p\<in>set governance_scope_prefixes. starts_with p (lower s)) scopes)"

definition add :: "string \<Rightarrow> risk_class \<Rightarrow> string \<Rightarrow> explanation" where
  "add rule c reason = \<lparr>ex_rule = rule, ex_effect = EffClass c, ex_reason = reason\<rparr>"

definition need :: "string \<Rightarrow> control \<Rightarrow> string \<Rightarrow> explanation" where
  "need rule c reason = \<lparr>ex_rule = rule, ex_effect = EffControl c, ex_reason = reason\<rparr>"

definition classes_of :: "explanation list \<Rightarrow> risk_class set" where
  "classes_of why = {c. EffClass c \<in> ex_effect ` set why}"

definition controls_of :: "explanation list \<Rightarrow> control set" where
  "controls_of why = {c. EffControl c \<in> ex_effect ` set why}"

definition fires :: "bool \<Rightarrow> explanation \<Rightarrow> explanation list" where
  "fires b e = (if b then [e] else [])"

text \<open>Rules RK01 to RK11, in the order of the code.\<close>

definition base_rules :: "risk_facts \<Rightarrow> explanation list" where
  "base_rules f =
     (let op = rf_operation f; sensitive = data_class_rank (rf_data_class f) \<ge> data_class_rank Data_CONFIDENTIAL;
          irreversible = (rf_reversibility f = Rev_IRREVERSIBLE); gov = governance_scopes (rf_scopes f) in
      fires (op = Op_READ) (add ''RK01'' R0 ''reads information without changing it'')
      @ fires (op = Op_READ \<and> sensitive)
          (need ''RK09'' Ctl_DATA_ACCESS_CHECK (''reads '' @ lower (data_class_value (rf_data_class f)) @ '' data''))
      @ fires (op = Op_CREATE_LOCAL) (add ''RK02'' R1 ''creates or prepares something inside this system only'')
      @ fires (op = Op_WRITE_DRAFT \<or> rf_external f \<and> op \<noteq> Op_READ) (add ''RK03'' R2 ''writes to a system outside this one'')
      @ fires (op \<in> {Op_PUBLISH, Op_COMMUNICATE})
          (add ''RK04'' R3 ''makes something visible to an audience or sends a message'')
      @ fires (audience_rank (rf_audience f) \<ge> audience_rank Aud_CLIENT \<and> op \<noteq> Op_READ)
          (add ''RK04a'' R3 (''reaches a '' @ lower (audience_value (rf_audience f)) @ '' audience''))
      @ fires (rf_notifies f) (add ''RK04b'' R3 ''triggers a notification to people'')
      @ fires (op = Op_SPEND) (add ''RK05'' R4 ''commits or changes money'')
      @ fires (rf_cost_minor f > 0)
          (add ''RK05a'' R4 (strip (''has an estimated cost of '' @ str_int (rf_cost_minor f) @ '' minor units ''
             @ (case rf_currency f of None \<Rightarrow> [] | Some c \<Rightarrow> c))))
      @ (if op \<in> {Op_DELETE, Op_TRANSFER} then
           if irreversible \<or> sensitive \<or> op = Op_TRANSFER
           then [add ''RK06'' R5 ''deletes or transfers something that cannot simply be restored'']
           else [add ''RK06a'' R2 ''removes something recoverable'']
         else [])
      @ fires (rf_blast_radius f > bulk_mutation_threshold \<and> op \<noteq> Op_READ)
          (add ''RK07'' R5 (''affects '' @ str_int (rf_blast_radius f) @ '' resources (over '' @ str_int bulk_mutation_threshold @ '')''))
      @ fires (op \<in> {Op_PERMISSION_CHANGE, Op_POLICY_CHANGE})
          (add ''RK08'' R6 ''changes who or what may authorise future actions'')
      @ fires (gov \<noteq> []) (add ''RK08a'' R6 (''requests governance scopes '' @ repr_str_list gov))
      @ fires (irreversible \<and> op \<noteq> Op_READ) (need ''RK10'' Ctl_RECOVERY_ANALYSIS ''the effect cannot be undone'')
      @ fires (rf_dependents f > 0 \<and> op \<noteq> Op_READ)
          (need ''RK11'' Ctl_DEPENDENCY_IMPACT_REVIEW
             (str_int (rf_dependents f) @ '' downstream item(s) depend on the target'')))"

definition requested_rule :: "risk_facts \<Rightarrow> explanation list \<Rightarrow> explanation list" where
  "requested_rule f why = (case rf_requested_class f of None \<Rightarrow> []
     | Some c \<Rightarrow> fires (c \<notin> classes_of why \<and> (\<forall>d\<in>classes_of why. risk_class_rank d < risk_class_rank c))
         (add ''RK12'' c ''the requester asked for stricter handling (a request can raise risk, never lower it)''))"

definition unclassified_rule :: "explanation list \<Rightarrow> explanation list" where
  "unclassified_rule why = fires (classes_of why = {}) (add ''RK00'' R5 ''the operation could not be classified'')"

definition class_rules :: "risk_facts \<Rightarrow> explanation list" where
  "class_rules f = (let why = base_rules f; why' = why @ requested_rule f why in why' @ unclassified_rule why')"

definition live_rule :: "risk_facts \<Rightarrow> explanation list" where
  "live_rule f = fires (rf_environment f = Env_LIVE)
     (need ''RK13'' Ctl_LIVE_GATE ''LIVE execution is disabled in this deployment'')"

definition all_controls :: "control list" where
  "all_controls = [Ctl_TENANT_SCOPE, Ctl_PURPOSE_RECORDED, Ctl_RATE_LIMIT, Ctl_DATA_ACCESS_CHECK, Ctl_WORK_CONTRACT,
     Ctl_OUTPUT_VALIDATION, Ctl_VERIFIED_TARGET, Ctl_IDEMPOTENCY, Ctl_REVERSIBLE_PLAN, Ctl_READ_BACK, Ctl_EXACT_APPROVAL,
     Ctl_APPROVAL_EXPIRY, Ctl_FINANCIAL_APPROVAL, Ctl_BUDGET_RESERVATION, Ctl_SPEND_RECONCILIATION, Ctl_STEP_UP_AUTH,
     Ctl_INDEPENDENT_APPROVER, Ctl_RECOVERY_ANALYSIS, Ctl_BLAST_RADIUS_REVIEW, Ctl_PRIVILEGED_REVIEW, Ctl_NO_SELF_APPROVAL,
     Ctl_POLICY_VERSION_PIN, Ctl_DEPENDENCY_IMPACT_REVIEW, Ctl_LIVE_GATE]"

definition assess :: "(bytes \<Rightarrow> string) \<Rightarrow> risk_facts \<Rightarrow> risk_assessment" where
  "assess H f =
     (let why = class_rules f; classes = classes_of why;
          ordered = filter (\<lambda>c. c \<in> classes) all_risk_classes;
          effective = Max (set ordered);
          why' = why @ live_rule f;
          controls = controls_of why' \<union> (\<Union>c\<in>classes. class_controls c);
          live = (rf_environment f = Env_LIVE \<and> risk_class_rank effective \<ge> risk_class_rank R2) in
      \<lparr>ra_policy_version = risk_policy_version,
       ra_classes = ordered,
       ra_effective = effective,
       ra_controls = sort_key control_value (filter (\<lambda>c. c \<in> controls) all_controls),
       ra_explanations = why',
       ra_requires_approval = risk_class_rank effective \<ge> risk_class_rank R3,
       ra_requires_financial_approval = R4 \<in> classes,
       ra_requires_step_up = R5 \<in> classes,
       ra_requires_privileged_review = R6 \<in> classes,
       ra_live_gated = (live \<or> rf_environment f = Env_LIVE),
       ra_facts_hash = chash H (facts_json f)\<rparr>)"

subsection \<open>What the rules contribute\<close>

lemma classes_of_code [code]:
  "classes_of why = set (concat (map (\<lambda>e. case ex_effect e of EffClass c \<Rightarrow> [c] | EffControl k \<Rightarrow> []) why))"
  unfolding classes_of_def by (force split: effect.splits)

lemma controls_of_code [code]:
  "controls_of why = set (concat (map (\<lambda>e. case ex_effect e of EffControl k \<Rightarrow> [k] | EffClass c \<Rightarrow> []) why))"
  unfolding controls_of_def by (force split: effect.splits)

lemma classes_of_simps [simp]:
  "classes_of [] = {}"
  "classes_of (xs @ ys) = classes_of xs \<union> classes_of ys"
  "classes_of (fires b (add r c x)) = (if b then {c} else {})"
  "classes_of (fires b (need r k x)) = {}"
  "classes_of [add r c x] = {c}"
  by (auto simp: classes_of_def fires_def add_def need_def)

lemma controls_of_simps [simp]:
  "controls_of [] = {}"
  "controls_of (xs @ ys) = controls_of xs \<union> controls_of ys"
  "controls_of (fires b (add r c x)) = {}"
  "controls_of (fires b (need r k x)) = (if b then {k} else {})"
  "controls_of [add r c x] = {}"
  by (auto simp: controls_of_def fires_def add_def need_def)

lemma classes_of_if: "classes_of (if b then xs else ys) = (if b then classes_of xs else classes_of ys)"
  by simp

lemma controls_of_if: "controls_of (if b then xs else ys) = (if b then controls_of xs else controls_of ys)"
  by simp

lemma all_risk_classes_UNIV: "set all_risk_classes = UNIV"
  by (auto simp: all_risk_classes_def intro: risk_class.exhaust)

lemma all_controls_UNIV: "set all_controls = UNIV"
  unfolding all_controls_def by (auto intro: control.exhaust)

lemma finite_risk_classes [simp]: "finite (A :: risk_class set)"
  by (rule finite_subset [OF subset_UNIV]) (metis all_risk_classes_UNIV List.finite_set)

lemma rank_le [simp]: "risk_class_rank a \<le> risk_class_rank b \<longleftrightarrow> a \<le> b"
  by (simp add: less_eq_risk_class_def)

lemma rank_less [simp]: "risk_class_rank a < risk_class_rank b \<longleftrightarrow> a < b"
  by (simp add: less_risk_class_def)

lemma base_classes:
  "classes_of (base_rules f) =
     (let op = rf_operation f; sensitive = data_class_rank (rf_data_class f) \<ge> data_class_rank Data_CONFIDENTIAL;
          irreversible = (rf_reversibility f = Rev_IRREVERSIBLE) in
      (if op = Op_READ then {R0} else {}) \<union> (if op = Op_CREATE_LOCAL then {R1} else {})
      \<union> (if op = Op_WRITE_DRAFT \<or> rf_external f \<and> op \<noteq> Op_READ then {R2} else {})
      \<union> (if op \<in> {Op_PUBLISH, Op_COMMUNICATE} then {R3} else {})
      \<union> (if audience_rank (rf_audience f) \<ge> audience_rank Aud_CLIENT \<and> op \<noteq> Op_READ then {R3} else {})
      \<union> (if rf_notifies f then {R3} else {}) \<union> (if op = Op_SPEND then {R4} else {})
      \<union> (if rf_cost_minor f > 0 then {R4} else {})
      \<union> (if op \<in> {Op_DELETE, Op_TRANSFER} then
           if irreversible \<or> sensitive \<or> op = Op_TRANSFER then {R5} else {R2} else {})
      \<union> (if rf_blast_radius f > bulk_mutation_threshold \<and> op \<noteq> Op_READ then {R5} else {})
      \<union> (if op \<in> {Op_PERMISSION_CHANGE, Op_POLICY_CHANGE} then {R6} else {})
      \<union> (if governance_scopes (rf_scopes f) \<noteq> [] then {R6} else {}))"
  by (simp only: base_rules_def Let_def classes_of_simps classes_of_if Un_empty_left Un_empty_right Un_assoc)

definition removes_for_good :: "risk_facts \<Rightarrow> bool" where
  "removes_for_good f \<longleftrightarrow> rf_reversibility f = Rev_IRREVERSIBLE
     \<or> data_class_rank (rf_data_class f) \<ge> data_class_rank Data_CONFIDENTIAL \<or> rf_operation f = Op_TRANSFER"

lemma base_class_iff:
  "c \<in> classes_of (base_rules f) \<longleftrightarrow> (case c of
     R0 \<Rightarrow> rf_operation f = Op_READ
   | R1 \<Rightarrow> rf_operation f = Op_CREATE_LOCAL
   | R2 \<Rightarrow> rf_operation f = Op_WRITE_DRAFT \<or> rf_external f \<and> rf_operation f \<noteq> Op_READ
       \<or> rf_operation f = Op_DELETE \<and> \<not> removes_for_good f
   | R3 \<Rightarrow> rf_operation f \<in> {Op_PUBLISH, Op_COMMUNICATE} \<or> rf_notifies f
       \<or> audience_rank (rf_audience f) \<ge> audience_rank Aud_CLIENT \<and> rf_operation f \<noteq> Op_READ
   | R4 \<Rightarrow> rf_operation f = Op_SPEND \<or> rf_cost_minor f > 0
   | R5 \<Rightarrow> rf_operation f \<in> {Op_DELETE, Op_TRANSFER} \<and> removes_for_good f
       \<or> rf_blast_radius f > bulk_mutation_threshold \<and> rf_operation f \<noteq> Op_READ
   | R6 \<Rightarrow> rf_operation f \<in> {Op_PERMISSION_CHANGE, Op_POLICY_CHANGE} \<or> governance_scopes (rf_scopes f) \<noteq> [])"
proof -
  have one: "x \<in> (if b then {y} else {}) \<longleftrightarrow> b \<and> x = y"
    and two: "x \<in> (if b then if b' then {y} else {z} else {}) \<longleftrightarrow> b \<and> (if b' then x = y else x = z)"
    for x y z :: risk_class and b b' by auto
  show ?thesis
    by (cases c; simp only: base_classes Let_def Un_iff one two risk_class.case risk_class.distinct
        removes_for_good_def simp_thms if_bool_eq_disj; blast)
qed

text \<open>Every operation of the closed vocabulary earns a class, so RK00 never has to fire.\<close>

lemma base_classes_nonempty: "classes_of (base_rules f) \<noteq> {}"
  by (cases "rf_operation f") (simp_all add: base_classes)

lemma requested_classes:
  "classes_of (requested_rule f why) = (case rf_requested_class f of None \<Rightarrow> {}
     | Some c \<Rightarrow> if \<forall>d\<in>classes_of why. d < c then {c} else {})"
  by (auto simp: requested_rule_def split: option.splits)

definition classes_for :: "risk_facts \<Rightarrow> risk_class set" where
  "classes_for f = classes_of (base_rules f) \<union> classes_of (requested_rule f (base_rules f))"

lemma class_rules_classes: "classes_of (class_rules f) = classes_for f"
  using base_classes_nonempty [of f]
  by (auto simp: class_rules_def Let_def unclassified_rule_def classes_for_def)

lemma class_rules_controls: "controls_of (class_rules f) = controls_of (base_rules f)"
  by (auto simp: class_rules_def Let_def unclassified_rule_def requested_rule_def split: option.splits)

lemma assess_classes [simp]: "set (ra_classes (assess H f)) = classes_for f"
  by (auto simp: assess_def Let_def class_rules_classes all_risk_classes_UNIV)

lemma assess_effective [simp]: "ra_effective (assess H f) = Max (classes_for f)"
  by (auto simp: assess_def Let_def class_rules_classes all_risk_classes_UNIV intro!: arg_cong [where f = Max])

lemma assess_controls [simp]: "set (ra_controls (assess H f)) =
   controls_of (base_rules f) \<union> controls_of (live_rule f) \<union> (\<Union>c\<in>classes_for f. class_controls c)"
  by (auto simp: assess_def Let_def class_rules_classes class_rules_controls all_controls_UNIV)

lemma assess_flags [simp]:
  "ra_requires_approval (assess H f) \<longleftrightarrow> R3 \<le> Max (classes_for f)"
  "ra_requires_financial_approval (assess H f) \<longleftrightarrow> R4 \<in> classes_for f"
  "ra_requires_step_up (assess H f) \<longleftrightarrow> R5 \<in> classes_for f"
  "ra_requires_privileged_review (assess H f) \<longleftrightarrow> R6 \<in> classes_for f"
  "ra_live_gated (assess H f) \<longleftrightarrow> rf_environment f = Env_LIVE"
  using assess_effective [of H f]
  by (auto simp: assess_def Let_def class_rules_classes simp flip: rank_le)

lemma classes_for_nonempty: "classes_for f \<noteq> {}"
  using base_classes_nonempty by (auto simp: classes_for_def)

lemma effective_in: "ra_effective (assess H f) \<in> classes_for f"
  using Max_in classes_for_nonempty by simp

lemma requested_max:
  "Max (classes_for f) = (case rf_requested_class f of None \<Rightarrow> Max (classes_of (base_rules f))
     | Some c \<Rightarrow> max c (Max (classes_of (base_rules f))))"
proof (cases "rf_requested_class f")
  case (Some c)
  let ?B = "classes_of (base_rules f)"
  have B: "?B \<noteq> {}" by (rule base_classes_nonempty)
  show ?thesis
  proof (cases "\<forall>d\<in>?B. d < c")
    case True
    then have "classes_for f = insert c ?B" using Some by (simp add: classes_for_def requested_classes)
    with B Some show ?thesis by (simp add: Max_insert)
  next
    case False
    then have "classes_for f = ?B" using Some by (auto simp: classes_for_def requested_classes)
    moreover have "c \<le> Max ?B" using False B by (meson Max_ge_iff finite_risk_classes not_le)
    ultimately show ?thesis using Some by (simp add: max_def)
  qed
qed (simp add: classes_for_def requested_classes)

lemma base_rules_requested [simp]: "base_rules (f\<lparr>rf_requested_class := r\<rparr>) = base_rules f"
  by (simp add: base_rules_def)

lemma live_rule_requested [simp]: "live_rule (f\<lparr>rf_requested_class := r\<rparr>) = live_rule f"
  by (simp add: live_rule_def)

text \<open>Facts at least as severe: same operation, and every other fact no better.\<close>

definition facts_le :: "risk_facts \<Rightarrow> risk_facts \<Rightarrow> bool" where
  "facts_le f g \<longleftrightarrow>
     rf_operation f = rf_operation g \<and>
     data_class_rank (rf_data_class f) \<le> data_class_rank (rf_data_class g) \<and>
     rf_cost_minor f \<le> rf_cost_minor g \<and>
     reversibility_rank (rf_reversibility f) \<le> reversibility_rank (rf_reversibility g) \<and>
     audience_rank (rf_audience f) \<le> audience_rank (rf_audience g) \<and>
     (rf_external f \<longrightarrow> rf_external g) \<and> (rf_notifies f \<longrightarrow> rf_notifies g) \<and>
     rf_blast_radius f \<le> rf_blast_radius g \<and>
     set (rf_scopes f) \<subseteq> set (rf_scopes g) \<and>
     (case rf_requested_class f of None \<Rightarrow> True
        | Some c \<Rightarrow> (case rf_requested_class g of None \<Rightarrow> False | Some d \<Rightarrow> c \<le> d))"

lemma base_dominated:
  assumes "facts_le f g" and "c \<in> classes_of (base_rules f)"
  shows "\<exists>d\<in>classes_of (base_rules g). c \<le> d"
proof -
  have gov: "governance_scopes (rf_scopes f) \<noteq> [] \<Longrightarrow> governance_scopes (rf_scopes g) \<noteq> []"
  proof -
    have "governance_scopes xs \<noteq> [] \<longleftrightarrow> (\<exists>x\<in>set xs. \<exists>p\<in>set governance_scope_prefixes. starts_with p (lower x))" for xs
      by (auto simp: governance_scopes_def filter_empty_conv simp flip: set_empty)
    moreover have "set (rf_scopes f) \<subseteq> set (rf_scopes g)" using assms(1) by (simp add: facts_le_def)
    ultimately show "governance_scopes (rf_scopes f) \<noteq> [] \<Longrightarrow> governance_scopes (rf_scopes g) \<noteq> []" by blast
  qed
  have irr: "rf_reversibility f = Rev_IRREVERSIBLE \<Longrightarrow> rf_reversibility g = Rev_IRREVERSIBLE"
    using assms(1) by (cases "rf_reversibility g") (auto simp: facts_le_def)
  have up: "R2 \<le> R5" by (simp add: less_eq_risk_class_def)
  have rem: "removes_for_good f \<Longrightarrow> removes_for_good g"
    using assms(1) irr by (auto simp: removes_for_good_def facts_le_def)
  have "c \<in> classes_of (base_rules g) \<or> (c = R2 \<and> R5 \<in> classes_of (base_rules g))"
  proof (cases c)
    case R2
    with assms show ?thesis by (auto simp: base_class_iff facts_le_def)
  next
    case R5
    with assms rem show ?thesis by (auto simp: base_class_iff facts_le_def)
  next
    case R6
    with assms gov show ?thesis by (auto simp: base_class_iff facts_le_def)
  qed (use assms in \<open>auto simp: base_class_iff facts_le_def\<close>)
  with up show ?thesis by auto
qed

lemma base_max_mono: "facts_le f g \<Longrightarrow> Max (classes_of (base_rules f)) \<le> Max (classes_of (base_rules g))"
  using base_dominated base_classes_nonempty
  by (meson Max_ge_iff Max_in finite_risk_classes)

subsection \<open>Properties\<close>

text \<open>
  C11. Risk is monotone in the facts: a request whose facts are at least as severe as
  another's in every respect (data class, cost, reversibility, audience, external,
  notifying, blast radius, scopes, requested class) never gets a lower effective class,
  and needs approval whenever the other does.
\<close>
theorem risk_monotone:
  assumes "facts_le f g"
  shows "ra_effective (assess H f) \<le> ra_effective (assess H g) \<and>
    (ra_requires_approval (assess H f) \<longrightarrow> ra_requires_approval (assess H g))"
proof -
  have "Max (classes_for f) \<le> Max (classes_for g)"
    using base_max_mono [OF assms] assms
    by (auto simp: requested_max facts_le_def le_max_iff_disj split: option.splits)
  then show ?thesis by auto
qed

theorem risk_monotone_witness:
  fixes H :: "bytes \<Rightarrow> string"
  defines "f \<equiv> \<lparr>rf_operation = Op_DELETE, rf_environment = Env_SANDBOX, rf_data_class = Data_INTERNAL,
     rf_cost_minor = 0, rf_currency = None, rf_reversibility = Rev_REVERSIBLE, rf_audience = Aud_NONE,
     rf_external = False, rf_notifies = False, rf_blast_radius = 1, rf_scopes = [], rf_dependents = 0,
     rf_requested_class = None\<rparr>"
  shows "facts_le f (f\<lparr>rf_reversibility := Rev_IRREVERSIBLE\<rparr>) \<and>
    ra_effective (assess id f) \<le> ra_effective (assess id (f\<lparr>rf_reversibility := Rev_IRREVERSIBLE\<rparr>))"
proof -
  have le: "facts_le f (f\<lparr>rf_reversibility := Rev_IRREVERSIBLE\<rparr>)" by (simp add: facts_le_def f_def)
  from risk_monotone [OF le, of id] le show ?thesis by blast
qed

text \<open>
  A class the requester asks for can raise the assessment and never lower it: the
  effective class is the larger of the two, every class, every control and every
  requirement of the assessment without the request is kept.
\<close>
theorem requested_class_only_raises:
  "ra_effective (assess H (f\<lparr>rf_requested_class := Some c\<rparr>))
     = max c (ra_effective (assess H (f\<lparr>rf_requested_class := None\<rparr>))) \<and>
   set (ra_classes (assess H (f\<lparr>rf_requested_class := None\<rparr>)))
     \<subseteq> set (ra_classes (assess H (f\<lparr>rf_requested_class := Some c\<rparr>))) \<and>
   set (ra_controls (assess H (f\<lparr>rf_requested_class := None\<rparr>)))
     \<subseteq> set (ra_controls (assess H (f\<lparr>rf_requested_class := Some c\<rparr>)))"
proof -
  have sub: "classes_for (f\<lparr>rf_requested_class := None\<rparr>) \<subseteq> classes_for (f\<lparr>rf_requested_class := Some c\<rparr>)"
    by (auto simp: classes_for_def requested_classes)
  then have "(\<Union>d\<in>classes_for (f\<lparr>rf_requested_class := None\<rparr>). class_controls d)
      \<subseteq> (\<Union>d\<in>classes_for (f\<lparr>rf_requested_class := Some c\<rparr>). class_controls d)" by blast
  with sub show ?thesis by (auto simp: requested_max)
qed

text \<open>
  C26. The assessment fails closed and is consistent: some class is always assigned; the
  effective class is the highest of them; the controls hold every minimum control of every
  class; anything from R3 up needs approval, and R3 or higher always carries the exact-approval
  or LIVE-gate controls of its class; any cost needs a financial approval, any governance
  scope or permission change a privileged review.
\<close>
theorem assess_fails_closed:
  "ra_classes (assess H f) \<noteq> [] \<and>
   ra_effective (assess H f) \<in> set (ra_classes (assess H f)) \<and>
   (\<forall>c\<in>set (ra_classes (assess H f)). c \<le> ra_effective (assess H f) \<and>
      class_controls c \<subseteq> set (ra_controls (assess H f))) \<and>
   (R3 \<le> ra_effective (assess H f) \<longleftrightarrow> ra_requires_approval (assess H f)) \<and>
   (ra_requires_approval (assess H f) \<longrightarrow>
      {Ctl_EXACT_APPROVAL, Ctl_APPROVAL_EXPIRY, Ctl_LIVE_GATE} \<subseteq> set (ra_controls (assess H f))) \<and>
   (rf_cost_minor f > 0 \<or> rf_operation f = Op_SPEND \<longrightarrow> ra_requires_financial_approval (assess H f)) \<and>
   (governance_scopes (rf_scopes f) \<noteq> [] \<or> rf_operation f \<in> {Op_PERMISSION_CHANGE, Op_POLICY_CHANGE} \<longrightarrow>
      ra_requires_privileged_review (assess H f))"
proof -
  have ne: "ra_classes (assess H f) \<noteq> []"
    using classes_for_nonempty [of f] assess_classes [of H f] by (metis set_empty)
  have eff: "ra_effective (assess H f) \<in> classes_for f" by (rule effective_in)
  have high: "{Ctl_EXACT_APPROVAL, Ctl_APPROVAL_EXPIRY, Ctl_LIVE_GATE} \<subseteq> class_controls c" if "R3 \<le> c" for c
    using that by (cases c) (auto simp: less_eq_risk_class_def)
  have "{Ctl_EXACT_APPROVAL, Ctl_APPROVAL_EXPIRY, Ctl_LIVE_GATE} \<subseteq> set (ra_controls (assess H f))"
    if "R3 \<le> Max (classes_for f)"
    using high [OF that] eff by auto
  moreover have "rf_cost_minor f > 0 \<or> rf_operation f = Op_SPEND \<Longrightarrow> R4 \<in> classes_for f"
    by (auto simp: classes_for_def base_classes Let_def)
  moreover have "governance_scopes (rf_scopes f) \<noteq> [] \<or> rf_operation f \<in> {Op_PERMISSION_CHANGE, Op_POLICY_CHANGE}
      \<Longrightarrow> R6 \<in> classes_for f"
    by (auto simp: classes_for_def base_classes Let_def)
  ultimately show ?thesis using ne eff by (auto intro: Max_ge)
qed

theorem assess_fails_closed_witness:
  fixes H :: "bytes \<Rightarrow> string"
  defines "f \<equiv> \<lparr>rf_operation = Op_SPEND, rf_environment = Env_SANDBOX, rf_data_class = Data_INTERNAL,
     rf_cost_minor = 500, rf_currency = Some ''EUR'', rf_reversibility = Rev_COMPENSATABLE, rf_audience = Aud_NONE,
     rf_external = True, rf_notifies = False, rf_blast_radius = 1, rf_scopes = [''policy:budget''], rf_dependents = 0,
     rf_requested_class = None\<rparr>"
  shows "rf_cost_minor f > 0 \<and> ra_requires_financial_approval (assess id f) \<and> ra_requires_privileged_review (assess id f)
    \<and> ra_requires_approval (assess id f) \<and> Ctl_EXACT_APPROVAL \<in> set (ra_controls (assess id f))"
proof -
  note all = assess_fails_closed [of id f]
  have gov: "governance_scopes (rf_scopes f) \<noteq> []" unfolding f_def by code_simp
  have cost: "rf_cost_minor f > 0" by (simp add: f_def)
  have fin: "ra_requires_financial_approval (assess id f)" and priv: "ra_requires_privileged_review (assess id f)"
    using all gov cost by blast+
  then have "R6 \<in> set (ra_classes (assess id f))" by simp
  then have "R6 \<le> ra_effective (assess id f)" using all by blast
  then have "R3 \<le> ra_effective (assess id f)" by (rule order_trans [rotated]) (simp add: less_eq_risk_class_def)
  then show ?thesis using all cost fin priv by blast
qed

end
