(* ===== verification/Action_Fsm.thy ===== *)
theory Action_Fsm
  imports Vocabulary
begin

section \<open>The action state machine\<close>

text \<open>
  Models \<^verbatim>\<open>agency/actions/fsm.py\<close>: the eighteen states of a governed action and the
  legal edges between them. \<open>transition_matrix\<close> is the interface of every such table in
  the code base (this one, the durable run machine and the lifecycle matrices): terminal
  states are exactly those with no edge, and a walk along edges that reaches a terminal
  state stops there.
\<close>

subsection \<open>Transition tables\<close>

text \<open>A walk: each state is an edge away from the one before.\<close>

fun walk :: "('s \<Rightarrow> 's set) \<Rightarrow> 's list \<Rightarrow> bool" where
  "walk edges (a # b # r) = (b \<in> edges a \<and> walk edges (b # r))"
| "walk edges _ = True"

locale transition_matrix =
  fixes edges :: "'s \<Rightarrow> 's set"
    and terminal :: "'s \<Rightarrow> bool"
  assumes terminal_iff: "terminal s \<longleftrightarrow> edges s = {}"
begin

lemma terminal_stuck: "terminal a \<Longrightarrow> b \<notin> edges a"
  by (simp add: terminal_iff)

lemma walk_append: "walk edges (xs @ [a]) \<Longrightarrow> b \<in> edges a \<Longrightarrow> walk edges (xs @ [a, b])"
proof (induction xs)
  case (Cons x xs)
  then show ?case by (cases xs) auto
qed simp

lemma walk_tl: "walk edges (a # r) \<Longrightarrow> walk edges r"
  by (cases r) auto

lemma walk_nth: "walk edges xs \<Longrightarrow> Suc i < length xs \<Longrightarrow> xs ! Suc i \<in> edges (xs ! i)"
proof (induction xs arbitrary: i)
  case (Cons x xs)
  then show ?case by (cases xs; cases i) auto
qed simp

lemma terminal_last:
  assumes "walk edges xs" and "i < length xs" and "terminal (xs ! i)"
  shows "Suc i = length xs"
proof (rule ccontr)
  assume "Suc i \<noteq> length xs"
  then have "xs ! Suc i \<in> edges (xs ! i)" using assms(1,2) by (intro walk_nth) auto
  then show False using assms(3) by (simp add: terminal_iff)
qed

end

subsection \<open>States and edges\<close>

definition max_attempts :: int where
  "max_attempts = 3"

datatype action_state =
    A_PROPOSED
  | A_VALIDATED
  | A_PREPARED
  | A_AWAITING_APPROVAL
  | A_AUTHORIZED
  | A_RESERVED
  | A_DISPATCHING
  | A_OBSERVING
  | A_VERIFIED
  | A_COMPLETED
  | A_REJECTED
  | A_BLOCKED
  | A_EXPIRED
  | A_CANCELLED
  | A_FAILED
  | A_UNKNOWN
  | A_RECONCILING
  | A_NEEDS_HUMAN

fun action_state_value :: "action_state \<Rightarrow> string" where
  "action_state_value A_PROPOSED = ''PROPOSED''"
| "action_state_value A_VALIDATED = ''VALIDATED''"
| "action_state_value A_PREPARED = ''PREPARED''"
| "action_state_value A_AWAITING_APPROVAL = ''AWAITING_APPROVAL''"
| "action_state_value A_AUTHORIZED = ''AUTHORIZED''"
| "action_state_value A_RESERVED = ''RESERVED''"
| "action_state_value A_DISPATCHING = ''DISPATCHING''"
| "action_state_value A_OBSERVING = ''OBSERVING''"
| "action_state_value A_VERIFIED = ''VERIFIED''"
| "action_state_value A_COMPLETED = ''COMPLETED''"
| "action_state_value A_REJECTED = ''REJECTED''"
| "action_state_value A_BLOCKED = ''BLOCKED''"
| "action_state_value A_EXPIRED = ''EXPIRED''"
| "action_state_value A_CANCELLED = ''CANCELLED''"
| "action_state_value A_FAILED = ''FAILED''"
| "action_state_value A_UNKNOWN = ''UNKNOWN''"
| "action_state_value A_RECONCILING = ''RECONCILING''"
| "action_state_value A_NEEDS_HUMAN = ''NEEDS_HUMAN''"

definition all_action_states :: "action_state list" where
  "all_action_states = [A_PROPOSED, A_VALIDATED, A_PREPARED, A_AWAITING_APPROVAL, A_AUTHORIZED, A_RESERVED, A_DISPATCHING, A_OBSERVING, A_VERIFIED, A_COMPLETED, A_REJECTED, A_BLOCKED, A_EXPIRED, A_CANCELLED, A_FAILED, A_UNKNOWN, A_RECONCILING, A_NEEDS_HUMAN]"

definition pre_dispatch :: "action_state set" where
  "pre_dispatch = {A_PROPOSED, A_VALIDATED, A_PREPARED, A_AWAITING_APPROVAL, A_AUTHORIZED, A_RESERVED}"

definition leased_states :: "action_state set" where
  "leased_states = {A_DISPATCHING, A_OBSERVING, A_RECONCILING}"

definition terminal_states :: "action_state set" where
  "terminal_states = {A_COMPLETED, A_REJECTED, A_BLOCKED, A_EXPIRED, A_CANCELLED}"

definition action_stop :: "action_state set" where
  "action_stop = {A_BLOCKED, A_CANCELLED, A_EXPIRED}"

fun action_transitions :: "action_state \<Rightarrow> action_state set" where
  "action_transitions A_PROPOSED = {A_VALIDATED, A_REJECTED, A_BLOCKED, A_CANCELLED}"
| "action_transitions A_VALIDATED = {A_PREPARED, A_BLOCKED, A_CANCELLED}"
| "action_transitions A_PREPARED = {A_AWAITING_APPROVAL, A_AUTHORIZED} \<union> action_stop"
| "action_transitions A_AWAITING_APPROVAL = {A_AUTHORIZED, A_REJECTED} \<union> action_stop"
| "action_transitions A_AUTHORIZED = {A_RESERVED, A_DISPATCHING} \<union> action_stop"
| "action_transitions A_RESERVED = {A_DISPATCHING} \<union> action_stop"
| "action_transitions A_DISPATCHING = {A_OBSERVING, A_UNKNOWN, A_FAILED}"
| "action_transitions A_OBSERVING = {A_VERIFIED, A_FAILED, A_UNKNOWN}"
| "action_transitions A_VERIFIED = {A_COMPLETED}"
| "action_transitions A_UNKNOWN = {A_RECONCILING}"
| "action_transitions A_RECONCILING = {A_VERIFIED, A_FAILED, A_NEEDS_HUMAN, A_UNKNOWN}"
| "action_transitions A_NEEDS_HUMAN = {A_RECONCILING, A_FAILED}"
| "action_transitions A_FAILED = {A_AUTHORIZED}"
| "action_transitions A_COMPLETED = {}"
| "action_transitions A_REJECTED = {}"
| "action_transitions A_BLOCKED = {}"
| "action_transitions A_EXPIRED = {}"
| "action_transitions A_CANCELLED = {}"

datatype illegal_action_transition = IllegalActionTransition string
  | NotAState string

definition action_state_of :: "string \<Rightarrow> action_state option" where
  "action_state_of v = find (\<lambda>s. action_state_value s = v) all_action_states"

definition assert_action_transition :: "string \<Rightarrow> string \<Rightarrow> illegal_action_transition + unit" where
  "assert_action_transition src dst =
     (case action_state_of src of None \<Rightarrow> Inl (NotAState src) | Some a \<Rightarrow>
      case action_state_of dst of None \<Rightarrow> Inl (NotAState dst) | Some b \<Rightarrow>
        if b \<notin> action_transitions a
        then Inl (IllegalActionTransition
               (action_state_value a @ '' -> '' @ action_state_value b @ '' is not a legal action transition''))
        else Inr ())"

lemma action_state_of_value [simp]: "action_state_of (action_state_value s) = Some s"
  by (cases s) (simp_all add: action_state_of_def all_action_states_def)

interpretation action_fsm: transition_matrix action_transitions "\<lambda>s. s \<in> terminal_states"
proof
  show "(s \<in> terminal_states) = (action_transitions s = {})" for s
    by (cases s) (auto simp: terminal_states_def action_stop_def)
qed

lemma action_state_value_inj: "action_state_value a = action_state_value b \<longleftrightarrow> a = b"
  by (metis action_state_of_value option.inject)

lemma assert_action_transition_iff:
  "assert_action_transition (action_state_value a) (action_state_value b) = Inr () \<longleftrightarrow> b \<in> action_transitions a"
  by (simp add: assert_action_transition_def)

lemma unknown_only_reconciles: "action_transitions A_UNKNOWN = {A_RECONCILING}"
  by simp

lemma cancellable_iff: "A_CANCELLED \<in> action_transitions s \<longleftrightarrow> s \<in> pre_dispatch"
  by (cases s) (auto simp: pre_dispatch_def action_stop_def)

end
