(* ===== verification/Action_Models.thy ===== *)
theory Action_Models
  imports Risk Action_Fsm Runtime
begin

section \<open>Actions, bindings and principals\<close>

text \<open>
  Models \<^verbatim>\<open>agency/actions/models.py\<close>, the principal of \<^verbatim>\<open>security/auth.py\<close> and the rows
  of the action plane. A column that only ever holds the values of an enum is typed with it,
  a JSON column holds the document the code puts there (its JSON text is read back
  unchanged), and timestamps are their text, as the database compares them.
\<close>

subsection \<open>Principals\<close>

record principal =
  pr_user :: string
  pr_tenant :: string
  pr_role :: string
  pr_projects :: "string list"

definition can_access_project :: "principal \<Rightarrow> string \<Rightarrow> bool" where
  "can_access_project p project = (''*'' \<in> set (pr_projects p) \<or> project \<in> set (pr_projects p))"

definition principal_role :: "principal \<Rightarrow> string" where
  "principal_role p = lower (strip (pr_role p))"

subsection \<open>Approval bindings\<close>

definition binding_version :: string where
  "binding_version = ''amc-action-binding/v1''"

record approval_binding =
  ab_capability_ref :: string
  ab_descriptor_hash :: string
  ab_tenant :: string
  ab_project :: string
  ab_environment :: environment
  ab_target_ref :: string
  ab_payload_hash :: string
  ab_dependency_hashes :: "(string \<times> string) list"
  ab_policy_version :: string
  ab_effective_class :: risk_class
  ab_cost_minor :: int
  ab_currency :: "string option"
  ab_expires_at :: string

definition pair_list :: "(string \<times> string) list \<Rightarrow> json" where
  "pair_list ps = JList (map (\<lambda>(a, b). JList [JStr a, JStr b]) ps)"

definition binding_fields :: "approval_binding \<Rightarrow> (string \<times> json) list" where
  "binding_fields b = [(''binding_version'', JStr binding_version), (''capability_ref'', JStr (ab_capability_ref b)),
     (''descriptor_hash'', JStr (ab_descriptor_hash b)), (''tenant_id'', JStr (ab_tenant b)),
     (''project_id'', JStr (ab_project b)), (''environment'', JStr (environment_value (ab_environment b))),
     (''target_ref'', JStr (ab_target_ref b)), (''payload_hash'', JStr (ab_payload_hash b)),
     (''dependency_hashes'', pair_list (ab_dependency_hashes b)), (''policy_version'', JStr (ab_policy_version b)),
     (''effective_class'', JStr (risk_class_value (ab_effective_class b))), (''cost_minor'', JInt (ab_cost_minor b)),
     (''currency'', opt_str (ab_currency b)), (''expires_at'', JStr (ab_expires_at b))]"

text \<open>The stored document: the binding and the approvals it needs. Its hash is the binding hash.\<close>

record binding_doc = approval_binding +
  bd_subjects :: "string list"

definition binding_json :: "binding_doc \<Rightarrow> json" where
  "binding_json d = JDict (binding_fields (approval_binding.truncate d) @ [(''approval_subjects'', str_list (bd_subjects d))])"

definition approval_binding_hash :: "(bytes \<Rightarrow> string) \<Rightarrow> approval_binding \<Rightarrow> string" where
  "approval_binding_hash H b = chash H (JDict (binding_fields b))"

definition binding_hash_of :: "(bytes \<Rightarrow> string) \<Rightarrow> binding_doc \<Rightarrow> string" where
  "binding_hash_of H d = chash H (binding_json d)"

definition effect_key :: "(bytes \<Rightarrow> string) \<Rightarrow> string \<Rightarrow> string \<Rightarrow> string \<Rightarrow> string \<Rightarrow> string \<Rightarrow> string" where
  "effect_key H tenant capability target payload key =
    chash H (JDict [(''tenant'', JStr tenant), (''capability'', JStr capability), (''target'', JStr target),
      (''payload'', JStr payload), (''idempotency_key'', JStr key)])"

text \<open>\<open>d.get(k)\<close>: an absent key reads as \<open>None\<close>.\<close>

definition json_get :: "(string \<times> json) list \<Rightarrow> string \<Rightarrow> json" where
  "json_get d k = (case map_of d k of None \<Rightarrow> JNull | Some v \<Rightarrow> v)"

definition binding_diff :: "(string \<times> json) list \<Rightarrow> (string \<times> json) list \<Rightarrow> (string \<times> json \<times> json) list" where
  "binding_diff approved current =
    map (\<lambda>k. (k, json_get approved k, json_get current k))
      (filter (\<lambda>k. json_get approved k \<noteq> json_get current k)
        (sort (remdups (map fst approved @ map fst current))))"

lemma plain_pair_list [simp]: "plain (pair_list ps)"
  by (auto simp: pair_list_def)

lemma plain_binding_json [simp]: "plain (binding_json d)"
  by (auto simp: binding_json_def binding_fields_def)

subsection \<open>Rows\<close>

record risk_doc =
  rd_assessment :: risk_assessment
  rd_facts :: risk_facts
  rd_autonomy :: autonomy_level

datatype compensation_note =
    Unconfirmed string string string string
  | Confirmed string string "string option" string

record action_outcome =
  oc_label :: string
  oc_simulated :: bool
  oc_provider_ref :: "string option"
  oc_state :: "string option"
  oc_payload_hash :: "string option"
  oc_cost_minor :: int
  oc_currency :: "string option"
  oc_budget_committed :: bool
  oc_delivered :: bool
  oc_compensation :: "compensation_note option"

record action_row =
  ac_id :: string
  ac_tenant :: string
  ac_project :: string
  ac_client :: "string option"
  ac_capability :: string
  ac_capability_version :: string
  ac_environment :: environment
  ac_actor :: string
  ac_target :: string
  ac_args :: json
  ac_args_hash :: string
  ac_payload_hash :: string
  ac_context_hash :: string
  ac_dependencies :: "(string \<times> string) list"
  ac_policy_version :: string
  ac_risk :: risk_doc
  ac_risk_hash :: string
  ac_class :: risk_class
  ac_binding :: binding_doc
  ac_binding_hash :: string
  ac_run :: "string option"
  ac_approval :: "string option"
  ac_financial_approval :: "string option"
  ac_reservation :: "string option"
  ac_key :: string
  ac_request_hash :: string
  ac_correlation :: string
  ac_state :: action_state
  ac_version :: int
  ac_attempts :: int
  ac_reconcile_attempts :: int
  ac_lease_owner :: "string option"
  ac_lease_expires :: "string option"
  ac_retry_eligible :: bool
  ac_reasons :: "string list"
  ac_outcome :: "action_outcome option"
  ac_flags :: "string list"
  ac_created :: string
  ac_updated :: string
  ac_expires :: string

record transition_row =
  tr_action :: string
  tr_tenant :: string
  tr_from :: "action_state option"
  tr_to :: action_state
  tr_actor :: string
  tr_reason :: string
  tr_evidence :: json
  tr_prev :: "string option"
  tr_hash :: string
  tr_created :: string

text \<open>
  A set clause of \<open>transition\<close>: the columns of \<open>_MUTABLE\<close>, and any other column by name,
  which \<open>transition\<close> refuses.
\<close>

datatype row_update =
    U_run "string option"
  | U_approval "string option"
  | U_financial_approval "string option"
  | U_reservation "string option"
  | U_attempts int
  | U_reconcile_attempts int
  | U_lease_owner "string option"
  | U_lease_expires "string option"
  | U_retry_eligible bool
  | U_reasons "string list"
  | U_outcome "action_outcome option"
  | U_other string

fun mutable_column :: "row_update \<Rightarrow> bool" where
  "mutable_column (U_other _) = False"
| "mutable_column _ = True"

fun set_column :: "row_update \<Rightarrow> action_row \<Rightarrow> action_row" where
  "set_column (U_run x) r = r\<lparr>ac_run := x\<rparr>"
| "set_column (U_approval x) r = r\<lparr>ac_approval := x\<rparr>"
| "set_column (U_financial_approval x) r = r\<lparr>ac_financial_approval := x\<rparr>"
| "set_column (U_reservation x) r = r\<lparr>ac_reservation := x\<rparr>"
| "set_column (U_attempts n) r = r\<lparr>ac_attempts := n\<rparr>"
| "set_column (U_reconcile_attempts n) r = r\<lparr>ac_reconcile_attempts := n\<rparr>"
| "set_column (U_lease_owner x) r = r\<lparr>ac_lease_owner := x\<rparr>"
| "set_column (U_lease_expires x) r = r\<lparr>ac_lease_expires := x\<rparr>"
| "set_column (U_retry_eligible b) r = r\<lparr>ac_retry_eligible := b\<rparr>"
| "set_column (U_reasons xs) r = r\<lparr>ac_reasons := xs\<rparr>"
| "set_column (U_outcome x) r = r\<lparr>ac_outcome := x\<rparr>"
| "set_column (U_other _) r = r"

definition set_columns :: "row_update list \<Rightarrow> action_row \<Rightarrow> action_row" where
  "set_columns us r = fold set_column us r"

lemma set_column_frame [simp]:
  "ac_id (set_column u r) = ac_id r" "ac_tenant (set_column u r) = ac_tenant r" "ac_project (set_column u r) = ac_project r"
  "ac_key (set_column u r) = ac_key r" "ac_state (set_column u r) = ac_state r" "ac_version (set_column u r) = ac_version r"
  "ac_request_hash (set_column u r) = ac_request_hash r" "ac_binding (set_column u r) = ac_binding r"
  "ac_binding_hash (set_column u r) = ac_binding_hash r" "ac_environment (set_column u r) = ac_environment r"
  "ac_payload_hash (set_column u r) = ac_payload_hash r" "ac_target (set_column u r) = ac_target r"
  "ac_actor (set_column u r) = ac_actor r" "ac_args (set_column u r) = ac_args r"
  "ac_capability (set_column u r) = ac_capability r" "ac_class (set_column u r) = ac_class r"
  by (cases u; simp)+

lemma set_columns_frame [simp]:
  "ac_id (set_columns us r) = ac_id r" "ac_tenant (set_columns us r) = ac_tenant r" "ac_project (set_columns us r) = ac_project r"
  "ac_key (set_columns us r) = ac_key r" "ac_state (set_columns us r) = ac_state r" "ac_version (set_columns us r) = ac_version r"
  "ac_request_hash (set_columns us r) = ac_request_hash r" "ac_binding (set_columns us r) = ac_binding r"
  "ac_binding_hash (set_columns us r) = ac_binding_hash r" "ac_environment (set_columns us r) = ac_environment r"
  "ac_payload_hash (set_columns us r) = ac_payload_hash r" "ac_target (set_columns us r) = ac_target r"
  "ac_actor (set_columns us r) = ac_actor r" "ac_args (set_columns us r) = ac_args r"
  "ac_capability (set_columns us r) = ac_capability r" "ac_class (set_columns us r) = ac_class r"
  unfolding set_columns_def by (induction us arbitrary: r; simp)+

end
