(* ===== verification/Action_Store.thy ===== *)
theory Action_Store
  imports Action_Models Hash_Chain Trust_Store
begin

section \<open>Persistence of the action plane\<close>

text \<open>
  Models \<^verbatim>\<open>persistence/actions.py\<close> and \<^verbatim>\<open>persistence/tenancy.py\<close>: the tables of migration 16
  and every function that reads or writes them. A \<open>with transaction(write=True)\<close> block is
  \<open>atomic_db\<close>: its writes are undone when it raises (the clock and identifier counters are
  not). Advisory locks only order concurrent transactions, so they have no effect on one.
\<close>

subsection \<open>Errors\<close>

datatype adapter_error_kind =
    ArgsInvalid
  | ToolUnavailable
  | TransientBeforeEffect
  | PermanentFailure
  | OutcomeUnknown
  | CompensationUnsupported

datatype gateway_error_kind = GatewayErrorKind | LiveGated | Frozen | NotDispatchable | InvalidRequest

datatype amc_error =
    ActionNotFound string
  | ActionConflict string
  | BudgetExceeded string json
  | ValueErr string
  | OwnershipErr string
  | LookupErr string
  | ActionForbidden string
  | DependencyInvalid string
  | UnknownAction string
  | GatewayError gateway_error_kind string string
  | AdapterError adapter_error_kind string
  | FramingAcknowledgementRequired string
  | TrustError rel_error
  | HashErr canon_error
  | PythonError string

subsection \<open>Tables\<close>

datatype budget_scope = Scope_ACTION | Scope_PROJECT | Scope_CLIENT | Scope_TENANT_DAY | Scope_TENANT_MONTH

fun budget_scope_value :: "budget_scope \<Rightarrow> string" where
  "budget_scope_value Scope_ACTION = ''ACTION''"
| "budget_scope_value Scope_PROJECT = ''PROJECT''"
| "budget_scope_value Scope_CLIENT = ''CLIENT''"
| "budget_scope_value Scope_TENANT_DAY = ''TENANT_DAY''"
| "budget_scope_value Scope_TENANT_MONTH = ''TENANT_MONTH''"

definition budget_scopes :: "budget_scope list" where
  "budget_scopes = [Scope_ACTION, Scope_PROJECT, Scope_CLIENT, Scope_TENANT_DAY, Scope_TENANT_MONTH]"

record budget_policy =
  bp_id :: string
  bp_tenant :: string
  bp_kind :: budget_scope
  bp_ref :: string
  bp_currency :: string
  bp_ceiling :: int
  bp_created_by :: string
  bp_created :: string

datatype reservation_status = Res_RESERVED | Res_COMMITTED | Res_RELEASED | Res_EXPIRED | Res_REFUNDED

fun reservation_status_value :: "reservation_status \<Rightarrow> string" where
  "reservation_status_value Res_RESERVED = ''RESERVED''"
| "reservation_status_value Res_COMMITTED = ''COMMITTED''"
| "reservation_status_value Res_RELEASED = ''RELEASED''"
| "reservation_status_value Res_EXPIRED = ''EXPIRED''"
| "reservation_status_value Res_REFUNDED = ''REFUNDED''"

record reservation =
  re_id :: string
  re_tenant :: string
  re_project :: string
  re_client :: "string option"
  re_action :: string
  re_currency :: string
  re_amount :: int
  re_committed :: "int option"
  re_status :: reservation_status
  re_expires :: string
  re_evidence :: "(string \<times> json) list"
  re_created :: string
  re_updated :: string

record freeze_row =
  fz_id :: string
  fz_tenant :: string
  fz_kind :: string
  fz_ref :: string
  fz_reason :: string
  fz_by :: string
  fz_at :: string
  fz_lifted_by :: "string option"
  fz_lifted_at :: "string option"
  fz_lift_reason :: "string option"

record autonomy_row =
  au_project_id :: string
  au_tenant_id :: string
  au_level :: autonomy_level
  au_by :: string
  au_at :: string

record effect_row =
  ef_id :: string
  ef_tenant :: string
  ef_provider :: string
  ef_operation :: string
  ef_key :: string
  ef_target :: string
  ef_payload_hash :: string
  ef_state :: string
  ef_cost :: int
  ef_currency :: "string option"
  ef_body :: json
  ef_created :: string
  ef_updated :: string

record client_row =
  cl_id :: string
  cl_tenant :: string
  cl_name :: string
  cl_slug :: string
  cl_status :: string
  cl_notes :: string
  cl_by :: string
  cl_created :: string
  cl_updated :: string

record client_link =
  li_project :: string
  li_client :: string
  li_tenant :: string
  li_by :: string
  li_at :: string

record project_row =
  pj_id :: string
  pj_tenant :: string

record action_db = world +
  ad_tenants :: "string list"
  ad_projects :: "project_row list"
  ad_actions :: "action_row list"
  ad_transitions :: "transition_row list"
  ad_policies :: "budget_policy list"
  ad_reservations :: "reservation list"
  ad_freezes :: "freeze_row list"
  ad_autonomy :: "autonomy_row list"
  ad_effects :: "effect_row list"
  ad_clients :: "client_row list"
  ad_links :: "client_link list"

type_synonym ('x, 'a) db_prog = "('x action_db_scheme, amc_error, 'a) prog"

text \<open>A write transaction: on an exception the tables are as before; the counters moved on.\<close>

definition atomic_db :: "('x world_scheme, 'e, 'a) prog \<Rightarrow> ('x world_scheme, 'e, 'a) prog" where
  "atomic_db m = (\<lambda>w. case m w of
     (Inl e, v) \<Rightarrow> (Inl e, w\<lparr>w_reads := w_reads v, w_uuids := w_uuids v\<rparr>) | (Inr a, v) \<Rightarrow> (Inr a, v))"

subsection \<open>Tenant registry\<close>

definition register_tenant :: "string \<Rightarrow> ('x, unit) db_prog" where
  "register_tenant tenant = modify (ad_tenants_update (\<lambda>ts. if tenant \<in> set ts then ts else ts @ [tenant]))"

definition ensure_tenant_project :: "string \<Rightarrow> string \<Rightarrow> ('x, unit) db_prog" where
  "ensure_tenant_project tenant project =
    bnd (guard (tenant \<noteq> [] \<and> project \<noteq> []) (ValueErr ''tenant_id and project_id are required'')) (\<lambda>_.
    bnd (register_tenant tenant) (\<lambda>_.
    bnd (modify (ad_projects_update (\<lambda>ps. if row_by pj_id project ps = None
                   then ps @ [\<lparr>pj_id = project, pj_tenant = tenant\<rparr>] else ps))) (\<lambda>_.
    bnd (gets (\<lambda>db. row_by pj_id project (ad_projects db))) (\<lambda>row.
    guard (case row of None \<Rightarrow> False | Some r \<Rightarrow> pj_tenant r = tenant)
      (OwnershipErr ''Project is registered to a different tenant'')))))"

subsection \<open>Action requests and their transitions\<close>

definition entries_of :: "string \<Rightarrow> transition_row list \<Rightarrow> transition_row list" where
  "entries_of aid ts = filter (\<lambda>t. tr_action t = aid) ts"

definition transition_body :: "transition_row \<Rightarrow> json" where
  "transition_body t = JDict [(''action_id'', JStr (tr_action t)), (''tenant_id'', JStr (tr_tenant t)),
     (''from_state'', opt_str (map_option action_state_value (tr_from t))),
     (''to_state'', JStr (action_state_value (tr_to t))), (''actor'', JStr (tr_actor t)),
     (''reason'', JStr (tr_reason t)), (''evidence'', tr_evidence t), (''prev_hash'', opt_str (tr_prev t)),
     (''created_at'', JStr (tr_created t))]"

definition append_transition :: "env \<Rightarrow> string \<Rightarrow> string \<Rightarrow> action_state option \<Rightarrow> action_state \<Rightarrow> string \<Rightarrow> string
    \<Rightarrow> json \<Rightarrow> string \<Rightarrow> ('x, transition_row) db_prog" where
  "append_transition V aid tenant src dst actor reason evidence created =
    bnd (gets (\<lambda>db. entries_of aid (ad_transitions db))) (\<lambda>es.
    let t = \<lparr>tr_action = aid, tr_tenant = tenant, tr_from = src, tr_to = dst, tr_actor = actor, tr_reason = reason,
             tr_evidence = evidence, tr_prev = (if es = [] then None else Some (tr_hash (last es))),
             tr_hash = [], tr_created = created\<rparr> in
    bnd (of_sum (map_sum HashErr id (canonical_hash (env_hash V) (transition_body t)))) (\<lambda>h.
    let u = t\<lparr>tr_hash := h\<rparr> in
    bnd (modify (ad_transitions_update (\<lambda>ts. ts @ [u]))) (\<lambda>_. ret u)))"

definition find_by_key :: "string \<Rightarrow> string \<Rightarrow> ('x, action_row option) db_prog" where
  "find_by_key tenant key = gets (\<lambda>db. row_by (\<lambda>r. (ac_tenant r, ac_key r)) (tenant, key) (ad_actions db))"

definition get_request :: "string \<Rightarrow> ('x, action_row option) db_prog" where
  "get_request aid = gets (\<lambda>db. row_by ac_id aid (ad_actions db))"

text \<open>The primary key of \<open>action_requests\<close> makes the insert of a known id fail.\<close>

definition insert_request :: "env \<Rightarrow> action_row \<Rightarrow> string \<Rightarrow> string \<Rightarrow> json \<Rightarrow> ('x, action_row \<times> bool) db_prog" where
  "insert_request V row actor reason evidence = atomic_db (
    bnd (ensure_tenant_project (ac_tenant row) (ac_project row)) (\<lambda>_.
    bnd (find_by_key (ac_tenant row) (ac_key row)) (\<lambda>existing.
    case existing of
      Some r \<Rightarrow>
        if ac_request_hash r \<noteq> ac_request_hash row
        then raise (ActionConflict ''IDEMPOTENCY_KEY_REUSED: the key was used for a different request'')
        else ret (r, False)
    | None \<Rightarrow>
        bnd (get_request (ac_id row)) (\<lambda>same.
        bnd (guard (same = None) (TrustError IntegrityError)) (\<lambda>_.
        bnd (modify (ad_actions_update (\<lambda>rs. rs @ [row]))) (\<lambda>_.
        bnd (append_transition V (ac_id row) (ac_tenant row) None (ac_state row) actor reason evidence (ac_created row)) (\<lambda>_.
        ret (row, True))))))))"

definition list_requests :: "string \<Rightarrow> string list option \<Rightarrow> action_state list \<Rightarrow> nat \<Rightarrow> ('x, action_row list) db_prog" where
  "list_requests tenant projects states limit =
    gets (\<lambda>db. take limit (rev (sort_key ac_created (filter (\<lambda>r. ac_tenant r = tenant \<and>
      (case projects of None \<Rightarrow> True | Some ids \<Rightarrow> ac_project r \<in> set ids) \<and>
      (states = [] \<or> ac_state r \<in> set states)) (ad_actions db)))))"

definition stale_text :: "int \<Rightarrow> action_state list \<Rightarrow> action_row \<Rightarrow> string" where
  "stale_text v states r = ''STALE_ACTION_VERSION: expected v'' @ str_int v @ '' in '' @
     repr_str_list (map action_state_value states) @ '', found v'' @ str_int (ac_version r) @ '' in '' @
     action_state_value (ac_state r)"

text \<open>
  The transaction of \<open>transition\<close> and \<open>annotate\<close>: read the row, update it where it still
  matches \<open>hit\<close>, refuse when no row did, append the chained entry and read the row back.
\<close>

definition cas_write :: "env \<Rightarrow> string \<Rightarrow> (action_row \<Rightarrow> bool) \<Rightarrow> (action_row \<Rightarrow> action_row) \<Rightarrow> (action_row \<Rightarrow> action_state)
    \<Rightarrow> (action_row \<Rightarrow> string) \<Rightarrow> string \<Rightarrow> string \<Rightarrow> json \<Rightarrow> string \<Rightarrow> ('x, action_row) db_prog" where
  "cas_write V aid hit upd dst stale actor reason evidence stamp = atomic_db (
    bnd (get_request aid) (\<lambda>found.
    case found of
      None \<Rightarrow> raise (ActionNotFound aid)
    | Some r \<Rightarrow>
        bnd (gets (\<lambda>db. count_rows (\<lambda>q. ac_id q = aid \<and> hit q) (ad_actions db))) (\<lambda>n.
        bnd (modify (ad_actions_update (update_rows (\<lambda>q. ac_id q = aid \<and> hit q) upd))) (\<lambda>_.
        bnd (guard (n = 1) (ActionConflict (stale r))) (\<lambda>_.
        bnd (append_transition V aid (ac_tenant r) (Some (ac_state r)) (dst r) actor reason evidence stamp) (\<lambda>_.
        bnd (get_request aid) (\<lambda>out.
        case out of Some q \<Rightarrow> ret q | None \<Rightarrow> raise (ActionNotFound aid))))))))"

text \<open>The row a state change leaves.\<close>

definition moved :: "row_update list \<Rightarrow> action_state \<Rightarrow> string \<Rightarrow> action_row \<Rightarrow> action_row" where
  "moved updates dst stamp r =
    (set_columns updates r)\<lparr>ac_state := dst, ac_version := ac_version r + 1, ac_updated := stamp\<rparr>"

definition transition :: "env \<Rightarrow> string \<Rightarrow> int \<Rightarrow> action_state list \<Rightarrow> action_state \<Rightarrow> string \<Rightarrow> string \<Rightarrow> json
    \<Rightarrow> row_update list \<Rightarrow> int option \<Rightarrow> ('x, action_row) db_prog" where
  "transition V aid version states dst actor reason evidence updates now =
    bnd (guard (\<forall>u\<in>set updates. mutable_column u)
      (ValueErr (''transition may not change '' @
         repr_str_list (sort (map (\<lambda>u. case u of U_other c \<Rightarrow> c | _ \<Rightarrow> []) (filter (\<lambda>u. \<not> mutable_column u) updates)))))) (\<lambda>_.
    bnd (case now of Some t \<Rightarrow> ret (iso t) | None \<Rightarrow> now_iso V) (\<lambda>stamp.
    cas_write V aid (\<lambda>q. ac_version q = version \<and> ac_state q \<in> set states) (moved updates dst stamp) (\<lambda>_. dst)
      (stale_text version states) actor reason evidence stamp))"

definition annotate :: "env \<Rightarrow> string \<Rightarrow> int \<Rightarrow> string \<Rightarrow> string \<Rightarrow> json \<Rightarrow> action_outcome \<Rightarrow> ('x, action_row) db_prog" where
  "annotate V aid version actor reason evidence outcome =
    bnd (now_iso V) (\<lambda>stamp.
    cas_write V aid (\<lambda>q. ac_version q = version)
      (\<lambda>q. q\<lparr>ac_outcome := Some outcome, ac_version := ac_version q + 1, ac_updated := stamp\<rparr>) ac_state
      (\<lambda>r. ''STALE_ACTION_VERSION: expected v'' @ str_int version @ '', found v'' @ str_int (ac_version r))
      actor reason evidence stamp)"

definition list_transitions :: "string \<Rightarrow> ('x, transition_row list) db_prog" where
  "list_transitions aid = gets (\<lambda>db. entries_of aid (ad_transitions db))"

datatype chain_report = Intact nat "string option" | Broken nat nat string

fun check_chain :: "env \<Rightarrow> nat \<Rightarrow> nat \<Rightarrow> string option \<Rightarrow> transition_row list \<Rightarrow> chain_report" where
  "check_chain V n i prev [] = Intact n prev"
| "check_chain V n i prev (t # ts) =
    (if tr_prev t \<noteq> prev then Broken n i ''prev_hash does not link''
     else if canonical_hash (env_hash V) (transition_body t) \<noteq> Inr (tr_hash t) then Broken n i ''entry content changed''
     else check_chain V n (i + 1) (Some (tr_hash t)) ts)"

definition verify_transition_chain :: "env \<Rightarrow> string \<Rightarrow> ('x, chain_report) db_prog" where
  "verify_transition_chain V aid =
    bnd (list_transitions aid) (\<lambda>es. ret (check_chain V (length es) 0 None es))"

definition leased_past :: "int \<Rightarrow> action_state list \<Rightarrow> string option \<Rightarrow> ('x, action_row list) db_prog" where
  "leased_past now states tenant =
    (if states = [] then ret []
     else gets (\<lambda>db. sort_key (\<lambda>r. case ac_lease_expires r of None \<Rightarrow> [] | Some e \<Rightarrow> e)
       (filter (\<lambda>r. ac_state r \<in> set states \<and> (case tenant of None \<Rightarrow> True | Some t \<Rightarrow> ac_tenant r = t) \<and>
          (case ac_lease_expires r of None \<Rightarrow> False | Some e \<Rightarrow> e < iso now)) (ad_actions db))))"

definition expiring_before :: "string \<Rightarrow> int \<Rightarrow> action_state list \<Rightarrow> ('x, action_row list) db_prog" where
  "expiring_before tenant moment states =
    gets (\<lambda>db. sort_key ac_expires (filter (\<lambda>r. ac_tenant r = tenant \<and> ac_state r \<in> set states \<and>
      ac_expires r < iso moment) (ad_actions db)))"

subsection \<open>Budgets\<close>

definition budget_scope_of :: "string \<Rightarrow> budget_scope option" where
  "budget_scope_of v = find (\<lambda>s. budget_scope_value s = v) budget_scopes"

definition set_budget_policy :: "env \<Rightarrow> string \<Rightarrow> string \<Rightarrow> string \<Rightarrow> string \<Rightarrow> int \<Rightarrow> string \<Rightarrow> ('x, budget_policy) db_prog" where
  "set_budget_policy V tenant kind ref currency ceiling actor =
    (case budget_scope_of kind of
       None \<Rightarrow> raise (ValueErr (''unknown budget scope '' @ kind))
     | Some scope \<Rightarrow>
    bnd (guard (ceiling \<ge> 0) (ValueErr ''ceiling_minor must be >= 0'')) (\<lambda>_.
    let cur = upper currency; key = (\<lambda>p. (bp_tenant p, bp_kind p, bp_ref p, bp_currency p)) in
    atomic_db (
      bnd (register_tenant tenant) (\<lambda>_.
      bnd (uuid4_hex V) (\<lambda>u.
      bnd (now_iso V) (\<lambda>stamp.
      let p = \<lparr>bp_id = ''bp-'' @ u, bp_tenant = tenant, bp_kind = scope, bp_ref = ref, bp_currency = cur,
               bp_ceiling = ceiling, bp_created_by = actor, bp_created = stamp\<rparr> in
      bnd (modify (ad_policies_update (insert_or_update key
             (\<lambda>n r. r\<lparr>bp_ceiling := bp_ceiling n, bp_created_by := bp_created_by n, bp_created := bp_created n\<rparr>) p))) (\<lambda>_.
      bnd (gets (\<lambda>db. row_by key (key p) (ad_policies db))) (\<lambda>row.
      case row of Some q \<Rightarrow> ret q | None \<Rightarrow> ret p))))))))"

definition list_budget_policies :: "string \<Rightarrow> ('x, budget_policy list) db_prog" where
  "list_budget_policies tenant =
    gets (\<lambda>db. sort_key (\<lambda>p. budget_scope_value (bp_kind p))
      (sort_key bp_ref (sort_key bp_currency (filter (\<lambda>p. bp_tenant p = tenant) (ad_policies db)))))"

definition applicable :: "string \<Rightarrow> string \<Rightarrow> string option \<Rightarrow> budget_policy \<Rightarrow> bool" where
  "applicable tenant project client p =
    (case bp_kind p of
       Scope_ACTION \<Rightarrow> bp_ref p = ''*'' \<or> bp_ref p = project
     | Scope_PROJECT \<Rightarrow> bp_ref p = project
     | Scope_CLIENT \<Rightarrow> (case client of None \<Rightarrow> False | Some c \<Rightarrow> c \<noteq> [] \<and> bp_ref p = c)
     | _ \<Rightarrow> bp_ref p = tenant)"

definition applicable_policies :: "string \<Rightarrow> string \<Rightarrow> string option \<Rightarrow> budget_policy list \<Rightarrow> budget_policy list" where
  "applicable_policies tenant project client ps = filter (applicable tenant project client) ps"

definition counted_amount :: "reservation \<Rightarrow> int" where
  "counted_amount r = (if re_status r = Res_COMMITTED
     then (case re_committed r of Some c \<Rightarrow> c | None \<Rightarrow> re_amount r) else re_amount r)"

definition counts_for :: "budget_scope \<Rightarrow> string \<Rightarrow> string option \<Rightarrow> int \<Rightarrow> reservation \<Rightarrow> bool" where
  "counts_for kind project client now r =
    (case kind of
       Scope_PROJECT \<Rightarrow> re_project r = project
     | Scope_CLIENT \<Rightarrow> (client \<noteq> None \<and> re_client r = client)
     | Scope_TENANT_DAY \<Rightarrow> re_created r \<ge> iso (day_start now)
     | Scope_TENANT_MONTH \<Rightarrow> re_created r \<ge> iso (month_start now)
     | Scope_ACTION \<Rightarrow> True)"

definition usage :: "reservation list \<Rightarrow> budget_policy \<Rightarrow> string \<Rightarrow> string \<Rightarrow> string option \<Rightarrow> string \<Rightarrow> int \<Rightarrow> int" where
  "usage rs p tenant project client currency now =
    sum_list (map counted_amount (filter (\<lambda>r. re_tenant r = tenant \<and> re_currency r = currency \<and>
      re_status r \<in> {Res_RESERVED, Res_COMMITTED} \<and> counts_for (bp_kind p) project client now r) rs))"

definition policy_usage :: "reservation list \<Rightarrow> budget_policy \<Rightarrow> string \<Rightarrow> string \<Rightarrow> string option \<Rightarrow> string \<Rightarrow> int \<Rightarrow> int" where
  "policy_usage rs p tenant project client currency now =
    (if bp_kind p = Scope_ACTION then 0 else usage rs p tenant project client currency now)"

definition breach_json :: "budget_policy \<Rightarrow> int \<Rightarrow> int \<Rightarrow> json" where
  "breach_json p used amount = JDict [(''scope_kind'', JStr (budget_scope_value (bp_kind p))), (''scope_ref'', JStr (bp_ref p)),
     (''ceiling_minor'', JInt (bp_ceiling p)), (''used_minor'', JInt used), (''requested_minor'', JInt amount)]"

definition expire_reservations :: "string \<Rightarrow> string \<Rightarrow> ('x, unit) db_prog" where
  "expire_reservations tenant stamp =
    modify (ad_reservations_update (update_rows
      (\<lambda>r. re_tenant r = tenant \<and> re_status r = Res_RESERVED \<and> re_expires r < stamp)
      (\<lambda>r. r\<lparr>re_status := Res_EXPIRED, re_updated := stamp\<rparr>)))"

definition reserve_budget :: "env \<Rightarrow> string \<Rightarrow> string \<Rightarrow> string option \<Rightarrow> string \<Rightarrow> string \<Rightarrow> int \<Rightarrow> int \<Rightarrow> int
    \<Rightarrow> ('x, reservation) db_prog" where
  "reserve_budget V tenant project client aid cur amount expires now =
    bnd (guard (amount \<ge> 0) (ValueErr ''amount_minor must be >= 0'')) (\<lambda>_.
    let currency = upper cur; stamp = iso now in
    atomic_db (
      bnd (expire_reservations tenant stamp) (\<lambda>_.
      bnd (gets (\<lambda>db. filter (\<lambda>p. bp_tenant p = tenant \<and> bp_currency p = currency) (ad_policies db))) (\<lambda>policies.
      let ps = applicable_policies tenant project client policies in
      bnd (guard (ps \<noteq> []) (BudgetExceeded ''NO_BUDGET_POLICY''
             (JDict [(''currency'', JStr currency), (''reason'', JStr ''no ceiling applies, so no spend is allowed'')]))) (\<lambda>_.
      bnd (gets ad_reservations) (\<lambda>rs.
      let used = (\<lambda>p. policy_usage rs p tenant project client currency now);
          breaches = filter (\<lambda>p. used p + amount > bp_ceiling p) ps in
      bnd (guard (breaches = []) (BudgetExceeded ''BUDGET_CEILING_EXCEEDED''
             (JDict [(''currency'', JStr currency), (''breaches'', JList (map (\<lambda>p. breach_json p (used p) amount) breaches))]))) (\<lambda>_.
      bnd (uuid4_hex V) (\<lambda>u.
      let r = \<lparr>re_id = ''res-'' @ u, re_tenant = tenant, re_project = project, re_client = client, re_action = aid,
               re_currency = currency, re_amount = amount, re_committed = None, re_status = Res_RESERVED,
               re_expires = iso expires, re_evidence = [(''policies'', str_list (map bp_id ps))],
               re_created = stamp, re_updated = stamp\<rparr> in
      bnd (modify (ad_reservations_update (\<lambda>rs. rs @ [r]))) (\<lambda>_. ret r)))))))))"

definition get_reservation :: "string \<Rightarrow> ('x, reservation option) db_prog" where
  "get_reservation rid = gets (\<lambda>db. row_by re_id rid (ad_reservations db))"

definition settle_reservation :: "env \<Rightarrow> string \<Rightarrow> reservation_status \<Rightarrow> int option \<Rightarrow> (string \<times> json) list
    \<Rightarrow> reservation_status \<Rightarrow> ('x, reservation) db_prog" where
  "settle_reservation V rid status committed evidence expected =
    bnd (guard (status \<noteq> Res_RESERVED) (ValueErr (''unknown reservation status '' @ reservation_status_value status))) (\<lambda>_.
    atomic_db (
      bnd (get_reservation rid) (\<lambda>found.
      case found of
        None \<Rightarrow> raise (ActionNotFound rid)
      | Some c \<Rightarrow>
          bnd (now_iso V) (\<lambda>stamp.
          let hit = (\<lambda>r. re_id r = rid \<and> re_status r = expected);
              upd = (\<lambda>r. r\<lparr>re_status := status, re_committed := (case committed of Some n \<Rightarrow> Some n | None \<Rightarrow> re_committed r),
                          re_evidence := dict_merge (re_evidence c) evidence, re_updated := stamp\<rparr>) in
          bnd (gets (\<lambda>db. count_rows hit (ad_reservations db))) (\<lambda>n.
          bnd (modify (ad_reservations_update (update_rows hit upd))) (\<lambda>_.
          bnd (guard (n = 1) (ActionConflict (''reservation '' @ rid @ '' is '' @ reservation_status_value (re_status c) @
                 '', not '' @ reservation_status_value expected))) (\<lambda>_.
          bnd (get_reservation rid) (\<lambda>out.
          case out of Some q \<Rightarrow> ret q | None \<Rightarrow> raise (ActionNotFound rid)))))))))"

definition list_reservations :: "string \<Rightarrow> reservation_status list \<Rightarrow> ('x, reservation list) db_prog" where
  "list_reservations tenant statuses =
    gets (\<lambda>db. sort_key re_created (filter (\<lambda>r. re_tenant r = tenant \<and> (statuses = [] \<or> re_status r \<in> set statuses))
      (ad_reservations db)))"

subsection \<open>Freezes and settings\<close>

definition create_freeze :: "env \<Rightarrow> string \<Rightarrow> string \<Rightarrow> string \<Rightarrow> string \<Rightarrow> string \<Rightarrow> ('x, freeze_row) db_prog" where
  "create_freeze V tenant kind ref reason actor =
    bnd (guard (kind = ''TENANT'' \<or> kind = ''PROJECT'') (ValueErr ''scope_kind must be TENANT or PROJECT'')) (\<lambda>_.
    bnd (uuid4_hex V) (\<lambda>u.
    atomic_db (
      bnd (register_tenant tenant) (\<lambda>_.
      bnd (now_iso V) (\<lambda>stamp.
      let z = \<lparr>fz_id = ''frz-'' @ u, fz_tenant = tenant, fz_kind = kind, fz_ref = ref, fz_reason = reason, fz_by = actor,
               fz_at = stamp, fz_lifted_by = None, fz_lifted_at = None, fz_lift_reason = None\<rparr> in
      bnd (modify (ad_freezes_update (\<lambda>zs. zs @ [z]))) (\<lambda>_. ret z))))))"

definition get_freeze :: "string \<Rightarrow> ('x, freeze_row option) db_prog" where
  "get_freeze fid = gets (\<lambda>db. row_by fz_id fid (ad_freezes db))"

definition lift_freeze :: "env \<Rightarrow> string \<Rightarrow> string \<Rightarrow> string \<Rightarrow> ('x, freeze_row) db_prog" where
  "lift_freeze V fid actor reason = atomic_db (
    bnd (now_iso V) (\<lambda>stamp.
    let hit = (\<lambda>z. fz_id z = fid \<and> fz_lifted_at z = None) in
    bnd (gets (\<lambda>db. count_rows hit (ad_freezes db))) (\<lambda>n.
    bnd (modify (ad_freezes_update (update_rows hit
           (\<lambda>z. z\<lparr>fz_lifted_by := Some actor, fz_lifted_at := Some stamp, fz_lift_reason := Some reason\<rparr>)))) (\<lambda>_.
    bnd (guard (n = 1) (ActionConflict (''freeze '' @ fid @ '' is not active''))) (\<lambda>_.
    bnd (get_freeze fid) (\<lambda>out.
    case out of Some z \<Rightarrow> ret z | None \<Rightarrow> raise (ActionNotFound fid)))))))"

definition active_freezes :: "string \<Rightarrow> ('x, freeze_row list) db_prog" where
  "active_freezes tenant =
    gets (\<lambda>db. sort_key fz_at (filter (\<lambda>z. fz_tenant z = tenant \<and> fz_lifted_at z = None) (ad_freezes db)))"

definition get_autonomy :: "string \<Rightarrow> ('x, autonomy_row option) db_prog" where
  "get_autonomy project = gets (\<lambda>db. row_by au_project_id project (ad_autonomy db))"

definition set_autonomy_row :: "env \<Rightarrow> string \<Rightarrow> string \<Rightarrow> autonomy_level \<Rightarrow> string \<Rightarrow> ('x, autonomy_row) db_prog" where
  "set_autonomy_row V tenant project level actor = atomic_db (
    bnd (ensure_tenant_project tenant project) (\<lambda>_.
    bnd (now_iso V) (\<lambda>stamp.
    let row = \<lparr>au_project_id = project, au_tenant_id = tenant, au_level = level, au_by = actor, au_at = stamp\<rparr> in
    bnd (modify (ad_autonomy_update (insert_or_update au_project_id
           (\<lambda>n r. r\<lparr>au_level := au_level n, au_by := au_by n, au_at := au_at n\<rparr>) row))) (\<lambda>_.
    bnd (get_autonomy project) (\<lambda>out. case out of Some r \<Rightarrow> ret r | None \<Rightarrow> ret row)))))"

subsection \<open>The sandbox provider\<close>

definition effect_ident :: "effect_row \<Rightarrow> string \<times> string \<times> string" where
  "effect_ident e = (ef_tenant e, ef_provider e, ef_key e)"

definition sandbox_put :: "env \<Rightarrow> string \<Rightarrow> string \<Rightarrow> string \<Rightarrow> string \<Rightarrow> string \<Rightarrow> string \<Rightarrow> string \<Rightarrow> json \<Rightarrow> int \<Rightarrow> string option
    \<Rightarrow> ('x, effect_row \<times> bool) db_prog" where
  "sandbox_put V tenant provider operation key target payload state body cost currency =
    bnd (now_iso V) (\<lambda>stamp.
    atomic_db (
      bnd (gets (\<lambda>db. row_by effect_ident (tenant, provider, key) (ad_effects db))) (\<lambda>existing.
      case existing of
        Some e \<Rightarrow> ret (e, False)
      | None \<Rightarrow>
          bnd (uuid4_hex V) (\<lambda>u.
          let e = \<lparr>ef_id = ''sbx-'' @ u, ef_tenant = tenant, ef_provider = provider, ef_operation = operation, ef_key = key,
                   ef_target = target, ef_payload_hash = payload, ef_state = state, ef_cost = cost, ef_currency = currency,
                   ef_body = body, ef_created = stamp, ef_updated = stamp\<rparr> in
          bnd (modify (ad_effects_update (\<lambda>es. es @ [e]))) (\<lambda>_. ret (e, True))))))"

definition sandbox_get :: "string \<Rightarrow> string \<Rightarrow> string \<Rightarrow> ('x, effect_row option) db_prog" where
  "sandbox_get tenant provider key = gets (\<lambda>db. row_by effect_ident (tenant, provider, key) (ad_effects db))"

definition sandbox_set_state :: "env \<Rightarrow> string \<Rightarrow> string \<Rightarrow> string \<Rightarrow> ('x, effect_row) db_prog" where
  "sandbox_set_state V eid state expected = atomic_db (
    bnd (now_iso V) (\<lambda>stamp.
    let hit = (\<lambda>e. ef_id e = eid \<and> ef_state e = expected) in
    bnd (gets (\<lambda>db. count_rows hit (ad_effects db))) (\<lambda>n.
    bnd (modify (ad_effects_update (update_rows hit (\<lambda>e. e\<lparr>ef_state := state, ef_updated := stamp\<rparr>)))) (\<lambda>_.
    bnd (guard (n = 1) (ActionConflict (''sandbox effect '' @ eid @ '' is not '' @ expected))) (\<lambda>_.
    bnd (gets (\<lambda>db. row_by ef_id eid (ad_effects db))) (\<lambda>out.
    case out of Some e \<Rightarrow> ret e | None \<Rightarrow> raise (ActionNotFound eid)))))))"

definition sandbox_list :: "string \<Rightarrow> string option \<Rightarrow> ('x, effect_row list) db_prog" where
  "sandbox_list tenant provider =
    gets (\<lambda>db. sort_key ef_created (filter (\<lambda>e. ef_tenant e = tenant \<and>
      (case provider of None \<Rightarrow> True | Some p \<Rightarrow> p = [] \<or> ef_provider e = p)) (ad_effects db)))"

subsection \<open>Clients\<close>

definition create_client :: "env \<Rightarrow> string \<Rightarrow> string \<Rightarrow> string \<Rightarrow> string \<Rightarrow> string \<Rightarrow> ('x, client_row) db_prog" where
  "create_client V tenant name slug notes actor =
    bnd (now_iso V) (\<lambda>stamp.
    bnd (uuid4_hex V) (\<lambda>u.
    atomic_db (
      bnd (register_tenant tenant) (\<lambda>_.
      bnd (gets (\<lambda>db. row_by (\<lambda>c. (cl_tenant c, cl_slug c)) (tenant, slug) (ad_clients db))) (\<lambda>dup.
      bnd (guard (dup = None) (ActionConflict (''a client with slug '' @ repr_str slug @ '' already exists''))) (\<lambda>_.
      let c = \<lparr>cl_id = ''cli-'' @ take 20 u, cl_tenant = tenant, cl_name = name, cl_slug = slug, cl_status = ''ACTIVE'',
               cl_notes = notes, cl_by = actor, cl_created = stamp, cl_updated = stamp\<rparr> in
      bnd (modify (ad_clients_update (\<lambda>cs. cs @ [c]))) (\<lambda>_. ret c)))))))"

definition get_client :: "string \<Rightarrow> ('x, client_row option) db_prog" where
  "get_client cid = gets (\<lambda>db. row_by cl_id cid (ad_clients db))"

definition list_clients :: "string \<Rightarrow> ('x, client_row list) db_prog" where
  "list_clients tenant = gets (\<lambda>db. sort_key cl_name (filter (\<lambda>c. cl_tenant c = tenant) (ad_clients db)))"

definition set_client_status :: "env \<Rightarrow> string \<Rightarrow> string \<Rightarrow> string \<Rightarrow> ('x, client_row) db_prog" where
  "set_client_status V cid status expected = atomic_db (
    bnd (now_iso V) (\<lambda>stamp.
    let hit = (\<lambda>c. cl_id c = cid \<and> cl_status c = expected) in
    bnd (gets (\<lambda>db. count_rows hit (ad_clients db))) (\<lambda>n.
    bnd (modify (ad_clients_update (update_rows hit (\<lambda>c. c\<lparr>cl_status := status, cl_updated := stamp\<rparr>)))) (\<lambda>_.
    bnd (guard (n = 1) (ActionConflict (''client '' @ cid @ '' is not '' @ expected))) (\<lambda>_.
    bnd (get_client cid) (\<lambda>out.
    case out of Some c \<Rightarrow> ret c | None \<Rightarrow> raise (ActionNotFound cid)))))))"

definition link_project :: "env \<Rightarrow> string \<Rightarrow> string \<Rightarrow> string \<Rightarrow> string \<Rightarrow> ('x, client_link) db_prog" where
  "link_project V tenant cid project actor = atomic_db (
    bnd (ensure_tenant_project tenant project) (\<lambda>_.
    bnd (gets (\<lambda>db. row_by li_project project (ad_links db))) (\<lambda>current.
    case current of
      Some l \<Rightarrow> if li_client l = cid then ret l
                else raise (ActionConflict ''project is already linked to another client'')
    | None \<Rightarrow>
        bnd (now_iso V) (\<lambda>stamp.
        let l = \<lparr>li_project = project, li_client = cid, li_tenant = tenant, li_by = actor, li_at = stamp\<rparr> in
        bnd (modify (ad_links_update (\<lambda>ls. ls @ [l]))) (\<lambda>_. ret l)))))"

definition client_for_project :: "string \<Rightarrow> ('x, string option) db_prog" where
  "client_for_project project = gets (\<lambda>db. map_option li_client (row_by li_project project (ad_links db)))"

definition projects_for_client :: "string \<Rightarrow> ('x, string list) db_prog" where
  "projects_for_client cid =
    gets (\<lambda>db. map li_project (sort_key li_at (filter (\<lambda>l. li_client l = cid) (ad_links db))))"

end
