(* ===== verification/Action_History.thy ===== *)
theory Action_History
  imports Action_Store
begin

section \<open>Histories of actions\<close>

text \<open>
  What the store guarantees whoever calls it: the transitions of an action form a hash chain
  from nothing to its current state, its version is their number, every state change is a
  compare-and-set on that version, and a key belongs to one action. The invariant is stated
  for any set of allowed edges and any condition on rows; the gateway supplies both.
\<close>

subsection \<open>The chain of one action\<close>

definition transition_content where
  "transition_content t = (tr_action t, tr_tenant t, tr_from t, tr_to t, tr_actor t, tr_reason t,
     canon (tr_evidence t), tr_created t)"

interpretation transitions: rooted_chain tr_prev tr_hash transition_body Some transition_content None
proof
  show "transition_content e = transition_content f \<and> tr_prev e = tr_prev f"
    if "canon (transition_body e) = Inr t" "canon (transition_body f) = Inr t" for e f t
  proof -
    have *: "canon (transition_body x) = (case canon (tr_evidence x) of Inl err \<Rightarrow> Inl err | Inr ev \<Rightarrow>
       Inr (TDict [(''action_id'', TStr (tr_action x)), (''actor'', TStr (tr_actor x)), (''created_at'', TStr (tr_created x)),
         (''evidence'', ev), (''from_state'', case map_option action_state_value (tr_from x) of None \<Rightarrow> TNull | Some s \<Rightarrow> TStr s),
         (''prev_hash'', case tr_prev x of None \<Rightarrow> TNull | Some s \<Rightarrow> TStr s), (''reason'', TStr (tr_reason x)),
         (''tenant_id'', TStr (tr_tenant x)), (''to_state'', TStr (action_state_value (tr_to x)))]))" for x
      by (auto simp: transition_body_def utf8_def utf8_char_def split: sum.splits)
    show ?thesis
      using that unfolding *
      by (auto simp: transition_content_def action_state_value_inj split: sum.splits option.splits)
  qed
qed simp_all

fun continuous :: "action_state option \<Rightarrow> transition_row list \<Rightarrow> bool" where
  "continuous p [] = True"
| "continuous p (t # ts) = (tr_from t = p \<and> continuous (Some (tr_to t)) ts)"

definition last_state :: "action_state option \<Rightarrow> transition_row list \<Rightarrow> action_state option" where
  "last_state p ts = (if ts = [] then p else Some (tr_to (last ts)))"

lemma continuous_snoc: "continuous p (ts @ [t]) \<longleftrightarrow> continuous p ts \<and> tr_from t = last_state p ts"
  by (induction ts arbitrary: p) (auto simp: last_state_def)

definition intact :: "env \<Rightarrow> transition_row list \<Rightarrow> bool" where
  "intact V es = links tr_prev tr_hash transition_body Some (env_hash V) None es"

lemma check_chain_intact:
  "(\<exists>h. check_chain V n i prev es = Intact n h) \<longleftrightarrow> links tr_prev tr_hash transition_body Some (env_hash V) prev es"
  by (induction es arbitrary: i prev) auto

lemma check_chain_head: "check_chain V n i prev es = Intact m h \<Longrightarrow> m = n \<and> h = chain_head tr_hash Some prev es"
  by (induction es arbitrary: i prev) (auto simp: chain_head_def split: if_splits)

definition history_ok :: "env \<Rightarrow> (action_state \<Rightarrow> action_state set) \<Rightarrow> transition_row list \<Rightarrow> action_row \<Rightarrow> bool" where
  "history_ok V E ts r = (let es = entries_of (ac_id r) ts in
     es \<noteq> [] \<and> intact V es \<and> continuous None es \<and> tr_to (last es) = ac_state r \<and> int (length es) = ac_version r \<and>
     walk E (map tr_to es) \<and> (\<forall>t\<in>set es. tr_tenant t = ac_tenant r))"

definition store_ok :: "env \<Rightarrow> (action_state \<Rightarrow> action_state set) \<Rightarrow> (action_row \<Rightarrow> bool) \<Rightarrow> 'x action_db_scheme \<Rightarrow> bool" where
  "store_ok V E P db = (distinct (map ac_id (ad_actions db)) \<and>
     distinct (map (\<lambda>r. (ac_tenant r, ac_key r)) (ad_actions db)) \<and>
     (\<forall>r\<in>set (ad_actions db). P r \<and> history_ok V E (ad_transitions db) r) \<and>
     (\<forall>t\<in>set (ad_transitions db). tr_action t \<in> ac_id ` set (ad_actions db)))"

lemma entries_of_snoc: "entries_of aid (ts @ [t]) = (if tr_action t = aid then entries_of aid ts @ [t] else entries_of aid ts)"
  by (simp add: entries_of_def)

lemma history_ok_other: "tr_action t \<noteq> ac_id r \<Longrightarrow> history_ok V E (ts @ [t]) r = history_ok V E ts r"
  by (simp add: history_ok_def entries_of_snoc)

lemma walk_snoc: "xs \<noteq> [] \<Longrightarrow> walk E (xs @ [b]) \<longleftrightarrow> walk E xs \<and> b \<in> E (last xs)"
proof (induction xs)
  case (Cons x xs)
  then show ?case by (cases xs) auto
qed simp

text \<open>One more entry, and the row it belongs to.\<close>

lemma history_ok_step:
  assumes "history_ok V E ts r" and "tr_action t = ac_id r" and "tr_tenant t = ac_tenant r" and "tr_from t = Some (ac_state r)"
    and "tr_prev t = Some (tr_hash (last (entries_of (ac_id r) ts)))"
    and "canonical_hash (env_hash V) (transition_body t) = Inr (tr_hash t)"
    and "tr_to t \<in> E (ac_state r)"
    and "ac_id q = ac_id r" "ac_tenant q = ac_tenant r" "ac_state q = tr_to t" "ac_version q = ac_version r + 1"
  shows "history_ok V E (ts @ [t]) q"
proof -
  let ?es = "entries_of (ac_id r) ts"
  have es: "?es \<noteq> []" "intact V ?es" "continuous None ?es" "tr_to (last ?es) = ac_state r" "int (length ?es) = ac_version r"
    "walk E (map tr_to ?es)" "\<forall>t\<in>set ?es. tr_tenant t = ac_tenant r"
    using assms(1) by (simp_all add: history_ok_def Let_def)
  have "intact V (?es @ [t])"
    using es(1,2) assms(5,6) by (simp add: intact_def transitions.links_snoc chain_head_def)
  moreover have "continuous None (?es @ [t])"
    using es(1,3,4) assms(4) by (simp add: continuous_snoc last_state_def)
  moreover have "walk E (map tr_to (?es @ [t]))"
    using es(1,4,6) assms(7) by (simp add: walk_snoc last_map)
  ultimately show ?thesis
    using es assms by (simp add: history_ok_def entries_of_snoc)
qed

lemma history_ok_first:
  assumes "entries_of (ac_id r) ts = []" and "tr_action t = ac_id r" and "tr_tenant t = ac_tenant r" and "tr_from t = None"
    and "tr_prev t = None" and "canonical_hash (env_hash V) (transition_body t) = Inr (tr_hash t)"
    and "ac_state r = tr_to t" and "ac_version r = 1"
  shows "history_ok V E (ts @ [t]) r"
  using assms by (simp add: history_ok_def entries_of_snoc intact_def)

lemma store_ok_row: "store_ok V E P db \<Longrightarrow> row_by ac_id aid (ad_actions db) = Some r \<Longrightarrow>
    P r \<and> history_ok V E (ad_transitions db) r \<and> ac_id r = aid \<and> r \<in> set (ad_actions db)"
  by (auto simp: store_ok_def dest: row_by_SomeD)

subsection \<open>Programs that leave the actions alone\<close>

definition same_actions :: "'x action_db_scheme \<Rightarrow> 'x action_db_scheme \<Rightarrow> bool" where
  "same_actions db v = (ad_actions v = ad_actions db \<and> ad_transitions v = ad_transitions db)"

lemma store_ok_same: "same_actions db v \<Longrightarrow> store_ok V E P v = store_ok V E P db"
  by (simp add: same_actions_def store_ok_def)

lemma wp_atomic_db [hoare_rules]:
  "wp (atomic_db m) Q E = (\<lambda>s. wp m Q (\<lambda>e v. E e (s\<lparr>w_reads := w_reads v, w_uuids := w_uuids v\<rparr>)) s)"
  by (auto simp: wp_def atomic_db_def fun_eq_iff split: prod.splits sum.splits)

text \<open>Everything but the actions, their transitions and the counters.\<close>

definition rest :: "'x action_db_scheme \<Rightarrow> 'x action_db_scheme" where
  "rest db = db\<lparr>w_reads := 0, w_uuids := 0, ad_actions := [], ad_transitions := []\<rparr>"

lemma rest_update [simp]:
  "rest (w_reads_update f db) = rest db" "rest (w_uuids_update f db) = rest db"
  "rest (ad_actions_update g db) = rest db" "rest (ad_transitions_update h db) = rest db"
  by (simp_all add: rest_def)

lemma same_actions_update [simp]:
  "same_actions db (w_reads_update f v) = same_actions db v" "same_actions db (w_uuids_update f v) = same_actions db v"
  "same_actions db db"
  by (simp_all add: same_actions_def)

lemma store_ok_update [simp]:
  "store_ok V E P (w_reads_update f v) = store_ok V E P v" "store_ok V E P (w_uuids_update f v) = store_ok V E P v"
  by (simp_all add: store_ok_def)

subsection \<open>The three writes of an action\<close>

lemma wp_append_transition:
  assumes "\<And>t. tr_action t = aid \<Longrightarrow> tr_tenant t = tenant \<Longrightarrow> tr_from t = src \<Longrightarrow> tr_to t = dst \<Longrightarrow>
      tr_actor t = actor \<Longrightarrow> tr_reason t = reason \<Longrightarrow> tr_evidence t = evidence \<Longrightarrow> tr_created t = created \<Longrightarrow>
      tr_prev t = (let es = entries_of aid (ad_transitions db) in if es = [] then None else Some (tr_hash (last es))) \<Longrightarrow>
      canonical_hash (env_hash V) (transition_body t) = Inr (tr_hash t) \<Longrightarrow>
      Q t (ad_transitions_update (\<lambda>ts. ts @ [t]) db)"
    and "\<And>e. E e db"
  shows "wp (append_transition V aid tenant src dst actor reason evidence created) Q E db"
proof -
  let ?es = "entries_of aid (ad_transitions db)"
  let ?t = "\<lparr>tr_action = aid, tr_tenant = tenant, tr_from = src, tr_to = dst, tr_actor = actor, tr_reason = reason,
    tr_evidence = evidence, tr_prev = if ?es = [] then None else Some (tr_hash (last ?es)), tr_hash = [], tr_created = created\<rparr>"
  show ?thesis
  proof (cases "canonical_hash (env_hash V) (transition_body ?t)")
    case (Inl e)
    then show ?thesis using assms(2) by (simp add: append_transition_def hoare_rules Let_def)
  next
    case (Inr h)
    have "transition_body (?t\<lparr>tr_hash := h\<rparr>) = transition_body ?t" by (simp add: transition_body_def)
    with Inr have "Q (?t\<lparr>tr_hash := h\<rparr>) (ad_transitions_update (\<lambda>ts. ts @ [?t\<lparr>tr_hash := h\<rparr>]) db)"
      by (intro assms(1)) (simp_all add: Let_def)
    then show ?thesis using Inr by (simp add: append_transition_def hoare_rules Let_def)
  qed
qed

lemma moved_simps [simp]:
  "ac_id (moved us dst stamp r) = ac_id r" "ac_tenant (moved us dst stamp r) = ac_tenant r"
  "ac_project (moved us dst stamp r) = ac_project r" "ac_key (moved us dst stamp r) = ac_key r"
  "ac_state (moved us dst stamp r) = dst" "ac_version (moved us dst stamp r) = ac_version r + 1"
  "ac_binding (moved us dst stamp r) = ac_binding r" "ac_binding_hash (moved us dst stamp r) = ac_binding_hash r"
  "ac_environment (moved us dst stamp r) = ac_environment r" "ac_payload_hash (moved us dst stamp r) = ac_payload_hash r"
  "ac_target (moved us dst stamp r) = ac_target r" "ac_request_hash (moved us dst stamp r) = ac_request_hash r"
  "ac_actor (moved us dst stamp r) = ac_actor r" "ac_args (moved us dst stamp r) = ac_args r"
  "ac_capability (moved us dst stamp r) = ac_capability r" "ac_class (moved us dst stamp r) = ac_class r"
  by (simp_all add: moved_def)

definition replace_row :: "action_row \<Rightarrow> action_row list \<Rightarrow> action_row list" where
  "replace_row q rows = update_rows (\<lambda>r. ac_id r = ac_id q) (\<lambda>_. q) rows"

lemma row_by_replace_row:
  "row_by ac_id (ac_id q) rows \<noteq> None \<Longrightarrow>
   row_by ac_id k (replace_row q rows) = (if k = ac_id q then Some q else row_by ac_id k rows)"
  unfolding replace_row_def by (auto simp: row_by_replace split: option.splits)

lemma update_rows_cas:
  assumes "distinct (map ac_id rows)" and "row_by ac_id aid rows = Some r" and "hit r" and "ac_id (f r) = ac_id r"
  shows "update_rows (\<lambda>q. ac_id q = aid \<and> hit q) f rows = replace_row (f r) rows"
proof -
  have r: "ac_id r = aid" using assms(2) by (auto dest: row_by_SomeD)
  have "q = r" if "q \<in> set rows" "ac_id q = aid" for q
    using row_by_distinct [OF assms(1) that(1)] assms(2) that(2) by simp
  then show ?thesis using assms(3,4) r by (auto simp: replace_row_def update_rows_def)
qed

lemma count_rows_cas:
  assumes "distinct (map ac_id rows)" and "row_by ac_id aid rows = Some r"
  shows "count_rows (\<lambda>q. ac_id q = aid \<and> hit q) rows = (if hit r then 1 else 0)"
  using count_rows_key [OF assms(1), of "\<lambda>q. ac_id q = aid \<and> hit q" aid] assms(2)
  by (auto dest: row_by_SomeD)

lemma store_ok_replace:
  assumes ok: "store_ok V E P db" and r: "row_by ac_id (ac_id q) (ad_actions db) = Some r"
    and key: "ac_key q = ac_key r" "ac_tenant q = ac_tenant r"
    and t: "tr_action t = ac_id q" and P: "P q" and hist: "history_ok V E (ad_transitions db @ [t]) q"
    and v: "ad_actions v = replace_row q (ad_actions db)" "ad_transitions v = ad_transitions db @ [t]"
  shows "store_ok V E P v"
proof -
  let ?rows = "ad_actions db"
  have ids: "map ac_id (replace_row q ?rows) = map ac_id ?rows"
    unfolding replace_row_def by (rule map_key_replace)
  have uniq: "x = r" if "x \<in> set ?rows" "ac_id x = ac_id q" for x
    using ok row_by_distinct [of ac_id ?rows x] r that by (simp add: store_ok_def)
  have keys: "map (\<lambda>r. (ac_tenant r, ac_key r)) (replace_row q ?rows) = map (\<lambda>r. (ac_tenant r, ac_key r)) ?rows"
    using uniq key unfolding replace_row_def update_rows_def by (auto simp: comp_def)
  have rows: "P x \<and> history_ok V E (ad_transitions db @ [t]) x" if x: "x \<in> set (replace_row q ?rows)" for x
  proof (cases "x = q")
    case False
    then have "x \<in> set ?rows" "ac_id x \<noteq> ac_id q"
      using x by (auto simp: replace_row_def set_update_rows split: if_splits)
    then show ?thesis using ok t by (simp add: store_ok_def history_ok_other)
  qed (use P hist in simp)
  have ids': "ac_id ` set (replace_row q ?rows) = ac_id ` set ?rows"
    using ids by (metis list.set_map)
  have "ac_id q \<in> ac_id ` set ?rows" using row_by_SomeD [OF r] by (metis imageI)
  then show ?thesis
    using ok ids keys rows t unfolding store_ok_def v by (simp add: ids')
qed

lemma ad_actions_cas: "f (ad_actions w) = rows \<Longrightarrow> ad_actions_update f w = ad_actions_update (\<lambda>_. rows) w"
proof -
  have "ad_actions_update f w = ad_actions_update (\<lambda>_. f (ad_actions w)) w" by simp
  then show "f (ad_actions w) = rows \<Longrightarrow> ?thesis" by simp
qed

text \<open>The entry a write appends to the chain of \<open>r\<close>.\<close>

definition next_entry :: "env \<Rightarrow> transition_row list \<Rightarrow> action_row \<Rightarrow> action_state \<Rightarrow> transition_row \<Rightarrow> bool" where
  "next_entry V ts r dst t = (tr_action t = ac_id r \<and> tr_tenant t = ac_tenant r \<and> tr_from t = Some (ac_state r) \<and> tr_to t = dst \<and>
     tr_prev t = (let es = entries_of (ac_id r) ts in if es = [] then None else Some (tr_hash (last es))) \<and>
     canonical_hash (env_hash V) (transition_body t) = Inr (tr_hash t))"

lemma wp_cas_write:
  assumes dist: "distinct (map ac_id (ad_actions db))" and id: "\<And>r. ac_id (upd r) = ac_id r"
    and Q: "\<And>r v t. row_by ac_id aid (ad_actions db) = Some r \<Longrightarrow> ac_id r = aid \<Longrightarrow> hit r \<Longrightarrow> rest v = rest db \<Longrightarrow>
       ad_actions v = replace_row (upd r) (ad_actions db) \<Longrightarrow> ad_transitions v = ad_transitions db @ [t] \<Longrightarrow>
       next_entry V (ad_transitions db) r (dst r) t \<Longrightarrow> Q (upd r) v"
    and err: "\<And>e v. same_actions db v \<Longrightarrow> rest v = rest db \<Longrightarrow> F e v"
  shows "wp (cas_write V aid hit upd dst stale actor reason evidence stamp) Q F db"
proof (cases "row_by ac_id aid (ad_actions db)")
  case None
  then show ?thesis using err by (simp add: cas_write_def hoare_rules get_request_def)
next
  case (Some r)
  have reset: "F e (db\<lparr>w_reads := n, w_uuids := m\<rparr>)" for e n m by (intro err) simp_all
  have r: "ac_id r = aid" using row_by_SomeD [OF Some] by simp
  note count = count_rows_cas [OF dist Some, of hit]
  show ?thesis
  proof (cases "hit r")
    case False
    then show ?thesis using count Some reset by (simp add: cas_write_def hoare_rules get_request_def)
  next
    case True
    let ?F = "\<lambda>e v. F e (db\<lparr>w_reads := w_reads v, w_uuids := w_uuids v\<rparr>)"
    let ?w = "ad_actions_update (\<lambda>_. replace_row (upd r) (ad_actions db)) db"
    have w: "ad_actions_update (update_rows (\<lambda>q. ac_id q = aid \<and> hit q) upd) db = ?w"
      by (rule ad_actions_cas, rule update_rows_cas [where hit = hit and f = upd]) (use dist Some True id in simp_all)
    have found: "row_by ac_id aid (replace_row (upd r) (ad_actions db)) = Some (upd r)"
      using row_by_replace_row [of "upd r" "ad_actions db" aid] Some r id by simp
    have "wp (append_transition V aid (ac_tenant r) (Some (ac_state r)) (dst r) actor reason evidence stamp)
      (\<lambda>_ v. wp (bnd (get_request aid) (\<lambda>out. case out of Some q \<Rightarrow> ret q | None \<Rightarrow> raise (ActionNotFound aid))) Q ?F v) ?F ?w"
    proof (rule wp_append_transition)
      fix t
      let ?v = "ad_transitions_update (\<lambda>ts. ts @ [t]) ?w"
      assume t: "tr_action t = aid" "tr_tenant t = ac_tenant r" "tr_from t = Some (ac_state r)" "tr_to t = dst r"
        "tr_prev t = (let es = entries_of aid (ad_transitions ?w) in if es = [] then None else Some (tr_hash (last es)))"
        "canonical_hash (env_hash V) (transition_body t) = Inr (tr_hash t)"
      have "Q (upd r) ?v"
        by (rule Q [OF Some, where t = t]) (use t r True in \<open>simp_all add: next_entry_def\<close>)
      with found show "wp (bnd (get_request aid) (\<lambda>out. case out of Some q \<Rightarrow> ret q | None \<Rightarrow> raise (ActionNotFound aid))) Q ?F ?v"
        by (simp add: hoare_rules get_request_def)
    next
      fix e v
      have "F e db" by (rule err) (simp_all add: same_actions_def)
      then show "?F e v" using reset by simp
    qed
    then show ?thesis
      using count True Some w by (simp add: cas_write_def hoare_rules get_request_def)
  qed
qed

lemma store_ok_step:
  assumes ok: "store_ok V E P db" and r: "row_by ac_id aid (ad_actions db) = Some r"
    and t: "next_entry V (ad_transitions db) r dst t" and edge: "dst \<in> E (ac_state r)" and P: "P q"
    and q: "ac_id q = ac_id r" "ac_tenant q = ac_tenant r" "ac_key q = ac_key r" "ac_state q = dst" "ac_version q = ac_version r + 1"
    and v: "ad_actions v = replace_row q (ad_actions db)" "ad_transitions v = ad_transitions db @ [t]"
  shows "store_ok V E P v"
proof -
  have rr: "P r" "history_ok V E (ad_transitions db) r" "ac_id r = aid"
    using store_ok_row [OF ok r] by auto
  have "history_ok V E (ad_transitions db @ [t]) q"
  proof (rule history_ok_step [OF rr(2)])
    show "tr_prev t = Some (tr_hash (last (entries_of (ac_id r) (ad_transitions db))))"
      using t rr(2) by (simp add: next_entry_def history_ok_def Let_def)
  qed (use t edge q in \<open>simp_all add: next_entry_def\<close>)
  then show ?thesis
    by (intro store_ok_replace [OF ok, of q r t]) (use r rr t P q v in \<open>simp_all add: next_entry_def\<close>)
qed

lemma wp_transition:
  assumes ok: "store_ok V E P db"
    and edge: "\<And>r. row_by ac_id aid (ad_actions db) = Some r \<Longrightarrow> ac_state r \<in> set states \<Longrightarrow> dst \<in> E (ac_state r)"
    and P: "\<And>r stamp. row_by ac_id aid (ad_actions db) = Some r \<Longrightarrow> ac_version r = version \<Longrightarrow> ac_state r \<in> set states \<Longrightarrow>
        P r \<Longrightarrow> P (moved updates dst stamp r)"
    and Q: "\<And>r stamp v t. row_by ac_id aid (ad_actions db) = Some r \<Longrightarrow> ac_version r = version \<Longrightarrow> ac_state r \<in> set states \<Longrightarrow>
        rest v = rest db \<Longrightarrow> ad_actions v = replace_row (moved updates dst stamp r) (ad_actions db) \<Longrightarrow>
        ad_transitions v = ad_transitions db @ [t] \<Longrightarrow> next_entry V (ad_transitions db) r dst t \<Longrightarrow> store_ok V E P v \<Longrightarrow>
        Q (moved updates dst stamp r) v"
    and err: "\<And>e v. same_actions db v \<Longrightarrow> rest v = rest db \<Longrightarrow> F e v"
  shows "wp (transition V aid version states dst actor reason evidence updates now) Q F db"
proof -
  have inner: "wp (cas_write V aid (\<lambda>q. ac_version q = version \<and> ac_state q \<in> set states) (moved updates dst stamp) (\<lambda>_. dst)
      (stale_text version states) actor reason evidence stamp) Q F w"
    if w: "same_actions db w" "rest w = rest db" for stamp w
  proof (rule wp_cas_write)
    have acts: "ad_actions w = ad_actions db" "ad_transitions w = ad_transitions db"
      using w by (simp_all add: same_actions_def)
    show "distinct (map ac_id (ad_actions w))" using ok acts by (simp add: store_ok_def)
    fix r v t
    assume r: "row_by ac_id aid (ad_actions w) = Some r" and hit: "ac_version r = version \<and> ac_state r \<in> set states"
      and v: "rest v = rest w" "ad_actions v = replace_row (moved updates dst stamp r) (ad_actions w)"
        "ad_transitions v = ad_transitions w @ [t]" and t: "next_entry V (ad_transitions w) r dst t"
    have r': "row_by ac_id aid (ad_actions db) = Some r" using r acts by simp
    have v': "ad_actions v = replace_row (moved updates dst stamp r) (ad_actions db)" "ad_transitions v = ad_transitions db @ [t]"
      "rest v = rest db" and t': "next_entry V (ad_transitions db) r dst t"
      using v t acts w by simp_all
    have "P (moved updates dst stamp r)"
      by (rule P [OF r']) (use hit store_ok_row [OF ok r'] in simp_all)
    then have "store_ok V E P v"
      by (intro store_ok_step [OF ok r' t' _ _ _ _ _ _ _ v'(1,2)]) (use edge [OF r'] hit in simp_all)
    then show "Q (moved updates dst stamp r) v"
      by (intro Q [OF r' _ _ v'(3) v'(1,2) t']) (use hit in simp_all)
  next
    show "F e v" if "same_actions w v" "rest v = rest w" for e v
      using that w by (intro err) (simp_all add: same_actions_def)
  qed simp
  show ?thesis
    unfolding transition_def by (cases now) (auto simp: hoare_rules intro!: inner err)
qed

lemma annotated: "q\<lparr>ac_outcome := Some oc, ac_version := ac_version q + 1, ac_updated := stamp\<rparr> = moved [U_outcome (Some oc)] (ac_state q) stamp q"
  by (simp add: moved_def set_columns_def)

lemma wp_annotate:
  assumes ok: "store_ok V E P db"
    and edge: "\<And>r. row_by ac_id aid (ad_actions db) = Some r \<Longrightarrow> ac_version r = version \<Longrightarrow> ac_state r \<in> E (ac_state r)"
    and P: "\<And>r stamp. row_by ac_id aid (ad_actions db) = Some r \<Longrightarrow> ac_version r = version \<Longrightarrow>
        P r \<Longrightarrow> P (moved [U_outcome (Some outcome)] (ac_state r) stamp r)"
    and Q: "\<And>r stamp v t. row_by ac_id aid (ad_actions db) = Some r \<Longrightarrow> ac_version r = version \<Longrightarrow>
        rest v = rest db \<Longrightarrow> ad_actions v = replace_row (moved [U_outcome (Some outcome)] (ac_state r) stamp r) (ad_actions db) \<Longrightarrow>
        ad_transitions v = ad_transitions db @ [t] \<Longrightarrow> next_entry V (ad_transitions db) r (ac_state r) t \<Longrightarrow> store_ok V E P v \<Longrightarrow>
        Q (moved [U_outcome (Some outcome)] (ac_state r) stamp r) v"
    and err: "\<And>e v. same_actions db v \<Longrightarrow> rest v = rest db \<Longrightarrow> F e v"
  shows "wp (annotate V aid version actor reason evidence outcome) Q F db"
proof -
  have "wp (cas_write V aid (\<lambda>q. ac_version q = version) (\<lambda>q. moved [U_outcome (Some outcome)] (ac_state q) stamp q) ac_state
      stale actor reason evidence stamp) Q F w"
    if w: "same_actions db w" "rest w = rest db" for stamp w stale
  proof (rule wp_cas_write)
    have acts: "ad_actions w = ad_actions db" "ad_transitions w = ad_transitions db"
      using w by (simp_all add: same_actions_def)
    show "distinct (map ac_id (ad_actions w))" using ok acts by (simp add: store_ok_def)
    fix r v t
    let ?q = "moved [U_outcome (Some outcome)] (ac_state r) stamp r"
    assume r: "row_by ac_id aid (ad_actions w) = Some r" and hit: "ac_version r = version"
      and v: "rest v = rest w" "ad_actions v = replace_row ?q (ad_actions w)"
        "ad_transitions v = ad_transitions w @ [t]" and t: "next_entry V (ad_transitions w) r (ac_state r) t"
    have r': "row_by ac_id aid (ad_actions db) = Some r" using r acts by simp
    have v': "ad_actions v = replace_row ?q (ad_actions db)" "ad_transitions v = ad_transitions db @ [t]"
      "rest v = rest db" and t': "next_entry V (ad_transitions db) r (ac_state r) t"
      using v t acts w by simp_all
    have "P ?q" by (rule P [OF r']) (use hit store_ok_row [OF ok r'] in simp_all)
    then have "store_ok V E P v"
      by (intro store_ok_step [OF ok r' t' _ _ _ _ _ _ _ v'(1,2)]) (use edge [OF r' hit] in simp_all)
    then show "Q ?q v"
      by (intro Q [OF r' hit v'(3) v'(1,2) t'])
  next
    show "F e v" if "same_actions w v" "rest v = rest w" for e v
      using that w by (intro err) (simp_all add: same_actions_def)
  qed simp
  then show ?thesis
    unfolding annotate_def annotated by (simp add: hoare_rules)
qed

lemma entries_none:
  assumes "store_ok V E P db" and "row_by ac_id aid (ad_actions db) = None"
  shows "entries_of aid (ad_transitions db) = []"
proof -
  have "tr_action t \<noteq> aid" if "t \<in> set (ad_transitions db)" for t
  proof -
    have "tr_action t \<in> ac_id ` set (ad_actions db)" using assms(1) that by (simp add: store_ok_def)
    moreover have "aid \<notin> ac_id ` set (ad_actions db)" using assms(2) by (simp add: row_by_None)
    ultimately show ?thesis by blast
  qed
  then show ?thesis by (simp add: entries_of_def filter_empty_conv)
qed

lemma store_ok_insert:
  assumes ok: "store_ok V E P db" and "P row"
    and fresh: "row_by ac_id (ac_id row) (ad_actions db) = None"
      "row_by (\<lambda>r. (ac_tenant r, ac_key r)) (ac_tenant row, ac_key row) (ad_actions db) = None"
    and t: "tr_action t = ac_id row" "tr_tenant t = ac_tenant row" "tr_from t = None" "tr_prev t = None" "tr_to t = ac_state row"
      "canonical_hash (env_hash V) (transition_body t) = Inr (tr_hash t)"
    and one: "ac_version row = 1"
    and v: "ad_actions v = ad_actions db @ [row]" "ad_transitions v = ad_transitions db @ [t]"
  shows "store_ok V E P v \<and> entries_of (ac_id row) (ad_transitions db) = []"
proof -
  have none: "entries_of (ac_id row) (ad_transitions db) = []"
    using ok fresh(1) by (rule entries_none)
  have "history_ok V E (ad_transitions db @ [t]) row"
    by (rule history_ok_first) (use none t one in simp_all)
  moreover have "history_ok V E (ad_transitions db @ [t]) r" if "r \<in> set (ad_actions db)" for r
    using ok that fresh(1) t(1) by (subst history_ok_other) (auto simp: store_ok_def row_by_None)
  ultimately show ?thesis
    using ok none assms(2) fresh t(1) unfolding store_ok_def v by (auto simp: row_by_None)
qed

lemma wp_ensure_tenant_project:
  assumes "\<And>v. same_actions db v \<Longrightarrow> Q () v" and "\<And>e v. same_actions db v \<Longrightarrow> F e v"
  shows "wp (ensure_tenant_project tenant project) Q F db"
  using assms by (auto simp: ensure_tenant_project_def register_tenant_def hoare_rules same_actions_def split: option.splits)

lemma wp_insert_request:
  assumes ok: "store_ok V E P db" and P: "P row" and one: "ac_version row = 1"
    and old: "\<And>r v. r \<in> set (ad_actions db) \<Longrightarrow> ac_tenant r = ac_tenant row \<Longrightarrow> ac_key r = ac_key row \<Longrightarrow>
       ac_request_hash r = ac_request_hash row \<Longrightarrow> same_actions db v \<Longrightarrow> Q (r, False) v"
    and new: "\<And>v t. ad_actions v = ad_actions db @ [row] \<Longrightarrow> ad_transitions v = ad_transitions db @ [t] \<Longrightarrow>
       row_by ac_id (ac_id row) (ad_actions db) = None \<Longrightarrow> tr_action t = ac_id row \<Longrightarrow> tr_to t = ac_state row \<Longrightarrow>
       store_ok V E P v \<Longrightarrow> Q (row, True) v"
    and err: "\<And>e v. same_actions db v \<Longrightarrow> rest v = rest db \<Longrightarrow> F e v"
  shows "wp (insert_request V row actor reason evidence) Q F db"
proof -
  have reset: "F e (db\<lparr>w_reads := n, w_uuids := m\<rparr>)" for e n m by (intro err) simp_all
  let ?F = "\<lambda>e v. F e (db\<lparr>w_reads := w_reads v, w_uuids := w_uuids v\<rparr>)"
  show ?thesis
    unfolding insert_request_def wp_atomic_db wp_bnd
  proof (rule wp_ensure_tenant_project)
    fix w
    assume "same_actions db w"
    then have acts: "ad_actions w = ad_actions db" "ad_transitions w = ad_transitions db"
      by (simp_all add: same_actions_def)
    show "wp (find_by_key (ac_tenant row) (ac_key row))
       (\<lambda>existing. wp (case existing of
          Some r \<Rightarrow> if ac_request_hash r \<noteq> ac_request_hash row
            then raise (ActionConflict ''IDEMPOTENCY_KEY_REUSED: the key was used for a different request'') else ret (r, False)
        | None \<Rightarrow> bnd (get_request (ac_id row)) (\<lambda>same. bnd (guard (same = None) (TrustError IntegrityError)) (\<lambda>_.
            bnd (modify (ad_actions_update (\<lambda>rs. rs @ [row]))) (\<lambda>_.
            bnd (append_transition V (ac_id row) (ac_tenant row) None (ac_state row) actor reason evidence (ac_created row)) (\<lambda>_.
            ret (row, True)))))) Q ?F) ?F w"
    proof (cases "row_by (\<lambda>r. (ac_tenant r, ac_key r)) (ac_tenant row, ac_key row) (ad_actions db)")
      case (Some r)
      then show ?thesis
        using old [of r w] row_by_SomeD [OF Some] \<open>same_actions db w\<close> reset acts
        by (simp add: find_by_key_def hoare_rules)
    next
      case None
      show ?thesis
      proof (cases "row_by ac_id (ac_id row) (ad_actions db)")
        case (Some r)
        then show ?thesis using None acts reset by (simp add: find_by_key_def get_request_def hoare_rules)
      next
        case fresh: None
        let ?w = "ad_actions_update (\<lambda>rs. rs @ [row]) w"
        have empty: "entries_of (ac_id row) (ad_transitions db) = []"
          using ok fresh by (rule entries_none)
        have "wp (append_transition V (ac_id row) (ac_tenant row) None (ac_state row) actor reason evidence (ac_created row))
           (\<lambda>_. Q (row, True)) ?F ?w"
        proof (rule wp_append_transition)
          fix t
          assume t: "tr_action t = ac_id row" "tr_tenant t = ac_tenant row" "tr_from t = None" "tr_to t = ac_state row"
            "tr_prev t = (let es = entries_of (ac_id row) (ad_transitions ?w) in if es = [] then None else Some (tr_hash (last es)))"
            "canonical_hash (env_hash V) (transition_body t) = Inr (tr_hash t)"
          let ?v = "ad_transitions_update (\<lambda>ts. ts @ [t]) ?w"
          have "tr_prev t = None" using t(5) acts empty by (simp add: Let_def)
          then have "store_ok V E P ?v"
            by (intro store_ok_insert [OF ok P fresh None, THEN conjunct1]) (use t acts one in simp_all)
          then show "Q (row, True) ?v"
            using t acts fresh by (intro new [of _ t]) simp_all
        qed (use reset in simp)
        then show ?thesis using None fresh acts by (simp add: find_by_key_def get_request_def hoare_rules)
      qed
    qed
  qed (use reset in simp)
qed

subsection \<open>Versions only grow\<close>

datatype store_call =
    S_insert action_row string string json
  | S_transition string int "action_state list" action_state string string json "row_update list" "int option"
  | S_annotate string int string string json action_outcome

definition drop_result :: "('s, 'e, 'a) prog \<Rightarrow> ('s, 'e, unit) prog" where
  "drop_result m = bnd m (\<lambda>_. ret ())"

fun store_exec :: "env \<Rightarrow> store_call \<Rightarrow> ('x, unit) db_prog" where
  "store_exec V (S_insert row actor reason evidence) = drop_result (insert_request V row actor reason evidence)"
| "store_exec V (S_transition aid version states dst actor reason evidence updates now) =
     drop_result (transition V aid version states dst actor reason evidence updates now)"
| "store_exec V (S_annotate aid version actor reason evidence outcome) =
     drop_result (annotate V aid version actor reason evidence outcome)"

definition store_run :: "env \<Rightarrow> store_call list \<Rightarrow> 'x action_db_scheme \<Rightarrow> 'x action_db_scheme" where
  "store_run V calls db = foldl (\<lambda>v c. snd (store_exec V c v)) db calls"

definition version_at_least :: "string \<Rightarrow> int \<Rightarrow> 'x action_db_scheme \<Rightarrow> bool" where
  "version_at_least aid n db = (distinct (map ac_id (ad_actions db)) \<and>
     (case row_by ac_id aid (ad_actions db) of None \<Rightarrow> False | Some r \<Rightarrow> n \<le> ac_version r))"

lemma version_counters [simp]:
  "version_at_least aid n (w_reads_update f db) = version_at_least aid n db"
  "version_at_least aid n (w_uuids_update f db) = version_at_least aid n db"
  "version_at_least aid n (ad_transitions_update g db) = version_at_least aid n db"
  by (simp_all add: version_at_least_def)

lemma version_replace:
  assumes "version_at_least aid n db" and "row_by ac_id k (ad_actions db) = Some r"
    and "ac_id q = ac_id r" and "ac_version q = ac_version r + 1" and "ad_actions v = replace_row q (ad_actions db)"
  shows "version_at_least aid n v"
proof -
  have k: "ac_id r = k" using row_by_SomeD [OF assms(2)] by simp
  have "map ac_id (replace_row q (ad_actions db)) = map ac_id (ad_actions db)"
    unfolding replace_row_def by (rule map_key_replace)
  then show ?thesis
    using assms row_by_replace_row [of q "ad_actions db" aid] k by (auto simp: version_at_least_def split: option.splits)
qed

lemma cas_version:
  assumes "version_at_least aid n db" and "\<And>r. ac_id (upd r) = ac_id r" and "\<And>r. ac_version (upd r) = ac_version r + 1"
  shows "wp (cas_write V k hit upd dst stale actor reason evidence stamp)
    (\<lambda>_. version_at_least aid n) (\<lambda>_. version_at_least aid n) db"
proof (rule wp_cas_write)
  show "distinct (map ac_id (ad_actions db))" using assms(1) by (simp add: version_at_least_def)
  show "version_at_least aid n v" if "row_by ac_id k (ad_actions db) = Some r" "ad_actions v = replace_row (upd r) (ad_actions db)"
    for r v
    by (rule version_replace [OF assms(1) that(1) assms(2) assms(3) that(2)])
  show "version_at_least aid n v" if "same_actions db v" for v
    using that assms(1) by (simp add: same_actions_def version_at_least_def)
qed (rule assms(2))

lemma transition_version: "keeps (version_at_least aid n) (transition V k version states dst actor reason evidence updates now)"
  unfolding keeps_def transition_def
  by (cases now) (auto simp: hoare_rules intro!: cas_version)

lemma annotate_version: "keeps (version_at_least aid n) (annotate V k version actor reason evidence outcome)"
  unfolding keeps_def annotate_def
  by (auto simp: hoare_rules intro!: cas_version)

lemma version_append:
  "version_at_least aid n db \<Longrightarrow> row_by ac_id (ac_id row) (ad_actions db) = None \<Longrightarrow>
   ad_actions v = ad_actions db @ [row] \<Longrightarrow> version_at_least aid n v"
  unfolding version_at_least_def
proof (elim conjE, intro conjI)
  assume d: "distinct (map ac_id (ad_actions db))" and new: "row_by ac_id (ac_id row) (ad_actions db) = None"
    and old: "case row_by ac_id aid (ad_actions db) of None \<Rightarrow> False | Some r \<Rightarrow> n \<le> ac_version r"
    and v: "ad_actions v = ad_actions db @ [row]"
  have fresh: "ac_id row \<notin> ac_id ` set (ad_actions db)" using new by (simp add: row_by_None)
  show "distinct (map ac_id (ad_actions v))" using d fresh v by simp
  show "case row_by ac_id aid (ad_actions v) of None \<Rightarrow> False | Some r \<Rightarrow> n \<le> ac_version r"
    using old v by (simp add: row_by_append split: option.splits)
qed

lemma insert_version: "keeps (version_at_least aid n) (insert_request V row actor reason evidence)"
  unfolding keeps_def
proof (intro allI impI)
  fix db :: "'a action_db_scheme"
  assume v: "version_at_least aid n db"
  show "wp (insert_request V row actor reason evidence) (\<lambda>_. version_at_least aid n) (\<lambda>_. version_at_least aid n) db"
    unfolding insert_request_def wp_atomic_db wp_bnd
  proof (rule wp_ensure_tenant_project)
    have tail: "wp (append_transition V (ac_id row) (ac_tenant row) None (ac_state row) actor reason evidence (ac_created row))
        (\<lambda>_. version_at_least aid n) (\<lambda>_ _. True) (ad_actions_update (\<lambda>rs. rs @ [row]) w)"
      if "version_at_least aid n w" "row_by ac_id (ac_id row) (ad_actions w) = None" for w
    proof (rule wp_append_transition)
      show "version_at_least aid n (ad_transitions_update (\<lambda>ts. ts @ [t]) (ad_actions_update (\<lambda>rs. rs @ [row]) w))" for t
        by (rule version_append [OF that]) simp_all
    qed simp
    fix w
    assume "same_actions db w"
    then have "version_at_least aid n w" using v by (simp add: same_actions_def version_at_least_def)
    then show "wp (find_by_key (ac_tenant row) (ac_key row))
       (\<lambda>existing. wp (case existing of
          Some r \<Rightarrow> if ac_request_hash r \<noteq> ac_request_hash row
            then raise (ActionConflict ''IDEMPOTENCY_KEY_REUSED: the key was used for a different request'') else ret (r, False)
        | None \<Rightarrow> bnd (get_request (ac_id row)) (\<lambda>same. bnd (guard (same = None) (TrustError IntegrityError)) (\<lambda>_.
            bnd (modify (ad_actions_update (\<lambda>rs. rs @ [row]))) (\<lambda>_.
            bnd (append_transition V (ac_id row) (ac_tenant row) None (ac_state row) actor reason evidence (ac_created row)) (\<lambda>_.
            ret (row, True)))))) (\<lambda>_. version_at_least aid n)
          (\<lambda>e v. version_at_least aid n (db\<lparr>w_reads := w_reads v, w_uuids := w_uuids v\<rparr>)))
       (\<lambda>e v. version_at_least aid n (db\<lparr>w_reads := w_reads v, w_uuids := w_uuids v\<rparr>)) w"
      using v by (auto simp: hoare_rules find_by_key_def get_request_def split: option.splits intro!: tail)
  qed (simp add: v)
qed

lemma store_exec_version: "keeps (version_at_least aid n) (store_exec V c)"
proof (cases c)
  case (S_insert row actor reason evidence)
  then show ?thesis using insert_version [of aid n V row actor reason evidence]
    by (auto simp: keeps_def drop_result_def hoare_rules)
next
  case (S_transition k version states dst actor reason evidence updates now)
  then show ?thesis using transition_version [of aid n V k version states dst actor reason evidence updates now]
    by (auto simp: keeps_def drop_result_def hoare_rules)
next
  case (S_annotate k version actor reason evidence outcome)
  then show ?thesis using annotate_version [of aid n V k version actor reason evidence outcome]
    by (auto simp: keeps_def drop_result_def hoare_rules)
qed

lemma store_run_version: "version_at_least aid n db \<Longrightarrow> version_at_least aid n (store_run V calls db)"
proof (induction calls arbitrary: db)
  case (Cons c calls)
  have "version_at_least aid n (snd (store_exec V c db))" by (rule keepsD [OF store_exec_version Cons.prems])
  from Cons.IH [OF this] show ?case by (simp add: store_run_def)
qed (simp add: store_run_def)

text \<open>A successful compare-and-set raises the version; a stale one conflicts.\<close>

lemma transition_raises:
  assumes "distinct (map ac_id (ad_actions db))"
  shows "wp (transition V aid version states dst actor reason evidence updates now)
    (\<lambda>q v. version_at_least aid (version + 1) v) (\<lambda>_ _. True) db"
proof -
  have inner: "wp (cas_write V aid (\<lambda>q. ac_version q = version \<and> ac_state q \<in> set states) (moved updates dst stamp) (\<lambda>_. dst)
      (stale_text version states) actor reason evidence stamp) (\<lambda>q v. version_at_least aid (version + 1) v) (\<lambda>_ _. True) w"
    if w: "ad_actions w = ad_actions db" for w stamp
  proof (rule wp_cas_write)
    show "distinct (map ac_id (ad_actions w))" using assms w by simp
    fix r v t
    assume r: "row_by ac_id aid (ad_actions w) = Some r" "ac_id r = aid" "ac_version r = version \<and> ac_state r \<in> set states"
      "ad_actions v = replace_row (moved updates dst stamp r) (ad_actions w)"
    have "map ac_id (replace_row (moved updates dst stamp r) (ad_actions w)) = map ac_id (ad_actions w)"
      unfolding replace_row_def by (rule map_key_replace)
    with r show "version_at_least aid (version + 1) v"
      using row_by_replace_row [of "moved updates dst stamp r" "ad_actions w" aid] assms w by (simp add: version_at_least_def)
  qed simp_all
  show ?thesis
    unfolding transition_def by (cases now) (auto simp: hoare_rules intro!: inner)
qed

lemma transition_stale:
  assumes "version_at_least aid n db" and "version < n"
  shows "wp (transition V aid version states dst actor reason evidence updates now) (\<lambda>_ _. False) (\<lambda>_ v. same_actions db v) db"
proof -
  have inner: "wp (cas_write V aid (\<lambda>q. ac_version q = version \<and> ac_state q \<in> set states) (moved updates dst stamp) (\<lambda>_. dst)
      (stale_text version states) actor reason evidence stamp) (\<lambda>_ _. False) (\<lambda>_ v. same_actions db v) w"
    if w: "same_actions db w" for w stamp
    by (rule wp_cas_write)
      (use assms w in \<open>auto simp: version_at_least_def same_actions_def split: option.splits\<close>)
  show ?thesis
    unfolding transition_def by (cases now) (auto simp: hoare_rules intro!: inner)
qed

end
