(* ===== verification/Action_Safety.thy ===== *)
theory Action_Safety
  imports Action_History Trust_Safety
begin

section \<open>What the action store guarantees\<close>

text \<open>
  Properties of \<^verbatim>\<open>persistence/actions.py\<close> whoever calls it: the history of an action, the
  compare-and-set on its version, the budget ceilings and the replay key of the sandbox.
\<close>

subsection \<open>Every sequence of writes leaves chained histories\<close>

text \<open>
  The calls the invariant is stated for: an insert starts at version one, a transition only
  names edges of \<open>E\<close>. An annotation repeats the state of the row.
\<close>

fun call_ok :: "(action_state \<Rightarrow> action_state set) \<Rightarrow> store_call \<Rightarrow> bool" where
  "call_ok E (S_insert row actor reason evidence) = (ac_version row = 1)"
| "call_ok E (S_transition aid version states dst actor reason evidence updates now) = (\<forall>s\<in>set states. dst \<in> E s)"
| "call_ok E (S_annotate aid version actor reason evidence outcome) = True"

definition or_same :: "(action_state \<Rightarrow> action_state set) \<Rightarrow> action_state \<Rightarrow> action_state set" where
  "or_same E s = insert s (E s)"

lemma store_exec_ok:
  assumes "call_ok E c" and ok: "store_ok V (or_same E) (\<lambda>_. True) db"
  shows "store_ok V (or_same E) (\<lambda>_. True) (snd (store_exec V c db))"
proof -
  have same: "store_ok V (or_same E) (\<lambda>_. True) v" if "same_actions db v" for v
    using store_ok_same [OF that] ok by simp
  have "wp (store_exec V c) (\<lambda>_. store_ok V (or_same E) (\<lambda>_. True)) (\<lambda>_. store_ok V (or_same E) (\<lambda>_. True)) db"
  proof (cases c)
    case (S_insert row actor reason evidence)
    have "wp (insert_request V row actor reason evidence) (\<lambda>_. store_ok V (or_same E) (\<lambda>_. True))
       (\<lambda>_. store_ok V (or_same E) (\<lambda>_. True)) db"
      by (rule wp_insert_request [OF ok]) (use assms(1) S_insert in \<open>simp_all add: same\<close>)
    then show ?thesis by (simp add: S_insert drop_result_def hoare_rules)
  next
    case (S_transition aid version states dst actor reason evidence updates now)
    have "wp (transition V aid version states dst actor reason evidence updates now)
       (\<lambda>_. store_ok V (or_same E) (\<lambda>_. True)) (\<lambda>_. store_ok V (or_same E) (\<lambda>_. True)) db"
      by (rule wp_transition [OF ok]) (use assms(1) S_transition in \<open>auto simp: or_same_def intro: same\<close>)
    then show ?thesis by (simp add: S_transition drop_result_def hoare_rules)
  next
    case (S_annotate aid version actor reason evidence outcome)
    have "wp (annotate V aid version actor reason evidence outcome)
       (\<lambda>_. store_ok V (or_same E) (\<lambda>_. True)) (\<lambda>_. store_ok V (or_same E) (\<lambda>_. True)) db"
      by (rule wp_annotate [OF ok]) (auto simp: or_same_def intro: same)
    then show ?thesis by (simp add: S_annotate drop_result_def hoare_rules)
  qed
  then show ?thesis by (auto simp: wp_def split: prod.splits sum.splits)
qed

lemma store_run_ok:
  "list_all (call_ok E) calls \<Longrightarrow> store_ok V (or_same E) (\<lambda>_. True) db \<Longrightarrow>
   store_ok V (or_same E) (\<lambda>_. True) (store_run V calls db)"
proof (induction calls arbitrary: db)
  case (Cons c calls)
  then have "store_ok V (or_same E) (\<lambda>_. True) (snd (store_exec V c db))" by (intro store_exec_ok) simp_all
  from Cons.IH [OF _ this] Cons.prems show ?case by (simp add: store_run_def)
qed (simp add: store_run_def)

definition empty_action_db :: action_db where
  "empty_action_db = \<lparr>w_reads = 0, w_uuids = 0, ad_tenants = [], ad_projects = [], ad_actions = [], ad_transitions = [],
     ad_policies = [], ad_reservations = [], ad_freezes = [], ad_autonomy = [], ad_effects = [], ad_clients = [], ad_links = []\<rparr>"

lemma empty_store_ok: "ad_actions db = [] \<Longrightarrow> ad_transitions db = [] \<Longrightarrow> store_ok V E P db"
  by (simp add: store_ok_def)

text \<open>
  C31. However the store is written to, for every action it holds: \<open>verify_transition_chain\<close>
  reports an intact chain, the entries lead from nothing to the row's state along the edges
  the callers named (an annotation repeats the state), the version counts the entries, and
  the tenant and idempotency key belong to that row alone.
\<close>

theorem action_histories_chained:
  assumes "list_all (call_ok E) calls" and "ad_actions db = []" and "ad_transitions db = []"
    and "store_run V calls db = v" and "row_by ac_id aid (ad_actions v) = Some r"
  shows "\<exists>es h. list_transitions aid v = (Inr es, v) \<and> verify_transition_chain V aid v = (Inr (Intact (length es) h), v) \<and>
     continuous None es \<and> walk (or_same E) (map tr_to es) \<and> es \<noteq> [] \<and> tr_to (last es) = ac_state r \<and>
     int (length es) = ac_version r \<and> filter (\<lambda>q. ac_tenant q = ac_tenant r \<and> ac_key q = ac_key r) (ad_actions v) = [r]"
proof -
  have ok: "store_ok V (or_same E) (\<lambda>_. True) v"
    using store_run_ok [OF assms(1) empty_store_ok [OF assms(2,3)]] assms(4) by blast
  note row = store_ok_row [OF ok assms(5)]
  then have h: "history_ok V (or_same E) (ad_transitions v) r" and mem: "r \<in> set (ad_actions v)" and id: "ac_id r = aid" by simp_all
  let ?es = "entries_of aid (ad_transitions v)"
  have hh: "?es \<noteq> []" "intact V ?es" "continuous None ?es" "tr_to (last ?es) = ac_state r" "int (length ?es) = ac_version r"
    "walk (or_same E) (map tr_to ?es)"
    using h id by (simp_all add: history_ok_def Let_def)
  obtain hd where "check_chain V (length ?es) 0 None ?es = Intact (length ?es) hd"
    using hh(2) check_chain_intact by (metis intact_def)
  moreover have "filter (\<lambda>q. ac_tenant q = ac_tenant r \<and> ac_key q = ac_key r) (ad_actions v) = [r]"
    using filter_distinct_key [OF mem, of "\<lambda>q. (ac_tenant q, ac_key q)"] ok by (simp add: store_ok_def)
  ultimately show ?thesis
    using hh by (simp add: list_transitions_def verify_transition_chain_def prog_defs)
qed

text \<open>
  The transition history is tamper-evident: two databases in which \<open>verify_transition_chain\<close>
  accepts the chain of an action with the same head hash hold the same history of it, entry
  by entry, unless a collision of the hash function is exhibited.
\<close>

theorem transition_chain_tamper_evident:
  assumes "verify_transition_chain V aid db = (Inr (Intact n h), db)"
    and "verify_transition_chain V aid db' = (Inr (Intact m h), db')"
    and "\<not> collision (env_hash V)"
  shows "map transition_content (entries_of aid (ad_transitions db)) = map transition_content (entries_of aid (ad_transitions db'))"
proof -
  let ?es = "entries_of aid (ad_transitions db)" and ?fs = "entries_of aid (ad_transitions db')"
  have c: "check_chain V (length ?es) 0 None ?es = Intact n h" "check_chain V (length ?fs) 0 None ?fs = Intact m h"
    using assms(1,2) by (simp_all add: verify_transition_chain_def list_transitions_def prog_defs)
  then have "chain_head tr_hash Some None ?es = h" "chain_head tr_hash Some None ?fs = h"
    using check_chain_head by blast+
  moreover have "links tr_prev tr_hash transition_body Some (env_hash V) None ?es"
    "links tr_prev tr_hash transition_body Some (env_hash V) None ?fs"
    using c check_chain_head check_chain_intact by metis+
  ultimately show ?thesis
    using assms(3) by (intro transitions.head_determines [where H = "env_hash V"]) simp_all
qed

text \<open>
  C9. No lost update: once a transition that expected version \<open>n\<close> of an action was
  committed, then after any further writes of any callers a second transition that expects
  the same version fails and changes no action and no history.
\<close>

theorem no_lost_update:
  assumes "distinct (map ac_id (ad_actions db))"
    and "transition V aid version states dst actor reason evidence updates now db = (Inr q, v)"
    and "transition V aid version states' dst' actor' reason' evidence' updates' now' (store_run V calls v) = (out, w)"
  shows "(\<exists>e. out = Inl e) \<and> ad_actions w = ad_actions (store_run V calls v) \<and>
    ad_transitions w = ad_transitions (store_run V calls v)"
proof -
  have "version_at_least aid (version + 1) v"
    using wp_apply [OF transition_raises [OF assms(1)] assms(2)] .
  then have "version_at_least aid (version + 1) (store_run V calls v)" by (rule store_run_version)
  from transition_stale [OF this, of version V states' dst' actor' reason' evidence' updates' now'] assms(3)
  show ?thesis by (cases out) (simp_all add: wp_def same_actions_def)
qed

subsection \<open>Budgets\<close>

lemma sum_list_append_filter:
  "sum_list (map f (filter p (xs @ [x]))) = sum_list (map f (filter p xs)) + (if p x then f x else (0::int))"
  by simp



subsection \<open>Replaying an effect\<close>

datatype sandbox_call =
    X_put string string string string string string string json int "string option"
  | X_set string string string

fun sandbox_exec :: "env \<Rightarrow> sandbox_call \<Rightarrow> ('x, unit) db_prog" where
  "sandbox_exec V (X_put tenant provider operation key target payload state body cost currency) =
     drop_result (sandbox_put V tenant provider operation key target payload state body cost currency)"
| "sandbox_exec V (X_set eid state expected) = drop_result (sandbox_set_state V eid state expected)"

definition sandbox_run :: "env \<Rightarrow> sandbox_call list \<Rightarrow> 'x action_db_scheme \<Rightarrow> 'x action_db_scheme" where
  "sandbox_run V calls db = foldl (\<lambda>v c. snd (sandbox_exec V c v)) db calls"

text \<open>What an effect is, its changing state and time of change apart.\<close>

definition effect_core :: "effect_row \<Rightarrow> effect_row" where
  "effect_core e = e\<lparr>ef_state := [], ef_updated := []\<rparr>"

definition effect_cores :: "'x action_db_scheme \<Rightarrow> effect_row list" where
  "effect_cores db = map effect_core (ad_effects db)"

lemma effect_ident_core [simp]: "effect_ident (effect_core e) = effect_ident e"
  by (simp add: effect_ident_def effect_core_def)

lemma map_core_update_rows: "(\<And>e. effect_core (f e) = effect_core e) \<Longrightarrow> map effect_core (update_rows p f es) = map effect_core es"
  by (rule map_update_rows) simp

definition effects_ok :: "effect_row list \<Rightarrow> 'x action_db_scheme \<Rightarrow> bool" where
  "effects_ok cs db = (distinct (map effect_ident (ad_effects db)) \<and> (\<exists>ds. effect_cores db = cs @ ds))"

lemma sandbox_exec_ok: "keeps (effects_ok cs) (sandbox_exec V c)"
proof (cases c)
  case (X_put tenant provider operation key target payload state body cost currency)
  show ?thesis
    unfolding keeps_def X_put
    by (auto simp: drop_result_def sandbox_put_def hoare_rules now_iso_def utc_now_def uuid4_hex_def effects_ok_def effect_cores_def
        row_by_None effect_core_def effect_ident_def image_iff Let_def split: option.splits)
next
  case (X_set eid state expected)
  have "map effect_core (update_rows p (\<lambda>e. e\<lparr>ef_state := state, ef_updated := t\<rparr>) es) = map effect_core es" for p t es
    by (rule map_core_update_rows) (simp add: effect_core_def)
  moreover have "map effect_ident (update_rows p (\<lambda>e. e\<lparr>ef_state := state, ef_updated := t\<rparr>) es) = map effect_ident es" for p t es
    by (rule map_update_rows) (simp add: effect_ident_def)
  ultimately show ?thesis
    unfolding keeps_def X_set
    by (auto simp: drop_result_def sandbox_set_state_def hoare_rules now_iso_def utc_now_def effects_ok_def effect_cores_def
        Let_def split: option.splits)
qed

lemma sandbox_run_ok: "effects_ok cs db \<Longrightarrow> effects_ok cs (sandbox_run V calls db)"
proof (induction calls arbitrary: db)
  case (Cons c calls)
  have "effects_ok cs (snd (sandbox_exec V c db))" by (rule keepsD [OF sandbox_exec_ok Cons.prems])
  from Cons.IH [OF this] show ?case by (simp add: sandbox_run_def)
qed (simp add: sandbox_run_def)

lemma sandbox_put_again:
  assumes "row_by effect_ident (tenant, provider, key) (ad_effects db) = Some f"
  shows "sandbox_put V tenant provider operation key target payload state body cost currency db = (Inr (f, False), w_reads_update Suc db)"
  using assms by (simp add: sandbox_put_def now_iso_def utc_now_def atomic_db_def prog_defs Let_def)

lemma wp_sandbox_put_first:
  assumes dist: "distinct (map effect_ident (ad_effects db))"
  shows "wp (sandbox_put V tenant provider operation key target payload state body cost currency)
    (\<lambda>out v. row_by effect_ident (tenant, provider, key) (ad_effects v) = Some (fst out) \<and>
      distinct (map effect_ident (ad_effects v))) (\<lambda>_ _. True) db"
proof (cases "row_by effect_ident (tenant, provider, key) (ad_effects db)")
  case None
  then have "(tenant, provider, key) \<notin> effect_ident ` set (ad_effects db)" by (simp add: row_by_None)
  with None dist show ?thesis
    by (simp add: sandbox_put_def hoare_rules now_iso_def utc_now_def uuid4_hex_def Let_def row_by_append effect_ident_def)
next
  case (Some f)
  with dist show ?thesis by (simp add: wp_def sandbox_put_again)
qed

text \<open>
  An effect happens once: after a put under a key of a tenant and provider, however many
  puts and state changes follow, a second put under that key creates nothing, leaves the
  effects alone and returns the first effect, whatever target, payload or body it names.
\<close>

theorem sandbox_effect_once:
  assumes "distinct (map effect_ident (ad_effects db))"
    and "sandbox_put V tenant provider operation key target payload state body cost currency db = (Inr (e, created), v)"
    and "sandbox_put V tenant provider operation' key target' payload' state' body' cost' currency' (sandbox_run V calls v)
      = (out, w)"
  shows "\<exists>f. out = Inr (f, False) \<and> effect_core f = effect_core e \<and> ad_effects w = ad_effects (sandbox_run V calls v)"
proof -
  let ?k = "(tenant, provider, key)" and ?u = "sandbox_run V calls v"
  have first: "row_by effect_ident ?k (ad_effects v) = Some e \<and> distinct (map effect_ident (ad_effects v))"
    using wp_apply [OF wp_sandbox_put_first [OF assms(1)] assms(2)] by simp
  have "effects_ok (effect_cores v) v" using first by (simp add: effects_ok_def)
  then have ok: "effects_ok (effect_cores v) ?u" by (rule sandbox_run_ok)
  then obtain ds where ds: "effect_cores ?u = effect_cores v @ ds" by (auto simp: effects_ok_def)
  have "e \<in> set (ad_effects v)" and id: "effect_ident e = ?k" using first row_by_SomeD by fastforce+
  then have "effect_core e \<in> set (effect_cores ?u)" using ds by (simp add: effect_cores_def)
  then obtain f where f: "f \<in> set (ad_effects ?u)" "effect_core f = effect_core e" by (auto simp: effect_cores_def)
  then have "effect_ident f = ?k" using id effect_ident_core by metis
  moreover have "distinct (map effect_ident (ad_effects ?u))" using ok by (simp add: effects_ok_def)
  ultimately have "row_by effect_ident ?k (ad_effects ?u) = Some f" using f(1) by (metis row_by_distinct)
  note again = sandbox_put_again [OF this, of V operation' target' payload' state' body' cost' currency']
  show ?thesis using assms(3) f(2) unfolding again by auto
qed

subsection \<open>The properties at concrete stores\<close>

definition sample_risk :: risk_doc where
  "sample_risk = \<lparr>rd_assessment = \<lparr>ra_policy_version = ''v'', ra_classes = [R1], ra_effective = R1, ra_controls = [],
       ra_explanations = [], ra_requires_approval = False, ra_requires_financial_approval = False, ra_requires_step_up = False,
       ra_requires_privileged_review = False, ra_live_gated = False, ra_facts_hash = ''f''\<rparr>,
     rd_facts = \<lparr>rf_operation = Op_WRITE_DRAFT, rf_environment = Env_SANDBOX, rf_data_class = Data_INTERNAL, rf_cost_minor = 0, rf_currency = None,
       rf_reversibility = Rev_REVERSIBLE, rf_audience = Aud_INTERNAL, rf_external = False, rf_notifies = False, rf_blast_radius = 1,
       rf_scopes = [], rf_dependents = 0, rf_requested_class = None\<rparr>,
     rd_autonomy = default_autonomy\<rparr>"

definition sample_binding :: binding_doc where
  "sample_binding = \<lparr>ab_capability_ref = ''cap@1'', ab_descriptor_hash = ''d'', ab_tenant = ''t'', ab_project = ''p'',
     ab_environment = Env_SANDBOX, ab_target_ref = ''x'', ab_payload_hash = ''h'', ab_dependency_hashes = [], ab_policy_version = ''v'',
     ab_effective_class = R1, ab_cost_minor = 0, ab_currency = None, ab_expires_at = ''9'', bd_subjects = []\<rparr>"

definition sample_row :: action_row where
  "sample_row = \<lparr>ac_id = ''a1'', ac_tenant = ''t'', ac_project = ''p'', ac_client = None, ac_capability = ''cap'',
     ac_capability_version = ''1'', ac_environment = Env_SANDBOX, ac_actor = ''u'', ac_target = ''x'', ac_args = JNull,
     ac_args_hash = ''h'', ac_payload_hash = ''h'', ac_context_hash = ''c'', ac_dependencies = [], ac_policy_version = ''v'',
     ac_risk = sample_risk, ac_risk_hash = ''r'', ac_class = R1, ac_binding = sample_binding, ac_binding_hash = ''b'',
     ac_run = None, ac_approval = None, ac_financial_approval = None, ac_reservation = None, ac_key = ''k'',
     ac_request_hash = ''q'', ac_correlation = ''co'', ac_state = A_PROPOSED, ac_version = 1, ac_attempts = 0,
     ac_reconcile_attempts = 0, ac_lease_owner = None, ac_lease_expires = None, ac_retry_eligible = False, ac_reasons = [],
     ac_outcome = None, ac_flags = [], ac_created = ''2'', ac_updated = ''2'', ac_expires = ''9''\<rparr>"

definition sample_calls :: "store_call list" where
  "sample_calls = [S_insert sample_row ''u'' ''proposed'' JNull]"

definition sample_action_db :: action_db where
  "sample_action_db = store_run sample_env sample_calls empty_action_db"

lemmas store_defs = store_run_def drop_result_def insert_request_def ensure_tenant_project_def register_tenant_def
  find_by_key_def get_request_def append_transition_def transition_def cas_write_def list_transitions_def
  verify_transition_chain_def now_iso_def utc_now_def uuid4_hex_def atomic_db_def entries_of_def moved_def set_columns_def
  count_rows_def update_rows_def prog_defs Let_def

lemma transition_hash [simp]:
  "plain (tr_evidence t) \<Longrightarrow> canonical_hash H (transition_body t) = Inr (chash H (transition_body t))"
  by (rule chash_plain) (simp add: transition_body_def)

lemmas sample_store_defs = sample_action_db_def sample_calls_def empty_action_db_def store_defs

lemma sample_row_simps [simp]: "ac_id sample_row = ''a1''" "ac_tenant sample_row = ''t''" "ac_project sample_row = ''p''"
  "ac_key sample_row = ''k''" "ac_state sample_row = A_PROPOSED" "ac_version sample_row = 1" "ac_created sample_row = ''2''"
  by (simp_all add: sample_row_def)

lemma sample_row_stored: "row_by ac_id ''a1'' (ad_actions sample_action_db) = Some sample_row"
  by (simp add: sample_store_defs)

theorem action_histories_chained_witness:
  "\<exists>es h. list_transitions ''a1'' sample_action_db = (Inr es, sample_action_db) \<and>
     verify_transition_chain sample_env ''a1'' sample_action_db = (Inr (Intact (length es) h), sample_action_db) \<and> length es = 1"
  using action_histories_chained [where E = action_transitions and calls = sample_calls and db = empty_action_db and V = sample_env,
      OF _ _ _ sample_action_db_def [symmetric] sample_row_stored]
  by (fastforce simp: sample_calls_def empty_action_db_def)

theorem transition_chain_tamper_evident_witness:
  "map transition_content (entries_of ''a1'' (ad_transitions sample_action_db)) =
   map transition_content (entries_of ''a1'' (ad_transitions (sample_action_db\<lparr>ad_tenants := []\<rparr>)))"
proof -
  have body: "transition_body \<lparr>tr_action = a, tr_tenant = b, tr_from = c, tr_to = d, tr_actor = e, tr_reason = f, tr_evidence = g,
      tr_prev = h, tr_hash = [], tr_created = k\<rparr> = transition_body \<lparr>tr_action = a, tr_tenant = b, tr_from = c, tr_to = d,
      tr_actor = e, tr_reason = f, tr_evidence = g, tr_prev = h, tr_hash = i, tr_created = k\<rparr>" for a b c d e f g h i k
    by (simp add: transition_body_def)
  have "\<exists>h. verify_transition_chain sample_env ''a1'' sample_action_db = (Inr (Intact 1 h), sample_action_db) \<and>
     verify_transition_chain sample_env ''a1'' (sample_action_db\<lparr>ad_tenants := []\<rparr>) =
       (Inr (Intact 1 h), sample_action_db\<lparr>ad_tenants := []\<rparr>)"
    by (simp add: sample_store_defs) (rule arg_cong [OF body [symmetric]])
  then show ?thesis
    using transition_chain_tamper_evident [OF _ _ sample_no_collision] by blast
qed

theorem no_lost_update_witness:
  "\<exists>q v e w. transition sample_env ''a1'' 1 [A_PROPOSED] A_VALIDATED ''u'' ''ok'' JNull [] None sample_action_db = (Inr q, v) \<and>
     transition sample_env ''a1'' 1 [A_PROPOSED] A_BLOCKED ''w'' ''no'' JNull [] None v = (Inl e, w) \<and>
     ad_actions w = ad_actions v"
proof -
  have "\<exists>q v. transition sample_env ''a1'' 1 [A_PROPOSED] A_VALIDATED ''u'' ''ok'' JNull [] None sample_action_db = (Inr q, v)"
    by (simp add: sample_store_defs)
  then obtain q v where t:
    "transition sample_env ''a1'' 1 [A_PROPOSED] A_VALIDATED ''u'' ''ok'' JNull [] None sample_action_db = (Inr q, v)" by blast
  obtain out w where u: "transition sample_env ''a1'' 1 [A_PROPOSED] A_BLOCKED ''w'' ''no'' JNull [] None v = (out, w)"
    by (rule prod.exhaust)
  have "distinct (map ac_id (ad_actions sample_action_db))" by (simp add: sample_store_defs)
  from no_lost_update [OF this t, of "[A_PROPOSED]" A_BLOCKED "''w''" "''no''" JNull "[]" None "[]" out w] t u
  show ?thesis by (auto simp: store_run_def)
qed



theorem sandbox_effect_once_witness:
  "\<exists>e v f w. sandbox_put sample_env ''t'' ''mail'' ''send'' ''k'' ''x'' ''h'' ''SENT'' JNull 0 None empty_action_db = (Inr (e, True), v) \<and>
     sandbox_put sample_env ''t'' ''mail'' ''send'' ''k'' ''y'' ''h2'' ''SENT'' JNull 0 None v = (Inr (f, False), w) \<and>
     effect_core f = effect_core e"
proof -
  let ?put = "\<lambda>target payload. sandbox_put sample_env ''t'' ''mail'' ''send'' ''k'' target payload ''SENT'' JNull 0 None"
  have "\<exists>e v. ?put ''x'' ''h'' empty_action_db = (Inr (e, True), v)"
    by (simp add: sandbox_put_def empty_action_db_def store_defs)
  then obtain e v where p: "?put ''x'' ''h'' empty_action_db = (Inr (e, True), v)" by blast
  obtain out w where q: "?put ''y'' ''h2'' v = (out, w)" by (rule prod.exhaust)
  then have "?put ''y'' ''h2'' (sandbox_run sample_env [] v) = (out, w)" by (simp add: sandbox_run_def)
  from sandbox_effect_once [OF _ p this] p q show ?thesis by (auto simp: empty_action_db_def)
qed

end
