(* ===== verification/Regex.thy ===== *)
theory Regex
  imports AMC_Prelude
begin

section \<open>Regular expressions\<close>

text \<open>
  The part of Python's \<open>re\<close> the code uses: character classes, sequence, alternative, repetition,
  word boundary, start and end. \<open>ends r s i\<close> lists where a match of \<open>r\<close> that starts at \<open>i\<close> may end,
  so \<open>search\<close> and \<open>fullmatch\<close> ask whether a match exists, as the code does of \<open>re\<close>.
\<close>

datatype rx =
    Cls "char \<Rightarrow> bool"
  | Eps
  | Seq rx rx
  | Alt rx rx
  | Star rx
  | Word_boundary
  | Not_after "char \<Rightarrow> bool"
  | Not_before "char \<Rightarrow> bool"
  | At_start
  | At_end

text \<open>\<open>\w\<close> of a Latin-1 string.\<close>

definition word_char :: "char \<Rightarrow> bool" where
  "word_char c = (let n = of_char c :: nat in
     48 \<le> n \<and> n \<le> 57 \<or> 65 \<le> n \<and> n \<le> 90 \<or> n = 95 \<or> 97 \<le> n \<and> n \<le> 122 \<or>
     n \<in> {170, 178, 179, 181, 185, 186, 188, 189, 190} \<or> 192 \<le> n \<and> n \<noteq> 215 \<and> n \<noteq> 247)"

definition at_boundary :: "string \<Rightarrow> nat \<Rightarrow> bool" where
  "at_boundary s i = ((0 < i \<and> i \<le> length s \<and> word_char (s ! (i - 1))) \<noteq> (i < length s \<and> word_char (s ! i)))"

primrec closure :: "nat \<Rightarrow> (nat \<Rightarrow> nat list) \<Rightarrow> nat list \<Rightarrow> nat list" where
  "closure 0 f is = is"
| "closure (Suc n) f is = closure n f (remdups (is @ concat (map f is)))"

primrec ends :: "rx \<Rightarrow> string \<Rightarrow> nat \<Rightarrow> nat list" where
  "ends (Cls p) s i = (if i < length s \<and> p (s ! i) then [i + 1] else [])"
| "ends Eps s i = [i]"
| "ends (Seq a b) s i = remdups (concat (map (ends b s) (ends a s i)))"
| "ends (Alt a b) s i = remdups (ends a s i @ ends b s i)"
| "ends (Star a) s i = closure (length s) (ends a s) [i]"
| "ends Word_boundary s i = (if at_boundary s i then [i] else [])"
| "ends (Not_after p) s i = (if 0 < i \<and> i \<le> length s \<and> p (s ! (i - 1)) then [] else [i])"
| "ends (Not_before p) s i = (if i < length s \<and> p (s ! i) then [] else [i])"
| "ends At_start s i = (if i = 0 then [i] else [])"
| "ends At_end s i = (if i = length s then [i] else [])"

definition re_search :: "rx \<Rightarrow> string \<Rightarrow> bool" where
  "re_search r s = list_ex (\<lambda>i. ends r s i \<noteq> []) [0..<length s + 1]"

text \<open>The texts of the matches from left to right, each as long as it can be and none overlapping.\<close>

primrec re_findall_from :: "nat \<Rightarrow> rx \<Rightarrow> string \<Rightarrow> nat \<Rightarrow> string list" where
  "re_findall_from 0 r s i = []"
| "re_findall_from (Suc n) r s i =
    (if i > length s then []
     else case ends r s i of
       [] \<Rightarrow> re_findall_from n r s (i + 1)
     | j # js \<Rightarrow> (let k = foldl max j js in take (k - i) (drop i s) # re_findall_from n r s (max k (i + 1))))"

definition re_findall :: "rx \<Rightarrow> string \<Rightarrow> string list" where
  "re_findall r s = re_findall_from (length s + 1) r s 0"

definition re_fullmatch :: "rx \<Rightarrow> string \<Rightarrow> bool" where
  "re_fullmatch r s = (length s \<in> set (ends r s 0))"

subsection \<open>Building expressions\<close>

definition opt_rx :: "rx \<Rightarrow> rx" where "opt_rx r = Alt r Eps"

definition plus_rx :: "rx \<Rightarrow> rx" where "plus_rx r = Seq r (Star r)"

primrec seqs :: "rx list \<Rightarrow> rx" where
  "seqs [] = Eps"
| "seqs (r # rs) = Seq r (seqs rs)"

definition alts :: "rx list \<Rightarrow> rx" where
  "alts rs = foldr Alt rs (Cls (\<lambda>_. False))"

primrec times :: "nat \<Rightarrow> rx \<Rightarrow> rx" where
  "times 0 r = Eps"
| "times (Suc n) r = Seq r (times n r)"

primrec up_to :: "nat \<Rightarrow> rx \<Rightarrow> rx" where
  "up_to 0 r = Eps"
| "up_to (Suc n) r = opt_rx (Seq r (up_to n r))"

definition repeat :: "nat \<Rightarrow> nat \<Rightarrow> rx \<Rightarrow> rx" where "repeat lo hi r = Seq (times lo r) (up_to (hi - lo) r)"

definition at_least :: "nat \<Rightarrow> rx \<Rightarrow> rx" where "at_least lo r = Seq (times lo r) (Star r)"

definition chr_in :: "string \<Rightarrow> rx" where "chr_in cs = Cls (\<lambda>c. c \<in> set cs)"

definition chr_range :: "char \<Rightarrow> char \<Rightarrow> char \<Rightarrow> bool" where
  "chr_range a b c = (of_char a \<le> (of_char c :: nat) \<and> of_char c \<le> (of_char b :: nat))"

definition lit :: "string \<Rightarrow> rx" where "lit w = seqs (map (\<lambda>a. Cls (\<lambda>c. c = a)) w)"

text \<open>A literal under \<open>re.I\<close>; its letters are written in lower case.\<close>

definition lit_i :: "string \<Rightarrow> rx" where "lit_i w = seqs (map (\<lambda>a. Cls (\<lambda>c. lower_char c = a)) w)"

subsection \<open>Meaning\<close>

text \<open>What a match is, independently of how it is found.\<close>

inductive matches :: "string \<Rightarrow> rx \<Rightarrow> nat \<Rightarrow> nat \<Rightarrow> bool" for s where
  m_cls: "i < length s \<Longrightarrow> p (s ! i) \<Longrightarrow> matches s (Cls p) i (i + 1)"
| m_eps: "matches s Eps i i"
| m_seq: "matches s a i j \<Longrightarrow> matches s b j k \<Longrightarrow> matches s (Seq a b) i k"
| m_left: "matches s a i j \<Longrightarrow> matches s (Alt a b) i j"
| m_right: "matches s b i j \<Longrightarrow> matches s (Alt a b) i j"
| m_done: "matches s (Star a) i i"
| m_step: "matches s a i j \<Longrightarrow> matches s (Star a) j k \<Longrightarrow> matches s (Star a) i k"
| m_boundary: "at_boundary s i \<Longrightarrow> matches s Word_boundary i i"
| m_behind: "\<not> (0 < i \<and> i \<le> length s \<and> p (s ! (i - 1))) \<Longrightarrow> matches s (Not_after p) i i"
| m_ahead: "\<not> (i < length s \<and> p (s ! i)) \<Longrightarrow> matches s (Not_before p) i i"
| m_start: "matches s At_start 0 0"
| m_end: "i = length s \<Longrightarrow> matches s At_end i i"

inductive_cases matches_clsE: "matches s (Cls p) i j"
inductive_cases matches_epsE: "matches s Eps i j"
inductive_cases matches_seqE: "matches s (Seq a b) i j"
inductive_cases matches_altE: "matches s (Alt a b) i j"
inductive_cases matches_boundaryE: "matches s Word_boundary i j"
inductive_cases matches_behindE: "matches s (Not_after p) i j"
inductive_cases matches_aheadE: "matches s (Not_before p) i j"
inductive_cases matches_startE: "matches s At_start i j"
inductive_cases matches_endE: "matches s At_end i j"

lemma matches_mono: "matches s r i j \<Longrightarrow> i \<le> j"
  by (induction rule: matches.induct) simp_all

lemma matches_bound: "matches s r i j \<Longrightarrow> i \<le> length s \<Longrightarrow> j \<le> length s"
  by (induction rule: matches.induct) simp_all

lemma closure_sound: "j \<in> set (closure n f is) \<Longrightarrow> \<exists>i\<in>set is. (\<lambda>a b. b \<in> set (f a))\<^sup>*\<^sup>* i j"
proof (induction n arbitrary: "is")
  case (Suc n)
  from Suc.IH [OF Suc.prems [unfolded closure.simps]] obtain i where
    i: "i \<in> set is \<or> (\<exists>h\<in>set is. i \<in> set (f h))" "(\<lambda>a b. b \<in> set (f a))\<^sup>*\<^sup>* i j" by auto
  then show ?case by (metis (mono_tags, lifting) converse_rtranclp_into_rtranclp)
qed auto

lemma closure_grows: "set is \<subseteq> set (closure n f is)"
proof (induction n arbitrary: "is")
  case (Suc n)
  then show ?case using Suc.IH [of "remdups (is @ concat (map f is))"] by auto
qed simp

lemma closure_step: "i \<in> set is \<Longrightarrow> j \<in> set (f i) \<Longrightarrow> j \<in> set (closure (Suc n) f is)"
  using closure_grows [of "remdups (is @ concat (map f is))" n f] by auto

inductive hops :: "(nat \<Rightarrow> nat list) \<Rightarrow> nat \<Rightarrow> nat \<Rightarrow> nat \<Rightarrow> bool" for f where
  p_none: "hops f 0 i i"
| p_some: "j \<in> set (f i) \<Longrightarrow> i < j \<Longrightarrow> hops f n j k \<Longrightarrow> hops f (Suc n) i k"

lemma hops_none_ex: "\<exists>n. hops f n i i"
  by (blast intro: p_none)

lemma hops_some_ex: "j \<in> set (f i) \<Longrightarrow> i < j \<Longrightarrow> hops f n j k \<Longrightarrow> \<exists>n. hops f n i k"
  by (blast intro: p_some)

lemma hops_length: "hops f n i k \<Longrightarrow> i + n \<le> k"
  by (induction rule: hops.induct) simp_all

lemma hops_closure: "hops f n i k \<Longrightarrow> n \<le> m \<Longrightarrow> i \<in> set is \<Longrightarrow> k \<in> set (closure m f is)"
proof (induction arbitrary: m "is" rule: hops.induct)
  case (p_none i)
  then show ?case using closure_grows by blast
next
  case (p_some j i n k)
  then obtain l where "m = Suc l" by (cases m) simp_all
  with p_some.prems have "n \<le> l" by simp
  moreover have "j \<in> set (remdups (is @ concat (map f is)))" using p_some by auto
  ultimately show ?case using p_some.IH by (simp add: \<open>m = Suc l\<close>)
qed

lemma star_hops: "matches s r i k \<Longrightarrow> r = Star a \<Longrightarrow> (\<And>i j. matches s a i j \<Longrightarrow> j \<in> set (f i)) \<Longrightarrow> \<exists>n. hops f n i k"
proof (induction rule: matches.induct)
  case (m_step a' i j k)
  then obtain n where n: "hops f n j k" by auto
  have "j \<in> set (f i)" "i \<le> j" using m_step matches_mono by auto
  with n show ?case by (cases "i = j") (auto intro: hops_some_ex)
qed (auto intro: hops_none_ex)

lemma star_rtrancl: "(\<lambda>a b. matches s r a b)\<^sup>*\<^sup>* i j \<Longrightarrow> matches s (Star r) i j"
  by (induction rule: converse_rtranclp_induct) (auto intro: m_done m_step)

lemma ends_sound: "j \<in> set (ends r s i) \<Longrightarrow> matches s r i j"
proof (induction r arbitrary: i j)
  case (Star r)
  from Star.prems closure_sound [of j "length s" "ends r s" "[i]"]
  have "(\<lambda>a b. b \<in> set (ends r s a))\<^sup>*\<^sup>* i j" by simp
  then have "(\<lambda>a b. matches s r a b)\<^sup>*\<^sup>* i j"
    by (rule rtranclp_mono [THEN predicate2D, rotated]) (auto intro: Star.IH)
  then show ?case by (rule star_rtrancl)
next
  case (Seq a b)
  from Seq.prems obtain k where "k \<in> set (ends a s i)" "j \<in> set (ends b s k)" by auto
  then show ?case using Seq.IH m_seq by blast
next
  case (Cls p)
  then show ?case using m_cls [of i s p] by (simp split: if_splits)
next
  case (Alt a b)
  then show ?case using m_left m_right by (simp, blast)
qed (simp_all add: matches.intros split: if_splits)

lemma ends_complete: "matches s r i j \<Longrightarrow> i \<le> length s \<Longrightarrow> j \<in> set (ends r s i)"
proof (induction r arbitrary: i j)
  case (Star r)
  let ?f = "\<lambda>i. if i \<le> length s then ends r s i else []"
  have step: "j \<in> set (ends r s i)" if "matches s r i j" "i \<le> length s" for i j using Star.IH that by blast
  have "\<exists>n. hops (ends r s) n i j"
    using Star.prems
  proof (induction "Star r" i j rule: matches.induct)
    case (m_step i j k)
    have "i \<le> j" "j \<le> length s" using matches_mono [OF m_step(1)] matches_bound [OF m_step(1)] m_step.prems by simp_all
    with m_step obtain n where "hops (ends r s) n j k" by blast
    with step [OF m_step(1)] m_step.prems \<open>i \<le> j\<close> show ?case by (cases "i = j") (auto intro: hops_some_ex)
  qed (auto intro: hops_none_ex)
  then obtain n where n: "hops (ends r s) n i j" by blast
  then have "n \<le> length s" using hops_length [OF n] matches_bound [OF Star.prems] by simp
  from hops_closure [OF n this] show ?case by simp
next
  case (Seq a b)
  from Seq.prems(1) obtain k where "matches s a i k" "matches s b k j" by (rule matches_seqE)
  then show ?case using Seq.IH Seq.prems(2) matches_bound by fastforce
qed (auto elim: matches_behindE matches_aheadE matches_clsE matches_epsE matches_altE matches_boundaryE matches_startE matches_endE)

lemma re_search_iff: "re_search r s \<longleftrightarrow> (\<exists>i j. i \<le> length s \<and> matches s r i j)"
proof
  assume "re_search r s"
  then have "\<exists>i\<le>length s. ends r s i \<noteq> []" by (auto simp: re_search_def list_ex_iff) (meson less_imp_le_nat)
  then obtain i where i: "i \<le> length s" "ends r s i \<noteq> []" by blast
  then obtain j where "j \<in> set (ends r s i)" using last_in_set by blast
  with i ends_sound show "\<exists>i j. i \<le> length s \<and> matches s r i j" by blast
next
  assume "\<exists>i j. i \<le> length s \<and> matches s r i j"
  then obtain i j where "i \<le> length s" "j \<in> set (ends r s i)" using ends_complete by blast
  then have "i \<in> set [0..<length s + 1]" "ends r s i \<noteq> []" by auto
  then show "re_search r s" unfolding re_search_def list_ex_iff by blast
qed

lemma re_fullmatch_iff: "re_fullmatch r s \<longleftrightarrow> matches s r 0 (length s)"
  using ends_sound ends_complete by (auto simp: re_fullmatch_def)

text \<open>An expression whose classes do not look at case treats a text and its lower case alike.\<close>

primrec caseless :: "rx \<Rightarrow> bool" where
  "caseless (Cls p) = (\<forall>c. p (lower_char c) = p c)"
| "caseless Eps = True"
| "caseless (Seq a b) = (caseless a \<and> caseless b)"
| "caseless (Alt a b) = (caseless a \<and> caseless b)"
| "caseless (Star a) = caseless a"
| "caseless Word_boundary = True"
| "caseless (Not_after p) = (\<forall>c. p (lower_char c) = p c)"
| "caseless (Not_before p) = (\<forall>c. p (lower_char c) = p c)"
| "caseless At_start = True"
| "caseless At_end = True"

lemma word_char_lower [simp]: "word_char (lower_char c) = word_char c"
proof -
  define n where "n = (of_char c :: nat)"
  consider "65 \<le> n" "n \<le> 90" | "192 \<le> n" "n \<le> 222" "n \<noteq> 215" | "lower_char c = c"
    by (fastforce simp: lower_char_def n_def Let_def)
  then show ?thesis
  proof cases
    case 1
    then have "(of_char (lower_char c) :: nat) = n + 32" by (simp add: lower_char_def n_def Let_def)
    with 1 show ?thesis by (simp add: word_char_def n_def Let_def)
  next
    case 2
    then have "(of_char (lower_char c) :: nat) = n + 32" by (simp add: lower_char_def n_def Let_def)
    with 2 show ?thesis by (simp add: word_char_def n_def Let_def)
  qed simp
qed

lemma length_lower [simp]: "length (lower s) = length s"
  by (simp add: lower_def)

lemma nth_lower [simp]: "i < length s \<Longrightarrow> lower s ! i = lower_char (s ! i)"
  by (simp add: lower_def)

lemma at_boundary_lower [simp]: "at_boundary (lower s) i = at_boundary s i"
  by (auto simp: at_boundary_def)

lemma ends_lower: "caseless r \<Longrightarrow> ends r (lower s) i = ends r s i"
proof (induction r arbitrary: i)
  case (Star r)
  then have "ends r (lower s) = ends r s" by auto
  then show ?case by simp
next
  case (Seq a b)
  then have "ends b (lower s) = ends b s" by auto
  with Seq show ?case by simp
next
  case (Cls p)
  then have "p (lower_char (s ! i)) = p (s ! i)" by simp
  then show ?case by (cases "i < length s") simp_all
next
  case (Not_after p)
  then have "p (lower_char (s ! (i - 1))) = p (s ! (i - 1))" by simp
  then show ?case by (cases "0 < i \<and> i \<le> length s") auto
next
  case (Not_before p)
  then have "p (lower_char (s ! i)) = p (s ! i)" by simp
  then show ?case by (cases "i < length s") simp_all
qed simp_all

lemma re_search_lower: "caseless r \<Longrightarrow> re_search r (lower s) = re_search r s"
  by (simp add: re_search_def ends_lower)

text \<open>Every character a match consumes is of a class of the expression.\<close>

primrec classes_in :: "(char \<Rightarrow> bool) \<Rightarrow> rx \<Rightarrow> bool" where
  "classes_in q (Cls p) = (\<forall>c. p c \<longrightarrow> q c)"
| "classes_in q Eps = True"
| "classes_in q (Seq a b) = (classes_in q a \<and> classes_in q b)"
| "classes_in q (Alt a b) = (classes_in q a \<and> classes_in q b)"
| "classes_in q (Star a) = classes_in q a"
| "classes_in q Word_boundary = True"
| "classes_in q (Not_after p) = True"
| "classes_in q (Not_before p) = True"
| "classes_in q At_start = True"
| "classes_in q At_end = True"

lemma matches_classes: "matches s r i j \<Longrightarrow> classes_in q r \<Longrightarrow> i \<le> k \<Longrightarrow> k < j \<Longrightarrow> q (s ! k)"
proof (induction rule: matches.induct)
  case (m_cls i p)
  then have "k = i" by simp
  with m_cls show ?case by simp
next
  case (m_seq a i j b l)
  then show ?case by (cases "k < j") simp_all
next
  case (m_step a i j l)
  then show ?case by (cases "k < j") simp_all
qed simp_all

lemma fullmatch_classes: "re_fullmatch r s \<Longrightarrow> classes_in q r \<Longrightarrow> c \<in> set s \<Longrightarrow> q c"
  using matches_classes [of s r 0 "length s"] by (auto simp: re_fullmatch_iff in_set_conv_nth)

lemma classes_in_times [simp]: "classes_in q r \<Longrightarrow> classes_in q (times n r)"
  by (induction n) auto

lemma classes_in_up_to [simp]: "classes_in q r \<Longrightarrow> classes_in q (up_to n r)"
  by (induction n) (auto simp: opt_rx_def)

lemma classes_in_plus [simp]: "classes_in q (plus_rx r) = classes_in q r"
  by (simp add: plus_rx_def)

end
