(* ===== verification/Approval_Framing.thy ===== *)
theory Approval_Framing
  imports Regex
begin

section \<open>Persuasive framing of approval summaries\<close>

text \<open>
  Models \<^verbatim>\<open>security/approval_framing.py\<close>: the four pattern families, the evidence pattern, and
  the score of a summary. The patterns are written for the interpreter of \<open>Regex\<close>.
\<close>

datatype framing_level = Framing_NONE | Framing_REVIEW | Framing_HIGH

fun framing_level_value :: "framing_level \<Rightarrow> string" where
  "framing_level_value Framing_NONE = ''NONE''"
| "framing_level_value Framing_REVIEW = ''REVIEW''"
| "framing_level_value Framing_HIGH = ''HIGH''"

definition bounded_word :: "rx list \<Rightarrow> rx" where
  "bounded_word rs = seqs [Word_boundary, alts rs, Word_boundary]"

text \<open>A class of characters under \<open>re.I\<close>, its letters written in lower case.\<close>

definition chr_in_i :: "string \<Rightarrow> rx" where
  "chr_in_i cs = Cls (\<lambda>c. lower_char c \<in> set cs)"

definition urgency :: rx where
  "urgency = bounded_word [Seq (lit_i ''urgent'') (opt_rx (lit_i ''ly'')), lit_i ''immediately'', lit_i ''right now'', lit_i ''asap'',
     lit_i ''act now'', lit_i ''deadline'', seqs [lit_i ''time'', chr_in_i ''- '', lit_i ''sensitive''],
     seqs [lit_i ''before it'', opt_rx (lit_i [CHR 0x27]), lit_i ''s too late''], lit_i ''no time'']"

definition pressure_to_approve :: rx where
  "pressure_to_approve = bounded_word [lit_i ''just approve'', lit_i ''simply approve'',
     seqs [lit_i ''rubber'', opt_rx (chr_in_i ''- ''), lit_i ''stamp''], lit_i ''no need to review'', lit_i ''trust me'',
     Seq (lit_i ''the owner '') (alts [lit_i ''wants'', lit_i ''asked'', lit_i ''approved'']), lit_i ''already approved'',
     Seq (lit_i ''everyone '') (alts [lit_i ''agreed'', lit_i ''approved'']),
     seqs [lit_i ''don'', opt_rx (lit_i [CHR 0x27]), lit_i ''t '', alts [lit_i ''need'', lit_i ''bother''], lit_i '' to '',
           alts [lit_i ''check'', lit_i ''review'']]]"

definition minimization :: rx where
  "minimization = bounded_word [lit_i ''harmless'', lit_i ''minor'', lit_i ''routine'', seqs [lit_i ''low'', chr_in_i ''- '', lit_i ''risk''],
     lit_i ''no risk'', Seq (lit_i ''nothing '') (alts [lit_i ''to see'', lit_i ''will change'']), lit_i ''trivial'',
     lit_i ''standard procedure'', lit_i ''completely safe'']"

definition unsupported_assurance :: rx where
  "unsupported_assurance = bounded_word [lit_i ''verified'', lit_i ''audited'', lit_i ''tested'', lit_i ''guaranteed'',
     seqs [lit_i ''100'', opt_rx (lit_i '' ''), lit_i ''%''], lit_i ''proven safe'']"

definition ref_char :: "char \<Rightarrow> bool" where
  "ref_char c = (let d = lower_char c in
     chr_range (CHR ''a'') (CHR ''z'') d \<or> chr_range (CHR ''0'') (CHR ''9'') d \<or> d \<in> set ''_./:-'')"

definition evidence_rx :: rx where
  "evidence_rx = seqs [alts [lit_i ''evidence'', lit_i ''sha256'', lit_i ''hash'', lit_i ''sealed'', lit_i ''ref''],
     chr_in_i '':= '', Star (Cls is_space), at_least 6 (Cls ref_char)]"

definition framing_codes :: "string \<Rightarrow> string list" where
  "framing_codes txt =
    (if re_search urgency txt then [''URGENCY''] else []) @
    (if re_search pressure_to_approve txt then [''PRESSURE_TO_APPROVE''] else []) @
    (if re_search minimization txt then [''MINIMIZATION''] else []) @
    (if re_search unsupported_assurance txt \<and> \<not> re_search evidence_rx txt then [''UNSUPPORTED_ASSURANCE''] else [])"

definition contains_text :: "string \<Rightarrow> string \<Rightarrow> bool" where
  "contains_text p s = list_ex (\<lambda>i. starts_with p (drop i s)) [0..<length s + 1]"

record framing =
  fr_level :: framing_level
  fr_codes :: "string list"

definition framing_of :: "string list \<Rightarrow> framing" where
  "framing_of codes = \<lparr>fr_level = (if codes = [] then Framing_NONE
       else if ''PRESSURE_TO_APPROVE'' \<in> set codes \<or> length codes \<ge> 2 then Framing_HIGH else Framing_REVIEW),
     fr_codes = codes\<rparr>"

definition assess_framing :: "string \<Rightarrow> string list \<Rightarrow> framing" where
  "assess_framing summary targets =
    framing_of (framing_codes summary @
      (if targets \<noteq> [] \<and> \<not> list_ex (\<lambda>t. t \<noteq> [] \<and> contains_text (lower t) (lower summary)) targets then [''OMITS_TARGET''] else []))"

text \<open>Case plays no part in the score.\<close>

lemma lower_char_lower [simp]: "lower_char (lower_char c) = lower_char c"
proof -
  define n where "n = (of_char c :: nat)"
  consider "65 \<le> n" "n \<le> 90" | "192 \<le> n" "n \<le> 222" "n \<noteq> 215" | "lower_char c = c"
    by (fastforce simp: lower_char_def n_def Let_def)
  then show ?thesis
    by cases (simp_all add: lower_char_def n_def Let_def)
qed

lemma lower_lower [simp]: "lower (lower s) = lower s"
  by (simp add: lower_def)

lemma caseless_seqs [simp]: "caseless (seqs rs) \<longleftrightarrow> (\<forall>r\<in>set rs. caseless r)"
  by (induction rs) auto

lemma caseless_alts [simp]: "caseless (alts rs) \<longleftrightarrow> (\<forall>r\<in>set rs. caseless r)"
  unfolding alts_def by (induction rs) auto

lemma caseless_times [simp]: "caseless r \<Longrightarrow> caseless (times n r)"
  by (induction n) auto

lemma caseless_lit_i [simp]: "caseless (lit_i w)"
  by (auto simp: lit_i_def)

lemma caseless_opt [simp]: "caseless (opt_rx r) \<longleftrightarrow> caseless r"
  by (simp add: opt_rx_def)

lemma caseless_chr_in_i [simp]: "caseless (chr_in_i cs)"
  by (simp add: chr_in_i_def)

lemma caseless_plus [simp]: "caseless r \<Longrightarrow> caseless (at_least n r)"
  by (simp add: at_least_def)

lemma space_lower [simp]: "is_space (lower_char c) = is_space c"
proof -
  define n where "n = (of_char c :: nat)"
  consider "65 \<le> n" "n \<le> 90" | "192 \<le> n" "n \<le> 222" "n \<noteq> 215" | "lower_char c = c"
    by (fastforce simp: lower_char_def n_def Let_def)
  then show ?thesis
  proof cases
    case 1
    then have "(of_char (lower_char c) :: nat) = n + 32" by (simp add: lower_char_def n_def Let_def)
    with 1 show ?thesis by (simp add: is_space_def n_def Let_def)
  next
    case 2
    then have "(of_char (lower_char c) :: nat) = n + 32" by (simp add: lower_char_def n_def Let_def)
    with 2 show ?thesis by (simp add: is_space_def n_def Let_def)
  qed simp
qed

lemma ref_char_lower [simp]: "ref_char (lower_char c) = ref_char c"
  by (simp add: ref_char_def)

lemma framing_caseless:
  "caseless urgency" "caseless pressure_to_approve" "caseless minimization" "caseless unsupported_assurance" "caseless evidence_rx"
  by (simp_all add: urgency_def pressure_to_approve_def minimization_def unsupported_assurance_def evidence_rx_def bounded_word_def)

lemma framing_codes_lower: "framing_codes (lower s) = framing_codes s"
  by (simp add: framing_codes_def re_search_lower framing_caseless)

text \<open>
  Writing a summary in another case does not change its score: two summaries (and target
  lists) that differ only in case get the same framing level and the same codes.
\<close>

theorem framing_ignores_case:
  assumes "lower s = lower s'" and "map lower ts = map lower ts'"
  shows "assess_framing s ts = assess_framing s' ts'"
proof -
  have codes: "framing_codes s = framing_codes s'" using framing_codes_lower assms(1) by metis
  have len: "length ts = length ts'" using assms(2) by (metis length_map)
  have each: "lower (ts ! i) = lower (ts' ! i)" if "i < length ts" for i
    using assms(2) that len by (metis nth_map)
  have empty: "ts ! i = [] \<longleftrightarrow> ts' ! i = []" if "i < length ts" for i
    using each [OF that] by (metis length_0_conv length_lower)
  have "list_ex (\<lambda>t. t \<noteq> [] \<and> contains_text (lower t) (lower s)) ts =
      list_ex (\<lambda>t. t \<noteq> [] \<and> contains_text (lower t) (lower s')) ts'"
    using each empty len assms(1) by (auto simp: list_ex_length)
  moreover have "ts = [] \<longleftrightarrow> ts' = []" using len by (metis length_0_conv)
  ultimately show ?thesis using codes by (simp add: assess_framing_def)
qed

theorem framing_ignores_case_witness:
  "assess_framing ''JUST Approve NOW'' [''Ab''] = assess_framing ''just approve now'' [''aB'']"
  by (rule framing_ignores_case; code_simp)

end
