(* ===== verification/Approvals.thy ===== *)
theory Approvals
  imports Approval_Framing Action_Store
begin

section \<open>Approvals, runs and who may decide\<close>

text \<open>
  Models \<^verbatim>\<open>persistence/approvals.py\<close>, the run records of \<^verbatim>\<open>persistence/runs.py\<close> that anchor
  approvals, \<^verbatim>\<open>security/approval_authority.py\<close> and \<^verbatim>\<open>security/local_generation_approval.py\<close>. The
  moments of an approval are kept as moments: the code stores \<open>datetime.isoformat\<close> text, reads
  it back with \<open>fromisoformat\<close> and sorts by it, and the text orders as the moments do.
\<close>

subsection \<open>State\<close>

datatype approval_status = Ap_PENDING | Ap_RESOLVED | Ap_STALE

record approval =
  ap_id :: string
  ap_run :: string
  ap_tenant :: string
  ap_project :: string
  ap_reason :: string
  ap_status :: approval_status
  ap_reviewer :: "string option"
  ap_decision :: "string option"
  ap_created :: int
  ap_decided :: "int option"
  ap_subject_type :: string
  ap_subject_ref :: string
  ap_subject_version :: string
  ap_subject_hash :: "string option"
  ap_authority :: string
  ap_policy :: string
  ap_framing :: framing
  ap_stale_reason :: "string option"
  ap_staled_at :: "int option"

text \<open>The decision policy of one approval subject, in the server-written metadata of a run.\<close>

record role_policy =
  rp_roles :: "string list"
  rp_no_self :: bool

record run_row =
  rn_id :: string
  rn_tenant :: string
  rn_project :: string
  rn_pipeline :: string
  rn_status :: string
  rn_initiated_by :: "string option"
  rn_policies :: "(string \<times> role_policy) list"
  rn_created :: int
  rn_updated :: int

record approval_db = action_db +
  pd_approvals :: "approval list"
  pd_runs :: "run_row list"

type_synonym ('x, 'a) approval_prog = "('x approval_db_scheme, amc_error, 'a) prog"

subsection \<open>Approval records\<close>

definition get_approval :: "string \<Rightarrow> ('x, approval option) approval_prog" where
  "get_approval aid = gets (\<lambda>db. row_by ap_id aid (pd_approvals db))"

definition create_approval_request :: "env \<Rightarrow> string \<Rightarrow> string \<Rightarrow> string \<Rightarrow> string \<Rightarrow> string \<Rightarrow> string option \<Rightarrow> string option
    \<Rightarrow> string option \<Rightarrow> string \<Rightarrow> string \<Rightarrow> string list \<Rightarrow> ('x, approval) approval_prog" where
  "create_approval_request V run tenant project reason subject_type subject_ref subject_version subject_hash authority policy targets =
    bnd (uuid4_hex V) (\<lambda>aid.
    let framing = assess_framing reason targets;
        or_run = (\<lambda>x. case x of Some s \<Rightarrow> if s = [] then run else s | None \<Rightarrow> run) in
    bnd (atomic_db (
      bnd (utc_now V) (\<lambda>stamp.
      bnd (get_approval aid) (\<lambda>known.
      bnd (guard (known = None) (TrustError IntegrityError)) (\<lambda>_.
      modify (pd_approvals_update (\<lambda>rs. rs @
        [\<lparr>ap_id = aid, ap_run = run, ap_tenant = tenant, ap_project = project, ap_reason = reason, ap_status = Ap_PENDING,
          ap_reviewer = None, ap_decision = None, ap_created = stamp, ap_decided = None, ap_subject_type = subject_type,
          ap_subject_ref = or_run subject_ref, ap_subject_version = or_run subject_version, ap_subject_hash = subject_hash,
          ap_authority = authority, ap_policy = policy, ap_framing = framing, ap_stale_reason = None, ap_staled_at = None\<rparr>])))))))
    (\<lambda>_. bnd (get_approval aid) (\<lambda>out.
    case out of Some a \<Rightarrow> ret a
    | None \<Rightarrow> raise (ValueErr ''Approval insert succeeded but record could not be read back''))))"

definition list_pending_approvals :: "string \<Rightarrow> ('x, approval list) approval_prog" where
  "list_pending_approvals tenant =
    gets (\<lambda>db. sort_key ap_created (filter (\<lambda>a. ap_status a = Ap_PENDING \<and> ap_tenant a = tenant) (pd_approvals db)))"

definition coalesce :: "'a option \<Rightarrow> 'a \<Rightarrow> 'a" where
  "coalesce x y = (case x of Some v \<Rightarrow> v | None \<Rightarrow> y)"

definition bind_approval_subject :: "string \<Rightarrow> string \<Rightarrow> string option \<Rightarrow> string option \<Rightarrow> string option \<Rightarrow> string option
    \<Rightarrow> ('x, approval option) approval_prog" where
  "bind_approval_subject aid subject_hash subject_ref subject_version authority policy =
    bnd (atomic_db (
      bnd (gets (\<lambda>db. count_rows (\<lambda>a. ap_id a = aid) (pd_approvals db))) (\<lambda>n.
      bnd (modify (pd_approvals_update (update_rows (\<lambda>a. ap_id a = aid)
        (\<lambda>a. a\<lparr>ap_subject_hash := Some subject_hash, ap_subject_ref := coalesce subject_ref (ap_subject_ref a),
               ap_subject_version := coalesce subject_version (ap_subject_version a),
               ap_authority := coalesce authority (ap_authority a), ap_policy := coalesce policy (ap_policy a)\<rparr>)))) (\<lambda>_.
      ret n))))
    (\<lambda>n. if n \<noteq> 1 then ret None else get_approval aid)"

definition mark_approval_stale :: "env \<Rightarrow> string \<Rightarrow> string \<Rightarrow> ('x, approval option) approval_prog" where
  "mark_approval_stale V aid reason =
    bnd (atomic_db (
      bnd (utc_now V) (\<lambda>stamp.
      modify (pd_approvals_update (update_rows (\<lambda>a. ap_id a = aid \<and> ap_status a \<noteq> Ap_STALE)
        (\<lambda>a. a\<lparr>ap_status := Ap_STALE, ap_stale_reason := Some (take 500 reason), ap_staled_at := Some stamp\<rparr>))))))
    (\<lambda>_. get_approval aid)"

definition resolve_approval :: "env \<Rightarrow> string \<Rightarrow> string \<Rightarrow> string \<Rightarrow> bool \<Rightarrow> ('x, approval option) approval_prog" where
  "resolve_approval V aid reviewer decision acknowledged =
    bnd (guard (decision = ''approve'' \<or> decision = ''reject'') (ValueErr (''decision must be '' @ repr_str ''approve'' @ '' or '' @ repr_str ''reject''))) (\<lambda>_.
    bnd (utc_now V) (\<lambda>decided.
    atomic_db (
      bnd (get_approval aid) (\<lambda>row.
      bnd (guard (\<not> (decision = ''approve'' \<and> \<not> acknowledged \<and>
                     (case row of None \<Rightarrow> False | Some a \<Rightarrow> fr_level (ap_framing a) = Framing_HIGH)))
        (FramingAcknowledgementRequired
          ''this summary has high persuasive framing; the reviewer must acknowledge it before approving'')) (\<lambda>_.
      let hit = (\<lambda>a. ap_id a = aid \<and> ap_status a = Ap_PENDING) in
      bnd (gets (\<lambda>db. count_rows hit (pd_approvals db))) (\<lambda>n.
      bnd (modify (pd_approvals_update (update_rows hit
        (\<lambda>a. a\<lparr>ap_status := Ap_RESOLVED, ap_reviewer := Some reviewer, ap_decision := Some decision,
               ap_decided := Some decided\<rparr>)))) (\<lambda>_.
      if n \<noteq> 1 then ret None else get_approval aid)))))))"

text \<open>Newest first; the database returns approvals of one moment in any order, here in the order of their insertion.\<close>

definition get_approvals_for_run :: "string \<Rightarrow> ('x, approval list) approval_prog" where
  "get_approvals_for_run run =
    gets (\<lambda>db. sort_key (\<lambda>a. - ap_created a) (filter (\<lambda>a. ap_run a = run) (pd_approvals db)))"

definition list_approvals_for_subject_refs :: "string \<Rightarrow> string list \<Rightarrow> ('x, approval list) approval_prog" where
  "list_approvals_for_subject_refs project refs =
    (let rs = filter (\<lambda>r. r \<noteq> []) refs in
     if rs = [] then ret []
     else gets (\<lambda>db. sort_key (\<lambda>a. - ap_created a)
       (filter (\<lambda>a. ap_project a = project \<and> ap_subject_ref a \<in> set rs \<and> ap_status a \<noteq> Ap_STALE) (pd_approvals db))))"

subsection \<open>Runs\<close>

definition get_run_record :: "string \<Rightarrow> ('x, run_row option) approval_prog" where
  "get_run_record rid = gets (\<lambda>db. row_by rn_id rid (pd_runs db))"

definition create_run_record :: "env \<Rightarrow> string \<Rightarrow> string \<Rightarrow> string \<Rightarrow> string \<Rightarrow> string \<Rightarrow> string option
    \<Rightarrow> (string \<times> role_policy) list \<Rightarrow> ('x, run_row) approval_prog" where
  "create_run_record V rid tenant project pipeline status initiated policies =
    bnd (utc_now V) (\<lambda>stamp.
    bnd (atomic_db (
      bnd (ensure_tenant_project tenant project) (\<lambda>_.
      bnd (get_run_record rid) (\<lambda>known.
      bnd (guard (known = None) (TrustError IntegrityError)) (\<lambda>_.
      modify (pd_runs_update (\<lambda>rs. rs @
        [\<lparr>rn_id = rid, rn_tenant = tenant, rn_project = project, rn_pipeline = pipeline, rn_status = status,
          rn_initiated_by = initiated, rn_policies = policies, rn_created = stamp, rn_updated = stamp\<rparr>])))))))
    (\<lambda>_. bnd (get_run_record rid) (\<lambda>out.
    case out of Some r \<Rightarrow> ret r | None \<Rightarrow> raise (ValueErr ''Run insert succeeded but record could not be read back''))))"

definition update_run_status :: "env \<Rightarrow> string \<Rightarrow> string \<Rightarrow> ('x, run_row option) approval_prog" where
  "update_run_status V rid status =
    bnd (utc_now V) (\<lambda>stamp.
    bnd (atomic_db (modify (pd_runs_update (update_rows (\<lambda>r. rn_id r = rid) (\<lambda>r. r\<lparr>rn_status := status, rn_updated := stamp\<rparr>)))))
    (\<lambda>_. get_run_record rid))"

subsection \<open>Who may decide\<close>

text \<open>The process environment, and whether a stored local generation plan is valid for a request.\<close>

record authority_env =
  ae_getenv :: "string \<Rightarrow> string option"
  ae_valid_plan :: "principal \<Rightarrow> run_row \<Rightarrow> approval \<Rightarrow> bool"

definition environ :: "'x authority_env_scheme \<Rightarrow> string \<Rightarrow> string" where
  "environ A k = coalesce (ae_getenv A k) []"

definition or_default :: "string \<Rightarrow> string \<Rightarrow> string" where
  "or_default v d = (if v = [] then d else v)"

definition norm :: "string \<Rightarrow> string" where
  "norm s = lower (strip s)"

definition default_approver_roles :: "string list" where
  "default_approver_roles = [''reviewer'', ''approver'', ''admin'', ''owner'']"

definition approver_roles :: "'x authority_env_scheme \<Rightarrow> string list" where
  "approver_roles A =
    (let roles = map norm (filter (\<lambda>r. strip r \<noteq> []) (split_on (CHR '','') (environ A ''AMC_APPROVER_ROLES'')))
     in if roles = [] then default_approver_roles else roles)"

definition self_approval_allowed :: "'x authority_env_scheme \<Rightarrow> bool" where
  "self_approval_allowed A =
    (norm (environ A ''AMC_ALLOW_SELF_APPROVAL'') \<in> {''1'', ''true'', ''yes'', ''on''} \<and>
     norm (or_default (environ A ''AMC_ENV'') ''local'') \<noteq> ''production'')"

definition run_initiator :: "run_row \<Rightarrow> string option" where
  "run_initiator r = (let v = strip (coalesce (rn_initiated_by r) []) in if v = [] then None else Some v)"

datatype decide_error = DecideForbidden string

definition capitalize :: "string \<Rightarrow> string" where
  "capitalize s = (case s of [] \<Rightarrow> [] | c # cs \<Rightarrow> upper_char c # lower cs)"

definition assert_may_decide :: "'x authority_env_scheme \<Rightarrow> principal \<Rightarrow> string option \<Rightarrow> string \<Rightarrow> string \<Rightarrow> decide_error + unit" where
  "assert_may_decide A p initiator decision subject =
    (if principal_role p \<notin> set (approver_roles A) then Inl (DecideForbidden ''Deciding approvals requires an approver role'')
     else if decision \<noteq> ''approve'' \<or> self_approval_allowed A then Inr ()
     else case initiator of
       None \<Rightarrow> Inl (DecideForbidden (capitalize subject @
                 '' initiator is not recorded, so separation of duties cannot be verified''))
     | Some i \<Rightarrow>
         if i = [] then Inl (DecideForbidden (capitalize subject @
                 '' initiator is not recorded, so separation of duties cannot be verified''))
         else if i = pr_user p then Inl (DecideForbidden (''The principal who started a '' @ subject @ '' cannot approve it''))
         else Inr ())"

definition solo_policy :: string where
  "solo_policy = ''unbound-local-owner/v1''"

definition solo_enabled :: "'x authority_env_scheme \<Rightarrow> bool" where
  "solo_enabled A = (norm (or_default (environ A ''AMC_ENV'') ''local'') = ''local'' \<and>
     norm (or_default (environ A ''AMC_AUTH_MODE'') ''local'') = ''local'' \<and>
     ae_getenv A ''AMC_INNOVATION_SOLO_OWNER_APPROVAL'' = Some ''1'' \<and> ae_getenv A ''OLLAMA_NO_CLOUD'' = Some ''1'')"

definition permits_owner :: "'x authority_env_scheme \<Rightarrow> principal \<Rightarrow> run_row \<Rightarrow> approval \<Rightarrow> bool" where
  "permits_owner A p run a = (solo_enabled A \<and> principal_role p = ''owner'' \<and>
     rn_pipeline run = ''innovation_generation'' \<and> ap_authority a = ''human-review'' \<and>
     (rn_tenant run, rn_project run) = (pr_tenant p, ap_project a) \<and> ap_tenant a = pr_tenant p \<and>
     can_access_project p (ap_project a) \<and> rn_id run = ap_run a \<and> rn_initiated_by run = Some (pr_user p) \<and>
     ap_policy a = solo_policy \<and> ap_subject_type a = ''INNOVATION_GENERATION'' \<and>
     ap_status a \<in> {Ap_PENDING, Ap_RESOLVED} \<and>
     (ap_status a = Ap_RESOLVED \<longrightarrow> ap_decision a = Some ''approve'' \<and> ap_reviewer a = Some (pr_user p)) \<and>
     ae_valid_plan A p run a)"

definition assert_may_decide_approval :: "'x authority_env_scheme \<Rightarrow> principal \<Rightarrow> run_row \<Rightarrow> string \<Rightarrow> approval option
    \<Rightarrow> decide_error + unit" where
  "assert_may_decide_approval A p run decision approval =
    (if (case approval of None \<Rightarrow> False | Some a \<Rightarrow> ap_policy a = solo_policy) \<and> decision = ''approve''
     then if principal_role p \<notin> set (approver_roles A) \<or> \<not> permits_owner A p run (the approval)
          then Inl (DecideForbidden ''Local generation owner approval requirements are not satisfied'') else Inr ()
     else case assert_may_decide A p (run_initiator run) decision ''run'' of
       Inl e \<Rightarrow> Inl e
     | Inr _ \<Rightarrow>
       (case approval of None \<Rightarrow> Inr () | Some a \<Rightarrow>
        case map_of (rn_policies run) (ap_subject_type a) of None \<Rightarrow> Inr () | Some pol \<Rightarrow>
          let roles = map norm (rp_roles pol) in
          if roles \<noteq> [] \<and> principal_role p \<notin> set roles
          then Inl (DecideForbidden (''Deciding this approval requires one of '' @ repr_str_list (sort (remdups roles))))
          else if decision = ''approve'' \<and> rp_no_self pol \<and> run_initiator run = Some (pr_user p)
          then Inl (DecideForbidden ''This approval can never be decided by the principal who requested it'')
          else Inr ()))"

end
