(* ===== verification/Approval_Safety.thy ===== *)
theory Approval_Safety
  imports Approvals Action_Safety
begin

section \<open>What approvals guarantee\<close>

text \<open>
  Properties of \<^verbatim>\<open>persistence/approvals.py\<close> and \<^verbatim>\<open>security/approval_authority.py\<close>: a decision is
  final, a persuasive summary is acknowledged before it is approved, and a policy on a run only
  narrows who decides.
\<close>

subsection \<open>The life of an approval\<close>

fun status_step :: "approval_status \<Rightarrow> approval_status set" where
  "status_step Ap_PENDING = {Ap_PENDING, Ap_RESOLVED, Ap_STALE}"
| "status_step Ap_RESOLVED = {Ap_RESOLVED, Ap_STALE}"
| "status_step Ap_STALE = {Ap_STALE}"

definition decision_of :: "approval \<Rightarrow> string option \<times> string option \<times> int option" where
  "decision_of a = (ap_decision a, ap_reviewer a, ap_decided a)"

definition evolves :: "approval \<Rightarrow> approval \<Rightarrow> bool" where
  "evolves a b = (ap_id b = ap_id a \<and> ap_run b = ap_run a \<and> ap_tenant b = ap_tenant a \<and> ap_project b = ap_project a \<and>
     ap_subject_type b = ap_subject_type a \<and> ap_framing b = ap_framing a \<and> ap_created b = ap_created a \<and>
     ap_status b \<in> status_step (ap_status a) \<and> (ap_status a \<noteq> Ap_PENDING \<longrightarrow> decision_of b = decision_of a))"

lemma evolves_refl [simp]: "evolves a a"
  by (cases "ap_status a") (simp_all add: evolves_def)

lemma evolves_trans: "evolves a b \<Longrightarrow> evolves b c \<Longrightarrow> evolves a c"
  by (cases "ap_status a"; cases "ap_status b") (auto simp: evolves_def)

definition older :: "'x approval_db_scheme \<Rightarrow> 'x approval_db_scheme \<Rightarrow> bool" where
  "older db v = ((\<exists>olds news. list_all2 evolves (pd_approvals db) olds \<and> pd_approvals v = olds @ news) \<and>
     (distinct (map ap_id (pd_approvals db)) \<longrightarrow> distinct (map ap_id (pd_approvals v))))"

lemma list_all2_evolves_refl [simp]: "list_all2 evolves xs xs"
  by (rule list.rel_refl) simp

lemma older_refl [simp]: "older db db"
  unfolding older_def by (intro conjI exI [of _ "pd_approvals db"] exI [of _ "[]"]) simp_all

lemma older_trans:
  assumes "older a b" and "older b c"
  shows "older a c"
proof -
  obtain olds news where ab: "list_all2 evolves (pd_approvals a) olds" "pd_approvals b = olds @ news"
    using assms(1) by (auto simp: older_def)
  obtain olds' news' where bc: "list_all2 evolves (olds @ news) olds'" "pd_approvals c = olds' @ news'"
    using assms(2) ab(2) by (auto simp: older_def)
  obtain xs ys where xy: "olds' = xs @ ys" "list_all2 evolves olds xs"
    using bc(1) by (auto simp: list_all2_append1)
  have "list_all2 evolves (pd_approvals a) xs"
    using ab(1) xy(2) evolves_trans by (rule list_all2_trans [rotated]) simp_all
  then show ?thesis using bc(2) xy(1) assms by (auto simp: older_def)
qed

lemma older_update:
  assumes "\<And>a. p a \<Longrightarrow> evolves a (f a)" and v: "pd_approvals v = update_rows p f (pd_approvals db)"
  shows "older db v"
proof -
  have "map ap_id (update_rows p f (pd_approvals db)) = map ap_id (pd_approvals db)"
    by (rule map_update_rows) (use assms(1) in \<open>simp add: evolves_def\<close>)
  moreover have "list_all2 evolves (pd_approvals db) (update_rows p f (pd_approvals db))"
    by (simp add: update_rows_def list_all2_map2 list.rel_refl assms(1))
  ultimately show ?thesis unfolding older_def v by (metis append_Nil2)
qed

lemma older_append:
  assumes "pd_approvals v = pd_approvals db @ [a]" and "row_by ap_id (ap_id a) (pd_approvals db) = None"
  shows "older db v"
  unfolding older_def assms(1)
  by (intro conjI exI [of _ "pd_approvals db"] exI [of _ "[a]"]) (use assms(2) in \<open>auto simp: row_by_None\<close>)

lemma older_counters [simp]:
  "older db (w_reads_update f v) = older db v" "older db (w_uuids_update f v) = older db v"
  by (simp_all add: older_def)

lemma older_row: "older db v \<Longrightarrow> row_by ap_id k (pd_approvals db) = Some a \<Longrightarrow>
    \<exists>b. row_by ap_id k (pd_approvals v) = Some b \<and> evolves a b"
proof -
  have "list_all2 evolves xs ys \<Longrightarrow> row_by ap_id k xs = Some a \<Longrightarrow> \<exists>b. row_by ap_id k (ys @ zs) = Some b \<and> evolves a b" for xs ys zs
  proof (induction rule: list_all2_induct)
    case (Cons x xs y ys)
    then show ?case by (auto simp: evolves_def split: if_splits)
  qed simp
  then show "older db v \<Longrightarrow> row_by ap_id k (pd_approvals db) = Some a \<Longrightarrow> ?thesis"
    by (auto simp: older_def)
qed

datatype approval_call =
    P_create string string string string string "string option" "string option" "string option" string string "string list"
  | P_bind string string "string option" "string option" "string option" "string option"
  | P_stale string string
  | P_resolve string string string bool

fun approval_exec :: "env \<Rightarrow> approval_call \<Rightarrow> ('x, unit) approval_prog" where
  "approval_exec V (P_create run tenant project reason ty ref version h authority policy targets) =
     bnd (create_approval_request V run tenant project reason ty ref version h authority policy targets) (\<lambda>_. ret ())"
| "approval_exec V (P_bind aid h ref version authority policy) =
     bnd (bind_approval_subject aid h ref version authority policy) (\<lambda>_. ret ())"
| "approval_exec V (P_stale aid reason) = bnd (mark_approval_stale V aid reason) (\<lambda>_. ret ())"
| "approval_exec V (P_resolve aid reviewer decision acknowledged) =
     bnd (resolve_approval V aid reviewer decision acknowledged) (\<lambda>_. ret ())"

definition approval_run :: "env \<Rightarrow> approval_call list \<Rightarrow> 'x approval_db_scheme \<Rightarrow> 'x approval_db_scheme" where
  "approval_run V calls db = foldl (\<lambda>v c. snd (approval_exec V c v)) db calls"

lemma approval_exec_older:
  fixes db :: "'x approval_db_scheme"
  shows "older db (snd (approval_exec V c db))"
proof -
  have upd: "older db v" if "pd_approvals v = update_rows p f (pd_approvals db)" "\<And>a. p a \<Longrightarrow> evolves a (f a)"
    for v :: "'x approval_db_scheme" and p f using older_update that by blast
  have app: "older db v" if "pd_approvals v = pd_approvals db @ [a]" "row_by ap_id (ap_id a) (pd_approvals db) = None"
    for v :: "'x approval_db_scheme" and a
    using older_append that by blast
  have bind_ev: "evolves a (a\<lparr>ap_subject_hash := h, ap_subject_ref := r, ap_subject_version := s, ap_authority := t, ap_policy := u\<rparr>)"
    for a h r s t u by (cases "ap_status a") (simp_all add: evolves_def decision_of_def)
  have stale_ev: "evolves a (a\<lparr>ap_status := Ap_STALE, ap_stale_reason := r, ap_staled_at := t\<rparr>)" for a r t
    by (cases "ap_status a") (simp_all add: evolves_def decision_of_def)
  have resolve_ev: "evolves a (a\<lparr>ap_status := Ap_RESOLVED, ap_reviewer := r, ap_decision := d, ap_decided := t\<rparr>)"
    if "ap_status a = Ap_PENDING" for a r d t using that by (simp add: evolves_def decision_of_def)
  have "wp (approval_exec V c) (\<lambda>_. older db) (\<lambda>_. older db) db"
  proof (cases c)
    case (P_create run tenant project reason ty ref version h authority policy targets)
    then show ?thesis
      by (auto simp: create_approval_request_def get_approval_def hoare_rules Let_def split: option.splits intro: app)
  next
    case (P_bind aid h ref version authority policy)
    then show ?thesis
      by (auto simp: bind_approval_subject_def get_approval_def hoare_rules intro: upd bind_ev)
  next
    case (P_stale aid reason)
    then show ?thesis
      by (auto simp: mark_approval_stale_def get_approval_def hoare_rules intro: upd stale_ev)
  next
    case (P_resolve aid reviewer decision acknowledged)
    then show ?thesis
      by (auto simp: resolve_approval_def get_approval_def hoare_rules Let_def split: option.splits intro: upd resolve_ev)
  qed
  then show ?thesis by (auto simp: wp_def split: prod.splits sum.splits)
qed

lemma approval_run_older: "older db (approval_run V calls db)"
proof (induction calls arbitrary: db)
  case (Cons c calls)
  have "older db (snd (approval_exec V c db))" by (rule approval_exec_older)
  from older_trans [OF this Cons.IH] show ?case by (simp add: approval_run_def)
qed (simp add: approval_run_def)

text \<open>What \<open>resolve_approval\<close> does, on every branch.\<close>

lemma wp_resolve_approval:
  assumes dist: "distinct (map ap_id (pd_approvals db))"
  shows "wp (resolve_approval V aid reviewer decision acknowledged)
    (\<lambda>out w. case out of
        None \<Rightarrow> pd_approvals w = pd_approvals db
      | Some a \<Rightarrow> \<exists>old. row_by ap_id aid (pd_approvals db) = Some old \<and> ap_status old = Ap_PENDING \<and>
          (decision = ''approve'' \<and> fr_level (ap_framing old) = Framing_HIGH \<longrightarrow> acknowledged) \<and>
          a = old\<lparr>ap_status := Ap_RESOLVED, ap_reviewer := Some reviewer, ap_decision := Some decision, ap_decided := Some (env_clock V (w_reads db))\<rparr> \<and>
          row_by ap_id aid (pd_approvals w) = Some a)
    (\<lambda>_ w. pd_approvals w = pd_approvals db) db"
proof -
  let ?hit = "\<lambda>a. ap_id a = aid \<and> ap_status a = Ap_PENDING"
  have count: "count_rows ?hit (pd_approvals db) =
      (case row_by ap_id aid (pd_approvals db) of None \<Rightarrow> 0 | Some r \<Rightarrow> if ?hit r then 1 else 0)"
    by (rule count_rows_key [OF dist]) simp
  have same: "update_rows ?hit f (pd_approvals db) = pd_approvals db" if "count_rows ?hit (pd_approvals db) = 0" for f
    by (rule update_rows_id) (use that in \<open>simp add: count_rows_0\<close>)
  have found: "row_by ap_id aid (update_rows ?hit f (pd_approvals db)) =
      (case row_by ap_id aid (pd_approvals db) of None \<Rightarrow> None | Some r \<Rightarrow> Some (if ?hit r then f r else r))"
    if "\<And>a. ap_id (f a) = ap_id a" for f
    by (rule row_by_update_rows) (simp add: that)
  show ?thesis
  proof (cases "row_by ap_id aid (pd_approvals db)")
    case None
    then show ?thesis
      using count same by (simp add: resolve_approval_def get_approval_def hoare_rules Let_def)
  next
    case (Some old)
    then have "ap_id old = aid" using row_by_SomeD by fastforce
    then show ?thesis
      using Some count same found by (simp add: resolve_approval_def get_approval_def hoare_rules Let_def)
  qed
qed

text \<open>
  C7. A decision is final: once \<open>resolve_approval\<close> has recorded one, no sequence of requests,
  rebindings, invalidations and further decisions changes who decided what and when, moves the
  approval to another tenant, project, run or subject kind, or returns it to pending; a second
  decision never succeeds.
\<close>

theorem approval_decided_once:
  assumes "distinct (map ap_id (pd_approvals db))"
    and "resolve_approval V aid reviewer decision acknowledged db = (Inr (Some a), v)"
    and "approval_run V calls v = w"
  shows "(\<exists>b. row_by ap_id aid (pd_approvals w) = Some b \<and> ap_status b \<noteq> Ap_PENDING \<and> decision_of b = decision_of a \<and>
      ap_decision b = Some decision \<and> ap_reviewer b = Some reviewer \<and>
      (ap_tenant b, ap_project b, ap_run b, ap_subject_type b) = (ap_tenant a, ap_project a, ap_run a, ap_subject_type a)) \<and>
    (\<forall>c. fst (resolve_approval V aid reviewer' decision' acknowledged' w) \<noteq> Inr (Some c))"
proof -
  obtain old where a: "ap_status a = Ap_RESOLVED" "ap_decision a = Some decision" "ap_reviewer a = Some reviewer"
    "row_by ap_id aid (pd_approvals v) = Some a"
    using wp_apply [OF wp_resolve_approval [OF assms(1)] assms(2)] by auto
  have "older db v" using approval_exec_older [of db V "P_resolve aid reviewer decision acknowledged"] assms(2)
    by (simp add: bnd_def ret_def)
  moreover have old: "older v w" using approval_run_older [of v V calls] assms(3) by simp
  ultimately have dist: "distinct (map ap_id (pd_approvals w))" using assms(1) by (simp add: older_def)
  obtain b where b: "row_by ap_id aid (pd_approvals w) = Some b" "evolves a b" using older_row [OF old a(4)] by blast
  then have "ap_status b \<noteq> Ap_PENDING \<and> decision_of b = decision_of a" using a(1) by (auto simp: evolves_def)
  moreover have "fst (resolve_approval V aid reviewer' decision' acknowledged' w) \<noteq> Inr (Some c)" for c
  proof
    assume "fst (resolve_approval V aid reviewer' decision' acknowledged' w) = Inr (Some c)"
    then obtain u where "resolve_approval V aid reviewer' decision' acknowledged' w = (Inr (Some c), u)" by (metis prod.collapse)
    from wp_apply [OF wp_resolve_approval [OF dist] this] b(1) calculation show False by auto
  qed
  ultimately show ?thesis using a b by (auto simp: decision_of_def evolves_def)
qed

text \<open>
  C32. Nobody approves a persuasive summary unread: approving an approval whose summary scored
  HIGH without the acknowledgement raises \<open>FramingAcknowledgementRequired\<close> and changes no
  approval; rejecting it needs no acknowledgement.
\<close>

theorem high_framing_needs_acknowledgement:
  assumes "row_by ap_id aid (pd_approvals db) = Some a" and "fr_level (ap_framing a) = Framing_HIGH"
  shows "(\<exists>m v. resolve_approval V aid reviewer ''approve'' False db = (Inl (FramingAcknowledgementRequired m), v) \<and>
      pd_approvals v = pd_approvals db) \<and>
    (ap_status a = Ap_PENDING \<and> distinct (map ap_id (pd_approvals db)) \<longrightarrow>
      (\<exists>b v. resolve_approval V aid reviewer ''reject'' False db = (Inr (Some b), v) \<and> ap_decision b = Some ''reject''))"
proof -
  let ?hit = "\<lambda>a. ap_id a = aid \<and> ap_status a = Ap_PENDING"
  have id: "ap_id a = aid" using row_by_SomeD [OF assms(1)] by simp
  have "count_rows ?hit (pd_approvals db) = 1" if "ap_status a = Ap_PENDING" "distinct (map ap_id (pd_approvals db))"
    using count_rows_key [OF that(2), of ?hit aid] that(1) assms(1) id by simp
  moreover have "row_by ap_id aid (update_rows ?hit f (pd_approvals db)) = Some (if ?hit a then f a else a)"
    if "\<And>a. ap_id (f a) = ap_id a" for f
    using row_by_update_rows [of ?hit ap_id f aid "pd_approvals db"] that assms(1) by simp
  ultimately show ?thesis
    using assms id by (auto simp: resolve_approval_def get_approval_def utc_now_def atomic_db_def prog_defs Let_def)
qed

subsection \<open>Deciding\<close>

text \<open>
  C33. Who may decide: \<open>assert_may_decide_approval\<close> accepts exactly an approver role that, for the
  approval of an approval under the solo-owner policy, meets the whole owner exception
  (\<open>permits_owner\<close>, which asks for neither separation nor a run policy), and in every other case
  satisfies the run's policy for that subject (one of its roles, where it names any) and, when it
  approves, is separated from the run's recorded initiator unless local self-approval is on. That
  switch waives this separation only: a policy that forbids the initiator is kept even then.
\<close>

theorem approval_authority:
  "assert_may_decide_approval A p run d (Some a) = Inr () \<longleftrightarrow>
    principal_role p \<in> set (approver_roles A) \<and>
    (if ap_policy a = solo_policy \<and> d = ''approve'' then permits_owner A p run a
     else (d \<noteq> ''approve'' \<or> self_approval_allowed A \<or> (\<exists>i. run_initiator run = Some i \<and> i \<noteq> pr_user p)) \<and>
       (case map_of (rn_policies run) (ap_subject_type a) of None \<Rightarrow> True
        | Some pol \<Rightarrow> (rp_roles pol = [] \<or> principal_role p \<in> norm ` set (rp_roles pol)) \<and>
            \<not> (d = ''approve'' \<and> rp_no_self pol \<and> run_initiator run = Some (pr_user p))))"
proof (cases "ap_policy a = solo_policy \<and> d = ''approve''")
  case True
  then show ?thesis by (auto simp: assert_may_decide_approval_def)
next
  case False
  have "run_initiator run \<noteq> Some []" by (simp add: run_initiator_def Let_def)
  then show ?thesis
    using False
    by (auto simp: assert_may_decide_approval_def assert_may_decide_def Let_def split: if_splits sum.splits option.splits)
qed

subsection \<open>Witnesses\<close>

definition empty_approval_db :: approval_db where
  "empty_approval_db = action_db.extend empty_action_db (approval_db.fields [] [])"

definition sample_summary :: string where
  "sample_summary = ''Please just approve: publish the page''"

definition sample_approval :: approval where
  "sample_approval = \<lparr>ap_id = ''ap1'', ap_run = ''r1'', ap_tenant = ''t'', ap_project = ''p'', ap_reason = sample_summary,
     ap_status = Ap_PENDING, ap_reviewer = None, ap_decision = None, ap_created = 5, ap_decided = None,
     ap_subject_type = ''ACTION_SPEND'', ap_subject_ref = ''a1'', ap_subject_version = ''v'', ap_subject_hash = Some ''h'',
     ap_authority = ''human-review'', ap_policy = ''amc-action-approval/v1'',
     ap_framing = \<lparr>fr_level = Framing_HIGH, fr_codes = [''PRESSURE_TO_APPROVE'']\<rparr>, ap_stale_reason = None, ap_staled_at = None\<rparr>"

definition sample_approval_db :: approval_db where
  "sample_approval_db = pd_approvals_update (\<lambda>_. [sample_approval]) empty_approval_db"

lemma sample_approvals [simp]: "pd_approvals sample_approval_db = [sample_approval]"
  by (simp add: sample_approval_db_def empty_approval_db_def approval_db.defs empty_action_db_def)

lemma sample_approval_simps [simp]: "ap_id sample_approval = ''ap1''" "ap_status sample_approval = Ap_PENDING"
  "fr_level (ap_framing sample_approval) = Framing_HIGH"
  by (simp_all add: sample_approval_def)

theorem approval_decided_once_witness:
  "\<exists>a v. resolve_approval sample_env ''ap1'' ''bob'' ''approve'' True sample_approval_db = (Inr (Some a), v) \<and>
     (\<forall>c. fst (resolve_approval sample_env ''ap1'' ''eve'' ''reject'' True (approval_run sample_env [P_stale ''ap1'' ''x''] v)) \<noteq> Inr (Some c))"
proof -
  have "\<exists>a v. resolve_approval sample_env ''ap1'' ''bob'' ''approve'' True sample_approval_db = (Inr (Some a), v)"
    by (simp add: resolve_approval_def get_approval_def utc_now_def atomic_db_def count_rows_def prog_defs Let_def)
  then obtain a v where r: "resolve_approval sample_env ''ap1'' ''bob'' ''approve'' True sample_approval_db = (Inr (Some a), v)" by blast
  from approval_decided_once [OF _ r refl] r show ?thesis by auto
qed

theorem high_framing_needs_acknowledgement_witness:
  "\<exists>m v. resolve_approval sample_env ''ap1'' ''bob'' ''approve'' False sample_approval_db = (Inl (FramingAcknowledgementRequired m), v)"
  using high_framing_needs_acknowledgement [of "''ap1''" sample_approval_db sample_approval sample_env "''bob''"] by auto

definition sample_authority :: authority_env where
  "sample_authority = \<lparr>ae_getenv = (\<lambda>_. None), ae_valid_plan = (\<lambda>_ _ _. False)\<rparr>"

definition sample_run :: run_row where
  "sample_run = \<lparr>rn_id = ''r1'', rn_tenant = ''t'', rn_project = ''p'', rn_pipeline = ''governed_action'', rn_status = ''needs_approval'',
     rn_initiated_by = Some ''alice'', rn_policies = [(''ACTION_SPEND'', \<lparr>rp_roles = [''owner'', ''admin''], rp_no_self = True\<rparr>)],
     rn_created = 5, rn_updated = 5\<rparr>"

theorem approval_authority_witness:
  "principal_role \<lparr>pr_user = ''bob'', pr_tenant = ''t'', pr_role = '' Admin '', pr_projects = [''p'']\<rparr> \<in> set (approver_roles sample_authority) \<and>
   assert_may_decide_approval sample_authority \<lparr>pr_user = ''alice'', pr_tenant = ''t'', pr_role = ''owner'', pr_projects = [''p'']\<rparr>
     sample_run ''approve'' (Some sample_approval) \<noteq> Inr ()"
proof
  let ?bob = "\<lparr>pr_user = ''bob'', pr_tenant = ''t'', pr_role = '' Admin '', pr_projects = [''p'']\<rparr>"
  let ?alice = "\<lparr>pr_user = ''alice'', pr_tenant = ''t'', pr_role = ''owner'', pr_projects = [''p'']\<rparr>"
  have "assert_may_decide_approval sample_authority ?bob sample_run ''approve'' (Some sample_approval) = Inr ()"
    by code_simp
  then show "principal_role ?bob \<in> set (approver_roles sample_authority)"
    using approval_authority [of sample_authority ?bob] by blast
  have "run_initiator sample_run = Some ''alice''" by code_simp
  moreover have "ap_policy sample_approval \<noteq> solo_policy" by (simp add: sample_approval_def solo_policy_def)
  moreover have "map_of (rn_policies sample_run) (ap_subject_type sample_approval) = Some \<lparr>rp_roles = [''owner'', ''admin''], rp_no_self = True\<rparr>"
    by (simp add: sample_run_def sample_approval_def)
  ultimately show "assert_may_decide_approval sample_authority ?alice sample_run ''approve'' (Some sample_approval) \<noteq> Inr ()"
    unfolding approval_authority by simp
qed

end
