(* ===== verification/Catalog.thy ===== *)
theory Catalog
  imports Risk Action_Store
begin

section \<open>The action catalogue\<close>

text \<open>
  Models \<^verbatim>\<open>agency/actions/catalog.py\<close>: descriptors, the hash that pins one, lookups, the reserved
  candidate namespaces and the integration entries. The schemas of a descriptor are pydantic's;
  they are JSON documents the caller supplies.
\<close>

record risk_profile =
  rp_operation :: operation_kind
  rp_external :: bool
  rp_audience :: audience
  rp_reversibility :: reversibility
  rp_data_class :: data_class
  rp_notifies :: bool
  rp_scopes :: "string list"

definition profile :: "operation_kind \<Rightarrow> risk_profile" where
  "profile op = \<lparr>rp_operation = op, rp_external = False, rp_audience = Aud_NONE, rp_reversibility = Rev_REVERSIBLE,
     rp_data_class = Data_INTERNAL, rp_notifies = False, rp_scopes = []\<rparr>"

record compensation =
  co_supported :: bool
  co_operation :: "string option"

definition no_compensation :: compensation where
  "no_compensation = \<lparr>co_supported = False, co_operation = None\<rparr>"

record descriptor =
  ds_id :: string
  ds_version :: string
  ds_title :: string
  ds_domain :: string
  ds_provider :: string
  ds_risk :: risk_profile
  ds_scopes :: "string list"
  ds_input_schema :: json
  ds_output_schema :: json
  ds_approval_policy :: string
  ds_preconditions :: "string list"
  ds_postconditions :: "string list"
  ds_timeout :: int
  ds_retry :: retry_class
  ds_max_attempts :: int
  ds_idempotency :: string
  ds_budget :: string
  ds_verification :: string
  ds_compensation :: compensation
  ds_status :: impl_status
  ds_live_status :: impl_status
  ds_environments :: "environment list"
  ds_owner :: string
  ds_source_ref :: string
  ds_status_reasons :: "string list"
  ds_tests :: "string list"
  ds_candidates :: "string list"

definition profile_json :: "risk_profile \<Rightarrow> json" where
  "profile_json p = JDict [(''operation'', JStr (operation_kind_value (rp_operation p))), (''external'', JBool (rp_external p)),
     (''audience'', JStr (audience_value (rp_audience p))), (''reversibility'', JStr (reversibility_value (rp_reversibility p))),
     (''data_class'', JStr (data_class_value (rp_data_class p))), (''notifies'', JBool (rp_notifies p)),
     (''scopes'', str_list (rp_scopes p))]"

definition descriptor_json :: "descriptor \<Rightarrow> json" where
  "descriptor_json d = JDict [(''id'', JStr (ds_id d)), (''version'', JStr (ds_version d)), (''title'', JStr (ds_title d)),
     (''domain'', JStr (ds_domain d)), (''provider'', JStr (ds_provider d)), (''risk'', profile_json (ds_risk d)),
     (''scopes'', str_list (ds_scopes d)), (''input_schema'', ds_input_schema d), (''output_schema'', ds_output_schema d),
     (''approval_policy'', JStr (ds_approval_policy d)), (''preconditions'', str_list (ds_preconditions d)),
     (''postconditions'', str_list (ds_postconditions d)), (''timeout_seconds'', JInt (ds_timeout d)),
     (''retry'', JDict [(''retry_class'', JStr (retry_class_value (ds_retry d))), (''max_attempts'', JInt (ds_max_attempts d))]),
     (''idempotency'', JStr (ds_idempotency d)), (''budget'', JStr (ds_budget d)), (''verification'', JStr (ds_verification d)),
     (''compensation'', JDict [(''supported'', JBool (co_supported (ds_compensation d))),
        (''operation'', opt_str (co_operation (ds_compensation d)))]),
     (''status'', JStr (impl_status_value (ds_status d))), (''live_status'', JStr (impl_status_value (ds_live_status d))),
     (''environments'', str_list (map environment_value (ds_environments d))), (''dispatch_owner'', JStr (ds_owner d)),
     (''source_ref'', JStr (ds_source_ref d)), (''status_reasons'', str_list (ds_status_reasons d)),
     (''tests'', str_list (ds_tests d)), (''candidate_ids'', str_list (ds_candidates d))]"

definition descriptor_ref :: "descriptor \<Rightarrow> string" where
  "descriptor_ref d = ds_id d @ ''@'' @ ds_version d"

definition descriptor_hash :: "(bytes \<Rightarrow> string) \<Rightarrow> descriptor \<Rightarrow> string" where
  "descriptor_hash H d = chash H (descriptor_json d)"

definition profile_facts :: "risk_profile \<Rightarrow> environment \<Rightarrow> risk_facts" where
  "profile_facts p env = \<lparr>rf_operation = rp_operation p, rf_environment = env, rf_data_class = rp_data_class p, rf_cost_minor = 0,
     rf_currency = None, rf_reversibility = rp_reversibility p, rf_audience = rp_audience p, rf_external = rp_external p,
     rf_notifies = rp_notifies p, rf_blast_radius = 1, rf_scopes = rp_scopes p, rf_dependents = 0, rf_requested_class = None\<rparr>"

definition nominal_risk :: "(bytes \<Rightarrow> string) \<Rightarrow> descriptor \<Rightarrow> environment \<Rightarrow> risk_assessment" where
  "nominal_risk H d env = assess H (profile_facts (ds_risk d) env)"

definition approval_policy_for :: "(bytes \<Rightarrow> string) \<Rightarrow> risk_profile \<Rightarrow> string" where
  "approval_policy_for H p =
    (let risk = assess H (profile_facts p Env_SANDBOX);
         parts = (if ra_requires_approval risk then [''exact-binding human approval''] else []) @
                 (if ra_requires_financial_approval risk then [''separate financial approval''] else []) @
                 (if ra_requires_step_up risk then [''step-up authentication + independent approver''] else []) @
                 (if ra_requires_privileged_review risk then [''independent privileged review, no self-approval''] else [])
     in if parts = [] then ''none beyond tenant scope and autonomy ('' @ risk_class_value (ra_effective risk) @ '')''
        else join ''; '' parts)"

subsection \<open>Lookups\<close>

type_synonym action_catalog = "(string \<times> descriptor) list"

fun catalog_of :: "action_catalog \<Rightarrow> descriptor list \<Rightarrow> amc_error + action_catalog" where
  "catalog_of seen [] = Inr seen"
| "catalog_of seen (d # ds) = (if map_of seen (ds_id d) \<noteq> None then Inl (ValueErr (''duplicate action id '' @ ds_id d))
     else catalog_of (seen @ [(ds_id d, d)]) ds)"

definition is_digit :: "char \<Rightarrow> bool" where
  "is_digit c = (let n = of_char c :: nat in 48 \<le> n \<and> n \<le> 57)"

text \<open>\<open>^(EXT|ART)-(\d{3})$\<close>, which also accepts a final newline.\<close>

definition reserved_match :: "string \<Rightarrow> (string \<times> int) option" where
  "reserved_match s =
    (let t = (if s \<noteq> [] \<and> last s = CHR 0x0A then butlast s else s); ds = drop 4 t in
     if take 4 t \<in> {''EXT-'', ''ART-''} \<and> length ds = 3 \<and> list_all is_digit ds
     then Some (take 3 t, foldl (\<lambda>n c. 10 * n + (int (of_char c) - 48)) 0 ds) else None)"

definition reserved_namespaces :: "(string \<times> int \<times> int) list" where
  "reserved_namespaces = [(''EXT'', 1, 90), (''ART'', 1, 12)]"

definition catalog_get :: "action_catalog \<Rightarrow> string \<Rightarrow> amc_error + descriptor" where
  "catalog_get cat aid =
    (if reserved_match aid \<noteq> None
     then Inl (UnknownAction (''NOT_IMPLEMENTED: '' @ aid @ '' is a reserved candidate id with no source definition''))
     else let name = takeWhile (\<lambda>c. c \<noteq> CHR ''@'') aid; version = drop (length name + 1) aid in
     case map_of cat name of
       None \<Rightarrow> Inl (UnknownAction (''NOT_IMPLEMENTED: no action '' @ repr_str aid @ '' in the catalogue''))
     | Some d \<Rightarrow>
         if CHR ''@'' \<in> set aid \<and> version \<noteq> ds_version d
         then Inl (UnknownAction (''NOT_IMPLEMENTED: '' @ aid @ '' (catalogue has '' @ descriptor_ref d @ '')''))
         else Inr d)"

definition pad3 :: "int \<Rightarrow> string" where
  "pad3 n = (let ds = str_int n in replicate (3 - length ds) (CHR ''0'') @ ds)"

record reserved_lookup =
  rl_candidate :: string
  rl_status :: impl_status
  rl_namespace_status :: impl_status

definition catalog_reserved :: "string \<Rightarrow> amc_error + reserved_lookup" where
  "catalog_reserved cid =
    (case reserved_match cid of
       None \<Rightarrow> Inl (UnknownAction (repr_str cid @ '' is not in a reserved namespace''))
     | Some (prefix, n) \<Rightarrow>
         (case map_of reserved_namespaces prefix of
            None \<Rightarrow> Inl (UnknownAction [])
          | Some (lo, hi) \<Rightarrow>
              if \<not> (lo \<le> n \<and> n \<le> hi)
              then Inl (UnknownAction (cid @ '' is outside '' @ prefix @ ''-'' @ pad3 lo @ ''..'' @ pad3 hi))
              else Inr \<lparr>rl_candidate = cid, rl_status = Impl_NOT_IMPLEMENTED, rl_namespace_status = Impl_VOID_DETECTED\<rparr>))"

definition catalog_all :: "action_catalog \<Rightarrow> descriptor list" where
  "catalog_all cat = map (\<lambda>k. the (map_of cat k)) (sort (map fst cat))"

definition catalog_version :: string where
  "catalog_version = ''amc-action-catalog/v1''"

definition catalog_hash :: "(bytes \<Rightarrow> string) \<Rightarrow> action_catalog \<Rightarrow> string" where
  "catalog_hash H cat = chash H (str_list (map (descriptor_hash H) (catalog_all cat)))"

definition snapshot_entry :: "(bytes \<Rightarrow> string) \<Rightarrow> descriptor \<Rightarrow> json" where
  "snapshot_entry H d =
    (let risk = nominal_risk H d Env_SANDBOX in
     case descriptor_json d of JDict kvs \<Rightarrow> JDict (kvs @
       [(''ref'', JStr (descriptor_ref d)), (''descriptor_hash'', JStr (descriptor_hash H d)),
        (''nominal_risk'', JDict [(''classes'', str_list (map risk_class_value (ra_classes risk))),
           (''effective'', JStr (risk_class_value (ra_effective risk))),
           (''controls'', str_list (map control_value (ra_controls risk)))])]) | j \<Rightarrow> j)"

definition catalog_snapshot :: "(bytes \<Rightarrow> string) \<Rightarrow> action_catalog \<Rightarrow> json" where
  "catalog_snapshot H cat = JDict [(''catalog_version'', JStr catalog_version),
     (''entries'', JList (map (snapshot_entry H) (catalog_all cat))),
     (''reserved_namespaces'', JList (map (\<lambda>(p, lo, hi). JDict [
        (''namespace'', JStr (p @ ''-'' @ pad3 lo @ ''..'' @ p @ ''-'' @ pad3 hi)),
        (''status'', JStr (impl_status_value Impl_VOID_DETECTED)), (''reason'', JStr ''no source definitions in the repository'')])
        reserved_namespaces)),
     (''catalog_hash'', JStr (catalog_hash H cat))]"

subsection \<open>Integration entries\<close>

definition integration :: "(bytes \<Rightarrow> string) \<Rightarrow> string \<Rightarrow> string \<Rightarrow> string \<Rightarrow> string \<Rightarrow> risk_profile \<Rightarrow> string \<Rightarrow> impl_status
    \<Rightarrow> impl_status \<Rightarrow> environment \<Rightarrow> string \<Rightarrow> string \<Rightarrow> string \<Rightarrow> string list \<Rightarrow> descriptor" where
  "integration H i title domain provider p verification status live env owner source budget reasons =
    \<lparr>ds_id = i, ds_version = ''v1'', ds_title = title, ds_domain = domain, ds_provider = provider, ds_risk = p, ds_scopes = [],
     ds_input_schema = JDict [(''owned_by'', JStr ''api/routes/operations.py'')],
     ds_output_schema = JDict [(''owned_by'', JStr ''operations tables'')], ds_approval_policy = approval_policy_for H p,
     ds_preconditions = [], ds_postconditions = [], ds_timeout = 30, ds_retry = Retry_NON_RETRYABLE, ds_max_attempts = 3,
     ds_idempotency = ''Idempotency-Key on the owning route'', ds_budget = budget, ds_verification = verification,
     ds_compensation = no_compensation, ds_status = status, ds_live_status = live, ds_environments = [env], ds_owner = owner,
     ds_source_ref = source, ds_status_reasons = reasons, ds_tests = [], ds_candidates = []\<rparr>"

definition publish_profile :: risk_profile where
  "publish_profile = (profile Op_PUBLISH)\<lparr>rp_external := True, rp_audience := Aud_PUBLIC, rp_reversibility := Rev_COMPENSATABLE\<rparr>"

definition spend_profile :: risk_profile where
  "spend_profile = (profile Op_SPEND)\<lparr>rp_external := True, rp_reversibility := Rev_COMPENSATABLE\<rparr>"

definition integration_entries :: "(bytes \<Rightarrow> string) \<Rightarrow> descriptor list" where
  "integration_entries H =
    [integration H ''publication.dry_run'' ''Record a publication dry run (no network call)'' ''distribution''
       ''integrations.publication'' (profile Op_CREATE_LOCAL) ''publication_jobs row read back'' Impl_IMPLEMENTED Impl_LIVE_GATED
       Env_LOCAL ''api.operations'' ''services/langgraph/integrations/publication.py'' ''NONE'' [],
     integration H ''publication.publish'' ''Publish content to a live channel'' ''distribution'' ''integrations.publication''
       publish_profile ''none: no live adapter exists'' Impl_LIVE_GATED Impl_NOT_IMPLEMENTED Env_LIVE ''none (no live adapter)''
       ''services/langgraph/integrations/publication.py'' ''NONE''
       [''AMC_PUBLICATION_MODE beyond dry_run raises; no reviewed adapter is installed''],
     integration H ''project_os.scheduled_publish'' ''Scheduled publication through the outbox'' ''distribution'' ''project_os.scheduler''
       publish_profile ''outbox delivery receipt; dry-run provider only'' Impl_LIVE_GATED Impl_NOT_IMPLEMENTED Env_LOCAL
       ''project_os.scheduler'' ''services/langgraph/persistence/project_ops.py'' ''NONE'' [''live publication registry ships empty''],
     integration H ''paid_media.request_authorization'' ''Record a spend-authorization request (no spend)'' ''marketing''
       ''integrations.paid_media'' (profile Op_CREATE_LOCAL) ''spend_authorizations row read back'' Impl_IMPLEMENTED Impl_LIVE_GATED
       Env_LOCAL ''api.operations'' ''services/langgraph/integrations/paid_media.py'' ''NONE'' [],
     integration H ''paid_media.execute_spend'' ''Commit paid-media spend'' ''marketing'' ''integrations.paid_media'' spend_profile
       ''none: spend_execution_available() is always False'' Impl_LIVE_GATED Impl_NOT_IMPLEMENTED Env_LIVE ''none (no live adapter)''
       ''services/langgraph/integrations/paid_media.py'' ''BUDGET_RESERVATION'' [''spend_execution_available() returns False unconditionally'']]"

subsection \<open>What a lookup finds\<close>

lemma catalog_of_extends:
  "catalog_of seen ds = Inr cat \<Longrightarrow> (\<forall>k d. map_of seen k = Some d \<longrightarrow> map_of cat k = Some d) \<and> (\<forall>d\<in>set ds. map_of cat (ds_id d) = Some d)"
proof (induction ds arbitrary: seen)
  case (Cons d ds)
  then have new: "map_of seen (ds_id d) = None" and rec: "catalog_of (seen @ [(ds_id d, d)]) ds = Inr cat"
    by (auto split: if_splits)
  have "map_of (seen @ [(ds_id d, d)]) k = Some e" if "map_of seen k = Some e" for k e
    using that by (simp add: map_of_append map_add_Some_iff)
  moreover have "map_of (seen @ [(ds_id d, d)]) (ds_id d) = Some d" using new by (simp add: map_add_def)
  ultimately show ?case using Cons.IH [OF rec] by auto
qed simp

lemma catalog_of_source:
  "catalog_of seen ds = Inr cat \<Longrightarrow> map_of cat k = Some d \<Longrightarrow> map_of seen k = Some d \<or> d \<in> set ds \<and> k = ds_id d"
proof (induction ds arbitrary: seen)
  case (Cons e ds)
  then have rec: "catalog_of (seen @ [(ds_id e, e)]) ds = Inr cat" by (auto split: if_splits)
  from Cons.IH [OF rec Cons.prems(2)] show ?case by (auto simp: map_add_def split: option.splits if_splits)
qed simp

text \<open>
  The catalogue finds exactly its entries: in a catalogue built without a duplicate, every
  entry with a proper id is found by its id and by its versioned reference, whatever is found is
  one of the entries under its own id and version, and an identifier of a reserved namespace is
  never found.
\<close>

theorem catalog_lookup:
  assumes "catalog_of [] ds = Inr cat"
  shows "(\<forall>d\<in>set ds. CHR ''@'' \<notin> set (ds_id d) \<and> reserved_match (ds_id d) = None \<and> reserved_match (descriptor_ref d) = None \<longrightarrow>
      catalog_get cat (ds_id d) = Inr d \<and> catalog_get cat (descriptor_ref d) = Inr d) \<and>
    (\<forall>k d. catalog_get cat k = Inr d \<longrightarrow> d \<in> set ds \<and> reserved_match k = None \<and> (k = ds_id d \<or> k = descriptor_ref d))"
proof (intro conjI ballI impI allI)
  fix d
  assume d: "d \<in> set ds" "CHR ''@'' \<notin> set (ds_id d) \<and> reserved_match (ds_id d) = None \<and> reserved_match (descriptor_ref d) = None"
  then have m: "map_of cat (ds_id d) = Some d" using catalog_of_extends [OF assms] by simp
  have t: "takeWhile (\<lambda>c. c \<noteq> CHR ''@'') (ds_id d) = ds_id d" using d(2) by (auto simp: takeWhile_eq_all_conv)
  have u: "takeWhile (\<lambda>c. c \<noteq> CHR ''@'') (descriptor_ref d) = ds_id d"
    using d(2) by (auto simp: descriptor_ref_def takeWhile_append2 takeWhile_tail)
  show "catalog_get cat (ds_id d) = Inr d" unfolding catalog_get_def Let_def t using d(2) m by simp
  have "drop (length (ds_id d) + 1) (descriptor_ref d) = ds_version d" by (simp add: descriptor_ref_def)
  then show "catalog_get cat (descriptor_ref d) = Inr d" unfolding catalog_get_def Let_def u using d(2) m by simp
next
  fix k d
  assume g: "catalog_get cat k = Inr d"
  let ?n = "takeWhile (\<lambda>c. c \<noteq> CHR ''@'') k"
  have m: "map_of cat ?n = Some d" "reserved_match k = None" "CHR ''@'' \<in> set k \<longrightarrow> drop (length ?n + 1) k = ds_version d"
    using g unfolding catalog_get_def Let_def by (cases "reserved_match k"; simp split: if_splits option.splits)+
  then have src: "d \<in> set ds \<and> ?n = ds_id d" using catalog_of_source [OF assms m(1)] by simp
  then show "d \<in> set ds" by simp
  show "reserved_match k = None" by (rule m(2))
  show "k = ds_id d \<or> k = descriptor_ref d"
  proof (cases "CHR ''@'' \<in> set k")
    case True
    then obtain xs ys where k: "k = xs @ CHR ''@'' # ys" "CHR ''@'' \<notin> set xs" by (meson split_list_first)
    then have "?n = xs" by (auto simp: takeWhile_append2 takeWhile_tail)
    then show ?thesis using src m(3) True k by (simp add: descriptor_ref_def)
  next
    case False
    then have "?n = k" by (auto simp: takeWhile_eq_all_conv)
    then show ?thesis using src by simp
  qed
qed

theorem catalog_lookup_witness:
  "\<exists>cat d. catalog_of [] (integration_entries id) = Inr cat \<and> catalog_get cat ''publication.dry_run@v1'' = Inr d \<and> ds_title d \<noteq> []"
proof -
  have "\<exists>cat. catalog_of [] (integration_entries id) = Inr cat"
    by (simp add: integration_entries_def integration_def)
  then obtain cat where cat: "catalog_of [] (integration_entries id) = Inr cat" by blast
  let ?d = "hd (integration_entries id)"
  have d: "?d \<in> set (integration_entries id)" "ds_id ?d = ''publication.dry_run''" "ds_version ?d = ''v1''" "ds_title ?d \<noteq> []"
    by (simp_all add: integration_entries_def integration_def)
  have "reserved_match ''publication.dry_run'' = None" "reserved_match ''publication.dry_run@v1'' = None" by code_simp+
  moreover have "descriptor_ref ?d = ''publication.dry_run@v1''" using d by (simp add: descriptor_ref_def)
  ultimately have "catalog_get cat ''publication.dry_run@v1'' = Inr ?d"
    using catalog_lookup [OF cat, THEN conjunct1, rule_format, OF d(1)] d(2) by simp
  with cat d show ?thesis by blast
qed

end
