(* ===== verification/Safety.thy ===== *)
theory Safety
  imports Regex Canonical
begin

section \<open>Input safety\<close>

text \<open>
  Models \<^verbatim>\<open>agency/actions/safety.py\<close> and the injection screen of
  \<^verbatim>\<open>agency/compiled/role_sources.py\<close>. URL parsing, IP-address parsing, percent and base64
  decoding are the Python library's; they are the fields of \<open>text_lib\<close>. Every check the code
  makes on their results is here.
\<close>

record url_parts =
  up_scheme :: string
  up_username :: "string option"
  up_password :: "string option"
  up_netloc :: string
  up_port :: "string + int option"
  up_hostname :: "string option"
  up_tail :: string

record text_lib =
  tl_urlsplit :: "string \<Rightarrow> string + url_parts"
  tl_geturl :: "url_parts \<Rightarrow> string \<Rightarrow> string"
  tl_is_ip :: "string \<Rightarrow> bool"
  tl_unquote :: "string \<Rightarrow> string"
  tl_b64decode :: "string \<Rightarrow> string option"

text \<open>\<open>UnsafeInput\<close> with its code and detail, and the \<open>ValueError\<close> that \<open>urlsplit\<close> itself may raise.\<close>

datatype unsafe = UnsafeInput string string | Bad_value string

definition truthy :: "string option \<Rightarrow> bool" where
  "truthy x = (case x of None \<Rightarrow> False | Some s \<Rightarrow> s \<noteq> [])"

definition some_or_empty :: "string option \<Rightarrow> string" where
  "some_or_empty x = (case x of None \<Rightarrow> [] | Some s \<Rightarrow> s)"

definition is_control :: "char \<Rightarrow> bool" where
  "is_control c = (let n = of_char c :: nat in n \<le> 31 \<or> n = 127)"

definition lower_letter :: "char \<Rightarrow> bool" where "lower_letter = chr_range (CHR ''a'') (CHR ''z'')"
definition upper_letter :: "char \<Rightarrow> bool" where "upper_letter = chr_range (CHR ''A'') (CHR ''Z'')"
definition digit :: "char \<Rightarrow> bool" where "digit = chr_range (CHR ''0'') (CHR ''9'')"

definition alnum_lower :: "char \<Rightarrow> bool" where "alnum_lower c = (lower_letter c \<or> digit c)"

definition host_rx :: rx where
  "host_rx = Seq
    (plus_rx (seqs [Cls alnum_lower,
       opt_rx (Seq (repeat 0 61 (Cls (\<lambda>c. alnum_lower c \<or> c = CHR ''-''))) (Cls alnum_lower)), lit ''.'']))
    (repeat 2 63 (Cls lower_letter))"

definition blocked_host_suffixes :: "string list" where
  "blocked_host_suffixes = [''.local'', ''.localhost'', ''.internal'', ''.intranet'', ''.lan'', ''.home.arpa'', ''.corp'']"

definition blocked_hosts :: "string list" where
  "blocked_hosts = [''localhost'', ''metadata.google.internal'', ''metadata'', ''instance-data'']"

definition hex_host_rx :: rx where
  "hex_host_rx = Seq (lit ''0x'') (plus_rx (Cls (\<lambda>c. digit c \<or> chr_range (CHR ''a'') (CHR ''f'') c)))"

text \<open>\<open>str.isdigit\<close> of a Latin-1 string.\<close>

definition is_digits :: "string \<Rightarrow> bool" where
  "is_digits s = (s \<noteq> [] \<and> list_all (\<lambda>c. digit c \<or> (of_char c :: nat) \<in> {178, 179, 185}) s)"

definition strip_chars :: "string \<Rightarrow> string \<Rightarrow> string" where
  "strip_chars cs s = rev (dropWhile (\<lambda>c. c \<in> set cs) (rev (dropWhile (\<lambda>c. c \<in> set cs) s)))"

definition check_public_url :: "'x text_lib_scheme \<Rightarrow> string \<Rightarrow> unsafe + string" where
  "check_public_url T url =
    (if length url > 2048 \<or> list_ex is_control url then Inl (UnsafeInput ''SSRF_MALFORMED_URL'' [])
     else case tl_urlsplit T (strip url) of Inl e \<Rightarrow> Inl (Bad_value e) | Inr parts \<Rightarrow>
     if up_scheme parts \<noteq> ''https'' then Inl (UnsafeInput ''SSRF_SCHEME'' ''only https is allowed'')
     else if truthy (up_username parts) \<or> truthy (up_password parts) \<or> CHR ''@'' \<in> set (up_netloc parts)
     then Inl (UnsafeInput ''SSRF_CREDENTIALS_IN_URL'' [])
     else case up_port parts of Inl e \<Rightarrow> Inl (UnsafeInput ''SSRF_MALFORMED_URL'' e) | Inr port \<Rightarrow>
     if port \<notin> {None, Some 443} then Inl (UnsafeInput ''SSRF_PORT'' ''only the default https port is allowed'')
     else let host = lower (rstrip_char (CHR ''.'') (some_or_empty (up_hostname parts))) in
     if host = [] then Inl (UnsafeInput ''SSRF_NO_HOST'' [])
     else if tl_is_ip T (strip_chars ''[]'' host)
     then Inl (UnsafeInput ''SSRF_IP_LITERAL'' ''address literals are refused; name a public host'')
     else if is_digits host \<or> re_fullmatch hex_host_rx host
     then Inl (UnsafeInput ''SSRF_IP_LITERAL'' ''numeric host encodings are refused'')
     else if host \<in> set blocked_hosts \<or> list_ex (\<lambda>suf. ends_with suf host) blocked_host_suffixes
     then Inl (UnsafeInput ''SSRF_INTERNAL_HOST'' host)
     else if \<not> (length host \<le> 253 \<and> re_fullmatch host_rx host) then Inl (UnsafeInput ''SSRF_HOST_NOT_PUBLIC_DNS'' host)
     else Inr (tl_geturl T parts host))"

subsection \<open>Paths\<close>

definition unreserved :: "char \<Rightarrow> bool" where
  "unreserved c = (lower_letter c \<or> upper_letter c \<or> digit c \<or> c \<in> set ''._~-'')"

definition safe_relative_path :: "string \<Rightarrow> unsafe + string" where
  "safe_relative_path path =
    (if path = [] \<or> length path > 512 \<or> list_ex is_control path \<or> CHR 0x5C \<in> set path then Inl (UnsafeInput ''UNSAFE_PATH'' [])
     else if \<not> starts_with ''/'' path then Inl (UnsafeInput ''UNSAFE_PATH'' ''must start with /'')
     else let segments = filter (\<lambda>s. s \<noteq> []) (split_on (CHR ''/'') path) in
     if list_ex (\<lambda>s. s = ''.'' \<or> s = ''..'') segments then Inl (UnsafeInput ''PATH_TRAVERSAL'' [])
     else if \<not> list_all (\<lambda>s. re_fullmatch (plus_rx (Cls unreserved)) s) segments
     then Inl (UnsafeInput ''UNSAFE_PATH'' ''segments may only use unreserved characters'')
     else Inr (''/'' @ join ''/'' segments))"

subsection \<open>Secrets and injection markers\<close>

fun json_strings :: "json \<Rightarrow> string list" where
  "json_strings (JStr s) = [s]"
| "json_strings (JDict kvs) = concat (map (\<lambda>(k, v). k # json_strings v) kvs)"
| "json_strings (JList xs) = concat (map json_strings xs)"
| "json_strings _ = []"

definition b64_char :: "char \<Rightarrow> bool" where
  "b64_char c = (lower_letter c \<or> upper_letter c \<or> digit c \<or> c = CHR ''+'' \<or> c = CHR ''/'')"

definition base64_fragment :: rx where
  "base64_fragment = seqs [Not_after b64_char, repeat 24 4096 (Cls b64_char), repeat 0 2 (lit ''=''),
     Not_before (\<lambda>c. b64_char c \<or> c = CHR ''='')]"

definition secret_char :: "char \<Rightarrow> bool" where
  "secret_char c = (let d = lower_char c in lower_letter d \<or> digit d \<or> d = CHR ''_'' \<or> d = CHR ''-'')"

definition secret_rx :: rx where
  "secret_rx = alts [
     seqs [Word_boundary, alts [lit_i ''sk'', lit_i ''pk'', lit_i ''rk''], lit ''-'', at_least 16 (Cls secret_char), Word_boundary],
     seqs [lit ''-----'', lit_i ''begin '', Star (Cls (\<lambda>c. let d = lower_char c in lower_letter d \<or> d = CHR '' '')),
           lit_i ''private key'', lit ''-----''],
     seqs [Word_boundary, lit_i ''ghp_'', at_least 30 (Cls (\<lambda>c. let d = lower_char c in lower_letter d \<or> digit d)), Word_boundary],
     seqs [Word_boundary, alts [lit_i ''api'', lit_i ''secret'', lit_i ''token'', lit_i ''password''],
           opt_rx (Cls (\<lambda>c. c = CHR ''_'' \<or> c = CHR ''-'')), opt_rx (lit_i ''key''), Star (Cls is_space),
           Cls (\<lambda>c. c = CHR '':'' \<or> c = CHR ''=''), Star (Cls is_space), at_least 8 (Cls (\<lambda>c. \<not> is_space c))],
     seqs [Word_boundary, lit_i ''bearer'', plus_rx (Cls is_space),
           at_least 16 (Cls (\<lambda>c. let d = lower_char c in lower_letter d \<or> digit d \<or> d \<in> set ''._~+/-'')), Star (lit ''='')]]"

definition decoded :: "'x text_lib_scheme \<Rightarrow> string \<Rightarrow> string list" where
  "decoded T txt = [txt] @
    (if CHR ''%'' \<notin> set txt \<or> tl_unquote T txt = txt then []
     else let one = tl_unquote T txt in [one] @
       (if CHR ''%'' \<notin> set one \<or> tl_unquote T one = one then [] else [tl_unquote T one])) @
    concat (map (\<lambda>f. case tl_b64decode T f of None \<Rightarrow> [] | Some s \<Rightarrow> [s]) (re_findall base64_fragment txt))"

definition assert_no_secrets :: "'x text_lib_scheme \<Rightarrow> json \<Rightarrow> unsafe + unit" where
  "assert_no_secrets T v =
    (if list_ex (\<lambda>txt. list_ex (re_search secret_rx) (decoded T txt)) (json_strings v)
     then Inl (UnsafeInput ''SECRET_IN_PAYLOAD'' ''secrets must be referenced from protected storage, never sent in a payload'')
     else Inr ())"

definition spaces :: rx where "spaces = plus_rx (Cls is_space)"

definition one_of :: "string list \<Rightarrow> rx" where "one_of ws = alts (map lit_i ws)"

text \<open>One of the words and then white space, or nothing.\<close>

definition maybe_word :: "string list \<Rightarrow> rx" where "maybe_word ws = opt_rx (Seq (one_of ws) spaces)"

definition injection_patterns :: "(string \<times> rx) list" where
  "injection_patterns =
    [(''ignore_prior_instructions'', seqs [Word_boundary, lit_i ''ignore'', spaces, maybe_word [''all'', ''any''],
        one_of [''previous'', ''prior'', ''above''], spaces, one_of [''instructions'', ''rules'', ''guidance''], Word_boundary]),
     (''disregard_controls'', seqs [Word_boundary, lit_i ''disregard'', spaces, maybe_word [''all'', ''the'', ''your''],
        one_of [''previous'', ''prior'', ''system'', ''safety'', ''security''], Word_boundary]),
     (''identity_override'', seqs [Word_boundary, lit_i ''you'', spaces, lit_i ''are'', spaces, lit_i ''now'', spaces,
        one_of [''a'', ''an'', ''the'', ''in''], Word_boundary]),
     (''override_controls'', seqs [Word_boundary, lit_i ''override'', spaces, maybe_word [''the''],
        one_of [''system'', ''safety'', ''security'', ''governance''], spaces,
        alts [lit_i ''prompt'', lit_i ''policy'', lit_i ''policies'', Seq (lit_i ''control'') (opt_rx (lit_i ''s''))], Word_boundary]),
     (''bypass_gate'', seqs [Word_boundary, lit_i ''bypass'', spaces, maybe_word [''the'', ''any'', ''all''],
        one_of [''approval'', ''authentication'', ''auth'', ''guard'', ''gate'', ''review''], opt_rx (lit_i ''s''), Word_boundary]),
     (''secret_exfiltration'', seqs [Word_boundary, one_of [''output'', ''reveal'', ''print'', ''send'', ''post'', ''upload''], spaces,
        maybe_word [''the'', ''your''], one_of [''secret'', ''api''], opt_rx (Cls (\<lambda>c. is_space c \<or> c = CHR ''_'' \<or> c = CHR ''-'')),
        lit_i ''key'', opt_rx (lit_i ''s''), Word_boundary]),
     (''script_injection'', seqs [lit ''<'', Star (Cls is_space), one_of [''script'', ''img''], Star (Cls (\<lambda>c. c \<noteq> CHR ''>'')),
        one_of [''onerror'', ''javascript:'']])]"

definition scan_for_injection :: "string \<Rightarrow> string list" where
  "scan_for_injection txt = sort (remdups (map fst (filter (\<lambda>(code, r). re_search r txt) injection_patterns)))"

definition injection_flags :: "json \<Rightarrow> string list" where
  "injection_flags v = sort (remdups (concat (map scan_for_injection (json_strings v))))"

subsection \<open>What a safe input is\<close>

lemma safe_path_form:
  assumes "safe_relative_path path = Inr q"
  shows "\<exists>segs. q = ''/'' @ join ''/'' segs \<and> (\<forall>s\<in>set segs. s \<noteq> [] \<and> s \<noteq> ''.'' \<and> s \<noteq> ''..'' \<and> (\<forall>c\<in>set s. unreserved c)) \<and>
    length q \<le> length path \<and> safe_relative_path q = Inr q"
proof -
  define parts where "parts = split_on (CHR ''/'') path"
  define segs where "segs = filter (\<lambda>s. s \<noteq> []) parts"
  have p: "path \<noteq> []" "length path \<le> 512" "starts_with ''/'' path" "q = ''/'' @ join ''/'' segs"
    and dots: "\<forall>s\<in>set segs. s \<noteq> ''.'' \<and> s \<noteq> ''..''"
    and full: "\<forall>s\<in>set segs. re_fullmatch (plus_rx (Cls unreserved)) s"
    using assms by (auto simp: safe_relative_path_def segs_def parts_def Let_def list_ex_iff list_all_iff split: if_splits)
  have chars: "unreserved c" if "s \<in> set segs" "c \<in> set s" for s c
    using fullmatch_classes [of "plus_rx (Cls unreserved)" s unreserved c] full that by simp
  have slash: "CHR ''/'' \<notin> set s" if "s \<in> set segs" for s
    using that split_on_clean by (auto simp: segs_def parts_def)
  obtain rest where rest: "path = CHR ''/'' # rest" using p(1,3) by (cases path) (auto simp: starts_with_def)
  have "sum_list (map length (filter (\<lambda>s. s \<noteq> []) xs)) + length (filter (\<lambda>s. s \<noteq> []) xs) \<le> sum_list (map length xs) + length xs"
    for xs :: "string list" by (induction xs) auto
  from this [of "split_on (CHR ''/'') rest"] have "sum_list (map length segs) + length segs \<le> length rest + 1"
    by (simp add: segs_def parts_def rest split_on_length)
  then have len: "length q \<le> length path"
    using length_join [of segs "CHR ''/''"] rest p(4) by (cases "segs = []") auto
  have again: "filter (\<lambda>s. s \<noteq> []) (split_on (CHR ''/'') q) = segs"
  proof (cases "segs = []")
    case False
    then have "split_on (CHR ''/'') (join ''/'' segs) = segs" using slash by (intro split_on_join) auto
    then show ?thesis using p(4) by (simp add: segs_def)
  qed (simp add: p(4))
  have qchars: "c = CHR ''/'' \<or> unreserved c" if "c \<in> set q" for c
  proof -
    have "set (join ''/'' ss) \<subseteq> insert (CHR ''/'') (\<Union>(set ` set ss))" for ss
      by (induction "''/''" ss rule: join.induct) auto
    then show ?thesis using that p(4) chars by fastforce
  qed
  have "\<not> is_control c \<and> c \<noteq> CHR 0x5C" if "c \<in> set q" for c
    using qchars [OF that] by (auto simp: is_control_def unreserved_def lower_letter_def upper_letter_def digit_def chr_range_def Let_def)
  then have "safe_relative_path q = Inr q"
    using p(2,4) len dots full again
    by (auto simp: safe_relative_path_def Let_def list_ex_iff list_all_iff starts_with_def)
  then show ?thesis
    using p(4) len dots chars by (intro exI [of _ segs]) (auto simp: segs_def)
qed

lemma safe_path_fixed: "safe_relative_path p = Inr q \<Longrightarrow> safe_relative_path q = Inr q"
  using safe_path_form by blast

text \<open>
  A path that \<open>safe_relative_path\<close> accepts is in normal form: it is absolute, its segments
  are not empty and never \<open>.\<close> or \<open>..\<close>, all characters are unreserved, so no encoded,
  control or backslash character survives, it is no longer than the input, and accepting it again
  changes nothing.
\<close>

theorem safe_path_normal:
  assumes "safe_relative_path path = Inr q"
  shows "\<exists>segs. q = ''/'' @ join ''/'' segs \<and> (\<forall>s\<in>set segs. s \<noteq> [] \<and> s \<noteq> ''.'' \<and> s \<noteq> ''..'' \<and> (\<forall>c\<in>set s. unreserved c)) \<and>
    length q \<le> length path \<and> safe_relative_path q = Inr q"
  using assms by (rule safe_path_form)

theorem safe_path_normal_witness:
  "\<exists>segs. ''/a/b'' = ''/'' @ join ''/'' segs \<and> safe_relative_path ''/a//b/'' = Inr ''/a/b''"
proof -
  have r: "safe_relative_path ''/a//b/'' = Inr ''/a/b''" by code_simp
  from safe_path_normal [OF this] r show ?thesis by blast
qed

lemma plus_last: "matches s (plus_rx r) i j \<Longrightarrow> \<exists>k. matches s r k j"
proof -
  have star: "matches s q i j \<Longrightarrow> q = Star r \<Longrightarrow> i = j \<or> (\<exists>k. matches s r k j)" for q i
    by (induction rule: matches.induct) auto
  assume "matches s (plus_rx r) i j"
  then obtain k where "matches s r i k" "matches s (Star r) k j" unfolding plus_rx_def by (rule matches_seqE)
  then show ?thesis using star by blast
qed

lemma times_cls: "matches s (times n (Cls p)) i j \<Longrightarrow> j = i + n"
  by (induction n arbitrary: i) (fastforce elim: matches_seqE matches_clsE matches_epsE)+

text \<open>A host of \<open>host_rx\<close> has a dot before a final label of letters.\<close>

lemma host_shape:
  assumes "re_fullmatch host_rx h"
  shows "\<exists>labels tld. h = labels @ ''.'' @ tld \<and> 2 \<le> length tld \<and> (\<forall>c\<in>set tld. lower_letter c)"
proof -
  let ?X = "Cls alnum_lower" and ?Y = "opt_rx (Seq (repeat 0 61 (Cls (\<lambda>c. alnum_lower c \<or> c = CHR ''-''))) (Cls alnum_lower))"
  let ?B = "repeat 2 63 (Cls lower_letter)"
  obtain m where m: "matches h (plus_rx (seqs [?X, ?Y, lit ''.''])) 0 m" "matches h ?B m (length h)"
    using assms unfolding re_fullmatch_iff host_rx_def by (rule matches_seqE)
  then obtain k where "matches h (seqs [?X, ?Y, lit ''.'']) k m" using plus_last by blast
  then obtain l where "matches h (lit ''.'') l m" by (auto elim!: matches_seqE matches_epsE)
  then have dot: "m = l + 1" "l < length h" "h ! l = CHR ''.''"
    by (auto simp: lit_def elim!: matches_seqE matches_epsE matches_clsE)
  obtain n where "matches h (times 2 (Cls lower_letter)) m n" "matches h (up_to 61 (Cls lower_letter)) n (length h)"
    using m(2) unfolding repeat_def by (auto elim: matches_seqE)
  then have two: "m + 2 \<le> length h" using times_cls matches_mono by fastforce
  have cls: "classes_in lower_letter ?B" by (simp add: repeat_def)
  have tail: "lower_letter c" if c: "c \<in> set (drop m h)" for c
  proof -
    obtain i where "i < length (drop m h)" "c = drop m h ! i" using c by (metis in_set_conv_nth)
    then have "i < length h - m" "c = h ! (m + i)" using two by simp_all
    then show ?thesis using matches_classes [OF m(2) cls, of "m + i"] by simp
  qed
  have "h = take l h @ ''.'' @ drop m h"
    using dot id_take_nth_drop [of l h] by simp
  then show ?thesis using two tail by (metis length_drop le_diff_conv2 add.commute le_add1 le_trans)
qed

text \<open>
  Server-side request forgery: a URL that \<open>check_public_url\<close> accepts is rebuilt over a host that
  is a dotted DNS name of lower-case letters, digits and hyphens with a final label of letters
  only, so it is no IPv4 or IPv6 literal whatever the IP parser says, is on no blocked list and
  under no blocked suffix; its scheme is https, its port the default and it carries no credentials.
\<close>

theorem public_url_host:
  assumes "check_public_url T url = Inr out" and "tl_urlsplit T (strip url) = Inr parts"
  shows "\<exists>host. out = tl_geturl T parts host \<and> up_scheme parts = ''https'' \<and> up_port parts \<in> {Inr None, Inr (Some 443)} \<and>
    \<not> truthy (up_username parts) \<and> \<not> truthy (up_password parts) \<and>
    (\<forall>c\<in>set host. alnum_lower c \<or> c = CHR ''-'' \<or> c = CHR ''.'') \<and>
    (\<exists>labels tld. host = labels @ ''.'' @ tld \<and> 2 \<le> length tld \<and> (\<forall>c\<in>set tld. lower_letter c)) \<and>
    host \<notin> set blocked_hosts \<and> (\<forall>suf\<in>set blocked_host_suffixes. \<not> ends_with suf host)"
proof -
  let ?host = "lower (rstrip_char (CHR ''.'') (some_or_empty (up_hostname parts)))"
  have h: "out = tl_geturl T parts ?host" "up_scheme parts = ''https''" "up_port parts \<in> {Inr None, Inr (Some 443)}"
    "\<not> truthy (up_username parts)" "\<not> truthy (up_password parts)" "re_fullmatch host_rx ?host"
    "?host \<notin> set blocked_hosts" "\<forall>suf\<in>set blocked_host_suffixes. \<not> ends_with suf ?host"
    using assms by (auto simp: check_public_url_def Let_def list_ex_iff split: if_splits sum.splits)
  have cls: "classes_in (\<lambda>c. alnum_lower c \<or> c = CHR ''-'' \<or> c = CHR ''.'') host_rx"
    by (auto simp: host_rx_def opt_rx_def repeat_def lit_def alnum_lower_def)
  have "\<exists>labels tld. ?host = labels @ ''.'' @ tld \<and> 2 \<le> length tld \<and> (\<forall>c\<in>set tld. lower_letter c)"
    by (rule host_shape [OF h(6)])
  then show ?thesis
    using h fullmatch_classes [OF h(6) cls] by (intro exI [of _ ?host]) auto
qed

definition sample_text_lib :: text_lib where
  "sample_text_lib = \<lparr>tl_urlsplit = (\<lambda>u. Inr \<lparr>up_scheme = ''https'', up_username = None, up_password = None,
       up_netloc = ''Example.COM'', up_port = Inr None, up_hostname = Some ''example.com'', up_tail = ''/x''\<rparr>),
     tl_geturl = (\<lambda>p h. up_scheme p @ ''://'' @ h @ up_tail p), tl_is_ip = (\<lambda>_. False), tl_unquote = (\<lambda>s. s),
     tl_b64decode = (\<lambda>_. None)\<rparr>"

theorem public_url_host_witness:
  "\<exists>host. ''https://example.com/x'' = ''https://'' @ host @ ''/x'' \<and> host \<notin> set blocked_hosts \<and>
     check_public_url sample_text_lib ''https://Example.COM/x'' = Inr ''https://example.com/x''"
proof -
  let ?parts = "\<lparr>up_scheme = ''https'', up_username = None, up_password = None,
       up_netloc = ''Example.COM'', up_port = Inr None, up_hostname = Some ''example.com'', up_tail = ''/x''\<rparr>"
  have r: "check_public_url sample_text_lib ''https://Example.COM/x'' = Inr ''https://example.com/x''" by code_simp
  have s: "tl_urlsplit sample_text_lib (strip ''https://Example.COM/x'') = Inr ?parts" by (simp add: sample_text_lib_def)
  from public_url_host [OF r s] r show ?thesis by (auto simp: sample_text_lib_def)
qed

end
