(* ===== verification/Adapter_Safety.thy ===== *)
theory Adapter_Safety
  imports Adapters Approval_Safety
begin

section \<open>The contract of an effect adapter\<close>

text \<open>
  What the gateway relies on when it executes an effect and reads it back, stated as a locale and
  discharged for every sandbox adapter of \<^verbatim>\<open>agency/actions/adapters.py\<close>: an effect key names at
  most one effect however often and with whatever faults the adapter runs, nothing else changes,
  and a read-back sees what was done.
\<close>

definition besides_effects :: "'x action_db_scheme \<Rightarrow> 'x action_db_scheme" where
  "besides_effects db = db\<lparr>w_reads := 0, w_uuids := 0, ad_effects := []\<rparr>"

lemma besides_effects_simps [simp]:
  "besides_effects (w_reads_update f db) = besides_effects db" "besides_effects (w_uuids_update g db) = besides_effects db"
  "besides_effects (ad_effects_update h db) = besides_effects db"
  by (simp_all add: besides_effects_def)

subsection \<open>The interface\<close>

locale effect_adapter =
  fixes perform :: "'f \<Rightarrow> ('x action_db_scheme, amc_error, receipt) prog"
    and read_back :: "'f \<Rightarrow> ('x action_db_scheme, amc_error, observation) prog"
    and key :: "string \<times> string \<times> string"
  assumes perform_frame: "wp (perform f) (\<lambda>_ v. besides_effects v = besides_effects db) (\<lambda>_ v. besides_effects v = besides_effects db) db"
    and perform_first: "row_by effect_ident key (ad_effects db) = None \<Longrightarrow>
      wp (perform f)
        (\<lambda>r v. \<exists>e. ad_effects v = ad_effects db @ [e] \<and> effect_ident e = key \<and> rc_ref r = ef_id e)
        (\<lambda>_ v. ad_effects v = ad_effects db \<or> (\<exists>e. ad_effects v = ad_effects db @ [e] \<and> effect_ident e = key)) db"
    and perform_again: "row_by effect_ident key (ad_effects db) = Some e \<Longrightarrow>
      wp (perform f) (\<lambda>r v. ad_effects v = ad_effects db \<and> rc_ref r = ef_id e \<and> rc_dedup r) (\<lambda>_ v. ad_effects v = ad_effects db) db"
    and read_back_sees: "wp (read_back f)
      (\<lambda>ob v. v = db \<and> (case row_by effect_ident key (ad_effects db) of None \<Rightarrow> \<not> on_found ob
         | Some e \<Rightarrow> on_found ob \<and> on_ref ob = Some (ef_id e) \<and> on_payload ob = Some (ef_payload_hash e)))
      (\<lambda>_ v. v = db) db"
begin

definition attempts :: "'f list \<Rightarrow> 'x action_db_scheme \<Rightarrow> 'x action_db_scheme" where
  "attempts fs db = foldl (\<lambda>v f. snd (perform f v)) db fs"

lemma attempts_simps [simp]: "attempts [] db = db" "attempts (f # fs) db = attempts fs (snd (perform f db))"
  by (simp_all add: attempts_def)

lemma wp_snd: "wp m (\<lambda>_. Q) (\<lambda>_. Q) db \<Longrightarrow> Q (snd (m db))"
  by (cases "m db"; cases "fst (m db)") (auto simp: wp_def)

lemma attempts_settled:
  "row_by effect_ident key (ad_effects db) = Some e \<Longrightarrow> ad_effects (attempts fs db) = ad_effects db"
proof (induction fs arbitrary: db)
  case (Cons f fs)
  have "wp (perform f) (\<lambda>_ v. ad_effects v = ad_effects db) (\<lambda>_ v. ad_effects v = ad_effects db) db"
    by (rule wp_mono [OF perform_again [OF Cons.prems]]) simp_all
  then have "ad_effects (snd (perform f db)) = ad_effects db" by (rule wp_snd)
  with Cons show ?case by simp
qed simp

lemma attempts_frame: "besides_effects (attempts fs db) = besides_effects db"
proof (induction fs arbitrary: db)
  case (Cons f fs)
  have "besides_effects (snd (perform f db)) = besides_effects db" by (rule wp_snd [OF perform_frame])
  with Cons show ?case by simp
qed simp

lemma attempts_effects:
  "ad_effects (attempts fs db) = ad_effects db \<or>
   row_by effect_ident key (ad_effects db) = None \<and> (\<exists>e. ad_effects (attempts fs db) = ad_effects db @ [e] \<and> effect_ident e = key)"
proof (induction fs arbitrary: db)
  case (Cons f fs)
  show ?case
  proof (cases "row_by effect_ident key (ad_effects db)")
    case (Some e)
    then show ?thesis using attempts_settled by blast
  next
    case None
    let ?v = "snd (perform f db)"
    have "wp (perform f) (\<lambda>_ v. ad_effects v = ad_effects db \<or> (\<exists>e. ad_effects v = ad_effects db @ [e] \<and> effect_ident e = key))
       (\<lambda>_ v. ad_effects v = ad_effects db \<or> (\<exists>e. ad_effects v = ad_effects db @ [e] \<and> effect_ident e = key)) db"
      by (rule wp_mono [OF perform_first [OF None]]) auto
    from wp_snd [OF this]
    consider "ad_effects ?v = ad_effects db" | e where "ad_effects ?v = ad_effects db @ [e]" "effect_ident e = key" by blast
    then show ?thesis
    proof cases
      case 1
      with Cons.IH [of ?v] None show ?thesis by simp
    next
      case (2 e)
      then have "row_by effect_ident key (ad_effects ?v) = Some e" using None by (simp add: row_by_append)
      from attempts_settled [OF this] 2 None show ?thesis by simp
    qed
  qed
qed simp

text \<open>At most one effect under the key, the others as they were.\<close>

lemma at_most_one:
  assumes "distinct (map effect_ident (ad_effects db))"
  shows "length (filter (\<lambda>e. effect_ident e = key) (ad_effects (attempts fs db))) \<le> 1 \<and>
    filter (\<lambda>e. effect_ident e \<noteq> key) (ad_effects (attempts fs db)) = filter (\<lambda>e. effect_ident e \<noteq> key) (ad_effects db)"
proof -
  have one: "length (filter (\<lambda>e. effect_ident e = key) es) \<le> 1" if "distinct (map effect_ident es)" for es
  proof (cases "filter (\<lambda>e. effect_ident e = key) es")
    case (Cons x xs)
    then have "x \<in> set (filter (\<lambda>e. effect_ident e = key) es)" by simp
    then have "x \<in> set es" "effect_ident x = key" by simp_all
    then show ?thesis using filter_distinct_key [of x es effect_ident] that by simp
  qed simp
  from attempts_effects [of fs db] show ?thesis
  proof (elim disjE conjE exE)
    assume "ad_effects (attempts fs db) = ad_effects db"
    then show ?thesis using one [OF assms] by simp
  next
    fix e
    assume n: "row_by effect_ident key (ad_effects db) = None" and e: "ad_effects (attempts fs db) = ad_effects db @ [e]" "effect_ident e = key"
    then have "distinct (map effect_ident (ad_effects db @ [e]))" using assms by (auto simp: row_by_None)
    from one [OF this] e show ?thesis by simp
  qed
qed

text \<open>A receipt and any later read-back speak of the same effect.\<close>

lemma receipt_confirmed:
  assumes "perform f db = (Inr r, v)" and "read_back g (attempts fs v) = (Inr ob, w)"
  shows "on_found ob \<and> on_ref ob = Some (rc_ref r)"
proof -
  obtain e where e: "row_by effect_ident key (ad_effects v) = Some e" "rc_ref r = ef_id e"
  proof (cases "row_by effect_ident key (ad_effects db)")
    case None
    from wp_apply [OF perform_first [OF None] assms(1)] obtain e
      where "ad_effects v = ad_effects db @ [e]" "effect_ident e = key" "rc_ref r = ef_id e" by blast
    with None show ?thesis by (intro that [of e]) (simp_all add: row_by_append)
  next
    case (Some e)
    from wp_apply [OF perform_again [OF Some] assms(1)] Some show ?thesis by (intro that [of e]) simp_all
  qed
  have "ad_effects (attempts fs v) = ad_effects v" by (rule attempts_settled [OF e(1)])
  with wp_apply [OF read_back_sees assms(2)] e show ?thesis by simp
qed

end

subsection \<open>Every sandbox adapter meets it\<close>

definition effect_slot :: "effect_context \<Rightarrow> adapter \<Rightarrow> string \<times> string \<times> string" where
  "effect_slot c a = (ec_tenant c, adapter_provider a, ec_key c)"

lemma wp_sandbox_put_new:
  assumes "row_by effect_ident (tenant, provider, key) (ad_effects db) = None"
    and "\<And>e v. ad_effects v = ad_effects db @ [e] \<Longrightarrow> effect_ident e = (tenant, provider, key) \<Longrightarrow>
      besides_effects v = besides_effects db \<Longrightarrow> Q (e, True) v"
  shows "wp (sandbox_put V tenant provider operation key target payload state body cost currency) Q F db"
  using assms
  by (auto simp: sandbox_put_def hoare_rules Let_def effect_ident_def intro!: assms(2))

lemma wp_sandbox_put_old:
  assumes "row_by effect_ident (tenant, provider, key) (ad_effects db) = Some e"
    and "\<And>v. besides_effects v = besides_effects db \<Longrightarrow> ad_effects v = ad_effects db \<Longrightarrow> Q (e, False) v"
  shows "wp (sandbox_put V tenant provider operation key target payload state body cost currency) Q F db"
  using assms by (simp add: wp_def sandbox_put_again)

lemma wp_effect_body:
  assumes "\<And>b f. Q b (w_reads_update f db)" and "\<And>b. Q b db" and "\<And>e. F e db"
  shows "wp (effect_body C args) Q F db"
  using assms by (cases args) (auto simp: hoare_rules url_host_def Let_def split: sum.splits)

lemma wp_base_execute:
  assumes put: "\<And>op target payload state body cost cur f Q'. (\<And>e new v. besides_effects v = besides_effects db \<Longrightarrow> S e new v \<Longrightarrow> Q' (e, new) v) \<Longrightarrow>
      wp (sandbox_put (cf_env C) (ec_tenant c) (adapter_provider (adapter_of args)) op (ec_key c) target payload state body cost cur) Q' F
        (w_reads_update f db)"
    and put0: "\<And>op target payload state body cost cur Q'. (\<And>e new v. besides_effects v = besides_effects db \<Longrightarrow> S e new v \<Longrightarrow> Q' (e, new) v) \<Longrightarrow>
      wp (sandbox_put (cf_env C) (ec_tenant c) (adapter_provider (adapter_of args)) op (ec_key c) target payload state body cost cur) Q' F db"
    and F: "\<And>e. F e db" "\<And>e new v x. besides_effects v = besides_effects db \<Longrightarrow> S e new v \<Longrightarrow> F x v"
    and Q: "\<And>e new v f t. besides_effects v = besides_effects db \<Longrightarrow> S e new v \<Longrightarrow>
      Q \<lparr>rc_ref = ef_id e, rc_state = ef_state e, rc_dedup = (\<not> new), rc_simulated = True, rc_at = t\<rparr> (w_reads_update f v)"
  shows "wp (base_execute C c args) Q F db"
  unfolding base_execute_def Let_def
  by (auto simp: hoare_rules require_sandbox_def F intro!: wp_effect_body put put0 Q F)

lemma wp_execute:
  assumes put: "\<And>op target payload state body cost cur f Q'. (\<And>e new v. besides_effects v = besides_effects db \<Longrightarrow> S e new v \<Longrightarrow> Q' (e, new) v) \<Longrightarrow>
      wp (sandbox_put (cf_env C) (ec_tenant c) (adapter_provider (adapter_of args)) op (ec_key c) target payload state body cost cur) Q' F
        (w_reads_update f db)"
    and put0: "\<And>op target payload state body cost cur Q'. (\<And>e new v. besides_effects v = besides_effects db \<Longrightarrow> S e new v \<Longrightarrow> Q' (e, new) v) \<Longrightarrow>
      wp (sandbox_put (cf_env C) (ec_tenant c) (adapter_provider (adapter_of args)) op (ec_key c) target payload state body cost cur) Q' F db"
    and F: "\<And>e. F e db" "\<And>e new v x. besides_effects v = besides_effects db \<Longrightarrow> S e new v \<Longrightarrow> F x v"
    and Q: "\<And>e new v f t. besides_effects v = besides_effects db \<Longrightarrow> S e new v \<Longrightarrow>
      Q \<lparr>rc_ref = ef_id e, rc_state = ef_state e, rc_dedup = (\<not> new), rc_simulated = True, rc_at = t\<rparr> (w_reads_update f v)"
  shows "wp (execute C c args) Q F db"
proof -
  have base: "wp (base_execute C c args) Q F db" by (rule wp_base_execute [where S = S]) (rule put put0 F Q; assumption)+
  show ?thesis
  proof (cases args)
    case (FetchArgs url purpose)
    then show ?thesis using base by (auto simp: hoare_rules url_host_def F split: sum.splits)
  qed (use base in simp_all)
qed

lemma wp_execute_new:
  assumes "row_by effect_ident (effect_slot c (adapter_of args)) (ad_effects db) = None"
  shows "wp (execute C c args)
    (\<lambda>r v. besides_effects v = besides_effects db \<and> (\<exists>e. ad_effects v = ad_effects db @ [e] \<and>
       effect_ident e = effect_slot c (adapter_of args) \<and> rc_ref r = ef_id e))
    (\<lambda>_ v. besides_effects v = besides_effects db \<and> (ad_effects v = ad_effects db \<or>
       (\<exists>e. ad_effects v = ad_effects db @ [e] \<and> effect_ident e = effect_slot c (adapter_of args)))) db"
  by (rule wp_execute [where S = "\<lambda>e new v. ad_effects v = ad_effects db @ [e] \<and> effect_ident e = effect_slot c (adapter_of args)"])
    (use assms in \<open>auto simp: effect_slot_def intro!: wp_sandbox_put_new\<close>)

lemma wp_execute_old:
  assumes "row_by effect_ident (effect_slot c (adapter_of args)) (ad_effects db) = Some e"
  shows "wp (execute C c args)
    (\<lambda>r v. besides_effects v = besides_effects db \<and> ad_effects v = ad_effects db \<and> rc_ref r = ef_id e \<and> rc_dedup r)
    (\<lambda>_ v. besides_effects v = besides_effects db \<and> ad_effects v = ad_effects db) db"
  by (rule wp_execute [where S = "\<lambda>f new v. ad_effects v = ad_effects db \<and> f = e \<and> \<not> new"])
    (use assms in \<open>auto simp: effect_slot_def intro!: wp_sandbox_put_old, blast+\<close>)

interpretation sandbox: effect_adapter "\<lambda>C. execute C c args" "\<lambda>C. observe C (adapter_of args) c" "effect_slot c (adapter_of args)"
  for c args
proof
  show "wp (execute f c args) (\<lambda>_ v. besides_effects v = besides_effects db) (\<lambda>_ v. besides_effects v = besides_effects db) db"
    for f and db :: "'x action_db_scheme"
  proof (cases "row_by effect_ident (effect_slot c (adapter_of args)) (ad_effects db)")
    case None
    show ?thesis by (rule wp_mono [OF wp_execute_new [OF None]]) simp_all
  next
    case (Some e)
    show ?thesis by (rule wp_mono [OF wp_execute_old [OF Some]]) simp_all
  qed
next
  fix f and db :: "'x action_db_scheme"
  assume "row_by effect_ident (effect_slot c (adapter_of args)) (ad_effects db) = None"
  from wp_execute_new [OF this, of f] show "wp (execute f c args)
     (\<lambda>r v. \<exists>e. ad_effects v = ad_effects db @ [e] \<and> effect_ident e = effect_slot c (adapter_of args) \<and> rc_ref r = ef_id e)
     (\<lambda>_ v. ad_effects v = ad_effects db \<or> (\<exists>e. ad_effects v = ad_effects db @ [e] \<and> effect_ident e = effect_slot c (adapter_of args))) db"
    by (rule wp_mono) simp_all
next
  fix f e and db :: "'x action_db_scheme"
  assume "row_by effect_ident (effect_slot c (adapter_of args)) (ad_effects db) = Some e"
  from wp_execute_old [OF this, of f] show "wp (execute f c args)
     (\<lambda>r v. ad_effects v = ad_effects db \<and> rc_ref r = ef_id e \<and> rc_dedup r) (\<lambda>_ v. ad_effects v = ad_effects db) db"
    by (rule wp_mono) simp_all
next
  show "wp (observe f (adapter_of args) c)
      (\<lambda>ob v. v = db \<and> (case row_by effect_ident (effect_slot c (adapter_of args)) (ad_effects db) of None \<Rightarrow> \<not> on_found ob
         | Some e \<Rightarrow> on_found ob \<and> on_ref ob = Some (ef_id e) \<and> on_payload ob = Some (ef_payload_hash e)))
      (\<lambda>_ v. v = db) db" for f and db :: "'x action_db_scheme"
    by (auto simp: observe_def require_sandbox_def sandbox_get_def effect_slot_def hoare_rules split: option.splits)
qed

text \<open>
  C5. Repeating an effect is safe: run an adapter any number of times for one effect context and
  arguments, with any faults between (failures before the effect, timeouts before or after it):
  at most one effect exists under its key, every other effect and every other table is as it was,
  and a receipt that was returned and any read-back later name the same effect.
\<close>

theorem effect_at_most_once:
  assumes "distinct (map effect_ident (ad_effects db))" and "foldl (\<lambda>v C. snd (execute C c args v)) db Cs = v"
  shows "length (filter (\<lambda>e. effect_ident e = (ec_tenant c, adapter_provider (adapter_of args), ec_key c)) (ad_effects v)) \<le> 1 \<and>
    filter (\<lambda>e. effect_ident e \<noteq> (ec_tenant c, adapter_provider (adapter_of args), ec_key c)) (ad_effects v) =
      filter (\<lambda>e. effect_ident e \<noteq> (ec_tenant c, adapter_provider (adapter_of args), ec_key c)) (ad_effects db) \<and>
    besides_effects v = besides_effects db \<and>
    (\<forall>C r u Cs' D ob w. execute C c args v = (Inr r, u) \<and>
       observe D (adapter_of args) c (foldl (\<lambda>v C. snd (execute C c args v)) u Cs') = (Inr ob, w) \<longrightarrow>
       on_found ob \<and> on_ref ob = Some (rc_ref r))"
  using sandbox.at_most_one [OF assms(1), of c args Cs] sandbox.attempts_frame [of c args Cs db] sandbox.receipt_confirmed [of _ c args]
    assms(2)
  unfolding sandbox.attempts_def effect_slot_def by blast

subsection \<open>Arguments stay valid\<close>

lemma coerce_adapter: "coerce P a j = Inr args \<Longrightarrow> adapter_of args = a"
  by (cases a) (auto simp: coerce_def map_sum_def split: sum.splits)

lemma check_args_adapter: "check_args T raw = Some args \<Longrightarrow> adapter_of args = adapter_of raw"
  by (cases raw) (auto simp: check_defs split: if_splits sum.splits)

text \<open>
  C34. The stored arguments of an action validate again unchanged. \<open>validate\<close> answers with arguments of
  the adapter it was asked for. For every adapter but the fetch, the field constraints accept these
  arguments as they are, and \<open>validate\<close> of the stored payload (\<open>payload_json\<close>, what the row keeps
  and dispatch reads) gives them back, provided that the library's coercion of that payload gives
  the fields it was dumped from. The fetch is left out: its URL is rebuilt by the standard library.
\<close>

theorem validated_args_stable:
  assumes "validate C a j = Inr args"
  shows "adapter_of args = a \<and>
    (a \<noteq> Research_Fetch \<longrightarrow> check_args (cf_text C) args = Some args \<and>
      (coerce (cf_coerce C) a (payload_json args) = Inr args \<longrightarrow> validate C a (payload_json args) = Inr args))"
proof -
  obtain raw where raw: "coerce (cf_coerce C) a j = Inr raw" "check_args (cf_text C) raw = Some args"
    using assms by (auto simp: validate_def split: sum.splits option.splits)
  have a: "adapter_of args = a" using check_args_adapter [OF raw(2)] coerce_adapter [OF raw(1)] by simp
  have "check_args (cf_text C) args = Some args" if "a \<noteq> Research_Fetch"
  proof (cases raw)
    case (EmailArgs recipients subject body)
    have ne: "remdups (map lower recipients) \<noteq> []" if "1 \<le> length recipients" using that by (cases recipients) auto
    have "length (remdups (map lower recipients)) \<le> length recipients"
      using length_remdups_leq [of "map lower recipients"] by simp
    moreover have "map lower (sort (remdups (map lower recipients))) = sort (remdups (map lower recipients))"
      by (rule map_idI) auto
    ultimately show ?thesis
      using raw(2) EmailArgs ne by (auto simp: check_defs size_in_def list_all_iff Suc_le_eq distinct_remdups_id sorted_sort_id split: if_splits)
  qed (use raw(2) that a in \<open>auto simp: check_defs safe_path_fixed split: if_splits sum.splits\<close>)
  with a show ?thesis by (auto simp: validate_def)
qed

subsection \<open>Compensation\<close>

lemma observe_state: "wp (observe C a c) (\<lambda>_ v. v = db) (\<lambda>_ v. v = db) db"
  by (simp add: observe_def require_sandbox_def sandbox_get_def hoare_rules)

lemma compensated_state: "compensation_of a = Some (what, src, dst) \<Longrightarrow> src \<noteq> dst"
  by (cases a) auto

lemma wp_compensate:
  assumes "compensation_of a = Some (what, src, dst)"
  shows "wp (compensate_effect C a c)
    (\<lambda>_ v. \<exists>e. row_by effect_ident (effect_slot c a) (ad_effects v) = Some e \<and> ef_state e \<noteq> src) (\<lambda>_ _. True) db"
proof (cases "row_by effect_ident (effect_slot c a) (ad_effects db)")
  case (Some e)
  let ?hit = "\<lambda>x. ef_id x = ef_id e \<and> ef_state x = src"
  have after: "row_by effect_ident (effect_slot c a) (update_rows ?hit (\<lambda>x. x\<lparr>ef_state := dst, ef_updated := t\<rparr>) (ad_effects db)) =
      Some (if ?hit e then e\<lparr>ef_state := dst, ef_updated := t\<rparr> else e)" for t
    using Some by (subst row_by_update_rows) (simp_all add: effect_ident_def)
  have obs: "wp (observe C a c) (\<lambda>_ v. P v) (\<lambda>_ _. True) v = True" if "P v" for P v
    using wp_mono [OF observe_state [of C a c v]] that by (metis (mono_tags, lifting))
  show ?thesis
    using Some assms compensated_state [OF assms] after
    by (auto simp: compensate_effect_def compensate_to_def require_sandbox_def sandbox_get_def sandbox_set_state_def hoare_rules Let_def obs
        effect_slot_def [symmetric] split: option.splits)
qed (use assms in \<open>simp add: compensate_effect_def compensate_to_def require_sandbox_def sandbox_get_def hoare_rules effect_slot_def [symmetric]\<close>)

text \<open>
  A compensation is applied once: after one has succeeded, running it again changes no effect,
  whatever faults intervene, so a refund or an unpublish whose read-back was lost can be repeated.
\<close>

theorem compensation_once:
  assumes "compensate_effect C a c db = (Inr ob, v)" and "compensate_effect D a c v = (out, w)"
  shows "ad_effects w = ad_effects v \<and> (\<exists>e. row_by effect_ident (ec_tenant c, adapter_provider a, ec_key c) (ad_effects v) = Some e)"
proof -
  obtain what src dst where comp: "compensation_of a = Some (what, src, dst)"
    using assms(1) by (cases "compensation_of a") (auto simp: compensate_effect_def raise_def)
  obtain e where e: "row_by effect_ident (effect_slot c a) (ad_effects v) = Some e" "ef_state e \<noteq> src"
    using wp_apply [OF wp_compensate [OF comp] assms(1)] by blast
  have "wp (compensate_effect D a c) (\<lambda>_ w. w = v) (\<lambda>_ w. w = v) v"
    using comp e observe_state [of D a c v]
    by (simp add: compensate_effect_def compensate_to_def require_sandbox_def sandbox_get_def hoare_rules effect_slot_def [symmetric])
  with assms(2) have "w = v" by (cases out) (auto simp: wp_def)
  with e show ?thesis by (simp add: effect_slot_def)
qed

subsection \<open>Witnesses\<close>

definition sample_coercions :: coercions where
  "sample_coercions = \<lparr>pc_fetch = (\<lambda>_. Inl ''missing''), pc_draft = (\<lambda>_. Inl ''missing''), pc_email = (\<lambda>_. Inl ''missing''),
     pc_spend = (\<lambda>_. Inr (''summer'', 500, ''USD'')), pc_delete = (\<lambda>_. Inl ''missing''), pc_grant = (\<lambda>_. Inl ''missing''),
     pc_errors = (\<lambda>_. ''invalid'')\<rparr>"

definition sample_config :: "string option \<Rightarrow> config" where
  "sample_config fault = \<lparr>ae_getenv = (\<lambda>_. None), ae_valid_plan = (\<lambda>_ _ _. False), cf_env = sample_env, cf_text = sample_text_lib,
     cf_coerce = sample_coercions, cf_schema = (\<lambda>_. JNull), cf_output_schema = JNull, cf_fault = (\<lambda>_. fault),
     cf_other_entries = []\<rparr>"

definition sample_context :: effect_context where
  "sample_context = \<lparr>ec_tenant = ''t'', ec_project = ''p'', ec_action = ''a1'', ec_key = ''k'', ec_env = Env_SANDBOX,
     ec_target = ''sandbox-ads://summer'', ec_payload = ''h''\<rparr>"

lemmas adapter_defs = base_execute_def require_sandbox_def sandbox_put_def observe_def sandbox_get_def compensate_effect_def
  compensate_to_def sandbox_set_state_def store_defs

theorem effect_at_most_once_witness:
  "\<exists>e. ad_effects (foldl (\<lambda>v C. snd (execute C sample_context (SpendArgs ''summer'' 500 ''USD'') v)) empty_action_db
     [sample_config (Some ''timeout_after_effect''), sample_config None]) = [e] \<and>
   length (filter (\<lambda>e. effect_ident e = (''t'', ''sandbox.ads'', ''k'')) [e]) \<le> 1"
proof -
  let ?v = "foldl (\<lambda>v C. snd (execute C sample_context (SpendArgs ''summer'' 500 ''USD'') v)) empty_action_db
     [sample_config (Some ''timeout_after_effect''), sample_config None]"
  have "\<exists>e. ad_effects ?v = [e]"
    by (simp add: adapter_defs sample_config_def sample_context_def empty_action_db_def effect_ident_def)
  then obtain e where e: "ad_effects ?v = [e]" by blast
  have "distinct (map effect_ident (ad_effects empty_action_db))" by (simp add: empty_action_db_def)
  from effect_at_most_once [OF this refl, of sample_context "SpendArgs ''summer'' 500 ''USD''"
      "[sample_config (Some ''timeout_after_effect''), sample_config None]", THEN conjunct1]
  have "length (filter (\<lambda>e. effect_ident e = (''t'', ''sandbox.ads'', ''k'')) (ad_effects ?v)) \<le> 1"
    by (simp only: adapter_of.simps adapter_provider.simps) (simp add: sample_context_def)
  with e show ?thesis by metis
qed

theorem validated_args_stable_witness:
  "\<exists>args. validate (sample_config None) Ads_Spend JNull = Inr args \<and>
     validate (sample_config None) Ads_Spend (payload_json args) = Inr args \<and>
     check_args (cf_text (sample_config None)) args = Some args"
proof (intro exI conjI)
  let ?args = "SpendArgs ''summer'' 500 ''USD''"
  have r: "re_fullmatch (site_rx 60) ''summer''" "re_fullmatch currency_rx ''USD''" by code_simp+
  show v: "validate (sample_config None) Ads_Spend JNull = Inr ?args"
    by (simp add: validate_def coerce_def sample_config_def sample_coercions_def check_defs r)
  have c: "coerce (cf_coerce (sample_config None)) Ads_Spend (payload_json ?args) = Inr ?args"
    by (simp add: coerce_def sample_config_def sample_coercions_def)
  show "validate (sample_config None) Ads_Spend (payload_json ?args) = Inr ?args"
    using validated_args_stable [OF v] c by simp
  show "check_args (cf_text (sample_config None)) ?args = Some ?args"
    using validated_args_stable [OF v] by simp
qed

theorem compensation_once_witness:
  "\<exists>(db :: action_db) ob v out w. compensate_effect (sample_config None) Ads_Spend sample_context db = (Inr ob, v) \<and>
     compensate_effect (sample_config (Some ''observe_unreachable'')) Ads_Spend sample_context v = (out, w) \<and> ad_effects w = ad_effects v"
proof -
  let ?db = "snd (execute (sample_config None) sample_context (SpendArgs ''summer'' 500 ''USD'') empty_action_db)"
  have "\<exists>ob v. compensate_effect (sample_config None) Ads_Spend sample_context ?db = (Inr ob, v)"
    by (simp add: adapter_defs sample_config_def sample_context_def empty_action_db_def effect_ident_def)
  then obtain ob v where c: "compensate_effect (sample_config None) Ads_Spend sample_context ?db = (Inr ob, v)" by blast
  obtain out w where d: "compensate_effect (sample_config (Some ''observe_unreachable'')) Ads_Spend sample_context v = (out, w)"
    by (rule prod.exhaust)
  from compensation_once [OF c d] c d show ?thesis by blast
qed

end
