(* ===== verification/Calendar.thy ===== *)
theory Calendar
  imports Runtime
begin

section \<open>Reading timestamps back\<close>

text \<open>
  \<open>datetime.fromisoformat\<close> and \<open>strptime\<close> on the texts \<open>iso\<close> writes: the parser, and that it is the
  inverse of \<open>iso\<close>. The calendar arithmetic of \<open>civil\<close> is inverted by \<open>days_of\<close>.
\<close>

definition days_of :: "int \<Rightarrow> int \<Rightarrow> int \<Rightarrow> int" where
  "days_of year m d =
    (let y = (if m \<le> 2 then year - 1 else year);
         era = y div 400;
         yoe = y mod 400;
         mp = (if m > 2 then m - 3 else m + 9);
         doy = (153 * mp + 2) div 5 + d - 1
     in era * 146097 + (365 * yoe + yoe div 4 - yoe div 100 + doy) - 719468)"

definition digits_value :: "string \<Rightarrow> int" where
  "digits_value s = foldl (\<lambda>n c. 10 * n + (int (of_char c) - 48)) 0 s"

definition all_digits :: "string \<Rightarrow> bool" where
  "all_digits s = list_all (\<lambda>c. let n = of_char c :: nat in 48 \<le> n \<and> n \<le> 57) s"

definition parse_iso :: "string \<Rightarrow> int option" where
  "parse_iso s =
    (let f = (\<lambda>i n. take n (drop i s)) in
     if length s = 27 \<and> f 4 1 = ''-'' \<and> f 7 1 = ''-'' \<and> f 10 1 = ''T'' \<and> f 13 1 = '':'' \<and> f 16 1 = '':'' \<and> f 19 1 = ''.'' \<and>
        f 26 1 = ''Z'' \<and> list_all all_digits [f 0 4, f 5 2, f 8 2, f 11 2, f 14 2, f 17 2, f 20 6]
     then Some (days_of (digits_value (f 0 4)) (digits_value (f 5 2)) (digits_value (f 8 2)) * us_per_day +
       (digits_value (f 11 2) * 3600 + digits_value (f 14 2) * 60 + digits_value (f 17 2)) * 1000000 + digits_value (f 20 6))
     else None)"

subsection \<open>The year of a day\<close>

text \<open>
  \<open>year_index\<close> is the numerator of \<open>civil\<close>'s year of the era and never decreases; a table over
  the 400 years of an era says where each year begins and ends.
\<close>

definition year_index :: "int \<Rightarrow> int" where
  "year_index doe = doe - doe div 1460 + doe div 36524 - doe div 146096"

definition year_start :: "int \<Rightarrow> int" where
  "year_start y = 365 * y + y div 4 - y div 100"

definition year_table :: bool where
  "year_table = list_all (\<lambda>y. 365 * y \<le> year_index (year_start y) \<and> year_start y < year_start (y + 1) \<and>
     year_start (y + 1) \<le> year_start y + 366 \<and>
     (y < 399 \<longrightarrow> year_index (year_start (y + 1) - 1) < 365 * (y + 1))) [0..399]"

lemma year_table: "year_table"
  by code_simp

lemma year_table_at:
  assumes "0 \<le> y" "y \<le> 399"
  shows "365 * y \<le> year_index (year_start y)" "year_start (y + 1) \<le> year_start y + 366"
    "y < 399 \<Longrightarrow> year_index (year_start (y + 1) - 1) < 365 * (y + 1)"
  using year_table assms unfolding year_table_def list_all_iff by auto

lemma div_next: "0 < k \<Longrightarrow> (d + 1) div k = d div k + (if (d + 1) mod k = 0 then 1 else 0)" for d k :: int
proof -
  assume k: "0 < k"
  have d: "d = k * (d div k) + d mod k" "0 \<le> d mod k" "d mod k < k" using k by simp_all
  show ?thesis
  proof (cases "d mod k + 1 = k")
    case True
    have "k * (d div k + 1) = k * (d div k) + k" by (simp add: algebra_simps)
    then have "d + 1 = k * (d div k + 1)" using d(1) True by linarith
    then show ?thesis using k by simp
  next
    case False
    have e: "d + 1 = k * (d div k) + (d mod k + 1)" "0 \<le> d mod k + 1" "d mod k + 1 < k" using d False by linarith+
    have "(d + 1) div k = d div k" "(d + 1) mod k = d mod k + 1"
      by (rule int_div_pos_eq [OF e], rule int_mod_pos_eq [OF e])
    then show ?thesis using d(2) by simp
  qed
qed

lemma year_index_next: "year_index d \<le> year_index (d + 1)"
proof -
  have "(d + 1) mod 36524 = 0" if "(d + 1) mod 146096 = 0"
  proof -
    have "146096 dvd d + 1" using that by auto
    moreover have "(36524 :: int) dvd 146096" by simp
    ultimately show ?thesis by (meson dvd_imp_mod_0 dvd_trans)
  qed
  then show ?thesis by (simp add: year_index_def div_next)
qed

lemma year_index_mono: "a \<le> b \<Longrightarrow> year_index a \<le> year_index b"
proof (induction b rule: int_ge_induct)
  case (step i)
  then show ?case using year_index_next [of i] by simp
qed simp

lemma year_of_day:
  assumes "0 \<le> doe" "doe < 146097" and y: "y = year_index doe div 365"
  shows "0 \<le> y" "y \<le> 399" "year_start y \<le> doe" "doe \<le> year_start y + 365" "y < 399 \<Longrightarrow> doe < year_start (y + 1)"
proof -
  have lo: "365 * y \<le> year_index doe" and hi: "year_index doe < 365 * (y + 1)"
    unfolding y by simp_all
  have "0 \<le> year_index doe" "year_index doe \<le> 145999"
    using year_index_mono [OF assms(1)] year_index_mono [of doe 146096] assms(2) by (simp_all add: year_index_def)
  then show b: "0 \<le> y" "y \<le> 399" unfolding y by simp_all
  show "year_start y \<le> doe"
  proof (rule ccontr)
    assume "\<not> year_start y \<le> doe"
    moreover from this have "y \<noteq> 0" using assms(1) by (auto simp: year_start_def)
    ultimately show False
      using year_table_at(3) [of "y - 1"] year_index_mono [of doe "year_start y - 1"] lo b by simp
  qed
  show top: "doe < year_start (y + 1)" if "y < 399"
  proof (rule ccontr)
    assume "\<not> doe < year_start (y + 1)"
    then show False
      using year_table_at(1) [of "y + 1"] year_index_mono [of "year_start (y + 1)" doe] hi b that by simp
  qed
  show "doe \<le> year_start y + 365"
  proof (cases "y = 399")
    case True
    then show ?thesis using assms(2) by (simp add: year_start_def)
  next
    case False
    then show ?thesis using top year_table_at(2) [OF b] b by simp
  qed
qed

subsection \<open>Calendar days\<close>

text \<open>The March-based month of a day of the year, and the day of the month before the first is added.\<close>

definition month_index :: "int \<Rightarrow> int" where
  "month_index doy = (5 * doy + 2) div 153"

definition month_start :: "int \<Rightarrow> int" where
  "month_start mp = (153 * mp + 2) div 5"

lemma month_table: "list_all (\<lambda>doy. 0 \<le> month_index doy \<and> month_index doy \<le> 11 \<and>
    month_start (month_index doy) \<le> doy \<and> doy \<le> month_start (month_index doy) + 30) [0..365]"
  by code_simp

lemma month_of_day:
  assumes "0 \<le> doy" "doy \<le> 365"
  shows "0 \<le> month_index doy" "month_index doy \<le> 11" "month_start (month_index doy) \<le> doy"
    "doy \<le> month_start (month_index doy) + 30"
  using month_table assms unfolding list_all_iff by auto

text \<open>\<open>civil\<close> and \<open>days_of\<close> over these.\<close>

lemma civil_alt: "civil z =
    (let doe = (z + 719468) mod 146097; yoe = year_index doe div 365; doy = doe - year_start yoe; mp = month_index doy;
         m = (if mp < 10 then mp + 3 else mp - 9)
     in (yoe + (z + 719468) div 146097 * 400 + (if m \<le> 2 then 1 else 0), m, doy - month_start mp + 1))"
  unfolding civil_def year_index_def year_start_def month_index_def month_start_def Let_def by (rule refl)

lemma days_of_alt: "days_of year m d =
    (let y = (if m \<le> 2 then year - 1 else year); mp = (if m > 2 then m - 3 else m + 9)
     in y div 400 * 146097 + (year_start (y mod 400) + (month_start mp + d - 1)) - 719468)"
  unfolding days_of_def year_start_def month_start_def Let_def by (rule refl)

lemma civil_parts:
  obtains era yoe doy mp where "civil z = (yoe + era * 400 + (if mp < 10 then 0 else 1), (if mp < 10 then mp + 3 else mp - 9),
      doy - month_start mp + 1)"
    and "z + 719468 = era * 146097 + (year_start yoe + doy)" "0 \<le> yoe" "yoe \<le> 399" "0 \<le> doy" "doy \<le> 365"
    and "mp = month_index doy" "0 \<le> mp" "mp \<le> 11" "month_start mp \<le> doy" "doy \<le> month_start mp + 30"
    and "era = (z + 719468) div 146097" "yoe = year_index ((z + 719468) mod 146097) div 365"
proof -
  obtain doe era yoe doy mp where d: "doe = (z + 719468) mod 146097" "era = (z + 719468) div 146097" "yoe = year_index doe div 365"
    "doy = doe - year_start yoe" "mp = month_index doy" by blast
  have doe: "0 \<le> doe" "doe < 146097" "z + 719468 = era * 146097 + doe" unfolding d by simp_all
  note yr = year_of_day [OF doe(1,2) d(3)]
  then have doy: "0 \<le> doy" "doy \<le> 365" unfolding d(4) by simp_all
  note mo = month_of_day [OF this, folded d(5)]
  have m: "(if (if mp < 10 then mp + 3 else mp - 9) \<le> 2 then 1 else 0) = (if mp < 10 then 0 else (1 :: int))"
    using mo(1,2) by auto
  have "civil z = (yoe + era * 400 + (if mp < 10 then 0 else 1), (if mp < 10 then mp + 3 else mp - 9), doy - month_start mp + 1)"
    unfolding civil_alt Let_def d(1-5) [symmetric] m by (rule refl)
  moreover have "z + 719468 = era * 146097 + (year_start yoe + doy)" using doe(3) d(4) by simp
  moreover have "yoe = year_index ((z + 719468) mod 146097) div 365" unfolding d(3) d(1) by (rule refl)
  ultimately show thesis using that [of yoe era mp doy] yr(1,2) doy d(2,5) mo by blast
qed

lemma days_of_civil:
  assumes "civil z = (y, m, d)"
  shows "days_of y m d = z"
proof -
  obtain era yoe doy mp where p: "civil z = (yoe + era * 400 + (if mp < 10 then 0 else 1), (if mp < 10 then mp + 3 else mp - 9),
      doy - month_start mp + 1)" "z + 719468 = era * 146097 + (year_start yoe + doy)" "0 \<le> yoe" "yoe \<le> 399" "0 \<le> mp" "mp \<le> 11"
    by (rule civil_parts)
  have era: "(yoe + era * 400) div 400 = era" "(yoe + era * 400) mod 400 = yoe" using p(3,4) by simp_all
  have c: "y = yoe + era * 400 + (if mp < 10 then 0 else 1)" "m = (if mp < 10 then mp + 3 else mp - 9)" "d = doy - month_start mp + 1"
    using assms p(1) by simp_all
  have base: "(if m \<le> 2 then y - 1 else y) = yoe + era * 400" "(if m > 2 then m - 3 else m + 9) = mp"
    unfolding c using p(5,6) by simp_all
  have "days_of y m d = era * 146097 + (year_start yoe + (month_start mp + d - 1)) - 719468"
    unfolding days_of_alt Let_def base era by (rule refl)
  then show ?thesis using p(2) c(3) by linarith
qed

text \<open>A later day has a later year, or the same year and a later month, or the same month and a later day.\<close>

lemma month_index_mono: "a \<le> b \<Longrightarrow> month_index a \<le> month_index b"
  by (simp add: month_index_def zdiv_mono1)

lemma civil_order:
  assumes "z < z'" and "civil z = (y, m, d)" and "civil z' = (y', m', d')"
  shows "12 * y + m < 12 * y' + m' \<or> (12 * y + m = 12 * y' + m' \<and> d < d')"
proof -
  obtain era yoe doy mp where p: "civil z = (yoe + era * 400 + (if mp < 10 then 0 else 1), (if mp < 10 then mp + 3 else mp - 9),
      doy - month_start mp + 1)" "z + 719468 = era * 146097 + (year_start yoe + doy)" "0 \<le> yoe" "yoe \<le> 399"
      "mp = month_index doy" "0 \<le> mp" "mp \<le> 11" "era = (z + 719468) div 146097" "yoe = year_index ((z + 719468) mod 146097) div 365"
    by (rule civil_parts)
  obtain era' yoe' doy' mp' where q: "civil z' = (yoe' + era' * 400 + (if mp' < 10 then 0 else 1), (if mp' < 10 then mp' + 3 else mp' - 9),
      doy' - month_start mp' + 1)" "z' + 719468 = era' * 146097 + (year_start yoe' + doy')" "0 \<le> yoe'" "yoe' \<le> 399"
      "mp' = month_index doy'" "0 \<le> mp'" "mp' \<le> 11" "era' = (z' + 719468) div 146097"
      "yoe' = year_index ((z' + 719468) mod 146097) div 365"
    by (rule civil_parts)
  have i: "12 * y + m = 12 * (yoe + era * 400) + mp + 3" "12 * y' + m' = 12 * (yoe' + era' * 400) + mp' + 3"
    using assms(2,3) p(1) q(1) by (auto split: if_splits)
  have dd: "d = doy - month_start mp + 1" "d' = doy' - month_start mp' + 1" using assms(2,3) p(1) q(1) by simp_all
  have era: "era \<le> era'" unfolding p(8) q(8) using assms(1) by (simp add: zdiv_mono1)
  have later: "12 * y + m < 12 * y' + m'"
    if "a + 1 \<le> b" "12 * y + m = 12 * a + mp + 3" "12 * y' + m' = 12 * b + mp' + 3" for a b
    using that p(6,7) q(6,7) by linarith
  consider "era < era'" | "era = era'" "yoe < yoe'" | "era = era'" "yoe = yoe'" "doy < doy'" | "era = era'" "yoe' < yoe"
  proof -
    have "doy < doy'" if "era = era'" "yoe = yoe'" using that p(2) q(2) assms(1) by simp
    then show thesis using that era by (metis linorder_neqE order_le_less)
  qed
  then show ?thesis
  proof cases
    case 1
    have "yoe + era * 400 + 1 \<le> yoe' + era' * 400" using 1 p(3,4) q(3,4) by linarith
    from later [OF this i] show ?thesis by simp
  next
    case 2
    then have "yoe + era * 400 + 1 \<le> yoe' + era' * 400" by simp
    from later [OF this i] show ?thesis by simp
  next
    case 3
    then have "mp \<le> mp'" using month_index_mono [of doy doy'] p(5) q(5) by simp
    then show ?thesis using i 3 dd by (cases "mp = mp'") simp_all
  next
    case 4
    have "(z + 719468) mod 146097 < (z' + 719468) mod 146097"
      using 4(1) assms(1) div_mult_mod_eq [of "z + 719468" 146097] div_mult_mod_eq [of "z' + 719468" 146097]
      unfolding p(8) q(8) by linarith
    then have "yoe \<le> yoe'" unfolding p(9) q(9) by (intro zdiv_mono1 year_index_mono) simp_all
    then show ?thesis using 4(2) by simp
  qed
qed

lemma civil_bounds: "civil z = (y, m, d) \<Longrightarrow> 1 \<le> m \<and> m \<le> 12 \<and> 1 \<le> d \<and> d \<le> 31"
proof -
  assume c: "civil z = (y, m, d)"
  obtain era yoe doy mp where p: "civil z = (yoe + era * 400 + (if mp < 10 then 0 else 1), (if mp < 10 then mp + 3 else mp - 9),
      doy - month_start mp + 1)" "0 \<le> mp" "mp \<le> 11" "month_start mp \<le> doy" "doy \<le> month_start mp + 30"
    by (rule civil_parts)
  obtain s where s: "s = month_start mp" by simp
  have "m = (if mp < 10 then mp + 3 else mp - 9)" "d = doy - s + 1" using c p(1) s by simp_all
  then show ?thesis using p(2-5) unfolding s [symmetric] by auto
qed

subsection \<open>Digits\<close>

lemma digits_value_append: "digits_value (s @ [c]) = 10 * digits_value s + (int (of_char c) - 48)"
  by (simp add: digits_value_def)

lemma digits_value_zeros: "digits_value (replicate k (CHR ''0'') @ s) = digits_value s"
proof -
  have "foldl (\<lambda>n c. 10 * n + (int (of_char c) - 48)) 0 (replicate k (CHR ''0'')) = 0" by (induction k) simp_all
  then show ?thesis by (simp add: digits_value_def)
qed

lemma digits_value_str_nat: "digits_value (str_nat n) = int n"
proof (induction n rule: str_nat.induct)
  case (1 n)
  show ?case
  proof (cases "n < 10")
    case True
    then have "str_nat n = [digit_char n]" by (simp add: str_nat.simps [of n])
    then show ?thesis using digit_char_code [OF True] by (simp add: digits_value_def)
  next
    case False
    then have "str_nat n = str_nat (n div 10) @ [digit_char (n mod 10)]" by (simp add: str_nat.simps [of n])
    then show ?thesis
      using 1 [OF False] digit_char_code [of "n mod 10"] by (simp add: digits_value_append zdiv_int zmod_int)
  qed
qed

lemma length_str_nat: "n < 10 ^ w \<Longrightarrow> 0 < w \<Longrightarrow> length (str_nat n) \<le> w"
proof (induction w arbitrary: n)
  case (Suc w)
  show ?case
  proof (cases "n < 10")
    case False
    then have "n div 10 < 10 ^ w" "0 < w" using Suc.prems(1) by (simp, cases w, auto)
    then show ?thesis using Suc.IH [of "n div 10"] False by (simp add: str_nat.simps [of n])
  qed (simp add: str_nat.simps [of n])
qed simp

lemma pad_length: "0 \<le> n \<Longrightarrow> n < 10 ^ w \<Longrightarrow> 0 < w \<Longrightarrow> length (pad w n) = w"
  using length_str_nat [of "nat n" w] by (simp add: pad_def Let_def nat_less_iff)

lemma pad_value: "0 \<le> n \<Longrightarrow> digits_value (pad w n) = n"
  by (simp add: pad_def Let_def digits_value_zeros digits_value_str_nat)

lemma pad_digits: "all_digits (pad w n)"
proof -
  have "48 \<le> (of_char c :: nat) \<and> of_char c \<le> (57 :: nat)" if "c \<in> set (pad w n)" for c
    using that str_nat_code by (auto simp: pad_def Let_def)
  then show ?thesis by (simp add: all_digits_def list_all_iff)
qed

subsection \<open>The round trip\<close>

definition printable :: "int \<Rightarrow> bool" where
  "printable us = (let (y, m, d) = civil (us div us_per_day) in 0 \<le> y \<and> y \<le> 9999)"

lemma clock_parts:
  fixes t :: int
  assumes "0 \<le> t" "t < us_per_day"
  shows "(t div 1000000 div 3600 * 3600 + t div 1000000 div 60 mod 60 * 60 + t div 1000000 mod 60) * 1000000 + t mod 1000000 = t"
    "0 \<le> t div 1000000 div 3600" "t div 1000000 div 3600 < 100" "0 \<le> t div 1000000 div 60 mod 60" "t div 1000000 div 60 mod 60 < 60"
    "0 \<le> t div 1000000 mod 60" "t div 1000000 mod 60 < 60" "0 \<le> t mod 1000000" "t mod 1000000 < 1000000"
proof -
  obtain s where s: "s = t div 1000000" by simp
  have t: "t = s * 1000000 + t mod 1000000" and u: "0 \<le> s" "s < 86400" using assms unfolding s us_per_day_def by simp_all
  have "s div 3600 * 3600 + s div 60 mod 60 * 60 + s mod 60 = s"
  proof -
    have "s div 3600 = s div 60 div 60" by (simp add: zdiv_zmult2_eq [symmetric])
    then show ?thesis using div_mult_mod_eq [of "s div 60" 60] div_mult_mod_eq [of s 60] by linarith
  qed
  then show "(t div 1000000 div 3600 * 3600 + t div 1000000 div 60 mod 60 * 60 + t div 1000000 mod 60) * 1000000 + t mod 1000000 = t"
    using t unfolding s [symmetric] by simp
  show "0 \<le> t div 1000000 div 3600" "t div 1000000 div 3600 < 100" "0 \<le> t div 1000000 div 60 mod 60"
    "t div 1000000 div 60 mod 60 < 60" "0 \<le> t div 1000000 mod 60" "t div 1000000 mod 60 < 60" "0 \<le> t mod 1000000"
    "t mod 1000000 < 1000000"
    unfolding s [symmetric] using u
    by (simp_all add: pos_imp_zdiv_nonneg_iff less_trans [OF pos_mod_bound])
qed

lemma iso_fields:
  assumes "printable us"
  obtains y m d a1 a2 a3 a4 where
    "iso us = pad 4 y @ ''-'' @ pad 2 m @ ''-'' @ pad 2 d @ ''T'' @ pad 2 a1 @ '':'' @ pad 2 a2 @ '':'' @ pad 2 a3 @ ''.'' @ pad 6 a4 @ ''Z''"
    and "civil (us div us_per_day) = (y, m, d)" "us mod us_per_day = (a1 * 3600 + a2 * 60 + a3) * 1000000 + a4"
    and "0 \<le> y" "y < 10 ^ 4" "1 \<le> m" "m < 13" "0 \<le> d" "d < 10 ^ 2" "0 \<le> a1" "a1 < 10 ^ 2" "0 \<le> a2" "a2 < 60"
    "0 \<le> a3" "a3 < 60" "0 \<le> a4" "a4 < 10 ^ 6"
proof -
  let ?t = "us mod us_per_day" and ?z = "us div us_per_day"
  obtain y m d where c: "civil ?z = (y, m, d)" by (rule prod_cases3)
  have y: "0 \<le> y" "y < 10 ^ 4" using assms c by (simp_all add: printable_def)
  have md: "1 \<le> m" "m < 13" "0 \<le> d" "d < 10 ^ 2" using civil_bounds [OF c] by simp_all
  have t: "0 \<le> ?t" "?t < us_per_day" by (simp_all add: us_per_day_def)
  note k = clock_parts [OF t]
  obtain a1 a2 a3 a4 where a: "a1 = ?t div 1000000 div 3600" "a2 = ?t div 1000000 div 60 mod 60" "a3 = ?t div 1000000 mod 60"
    "a4 = ?t mod 1000000" by blast
  have lits: "0 \<le> a1" "a1 < 100" "0 \<le> a2" "a2 < 60" "0 \<le> a3" "a3 < 60" "0 \<le> a4" "a4 < 1000000"
    unfolding a by (rule k)+
  have whole: "?t = (a1 * 3600 + a2 * 60 + a3) * 1000000 + a4" using k(1) unfolding a by (rule sym)
  have i: "iso us = pad 4 y @ ''-'' @ pad 2 m @ ''-'' @ pad 2 d @ ''T'' @ pad 2 a1 @ '':'' @ pad 2 a2 @ '':'' @ pad 2 a3 @ ''.'' @ pad 6 a4 @ ''Z''"
    unfolding iso_def c a Let_def prod.case by (rule refl)
  show thesis by (rule that [OF i c whole y md]) (use lits in simp_all)
qed

text \<open>
  Timestamps survive their text: for every moment of the years 0 to 9999, reading back the
  what \<open>iso\<close> writes gives the moment, so two moments with one text are equal.
\<close>

theorem timestamp_round_trip:
  assumes "printable us"
  shows "parse_iso (iso us) = Some us"
proof -
  obtain y m d a1 a2 a3 a4 where i:
    "iso us = pad 4 y @ ''-'' @ pad 2 m @ ''-'' @ pad 2 d @ ''T'' @ pad 2 a1 @ '':'' @ pad 2 a2 @ '':'' @ pad 2 a3 @ ''.'' @ pad 6 a4 @ ''Z''"
    and c: "civil (us div us_per_day) = (y, m, d)" and t: "us mod us_per_day = (a1 * 3600 + a2 * 60 + a3) * 1000000 + a4"
    and b: "0 \<le> y" "y < 10 ^ 4" "1 \<le> m" "m < 13" "0 \<le> d" "d < 10 ^ 2" "0 \<le> a1" "a1 < 10 ^ 2" "0 \<le> a2" "a2 < 60"
      "0 \<le> a3" "a3 < 60" "0 \<le> a4" "a4 < 10 ^ 6"
    using assms by (rule iso_fields)
  have "parse_iso (iso us) = Some (days_of y m d * us_per_day + us mod us_per_day)"
    unfolding parse_iso_def i t Let_def using b by (simp add: pad_length pad_value pad_digits)
  then show ?thesis unfolding days_of_civil [OF c] by simp
qed

theorem timestamp_round_trip_witness: "parse_iso (iso 1709209845000123) = Some 1709209845000123"
  by (rule timestamp_round_trip) code_simp

subsection \<open>The order of timestamps\<close>

lemma less_append: "length p = length q \<Longrightarrow> p @ r < q @ s \<longleftrightarrow> p < q \<or> p = q \<and> r < s" for p q r s :: string
proof (induction p q rule: list_induct2)
  case (Cons x p y q)
  then show ?case by (simp only: append_Cons Cons_less_Cons list.inject) blast
qed simp

lemma digits_value_Cons: "digits_value (c # s) = (int (of_char c) - 48) * 10 ^ length s + digits_value s"
proof -
  let ?f = "\<lambda>n c. 10 * n + (int (of_char c) - 48)"
  have "foldl ?f x s = x * 10 ^ length s + digits_value s" for x
    unfolding digits_value_def by (induction s rule: rev_induct) (simp_all add: algebra_simps)
  from this [of "?f 0 c"] show ?thesis unfolding digits_value_def [of "c # s"] by simp
qed

lemma digits_value_bound: "all_digits s \<Longrightarrow> 0 \<le> digits_value s \<and> digits_value s < 10 ^ length s"
proof (induction s)
  case (Cons c s)
  let ?d = "int (of_char c) - 48"
  have d: "0 \<le> ?d" "?d \<le> 9" and s: "0 \<le> digits_value s" "digits_value s < 10 ^ length s"
    using Cons by (simp_all add: all_digits_def Let_def)
  have "?d * 10 ^ length s \<le> 9 * 10 ^ length s" using d(2) by (intro mult_right_mono) simp_all
  moreover have "0 \<le> ?d * 10 ^ length s" using d(1) by simp
  ultimately show ?case unfolding digits_value_Cons length_Cons power_Suc using s by linarith
qed (simp add: digits_value_def)

lemma digits_order: "length s = length t \<Longrightarrow> all_digits s \<Longrightarrow> all_digits t \<Longrightarrow> digits_value s < digits_value t \<Longrightarrow> s < t"
proof (induction s t rule: list_induct2)
  case (Cons c s e t)
  let ?c = "int (of_char c) - 48" and ?e = "int (of_char e) - 48" and ?w = "10 ^ length s :: int"
  have b: "0 \<le> digits_value s" "digits_value s < ?w" "0 \<le> digits_value t" "digits_value t < ?w"
    using digits_value_bound [of s] digits_value_bound [of t] Cons.prems Cons.hyps by (simp_all add: all_digits_def)
  have v: "?c * ?w + digits_value s < ?e * ?w + digits_value t"
    using Cons.prems(3) Cons.hyps by (simp add: digits_value_Cons)
  consider "?c < ?e" | "?c = ?e" | "?e < ?c" by linarith
  then show ?case
  proof cases
    case 1
    then have "c < e" by (simp add: less_char_def)
    then show ?thesis by simp
  next
    case 2
    then have "c = e" by simp
    then show ?thesis using v 2 Cons by (simp add: all_digits_def)
  next
    case 3
    then have "(?e + 1) * ?w \<le> ?c * ?w" by (intro mult_right_mono) simp_all
    then show ?thesis using v b by (simp add: algebra_simps)
  qed
qed (simp add: digits_value_def)

lemma pad_order:
  assumes "0 \<le> a" "a < 10 ^ w" "0 \<le> b" "b < 10 ^ w" "0 < w"
  shows "pad w a < pad w b \<longleftrightarrow> a < b" "pad w a = pad w b \<longleftrightarrow> a = b"
proof -
  have up: "pad w x < pad w y" if "x < y" "0 \<le> x" "x < 10 ^ w" "0 \<le> y" "y < 10 ^ w" for x y
    using that assms(5) by (intro digits_order) (simp_all add: pad_length pad_digits pad_value)
  then show "pad w a < pad w b \<longleftrightarrow> a < b" using assms by (metis less_asym linorder_neqE)
  show "pad w a = pad w b \<longleftrightarrow> a = b" using assms by (metis pad_value)
qed

lemma mixed_radix:
  fixes x y k :: int
  assumes "x * k + r < y * k + q" "0 \<le> r" "q < k" "0 < k"
  shows "x < y \<or> x = y \<and> r < q"
proof (rule ccontr)
  assume n: "\<not> (x < y \<or> x = y \<and> r < q)"
  moreover from this have "x \<noteq> y" using assms(1) by auto
  ultimately have "y < x" by simp
  then have "(y + 1) * k \<le> x * k" using assms by (intro mult_right_mono) simp_all
  then show False using assms by (simp add: algebra_simps)
qed

lemma iso_increasing:
  assumes "printable a" "printable b" "a < b"
  shows "iso a < iso b"
proof -
  obtain y m d a1 a2 a3 a4 where i:
    "iso a = pad 4 y @ ''-'' @ pad 2 m @ ''-'' @ pad 2 d @ ''T'' @ pad 2 a1 @ '':'' @ pad 2 a2 @ '':'' @ pad 2 a3 @ ''.'' @ pad 6 a4 @ ''Z''"
    and c: "civil (a div us_per_day) = (y, m, d)" and t: "a mod us_per_day = (a1 * 3600 + a2 * 60 + a3) * 1000000 + a4"
    and l: "0 \<le> y" "y < 10 ^ 4" "1 \<le> m" "m < 13" "0 \<le> d" "d < 10 ^ 2" "0 \<le> a1" "a1 < 10 ^ 2" "0 \<le> a2" "a2 < 60"
      "0 \<le> a3" "a3 < 60" "0 \<le> a4" "a4 < 10 ^ 6"
    using assms(1) by (rule iso_fields)
  obtain y' m' d' b1 b2 b3 b4 where j:
    "iso b = pad 4 y' @ ''-'' @ pad 2 m' @ ''-'' @ pad 2 d' @ ''T'' @ pad 2 b1 @ '':'' @ pad 2 b2 @ '':'' @ pad 2 b3 @ ''.'' @ pad 6 b4 @ ''Z''"
    and e: "civil (b div us_per_day) = (y', m', d')" and u: "b mod us_per_day = (b1 * 3600 + b2 * 60 + b3) * 1000000 + b4"
    and r: "0 \<le> y'" "y' < 10 ^ 4" "1 \<le> m'" "m' < 13" "0 \<le> d'" "d' < 10 ^ 2" "0 \<le> b1" "b1 < 10 ^ 2" "0 \<le> b2" "b2 < 60"
      "0 \<le> b3" "b3 < 60" "0 \<le> b4" "b4 < 10 ^ 6"
    using assms(2) by (rule iso_fields)
  have less: "iso a < iso b \<longleftrightarrow> y < y' \<or> y = y' \<and> (m < m' \<or> m = m' \<and> (d < d' \<or> d = d' \<and> (a1 < b1 \<or> a1 = b1 \<and>
      (a2 < b2 \<or> a2 = b2 \<and> (a3 < b3 \<or> a3 = b3 \<and> a4 < b4)))))"
  proof -
    have w: "m < 10 ^ 2" "m' < 10 ^ 2" "0 \<le> m" "0 \<le> m'" "a2 < 10 ^ 2" "b2 < 10 ^ 2" "a3 < 10 ^ 2" "b3 < 10 ^ 2"
      using l(3,4,10,12) r(3,4,10,12) by simp_all
    note lo = l(1,2) w(3,1) l(5,6,7,8) l(9) w(5) l(11) w(7) l(13,14) and hi = r(1,2) w(4,2) r(5,6,7,8) r(9) w(6) r(11) w(8) r(13,14)
    have len: "length (pad 4 y) = 4" "length (pad 4 y') = 4" "length (pad 2 m) = 2" "length (pad 2 m') = 2" "length (pad 2 d) = 2"
      "length (pad 2 d') = 2" "length (pad 2 a1) = 2" "length (pad 2 b1) = 2" "length (pad 2 a2) = 2" "length (pad 2 b2) = 2"
      "length (pad 2 a3) = 2" "length (pad 2 b3) = 2" "length (pad 6 a4) = 6" "length (pad 6 b4) = 6"
      by (rule pad_length; (rule lo hi | simp))+
    have ord: "pad 4 y < pad 4 y' \<longleftrightarrow> y < y'" "pad 4 y = pad 4 y' \<longleftrightarrow> y = y'" "pad 2 m < pad 2 m' \<longleftrightarrow> m < m'"
      "pad 2 m = pad 2 m' \<longleftrightarrow> m = m'" "pad 2 d < pad 2 d' \<longleftrightarrow> d < d'" "pad 2 d = pad 2 d' \<longleftrightarrow> d = d'"
      "pad 2 a1 < pad 2 b1 \<longleftrightarrow> a1 < b1" "pad 2 a1 = pad 2 b1 \<longleftrightarrow> a1 = b1" "pad 2 a2 < pad 2 b2 \<longleftrightarrow> a2 < b2"
      "pad 2 a2 = pad 2 b2 \<longleftrightarrow> a2 = b2" "pad 2 a3 < pad 2 b3 \<longleftrightarrow> a3 < b3" "pad 2 a3 = pad 2 b3 \<longleftrightarrow> a3 = b3"
      "pad 6 a4 < pad 6 b4 \<longleftrightarrow> a4 < b4"
      by (rule pad_order; (rule lo hi | simp))+
    show ?thesis unfolding i j by (simp add: less_append len ord)
  qed
  consider "a div us_per_day < b div us_per_day" | "a div us_per_day = b div us_per_day" "a mod us_per_day < b mod us_per_day"
  proof -
    have "a div us_per_day \<le> b div us_per_day" using assms(3) by (simp add: zdiv_mono1 us_per_day_def)
    moreover have "a mod us_per_day < b mod us_per_day" if "a div us_per_day = b div us_per_day"
      using assms(3) div_mult_mod_eq [of a us_per_day] div_mult_mod_eq [of b us_per_day] unfolding that by linarith
    ultimately show thesis using that by (metis order_le_less)
  qed
  then show ?thesis
  proof cases
    case 1
    note co = civil_order [OF this c e]
    consider "y < y'" | "y = y'" | "y' < y" by linarith
    then have "y < y' \<or> y = y' \<and> (m < m' \<or> m = m' \<and> d < d')"
    proof cases
      case 2
      then show ?thesis using co by simp
    next
      case 3
      then have "12 * y' + m' < 12 * y + m" using l(3) r(4) by linarith
      then show ?thesis using co by simp
    qed simp
    then show ?thesis unfolding less by blast
  next
    case 2
    then have "y = y'" "m = m'" "d = d'" using c e by simp_all
    moreover have "a1 < b1 \<or> a1 = b1 \<and> (a2 < b2 \<or> a2 = b2 \<and> (a3 < b3 \<or> a3 = b3 \<and> a4 < b4))"
    proof -
      from mixed_radix [OF 2(2) [unfolded t u]] l r
      have s: "a1 * 3600 + a2 * 60 + a3 < b1 * 3600 + b2 * 60 + b3 \<or> a1 * 3600 + a2 * 60 + a3 = b1 * 3600 + b2 * 60 + b3 \<and> a4 < b4"
        by simp
      have div: "(x * 60 + v) div 60 = x" "(x * 60 + v) mod 60 = v" if "0 \<le> v" "v < 60" for x v :: int
        using that by simp_all
      have r60: "x < z \<or> x = z \<and> v < w" if "x * 60 + v < z * 60 + w" "0 \<le> v" "w < 60" for x v z w :: int
        using mixed_radix [OF that] by simp
      have sixty: "a1 * 3600 + a2 * 60 + a3 = (a1 * 60 + a2) * 60 + a3" "b1 * 3600 + b2 * 60 + b3 = (b1 * 60 + b2) * 60 + b3"
        by simp_all
      show ?thesis
      proof (cases "a1 * 60 + a2 = b1 * 60 + b2")
        case True
        have e: "a1 = b1" "a2 = b2"
          using div [OF l(9,10), of a1] div [OF r(9,10), of b1] unfolding True by simp_all
        show ?thesis using s unfolding e by simp
      next
        case False
        have "(a1 * 60 + a2) * 60 + a3 \<noteq> (b1 * 60 + b2) * 60 + b3"
        proof
          assume eq: "(a1 * 60 + a2) * 60 + a3 = (b1 * 60 + b2) * 60 + b3"
          show False using False div(1) [OF l(11,12), of "a1 * 60 + a2"] div(1) [OF r(11,12), of "b1 * 60 + b2"]
            unfolding eq by simp
        qed
        then have "(a1 * 60 + a2) * 60 + a3 < (b1 * 60 + b2) * 60 + b3" using s unfolding sixty by blast
        from r60 [OF this l(11) r(12)] False have "a1 * 60 + a2 < b1 * 60 + b2" by blast
        from r60 [OF this l(9) r(10)] show ?thesis by blast
      qed
    qed
    ultimately show ?thesis unfolding less by blast
  qed
qed

text \<open>
  The database orders and compares timestamps as text; the texts of moments of the years 0 to
  9999 order exactly as the moments do, so expiry, lease and window checks on text are checks on time.
\<close>

theorem timestamp_order:
  assumes "printable a" and "printable b"
  shows "iso a < iso b \<longleftrightarrow> a < b"
proof -
  consider "a < b" | "a = b" | "b < a" by linarith
  then show ?thesis using iso_increasing assms by cases (auto dest: less_asym)
qed

theorem timestamp_order_witness: "iso 86399999999 < iso 86400000000 \<longleftrightarrow> (86399999999 :: int) < 86400000000"
  by (rule timestamp_order) code_simp+

end
