(* ===== verification/Proof_Store.thy ===== *)
theory Proof_Store
  imports Approvals
begin

section \<open>Execution proofs\<close>

text \<open>
  Models \<^verbatim>\<open>persistence/proofs.py\<close> and the receipts of \<^verbatim>\<open>agency/execution/models.py\<close>: dispatch
  permits, execution and observation receipts, failure fingerprints and completion evaluations,
  each table a list of rows over a payload. A column that repeats a field of the payload is read
  from it; \<open>px_at\<close> is the column the listing sorts by, as a moment.
\<close>

subsection \<open>Payloads\<close>

record dispatch_permit =
  dp_id :: string
  dp_work_order :: string
  dp_snapshot :: string
  dp_epoch :: int
  dp_dependencies :: "string list"
  dp_authorities :: "string list"
  dp_approvals :: "string list"
  dp_contracts :: "string list"
  dp_policy :: string
  dp_issued :: int

record execution_proof =
  xp_operation :: string
  xp_work_order :: string
  xp_role :: string
  xp_tool :: string
  xp_contract :: string
  xp_args_hash :: string
  xp_target :: string
  xp_key :: string
  xp_attempt :: int
  xp_started :: int
  xp_ended :: int
  xp_state :: string
  xp_result :: "string option"

record observation_proof =
  vp_operation :: string
  vp_target :: string
  vp_expected :: json
  vp_observed :: json
  vp_method :: string
  vp_evidence :: "string list"
  vp_at :: int
  vp_matches :: bool

record failure_fingerprint =
  ff_fingerprint :: string
  ff_class :: string
  ff_node :: string
  ff_input_hash :: string
  ff_snapshot_hash :: string
  ff_contract_hash :: string
  ff_environment :: string
  ff_error_class :: string
  ff_error_code :: "string option"
  ff_observed :: json

datatype criterion_status = Crit_SATISFIED | Crit_UNSATISFIED | Crit_STALE | Crit_BLOCKED | Crit_NOT_APPLICABLE

record criterion_result =
  cr_ref :: string
  cr_status :: criterion_status
  cr_missing :: "string list"
  cr_stale :: "string list"

record completion_evaluation =
  cv_complete :: bool
  cv_criteria :: "criterion_result list"
  cv_coverage :: pyfloat
  cv_evidence_score :: "pyfloat option"
  cv_quality_score :: "pyfloat option"
  cv_confidence :: pyfloat

subsection \<open>Tables\<close>

record 'p proof_row =
  px_key :: string
  px_run :: string
  px_tenant :: string
  px_project :: string
  px_at :: int
  px_payload :: 'p

record fingerprint_row =
  fx_run :: string
  fx_tenant :: string
  fx_project :: string
  fx_operation :: string
  fx_payload :: failure_fingerprint

record proof_db = approval_db +
  pf_permits :: "dispatch_permit proof_row list"
  pf_executions :: "execution_proof proof_row list"
  pf_observations :: "observation_proof proof_row list"
  pf_failures :: "fingerprint_row list"
  pf_completions :: "completion_evaluation proof_row list"

type_synonym ('x, 'a) proof_prog = "('x proof_db_scheme, amc_error, 'a) prog"

text \<open>\<open>run_id\<close> is \<open>NOT NULL\<close>; on a known key only the payload and the order column change.\<close>

definition with_run :: "string option \<Rightarrow> (string \<Rightarrow> ('x, unit) proof_prog) \<Rightarrow> ('x, unit) proof_prog" where
  "with_run run f = (case run of None \<Rightarrow> raise (TrustError IntegrityError) | Some r \<Rightarrow> f r)"

definition put_proof :: "'p proof_row \<Rightarrow> 'p proof_row list \<Rightarrow> 'p proof_row list" where
  "put_proof v rows = insert_or_update px_key (\<lambda>n r. r\<lparr>px_at := px_at n, px_payload := px_payload n\<rparr>) v rows"

definition put_execution_receipt :: "string option \<Rightarrow> string \<Rightarrow> string \<Rightarrow> execution_proof \<Rightarrow> ('x, unit) proof_prog" where
  "put_execution_receipt run tenant project x = with_run run (\<lambda>r. atomic_db (modify (pf_executions_update (put_proof
     \<lparr>px_key = xp_operation x, px_run = r, px_tenant = tenant, px_project = project, px_at = xp_started x, px_payload = x\<rparr>))))"

definition put_observation_receipt :: "string option \<Rightarrow> string \<Rightarrow> string \<Rightarrow> observation_proof \<Rightarrow> ('x, unit) proof_prog" where
  "put_observation_receipt run tenant project x = with_run run (\<lambda>r. atomic_db (modify (pf_observations_update (put_proof
     \<lparr>px_key = vp_operation x, px_run = r, px_tenant = tenant, px_project = project, px_at = vp_at x, px_payload = x\<rparr>))))"

definition put_dispatch_permit :: "string option \<Rightarrow> string \<Rightarrow> string \<Rightarrow> dispatch_permit \<Rightarrow> ('x, unit) proof_prog" where
  "put_dispatch_permit run tenant project x = with_run run (\<lambda>r. atomic_db (modify (pf_permits_update (put_proof
     \<lparr>px_key = dp_id x, px_run = r, px_tenant = tenant, px_project = project, px_at = dp_issued x, px_payload = x\<rparr>))))"

definition put_failure_fingerprint :: "string \<Rightarrow> string \<Rightarrow> string \<Rightarrow> string \<Rightarrow> failure_fingerprint \<Rightarrow> ('x, unit) proof_prog" where
  "put_failure_fingerprint run tenant project operation x = atomic_db (modify (pf_failures_update
     (upsert (ff_fingerprint \<circ> fx_payload)
       \<lparr>fx_run = run, fx_tenant = tenant, fx_project = project, fx_operation = operation, fx_payload = x\<rparr>)))"

definition put_completion_evaluation :: "env \<Rightarrow> string \<Rightarrow> string \<Rightarrow> string \<Rightarrow> completion_evaluation \<Rightarrow> ('x, string) proof_prog" where
  "put_completion_evaluation V run tenant project x =
    bnd (uuid4_hex V) (\<lambda>u.
    bnd (utc_now V) (\<lambda>created.
    bnd (atomic_db (
      bnd (gets (\<lambda>db. row_by px_key u (pf_completions db))) (\<lambda>known.
      bnd (guard (known = None) (TrustError IntegrityError)) (\<lambda>_.
      modify (pf_completions_update (\<lambda>rs. rs @
        [\<lparr>px_key = u, px_run = run, px_tenant = tenant, px_project = project, px_at = created, px_payload = x\<rparr>])))))) (\<lambda>_.
    ret u)))"

subsection \<open>Listings\<close>

definition proofs_of :: "string \<Rightarrow> 'p proof_row list \<Rightarrow> 'p proof_row list" where
  "proofs_of run rows = sort_key px_at (filter (\<lambda>r. px_run r = run) rows)"

definition list_execution_receipts :: "string \<Rightarrow> ('x, execution_proof proof_row list) proof_prog" where
  "list_execution_receipts run = gets (\<lambda>db. proofs_of run (pf_executions db))"

definition list_observation_receipts :: "string \<Rightarrow> ('x, observation_proof proof_row list) proof_prog" where
  "list_observation_receipts run = gets (\<lambda>db. proofs_of run (pf_observations db))"

definition list_dispatch_permits :: "string \<Rightarrow> ('x, dispatch_permit proof_row list) proof_prog" where
  "list_dispatch_permits run = gets (\<lambda>db. proofs_of run (pf_permits db))"

definition list_failure_fingerprints :: "string \<Rightarrow> ('x, fingerprint_row list) proof_prog" where
  "list_failure_fingerprints run = gets (\<lambda>db. sort_key fx_operation (filter (\<lambda>r. fx_run r = run) (pf_failures db)))"

definition get_latest_completion_evaluation :: "string \<Rightarrow> ('x, completion_evaluation proof_row option) proof_prog" where
  "get_latest_completion_evaluation run = gets (\<lambda>db.
     case sort_key (\<lambda>r. - px_at r) (filter (\<lambda>r. px_run r = run) (pf_completions db)) of [] \<Rightarrow> None | r # _ \<Rightarrow> Some r)"

record proof_bundle =
  pb_permits :: "dispatch_permit proof_row list"
  pb_executions :: "execution_proof proof_row list"
  pb_observations :: "observation_proof proof_row list"
  pb_failures :: "fingerprint_row list"
  pb_completion :: "completion_evaluation option"
  pb_dispatch_count :: nat
  pb_execution_count :: nat
  pb_observation_count :: nat
  pb_matched_count :: nat
  pb_failure_count :: nat
  pb_complete :: "bool option"
  pb_confidence :: "pyfloat option"

definition get_run_proof_bundle :: "string \<Rightarrow> ('x, proof_bundle) proof_prog" where
  "get_run_proof_bundle run =
    bnd (list_execution_receipts run) (\<lambda>xs.
    bnd (list_observation_receipts run) (\<lambda>vs.
    bnd (list_dispatch_permits run) (\<lambda>ps.
    bnd (list_failure_fingerprints run) (\<lambda>fs.
    bnd (get_latest_completion_evaluation run) (\<lambda>completion.
    let c = map_option px_payload completion in
    ret \<lparr>pb_permits = ps, pb_executions = xs, pb_observations = vs, pb_failures = fs, pb_completion = c,
      pb_dispatch_count = length ps, pb_execution_count = length xs, pb_observation_count = length vs,
      pb_matched_count = length (filter (vp_matches \<circ> px_payload) vs), pb_failure_count = length fs,
      pb_complete = map_option cv_complete c, pb_confidence = map_option cv_confidence c\<rparr>)))))"

end
