(* ===== verification/Broker.thy ===== *)
theory Broker
  imports Calendar Proof_Store Adapters Trust_Kernel
begin

section \<open>The authorization broker\<close>

text \<open>
  Models \<^verbatim>\<open>agency/actions/broker.py\<close> over the whole database of the action plane, and
  \<^verbatim>\<open>authorize\<close> of \<^verbatim>\<open>agency/vnexus/service.py\<close>. \<open>gateway_db\<close> adds to the tables so far the
  project workspaces and artifact heads the broker reads and the state of the trust kernel's
  store. Texts that contain a sign beyond Latin-1 (an arrow, a less-or-equal sign) write it in
  ASCII.
\<close>

subsection \<open>State\<close>

record workspace =
  wk_project :: string
  wk_tenant :: string

record artifact_head =
  ah_id :: string
  ah_project :: string
  ah_version :: int
  ah_hash :: "string option"

record 's gateway_db = proof_db +
  gd_workspaces :: "workspace list"
  gd_artifacts :: "artifact_head list"
  gd_trust :: 's

type_synonym ('s, 'a) gw = "('s gateway_db, amc_error, 'a) prog"

text \<open>A call of the trust kernel: it shares the clock and the identifiers, and raises its own error.\<close>

definition on_trust :: "('s trust_world, rel_error, 'a) prog \<Rightarrow> ('s, 'a) gw" where
  "on_trust m = (\<lambda>db. case m \<lparr>w_reads = w_reads db, w_uuids = w_uuids db, tw_store = gd_trust db\<rparr> of
     (r, w) \<Rightarrow> (map_sum TrustError id r, db\<lparr>w_reads := w_reads w, w_uuids := w_uuids w, gd_trust := tw_store w\<rparr>))"

definition moment_of :: "env \<Rightarrow> int option \<Rightarrow> ('s, int) gw" where
  "moment_of V now = (case now of Some t \<Rightarrow> ret t | None \<Rightarrow> utc_now V)"

subsection \<open>Scope\<close>

definition subject_execution :: string where "subject_execution = ''ACTION_EXECUTION''"
definition subject_spend :: string where "subject_spend = ''ACTION_SPEND''"
definition subject_governance :: string where "subject_governance = ''ACTION_GOVERNANCE''"
definition approval_policy_version :: string where "approval_policy_version = ''amc-action-approval/v1''"
definition run_pipeline :: string where "run_pipeline = ''governed_action''"
definition finance_approver_roles :: "string list" where "finance_approver_roles = [''owner'', ''admin'']"
definition governance_approver_roles :: "string list" where "governance_approver_roles = [''owner'', ''admin'']"
definition freeze_roles :: "string list" where "freeze_roles = [''owner'', ''admin'', ''operator'', ''approver'', ''reviewer'']"
definition lift_roles :: "string list" where "lift_roles = [''owner'', ''admin'']"
definition autonomy_raise_roles :: "string list" where "autonomy_raise_roles = [''owner'', ''admin'']"
definition read_only_roles :: "string list" where
  "read_only_roles = [''viewer'', ''read_only'', ''readonly'', ''guest'', ''auditor'']"

lemmas subject_defs = subject_execution_def subject_spend_def subject_governance_def

definition get_project_workspace :: "string \<Rightarrow> ('s, workspace option) gw" where
  "get_project_workspace project = gets (\<lambda>db. row_by wk_project project (gd_workspaces db))"

text \<open>The broker's \<open>authorize_scope\<close> with the \<open>authorize\<close> it wraps, each exception as it leaves.\<close>

definition authorize_scope :: "principal \<Rightarrow> string \<Rightarrow> bool \<Rightarrow> ('s, unit) gw" where
  "authorize_scope p project write =
    bnd (get_project_workspace project) (\<lambda>found.
    case found of
      None \<Rightarrow> raise (LookupErr (''project '' @ project @ '' not found''))
    | Some w \<Rightarrow>
        bnd (guard (wk_tenant w = pr_tenant p) (ActionForbidden ''resource belongs to a different tenant'')) (\<lambda>_.
        bnd (guard (can_access_project p project) (ActionForbidden ''principal may not access this project'')) (\<lambda>_.
        guard (\<not> (write \<and> principal_role p \<in> set read_only_roles))
          (ActionForbidden (''role '' @ repr_str (pr_role p) @ '' is read-only'')))))"

definition visible :: "principal \<Rightarrow> action_row option \<Rightarrow> ('s, action_row) gw" where
  "visible p row = (case row of
     None \<Rightarrow> raise (LookupErr ''action not found'')
   | Some r \<Rightarrow> if ac_tenant r \<noteq> pr_tenant p \<or> \<not> can_access_project p (ac_project r)
       then raise (LookupErr ''action not found'') else ret r)"

definition require_role :: "principal \<Rightarrow> string list \<Rightarrow> string \<Rightarrow> ('s, unit) gw" where
  "require_role p allowed what = guard (principal_role p \<in> set allowed)
     (ActionForbidden (what @ '' requires one of '' @ repr_str_list (sort allowed)))"

subsection \<open>Dependencies\<close>

fun resolve_refs :: "artifact_head list \<Rightarrow> string \<Rightarrow> string list \<Rightarrow> amc_error + (string \<times> string) list" where
  "resolve_refs heads project [] = Inr []"
| "resolve_refs heads project (ref # refs) =
    (case row_by ah_id ref heads of
       None \<Rightarrow> Inl (DependencyInvalid (''DEPENDENCY_NOT_FOUND: '' @ ref))
     | Some h \<Rightarrow>
         if ah_project h \<noteq> project then Inl (DependencyInvalid (''DEPENDENCY_NOT_FOUND: '' @ ref))
         else if some_or_empty (ah_hash h) = [] then Inl (DependencyInvalid (''DEPENDENCY_UNHASHED: '' @ ref))
         else map_sum id (\<lambda>out. (ref, ''v'' @ str_int (ah_version h) @ '':'' @ some_or_empty (ah_hash h)) # out)
                (resolve_refs heads project refs))"

definition resolve_dependencies :: "string \<Rightarrow> string list \<Rightarrow> ('s, (string \<times> string) list) gw" where
  "resolve_dependencies project refs =
    bnd (gets gd_artifacts) (\<lambda>heads. of_sum (resolve_refs heads project (sort (remdups refs))))"

definition current_heads :: "artifact_head list \<Rightarrow> string \<Rightarrow> (string \<times> string) list \<Rightarrow> (string \<times> string) list" where
  "current_heads heads project pinned = (case resolve_refs heads project (sort (remdups (map fst pinned))) of
     Inr out \<Rightarrow> out | Inl _ \<Rightarrow> map (\<lambda>(ref, h). (ref, ''MISSING'')) pinned)"

definition current_dependencies :: "string \<Rightarrow> (string \<times> string) list \<Rightarrow> ('s, (string \<times> string) list) gw" where
  "current_dependencies project pinned = gets (\<lambda>db. current_heads (gd_artifacts db) project pinned)"

subsection \<open>Opening approvals\<close>

definition required_subjects :: "risk_assessment \<Rightarrow> bool \<Rightarrow> string list" where
  "required_subjects risk needs_execution =
    (if needs_execution \<or> ra_requires_approval risk then [subject_execution] else []) @
    (if ra_requires_financial_approval risk then [subject_spend] else []) @
    (if ra_requires_privileged_review risk then [subject_governance] else [])"

definition approval_run_id :: "(bytes \<Rightarrow> string) \<Rightarrow> string \<Rightarrow> string" where
  "approval_run_id H aid = ''action-'' @ take 24 (chash H (JDict [(''action'', JStr aid)]))"

definition open_anchor_run :: "env \<Rightarrow> principal \<Rightarrow> string \<Rightarrow> string \<Rightarrow> string \<Rightarrow> bool \<Rightarrow> ('s, string) gw" where
  "open_anchor_run V p aid tenant project needs_approval =
    (let run = approval_run_id (env_hash V) aid in
     bnd (get_run_record run) (\<lambda>known.
     bnd (on_true (known = None) (bnd (create_run_record V run tenant project run_pipeline
            (if needs_approval then ''needs_approval'' else ''running'') (Some (pr_user p))
            [(subject_spend, \<lparr>rp_roles = finance_approver_roles, rp_no_self = True\<rparr>),
             (subject_governance, \<lparr>rp_roles = governance_approver_roles, rp_no_self = True\<rparr>)]) (\<lambda>_. ret ()))) (\<lambda>_.
     ret run)))"

definition approval_reason :: "string \<Rightarrow> string \<Rightarrow> string" where
  "approval_reason subject title =
    (if subject = subject_execution then ''Approve this exact action: '' @ title
     else if subject = subject_spend then ''Approve the spend for: '' @ title
     else ''Privileged review of a governance change: '' @ title)"

definition open_approvals :: "env \<Rightarrow> string \<Rightarrow> string \<Rightarrow> string \<Rightarrow> string \<Rightarrow> string list \<Rightarrow> string \<Rightarrow> string
    \<Rightarrow> ('s, (string \<times> string) list) gw" where
  "open_approvals V run aid tenant project subjects binding_hash title =
    each (\<lambda>subject.
      bnd (create_approval_request V run tenant project (approval_reason subject title) subject (Some aid)
             (Some (take 16 binding_hash)) (Some binding_hash) ''human-review'' approval_policy_version []) (\<lambda>a.
      ret (subject, ap_id a))) subjects"

subsection \<open>Checking approvals\<close>

definition past :: "int \<Rightarrow> string \<Rightarrow> bool" where
  "past now expires = (iso now > expires)"

definition after :: "int option \<Rightarrow> string \<Rightarrow> bool" where
  "after decided expires = (case decided of None \<Rightarrow> False | Some t \<Rightarrow> past t expires)"

fun latest_per_subject :: "string \<Rightarrow> approval list \<Rightarrow> (string \<times> approval) list" where
  "latest_per_subject aid [] = []"
| "latest_per_subject aid (a # as) =
    (if ap_subject_ref a = aid
     then (ap_subject_type a, a) # filter (\<lambda>(t, _). t \<noteq> ap_subject_type a) (latest_per_subject aid as)
     else latest_per_subject aid as)"

text \<open>\<open>_action_approvals\<close>: the newest approval of each subject on the anchor run.\<close>

definition approvals_of :: "approval list \<Rightarrow> action_row \<Rightarrow> (string \<times> approval) list" where
  "approvals_of as row = (let run = some_or_empty (ac_run row) in
     if run = [] then [] else latest_per_subject (ac_id row)
       (sort_key (\<lambda>a. - ap_created a) (filter (\<lambda>a. ap_run a = run) as)))"

definition action_approvals :: "action_row \<Rightarrow> ('s, (string \<times> approval) list) gw" where
  "action_approvals row = gets (\<lambda>db. approvals_of (pd_approvals db) row)"

record approval_check =
  ck_satisfied :: bool
  ck_rejected :: bool
  ck_expired :: bool
  ck_stale :: bool
  ck_pending :: "string list"
  ck_reasons :: "string list"
  ck_approvals :: "(string \<times> approval) list"

text \<open>What one approval that was found says: the reasons, and whether it is rejected, late, stale or pending.\<close>

record subject_check =
  sc_reasons :: "string list"
  sc_rejected :: bool
  sc_expired :: bool
  sc_stale :: bool
  sc_pending :: bool

definition says :: "bool \<Rightarrow> string \<Rightarrow> string \<Rightarrow> string list" where
  "says b subject code = (if b then [subject @ '':'' @ code] else [])"

definition check_subject :: "bool \<Rightarrow> action_row \<Rightarrow> string \<Rightarrow> approval \<Rightarrow> subject_check" where
  "check_subject self_ok row subject a =
    (let scope = (ap_tenant a, ap_project a) \<noteq> (ac_tenant row, ac_project row);
         mismatch = ap_subject_hash a \<noteq> Some (ac_binding_hash row);
         stale = ap_status a = Ap_STALE;
         resolved = ap_status a = Ap_RESOLVED;
         rejected = resolved \<and> ap_decision a \<noteq> Some ''approve'';
         approved = resolved \<and> ap_decision a = Some ''approve'';
         late = approved \<and> after (ap_decided a) (ac_expires row);
         self = approved \<and> ap_reviewer a = Some (ac_actor row) \<and> (subject = subject_governance \<or> \<not> self_ok)
     in \<lparr>sc_reasons = says scope subject ''APPROVAL_SCOPE_MISMATCH'' @ says mismatch subject ''SUBJECT_HASH_MISMATCH'' @
           says stale subject ''APPROVAL_STALE'' @ says rejected subject ''APPROVAL_REJECTED'' @
           says late subject ''APPROVED_AFTER_EXPIRY'' @ says self subject ''SELF_APPROVAL'',
         sc_rejected = rejected, sc_expired = late, sc_stale = (mismatch \<or> stale), sc_pending = (\<not> stale \<and> \<not> resolved)\<rparr>)"

definition check_found :: "bool \<Rightarrow> action_row \<Rightarrow> (string \<times> approval) list \<Rightarrow> int \<Rightarrow> approval_check" where
  "check_found self_ok row found now =
    (let subjects = bd_subjects (ac_binding row) in
     if subjects = [] then \<lparr>ck_satisfied = False, ck_rejected = False, ck_expired = False, ck_stale = False, ck_pending = [],
       ck_reasons = [''NO_APPROVAL_REQUIRED_BY_BINDING''], ck_approvals = []\<rparr>
     else
       let one = (\<lambda>s. map_option (check_subject self_ok row s) (map_of found s));
           checks = List.map_filter one subjects;
           seen = List.map_filter (\<lambda>s. map_option (Pair s) (map_of found s)) subjects;
           deciders = map (\<lambda>(_, a). ap_reviewer a)
             (filter (\<lambda>(_, a). ap_status a = Ap_RESOLVED \<and> ap_decision a = Some ''approve'') seen);
           pending = filter (\<lambda>s. case one s of None \<Rightarrow> False | Some c \<Rightarrow> sc_pending c) subjects;
           expired = past now (ac_expires row);
           reasons = concat (map (\<lambda>s. case one s of None \<Rightarrow> [s @ '':APPROVAL_MISSING''] | Some c \<Rightarrow> sc_reasons c) subjects) @
             (if \<not> distinct deciders then [''SAME_REVIEWER_FOR_MULTIPLE_APPROVALS''] else []) @
             (if expired then [''ACTION_EXPIRED''] else [])
       in \<lparr>ck_satisfied = (reasons = [] \<and> pending = []), ck_rejected = list_ex sc_rejected checks,
           ck_expired = (list_ex sc_expired checks \<or> expired), ck_stale = list_ex sc_stale checks,
           ck_pending = pending, ck_reasons = reasons, ck_approvals = seen\<rparr>)"

definition check_approvals :: "config \<Rightarrow> action_row \<Rightarrow> int \<Rightarrow> ('s, approval_check) gw" where
  "check_approvals C row now =
    bnd (action_approvals row) (\<lambda>found. ret (check_found (self_approval_allowed C) row found now))"

fun approval_status_value :: "approval_status \<Rightarrow> string" where
  "approval_status_value Ap_PENDING = ''pending''"
| "approval_status_value Ap_RESOLVED = ''resolved''"
| "approval_status_value Ap_STALE = ''stale''"

definition approval_summary :: "string \<times> approval \<Rightarrow> json" where
  "approval_summary = (\<lambda>(subject, a). JDict [(''subject'', JStr subject), (''approval_id'', JStr (ap_id a)),
     (''status'', JStr (approval_status_value (ap_status a))), (''decision'', opt_str (ap_decision a)),
     (''reviewer'', opt_str (ap_reviewer a)), (''decided_at'', opt_str (map_option isoformat (ap_decided a))),
     (''subject_hash'', opt_str (ap_subject_hash a))])"

definition stale_open_approvals :: "env \<Rightarrow> action_row \<Rightarrow> string \<Rightarrow> ('s, string list) gw" where
  "stale_open_approvals V row reason =
    bnd (action_approvals row) (\<lambda>found.
    bnd (each (\<lambda>a. bnd (mark_approval_stale V (ap_id a) reason) (\<lambda>_. ret (ap_id a)))
           (filter (\<lambda>a. ap_status a = Ap_PENDING) (map snd found))) (\<lambda>ids. ret (sort ids)))"

end
