(* ===== verification/Release.thy ===== *)
theory Release
  imports Risk Runtime
begin

section \<open>Release evidence and the uncertainty budget\<close>

text \<open>
  Models \<^verbatim>\<open>agency/ace_release.py\<close>: the budget of unresolved effects, signed release evidence and
  the promotion decision. HMAC-SHA-256 is a parameter; \<open>json_text\<close> is \<open>json.dumps\<close> with sorted
  keys, compact separators and ASCII output. pydantic's field patterns are the types and the
  conditions of \<open>bundle_valid\<close>.
\<close>

subsection \<open>The uncertainty budget\<close>

datatype effect_status = Ef_INTENT | Ef_DISPATCHING | Ef_UNCONFIRMED | Ef_RECONCILING | Ef_COMMITTED | Ef_FAILED
  | Ef_COMPENSATION_REQUIRED | Ef_ABANDONED

record effect_observation =
  eo_digest :: string
  eo_risk :: risk_class
  eo_status :: effect_status
  eo_updated :: int

record uncertainty_policy =
  up_max_total :: nat
  up_max_critical :: nat
  up_max_seconds :: int
  up_critical :: "risk_class list"

definition default_uncertainty_policy :: uncertainty_policy where
  "default_uncertainty_policy = \<lparr>up_max_total = 0, up_max_critical = 0, up_max_seconds = 0, up_critical = [R3, R4, R5]\<rparr>"

record uncertainty_assessment =
  ua_allow :: bool
  ua_total :: nat
  ua_critical :: nat
  ua_oldest :: int
  ua_blockers :: "string list"

definition unresolved_effects :: "effect_observation list \<Rightarrow> effect_observation list" where
  "unresolved_effects obs = filter (\<lambda>x. eo_status x \<in> {Ef_UNCONFIRMED, Ef_RECONCILING, Ef_COMPENSATION_REQUIRED}) obs"

definition age_seconds :: "int \<Rightarrow> effect_observation \<Rightarrow> int" where
  "age_seconds now x = max 0 ((now - eo_updated x) div 1000000)"

definition note_if :: "bool \<Rightarrow> 'a \<Rightarrow> 'a list" where
  "note_if b x = (if b then [x] else [])"

definition assess_uncertainty :: "effect_observation list \<Rightarrow> int \<Rightarrow> uncertainty_policy \<Rightarrow> bool \<Rightarrow> uncertainty_assessment" where
  "assess_uncertainty obs now P complete =
    (let un = unresolved_effects obs;
         count = length un;
         critical = length (filter (\<lambda>x. eo_risk x \<in> set (up_critical P)) un);
         future = list_ex (\<lambda>x. eo_updated x > now) un;
         oldest = foldr (\<lambda>x m. max (age_seconds now x) m) un 0;
         blockers = note_if (\<not> complete) ''UNCERTAINTY_SNAPSHOT_INCOMPLETE'' @ note_if future ''EFFECT_TIMESTAMP_IN_FUTURE'' @
           note_if (count > up_max_total P) ''UNCERTAINTY_COUNT_EXCEEDED'' @
           note_if (critical > up_max_critical P) ''CRITICAL_UNCERTAINTY_EXCEEDED'' @
           note_if (oldest > up_max_seconds P) ''UNCERTAINTY_AGE_EXCEEDED''
     in \<lparr>ua_allow = (blockers = []), ua_total = count, ua_critical = critical, ua_oldest = oldest, ua_blockers = blockers\<rparr>)"

lemma no_debt: "ua_allow (assess_uncertainty obs now default_uncertainty_policy True) \<longleftrightarrow> unresolved_effects obs = []"
  by (cases "unresolved_effects obs") (auto simp: assess_uncertainty_def Let_def note_if_def default_uncertainty_policy_def)

subsection \<open>JSON text\<close>

definition u_escape :: "nat \<Rightarrow> string" where
  "u_escape n = [CHR 0x5C] @ ''u00'' @ [hex_digit (n div 16), hex_digit (n mod 16)]"

definition json_char :: "char \<Rightarrow> string" where
  "json_char c = (let n = of_char c :: nat in
     if n = 34 then [CHR 0x5C, CHR 0x22] else if n = 92 then [CHR 0x5C, CHR 0x5C]
     else if n = 10 then [CHR 0x5C, CHR ''n''] else if n = 13 then [CHR 0x5C, CHR ''r'']
     else if n = 9 then [CHR 0x5C, CHR ''t''] else if n = 8 then [CHR 0x5C, CHR ''b'']
     else if n = 12 then [CHR 0x5C, CHR ''f''] else if n < 32 \<or> n > 126 then u_escape n else [c])"

definition json_string :: "string \<Rightarrow> string" where
  "json_string s = [CHR 0x22] @ concat (map json_char s) @ [CHR 0x22]"

text \<open>The values a release bundle dumps to: nothing else of \<open>json.dumps\<close> is used.\<close>

fun json_text :: "json \<Rightarrow> string" where
  "json_text JNull = ''null''"
| "json_text (JBool b) = (if b then ''true'' else ''false'')"
| "json_text (JInt i) = str_int i"
| "json_text (JStr s) = json_string s"
| "json_text (JList xs) = ''['' @ join '','' (map json_text xs) @ '']''"
| "json_text (JDict kvs) = ''{'' @ join '','' (map (\<lambda>(k, t). json_string k @ '':'' @ t)
     (sort_key fst (map (\<lambda>(k, v). (k, json_text v)) kvs))) @ ''}''"
| "json_text _ = []"

subsection \<open>Signed evidence\<close>

datatype release_stage = Stage_SHADOW | Stage_INTERNAL_SANDBOX | Stage_CANARY | Stage_LIMITED_PRODUCTION | Stage_FULL_PRODUCTION

fun release_stage_value :: "release_stage \<Rightarrow> string" where
  "release_stage_value Stage_SHADOW = ''shadow''"
| "release_stage_value Stage_INTERNAL_SANDBOX = ''internal_sandbox''"
| "release_stage_value Stage_CANARY = ''canary''"
| "release_stage_value Stage_LIMITED_PRODUCTION = ''limited_production''"
| "release_stage_value Stage_FULL_PRODUCTION = ''full_production''"

datatype gate_status = Gate_PASS | Gate_FAIL | Gate_UNVERIFIED

fun gate_status_value :: "gate_status \<Rightarrow> string" where
  "gate_status_value Gate_PASS = ''PASS''"
| "gate_status_value Gate_FAIL = ''FAIL''"
| "gate_status_value Gate_UNVERIFIED = ''UNVERIFIED''"

record gate_result =
  gt_gate :: string
  gt_status :: gate_status
  gt_commit :: string
  gt_evidence :: string

record evidence_bundle =
  eb_commit :: string
  eb_policy :: string
  eb_contract :: string
  eb_stage :: release_stage
  eb_issued :: int
  eb_expires :: int
  eb_gates :: "gate_result list"
  eb_faults :: "string list"
  eb_receipts :: "string list"
  eb_reviewer :: "string option"
  eb_approval :: "string option"
  eb_key :: string
  eb_signature :: string

definition hex_string :: "nat \<Rightarrow> string \<Rightarrow> bool" where
  "hex_string n s = (length s = n \<and> list_all (\<lambda>c. c \<in> set ''0123456789abcdef'') s)"

definition bundle_valid :: "evidence_bundle \<Rightarrow> bool" where
  "bundle_valid b = (hex_string 40 (eb_commit b) \<and> eb_policy b \<noteq> [] \<and> hex_string 64 (eb_contract b) \<and>
     eb_issued b < eb_expires b \<and> distinct (map gt_gate (eb_gates b)) \<and> list_all (hex_string 64) (eb_receipts b) \<and>
     list_all (\<lambda>g. gt_gate g \<noteq> [] \<and> length (gt_gate g) \<le> 100 \<and> hex_string 40 (gt_commit g) \<and> gt_evidence g \<noteq> [] \<and>
       length (gt_evidence g) \<le> 2048) (eb_gates b) \<and>
     eb_key b \<noteq> [] \<and> hex_string 64 (eb_signature b))"

definition gate_json :: "gate_result \<Rightarrow> json" where
  "gate_json g = JDict [(''gate'', JStr (gt_gate g)), (''status'', JStr (gate_status_value (gt_status g))),
     (''source_commit'', JStr (gt_commit g)), (''evidence_ref'', JStr (gt_evidence g))]"

definition bundle_json :: "env \<Rightarrow> evidence_bundle \<Rightarrow> json" where
  "bundle_json V b = JDict [(''schema_version'', JStr ''ace.release-evidence.v1''), (''commit_sha'', JStr (eb_commit b)),
     (''policy_version'', JStr (eb_policy b)), (''contract_digest'', JStr (eb_contract b)),
     (''target_stage'', JStr (release_stage_value (eb_stage b))), (''issued_at'', JStr (env_dt_json V (eb_issued b))),
     (''expires_at'', JStr (env_dt_json V (eb_expires b))), (''gates'', JList (map gate_json (eb_gates b))),
     (''fault_injection_refs'', str_list (eb_faults b)), (''operation_receipt_digests'', str_list (eb_receipts b)),
     (''reviewer_identity'', opt_str (eb_reviewer b)), (''human_approval_ref'', opt_str (eb_approval b)),
     (''signing_key_id'', JStr (eb_key b))]"

definition bundle_text :: "env \<Rightarrow> evidence_bundle \<Rightarrow> bytes" where
  "bundle_text V b = json_text (bundle_json V b)"

text \<open>\<open>hmac.new(key, message, sha256).hexdigest()\<close>.\<close>

type_synonym hmac = "bytes \<Rightarrow> bytes \<Rightarrow> string"

definition sign_evidence :: "hmac \<Rightarrow> env \<Rightarrow> evidence_bundle \<Rightarrow> bytes \<Rightarrow> string + evidence_bundle" where
  "sign_evidence M V b key =
    (if length key < 32 then Inl ''protected signing key must contain at least 32 bytes''
     else Inr (b\<lparr>eb_signature := M key (bundle_text V b)\<rparr>))"

definition verify_evidence :: "hmac \<Rightarrow> env \<Rightarrow> evidence_bundle \<Rightarrow> (string \<times> bytes) list \<Rightarrow> bool" where
  "verify_evidence M V b keys = (case map_of keys (eb_key b) of
     None \<Rightarrow> False
   | Some key \<Rightarrow> if length key < 32 then False else eb_signature b = M key (bundle_text V b))"

subsection \<open>Promotion\<close>

record promotion_decision =
  pn_authorized :: bool
  pn_stage :: release_stage
  pn_commit :: string
  pn_reasons :: "string list"
  pn_evidence :: string

definition required_gates :: "string list" where
  "required_gates = [''dependency_consistency'', ''backend_sqlite'', ''backend_postgresql'', ''schema_parity'', ''frontend_build'',
     ''browser_e2e'', ''dependency_audit'', ''fault_injection'', ''security_regression'', ''evidence_integrity'']"

record release_context =
  rx_head :: string
  rx_policy :: string
  rx_contract :: string
  rx_stage :: release_stage
  rx_now :: int
  rx_uncertainty :: uncertainty_assessment
  rx_gates :: "string list"
  rx_reviewers :: "string list"
  rx_live :: bool

definition promotion_problems :: "hmac \<Rightarrow> env \<Rightarrow> evidence_bundle \<Rightarrow> (string \<times> bytes) list \<Rightarrow> release_context \<Rightarrow> string list" where
  "promotion_problems M V b keys X =
    note_if (\<not> verify_evidence M V b keys) ''INVALID_EVIDENCE_SIGNATURE'' @
    note_if (eb_commit b \<noteq> rx_head X \<or> list_ex (\<lambda>g. gt_commit g \<noteq> rx_head X) (eb_gates b)) ''SOURCE_COMMIT_MISMATCH'' @
    note_if (rx_stage X \<noteq> eb_stage b) ''STAGE_MISMATCH'' @
    note_if (eb_policy b \<noteq> rx_policy X) ''POLICY_VERSION_MISMATCH'' @
    note_if (eb_contract b \<noteq> rx_contract X) ''CONTRACT_DIGEST_MISMATCH'' @
    note_if (\<not> (eb_issued b \<le> rx_now X \<and> rx_now X < eb_expires b)) ''EXPIRED_OR_FUTURE_EVIDENCE'' @
    note_if (list_ex (\<lambda>g. g \<notin> gt_gate ` set (eb_gates b)) (rx_gates X)) ''MISSING_REQUIRED_GATES'' @
    note_if (list_ex (\<lambda>g. gt_status g \<noteq> Gate_PASS) (eb_gates b)) ''FAILED_OR_UNVERIFIED_GATE'' @
    note_if (eb_faults b = []) ''MISSING_FAULT_EVIDENCE'' @
    note_if (eb_receipts b = []) ''MISSING_OPERATION_RECEIPTS'' @
    note_if ((case eb_reviewer b of None \<Rightarrow> True | Some r \<Rightarrow> r = [] \<or> r \<notin> set (rx_reviewers X)) \<or>
          (case eb_approval b of None \<Rightarrow> True | Some a \<Rightarrow> a = [])) ''EXPLICIT_HUMAN_APPROVAL_MISSING'' @
    note_if (rx_live X) ''LIVE_EFFECTS_ALREADY_ENABLED_BEFORE_APPROVAL'' @
    note_if (\<not> ua_allow (rx_uncertainty X)) ''UNCERTAINTY_BUDGET_BLOCKED''"

definition evaluate_promotion :: "hmac \<Rightarrow> env \<Rightarrow> evidence_bundle \<Rightarrow> (string \<times> bytes) list \<Rightarrow> release_context \<Rightarrow> promotion_decision" where
  "evaluate_promotion M V b keys X =
    (let problems = promotion_problems M V b keys X in
     \<lparr>pn_authorized = (problems = []), pn_stage = rx_stage X, pn_commit = rx_head X, pn_reasons = problems,
      pn_evidence = env_hash V (bundle_text V b)\<rparr>)"

subsection \<open>What a promotion needs\<close>

text \<open>
  C35. Promotion fails closed: a release is authorized exactly when its bundle carries a valid
  signature of a known key of at least 32 bytes, every gate result and the bundle name the exact
  head commit, stage, policy and contract are the current ones, the clock is inside the window,
  every required gate is there and every gate passed, fault evidence and receipts exist, an
  authorized reviewer and an approval are recorded, live effects are off and no unresolved effect
  exceeds the budget.
\<close>

theorem promotion_fails_closed:
  "pn_authorized (evaluate_promotion M V b keys X) \<longleftrightarrow>
    (\<exists>key. map_of keys (eb_key b) = Some key \<and> 32 \<le> length key \<and> eb_signature b = M key (bundle_text V b)) \<and>
    eb_commit b = rx_head X \<and> list_all (\<lambda>g. gt_commit g = rx_head X \<and> gt_status g = Gate_PASS) (eb_gates b) \<and>
    set (rx_gates X) \<subseteq> gt_gate ` set (eb_gates b) \<and>
    eb_stage b = rx_stage X \<and> eb_policy b = rx_policy X \<and> eb_contract b = rx_contract X \<and>
    eb_issued b \<le> rx_now X \<and> rx_now X < eb_expires b \<and> eb_faults b \<noteq> [] \<and> eb_receipts b \<noteq> [] \<and>
    (\<exists>r a. eb_reviewer b = Some r \<and> r \<noteq> [] \<and> r \<in> set (rx_reviewers X) \<and> eb_approval b = Some a \<and> a \<noteq> []) \<and>
    \<not> rx_live X \<and> ua_allow (rx_uncertainty X)"
proof -
  have none: "note_if c x = [] \<longleftrightarrow> \<not> c" for c and x :: string by (simp add: note_if_def)
  have sig: "verify_evidence M V b keys \<longleftrightarrow>
      (\<exists>key. map_of keys (eb_key b) = Some key \<and> 32 \<le> length key \<and> eb_signature b = M key (bundle_text V b))"
    by (auto simp: verify_evidence_def not_less split: option.splits if_splits)
  show ?thesis
    unfolding evaluate_promotion_def promotion_problems_def Let_def sig [symmetric]
    by (auto simp: none list_ex_iff list_all_iff split: option.splits)
qed

text \<open>
  A signature is checked by recomputation: what \<open>sign_evidence\<close> signs verifies under the same
  key, and a bundle whose signature was made for another bundle under that key verifies only if
  the two canonical texts have the same HMAC.
\<close>

theorem signed_evidence_verifies:
  assumes "sign_evidence M V b key = Inr s" and "map_of keys (eb_key b) = Some key"
  shows "verify_evidence M V s keys \<and>
    (\<forall>c. eb_key c = eb_key b \<and> eb_signature c = eb_signature s \<longrightarrow>
       verify_evidence M V c keys = (M key (bundle_text V c) = M key (bundle_text V b)))"
proof -
  have s: "s = b\<lparr>eb_signature := M key (bundle_text V b)\<rparr>" "32 \<le> length key"
    using assms(1) by (auto simp: sign_evidence_def split: if_splits)
  have t: "bundle_text V s = bundle_text V b" by (simp add: s(1) bundle_text_def bundle_json_def)
  show ?thesis using assms(2) s t by (auto simp: verify_evidence_def)
qed

definition sample_bundle :: evidence_bundle where
  "sample_bundle = \<lparr>eb_commit = ''c0'', eb_policy = ''p'', eb_contract = ''d'', eb_stage = Stage_CANARY, eb_issued = 0, eb_expires = 9,
     eb_gates = [], eb_faults = [''f''], eb_receipts = [''r''], eb_reviewer = Some ''ann'', eb_approval = Some ''ok'', eb_key = ''k1'',
     eb_signature = []\<rparr>"

theorem signed_evidence_verifies_witness:
  "\<exists>s. sign_evidence (\<lambda>k m. k @ m) \<lparr>env_hash = id, env_clock = int, env_uuid = str_nat, env_dt_json = str_int\<rparr> sample_bundle
      (replicate 32 (CHR ''x'')) = Inr s \<and>
    verify_evidence (\<lambda>k m. k @ m) \<lparr>env_hash = id, env_clock = int, env_uuid = str_nat, env_dt_json = str_int\<rparr> s
      [(''k1'', replicate 32 (CHR ''x''))]"
proof -
  let ?V = "\<lparr>env_hash = id, env_clock = int, env_uuid = str_nat, env_dt_json = str_int\<rparr>"
  have "\<exists>s. sign_evidence (\<lambda>k m. k @ m) ?V sample_bundle (replicate 32 (CHR ''x'')) = Inr s" by (simp add: sign_evidence_def)
  then obtain s where s: "sign_evidence (\<lambda>k m. k @ m) ?V sample_bundle (replicate 32 (CHR ''x'')) = Inr s" by blast
  have "map_of [(''k1'', replicate 32 (CHR ''x''))] (eb_key sample_bundle) = Some (replicate 32 (CHR ''x''))"
    by (simp add: sample_bundle_def)
  from signed_evidence_verifies [OF s this] s show ?thesis by blast
qed

end
