(* ===== verification/Governance.thy ===== *)
theory Governance
  imports Broker Release
begin

section \<open>Freeze, autonomy and the policy simulator\<close>

text \<open>
  Models \<^verbatim>\<open>agency/actions/governance.py\<close>: incident freezes and who may lift them, the autonomy
  dial, the LIVE gate, the budget simulator and the uncertainty debt of a tenant.
\<close>

subsection \<open>Freezes\<close>

definition truthy_words :: "string list" where
  "truthy_words = [''1'', ''true'', ''yes'', ''on'', ''all'']"

definition system_frozen :: "'x authority_env_scheme \<Rightarrow> bool" where
  "system_frozen A = (norm (environ A ''AMC_ACTIONS_FREEZE'') \<in> set truthy_words)"

definition freeze_text :: "freeze_row \<Rightarrow> string" where
  "freeze_text z = fz_kind z @ ''_FROZEN:'' @ fz_id z"

definition freezes_apply :: "string \<Rightarrow> freeze_row \<Rightarrow> bool" where
  "freezes_apply project z = (fz_kind z = ''TENANT'' \<or> fz_kind z = ''PROJECT'' \<and> fz_ref z = project)"

definition freeze_reasons :: "'x authority_env_scheme \<Rightarrow> string \<Rightarrow> string \<Rightarrow> ('s, string list) gw" where
  "freeze_reasons A tenant project =
    bnd (active_freezes tenant) (\<lambda>zs.
    ret (note_if (system_frozen A) ''SYSTEM_FROZEN: AMC_ACTIONS_FREEZE is set'' @
         map freeze_text (filter (freezes_apply project) zs)))"

definition freeze :: "env \<Rightarrow> principal \<Rightarrow> string \<Rightarrow> string option \<Rightarrow> string \<Rightarrow> ('s, freeze_row) gw" where
  "freeze V p kind ref reason =
    bnd (require_role p freeze_roles ''an incident freeze'') (\<lambda>_.
    bnd (if kind = ''PROJECT'' then
           bnd (guard (some_or_empty ref \<noteq> []) (ValueErr ''a project freeze names the project'')) (\<lambda>_.
           bnd (authorize_scope p (some_or_empty ref) False) (\<lambda>_. ret (some_or_empty ref)))
         else if kind = ''TENANT'' then ret (pr_tenant p)
         else raise (ValueErr ''scope_kind must be TENANT or PROJECT'')) (\<lambda>target.
    bnd (guard (strip reason \<noteq> []) (ValueErr ''a freeze needs a reason'')) (\<lambda>_.
    create_freeze V (pr_tenant p) kind target (strip reason) (pr_user p))))"

definition lift :: "env \<Rightarrow> principal \<Rightarrow> string \<Rightarrow> string \<Rightarrow> ('s, freeze_row) gw" where
  "lift V p fid reason =
    bnd (get_freeze fid) (\<lambda>found.
    case found of
      None \<Rightarrow> raise (LookupErr ''freeze not found'')
    | Some z \<Rightarrow>
        bnd (guard (fz_tenant z = pr_tenant p) (LookupErr ''freeze not found'')) (\<lambda>_.
        bnd (require_role p lift_roles ''lifting a freeze'') (\<lambda>_.
        bnd (guard (fz_by z \<noteq> pr_user p)
              (ActionForbidden ''the person who froze dispatch cannot lift the freeze (separation of duties)'')) (\<lambda>_.
        bnd (guard (strip reason \<noteq> []) (ValueErr ''lifting a freeze needs a reason'')) (\<lambda>_.
        lift_freeze V fid (pr_user p) (strip reason))))))"

subsection \<open>Autonomy\<close>

definition autonomy :: "string \<Rightarrow> ('s, autonomy_level) gw" where
  "autonomy project = bnd (get_autonomy project) (\<lambda>row. ret (case row of None \<Rightarrow> default_autonomy | Some r \<Rightarrow> au_level r))"

definition set_autonomy :: "env \<Rightarrow> principal \<Rightarrow> string \<Rightarrow> autonomy_level \<Rightarrow> ('s, autonomy_row) gw" where
  "set_autonomy V p project level =
    bnd (authorize_scope p project True) (\<lambda>_.
    bnd (autonomy project) (\<lambda>current.
    bnd (guard (\<not> (autonomy_rank level > autonomy_rank current \<and> principal_role p \<notin> set autonomy_raise_roles))
      (ActionForbidden (''raising autonomy requires one of '' @ repr_str_list (sort autonomy_raise_roles)))) (\<lambda>_.
    set_autonomy_row V (pr_tenant p) project level (pr_user p))))"

subsection \<open>The LIVE gate\<close>

record live_report =
  lr_status :: string
  lr_reasons :: "string list"

definition live_enablement :: "'x authority_env_scheme \<Rightarrow> live_report" where
  "live_enablement A = \<lparr>lr_status = ''DISABLED'', lr_reasons =
     [''no catalogue entry has a reviewed live provider binding'',
      ''this deployment contains no code path that dispatches in Environment.LIVE''] @
     note_if (strip (environ A ''AMC_ACTIONS_LIVE'') \<noteq> []) ''AMC_ACTIONS_LIVE is set and deliberately ignored''\<rparr>"

subsection \<open>The budget simulator\<close>

record budget_simulation =
  bs_kind :: string
  bs_ref :: string
  bs_currency :: string
  bs_ceiling :: int
  bs_used :: int
  bs_headroom :: int
  bs_blocked :: "(string \<times> int) list"
  bs_over :: bool

definition simulated_scope :: "string \<Rightarrow> string \<Rightarrow> int \<Rightarrow> reservation \<Rightarrow> bool" where
  "simulated_scope kind ref now r =
    (if kind = ''PROJECT'' then re_project r = ref
     else if kind = ''CLIENT'' then re_client r = Some ref
     else if kind = ''TENANT_DAY'' then re_created r \<ge> iso (day_start now)
     else if kind = ''TENANT_MONTH'' then re_created r \<ge> iso (month_start now)
     else True)"

definition simulated_block :: "string \<Rightarrow> string \<Rightarrow> int \<Rightarrow> int \<Rightarrow> action_row \<Rightarrow> bool" where
  "simulated_block kind ref ceiling used a =
    (let cost = ab_cost_minor (ac_binding a) in
     if kind = ''ACTION'' then cost > ceiling
     else if kind = ''PROJECT'' \<and> ac_project a \<noteq> ref then False
     else if kind = ''CLIENT'' \<and> ac_client a \<noteq> Some ref then False
     else used + cost > ceiling)"

definition simulate_budget_policy :: "env \<Rightarrow> principal \<Rightarrow> string \<Rightarrow> string \<Rightarrow> string \<Rightarrow> int \<Rightarrow> int option
    \<Rightarrow> ('s, budget_simulation) gw" where
  "simulate_budget_policy V p kind ref cur ceiling now =
    bnd (moment_of V now) (\<lambda>moment.
    let currency = upper cur in
    bnd (list_reservations (pr_tenant p) [Res_RESERVED, Res_COMMITTED]) (\<lambda>rs.
    let active = filter (\<lambda>r. re_currency r = currency) rs;
        used = (if kind = ''ACTION'' then 0
                else sum_list (map counted_amount (filter (simulated_scope kind ref moment) active))) in
    bnd (list_requests (pr_tenant p) None [A_AWAITING_APPROVAL, A_AUTHORIZED] 200) (\<lambda>as.
    let waiting = filter (\<lambda>a. ab_currency (ac_binding a) = Some currency \<and> ab_cost_minor (ac_binding a) > 0) as;
        blocked = filter (simulated_block kind ref ceiling used) waiting in
    ret \<lparr>bs_kind = kind, bs_ref = ref, bs_currency = currency, bs_ceiling = ceiling, bs_used = used,
         bs_headroom = max (ceiling - used) 0, bs_blocked = map (\<lambda>a. (ac_id a, ab_cost_minor (ac_binding a))) blocked,
         bs_over = (used > ceiling)\<rparr>)))"

subsection \<open>Uncertainty debt\<close>

definition unresolved_states :: "action_state list" where
  "unresolved_states = [A_UNKNOWN, A_RECONCILING, A_NEEDS_HUMAN]"

definition uncertainty_snapshot_limit :: nat where
  "uncertainty_snapshot_limit = 1000"

definition observation_status :: "action_state \<Rightarrow> effect_status" where
  "observation_status s = (if s = A_UNKNOWN then Ef_UNCONFIRMED else Ef_RECONCILING)"

text \<open>\<open>hashlib.sha256(action_id)\<close>: the digest of the UTF-8 text.\<close>

definition observation_of :: "env \<Rightarrow> action_row \<Rightarrow> amc_error + effect_observation" where
  "observation_of V r = (case parse_iso (ac_updated r) of
     None \<Rightarrow> Inl (ValueErr ''time data does not match format'')
   | Some t \<Rightarrow> Inr \<lparr>eo_digest = env_hash V (utf8 (ac_id r)), eo_risk = (if ac_class r = R6 then R5 else ac_class r),
       eo_status = observation_status (ac_state r), eo_updated = t\<rparr>)"

fun observations_of :: "env \<Rightarrow> action_row list \<Rightarrow> amc_error + effect_observation list" where
  "observations_of V [] = Inr []"
| "observations_of V (r # rs) = (case observation_of V r of Inl e \<Rightarrow> Inl e | Inr x \<Rightarrow> map_sum id (Cons x) (observations_of V rs))"

definition uncertainty :: "env \<Rightarrow> string \<Rightarrow> int option \<Rightarrow> uncertainty_policy \<Rightarrow> ('s, uncertainty_assessment) gw" where
  "uncertainty V tenant now P =
    bnd (list_requests tenant None unresolved_states (uncertainty_snapshot_limit + 1)) (\<lambda>rows.
    bnd (of_sum (observations_of V (take uncertainty_snapshot_limit rows))) (\<lambda>obs.
    bnd (moment_of V now) (\<lambda>moment.
    ret (assess_uncertainty obs moment P (length rows \<le> uncertainty_snapshot_limit)))))"

end
