(* ===== verification/Gateway.thy ===== *)
theory Gateway
  imports Governance
begin

section \<open>The execution gateway\<close>

text \<open>
  Models \<^verbatim>\<open>agency/actions/gateway.py\<close>: planning and preview, proposing, settling approvals,
  cancelling, expiring, the preflight, dispatch with its execution, observation and completion,
  reconciliation, crash recovery, retry and compensation. Every handler is one program over
  \<open>gateway_db\<close>; \<open>C\<close> is the configuration (clock, identifiers, environment variables, adapters,
  catalogue) and \<open>S\<close> the trust kernel's store. A handler that takes an optional \<^verbatim>\<open>now\<close> reads the
  clock when it is absent.
\<close>

definition max_ttl_seconds :: int where "max_ttl_seconds = 7 * 24 * 3600"
definition default_ttl_seconds :: int where "default_ttl_seconds = 24 * 3600"
definition lease_slack_seconds :: int where "lease_slack_seconds = 60"
definition max_reconcile_attempts :: int where "max_reconcile_attempts = 3"


abbreviation config_hash :: "config \<Rightarrow> bytes \<Rightarrow> string" where
  "config_hash C \<equiv> env_hash (cf_env C)"

subsection \<open>Errors\<close>

fun adapter_error_code :: "adapter_error_kind \<Rightarrow> string" where
  "adapter_error_code ArgsInvalid = ''ARGS_INVALID''"
| "adapter_error_code ToolUnavailable = ''TOOL_UNAVAILABLE''"
| "adapter_error_code TransientBeforeEffect = ''TRANSIENT_BEFORE_EFFECT''"
| "adapter_error_code PermanentFailure = ''PERMANENT_FAILURE''"
| "adapter_error_code OutcomeUnknown = ''OUTCOME_UNKNOWN''"
| "adapter_error_code CompensationUnsupported = ''COMPENSATION_UNSUPPORTED''"

fun adapter_error_class :: "adapter_error_kind \<Rightarrow> string" where
  "adapter_error_class ArgsInvalid = ''ArgsInvalid''"
| "adapter_error_class ToolUnavailable = ''ToolUnavailable''"
| "adapter_error_class TransientBeforeEffect = ''TransientBeforeEffect''"
| "adapter_error_class PermanentFailure = ''PermanentFailure''"
| "adapter_error_class OutcomeUnknown = ''OutcomeUnknown''"
| "adapter_error_class CompensationUnsupported = ''CompensationUnsupported''"

definition not_dispatchable :: "string \<Rightarrow> string \<Rightarrow> amc_error" where
  "not_dispatchable code detail = GatewayError NotDispatchable code detail"

definition invalid_request :: "string \<Rightarrow> string \<Rightarrow> amc_error" where
  "invalid_request code detail = GatewayError InvalidRequest code detail"

definition is_conflict :: "amc_error \<Rightarrow> bool" where
  "is_conflict e = (case e of ActionConflict _ \<Rightarrow> True | _ \<Rightarrow> False)"

text \<open>\<open>except ActionConflict as exc: raise ... str(exc)\<close>.\<close>

definition on_conflict :: "(string \<Rightarrow> amc_error) \<Rightarrow> ('s, 'a) gw \<Rightarrow> ('s, 'a) gw" where
  "on_conflict f m = mapE (\<lambda>e. case e of ActionConflict t \<Rightarrow> f t | _ \<Rightarrow> e) m"

subsection \<open>Shared steps\<close>

definition trust_decision :: "env \<Rightarrow> 's rel_store \<Rightarrow> action_row \<Rightarrow> string \<Rightarrow> policy_effect \<Rightarrow> string list \<Rightarrow> string list
    \<Rightarrow> ('s, unit) gw" where
  "trust_decision V S row stage eff required evidence = on_trust (
    bnd (bind_project V S (ac_tenant row) (ac_project row)) (\<lambda>_.
    bnd (record_policy_decision V S (ac_tenant row) (ac_project row)
      (''action-'' @ ac_id row @ ''-'' @ stage @ ''-v'' @ str_int (ac_version row)) (ac_id row) (''action.'' @ stage) (ac_target row)
      risk_policy_version
      (JDict [(''binding_hash'', JStr (ac_binding_hash row)), (''state'', JStr (action_state_value (ac_state row))),
              (''risk_hash'', JStr (ac_risk_hash row))]) eff required evidence) (\<lambda>_. ret ())))"

definition move :: "env \<Rightarrow> action_row \<Rightarrow> action_state \<Rightarrow> string \<Rightarrow> string \<Rightarrow> json \<Rightarrow> row_update list \<Rightarrow> int \<Rightarrow> ('s, action_row) gw" where
  "move V row dst actor reason evidence updates now =
    transition V (ac_id row) (ac_version row) [ac_state row] dst actor reason evidence updates (Some now)"

definition row_effect_key :: "(bytes \<Rightarrow> string) \<Rightarrow> action_row \<Rightarrow> string" where
  "row_effect_key H row = effect_key H (ac_tenant row) (ab_capability_ref (ac_binding row)) (ac_target row) (ac_payload_hash row)
     (ac_key row)"

definition row_context :: "(bytes \<Rightarrow> string) \<Rightarrow> action_row \<Rightarrow> effect_context" where
  "row_context H row = \<lparr>ec_tenant = ac_tenant row, ec_project = ac_project row, ec_action = ac_id row, ec_key = row_effect_key H row,
     ec_env = ac_environment row, ec_target = ac_target row, ec_payload = ac_payload_hash row\<rparr>"

definition find_descriptor :: "config \<Rightarrow> string \<Rightarrow> amc_error + descriptor" where
  "find_descriptor C cap = (case the_catalog C of Inl e \<Rightarrow> Inl e | Inr cat \<Rightarrow> catalog_get cat cap)"

definition adapter_for :: "descriptor \<Rightarrow> amc_error + adapter" where
  "adapter_for d =
    (if ds_owner d \<noteq> gateway_owner
     then Inl (not_dispatchable ''NOT_GATEWAY_OWNED'' (ds_id d @ '' is dispatched by '' @ ds_owner d))
     else case get_adapter (ds_id d) of
       None \<Rightarrow> Inl (not_dispatchable ''ADAPTER_MISSING'' (ds_id d)) | Some a \<Rightarrow> Inr a)"

definition args_of :: "config \<Rightarrow> adapter \<Rightarrow> json \<Rightarrow> amc_error + adapter_args" where
  "args_of C a j = (case validate C a j of Inl m \<Rightarrow> Inl (AdapterError ArgsInvalid m) | Inr args \<Rightarrow> Inr args)"

definition row_expected_state :: "config \<Rightarrow> adapter \<Rightarrow> action_row \<Rightarrow> amc_error + string" where
  "row_expected_state C a row = map_sum id (\<lambda>_. expected_state a) (args_of C a (ac_args row))"

definition observation_matches :: "action_row \<Rightarrow> observation \<Rightarrow> string \<Rightarrow> bool" where
  "observation_matches row obs expected =
    (on_found obs \<and> on_state obs = Some expected \<and> on_payload obs = Some (ac_payload_hash row))"

definition observation_json :: "observation \<Rightarrow> json" where
  "observation_json o1 = JDict [(''found'', JBool (on_found o1)), (''state'', opt_str (on_state o1)),
     (''payload_hash'', opt_str (on_payload o1)), (''cost_minor'', JInt (on_cost o1)), (''currency'', opt_str (on_currency o1)),
     (''provider_ref'', opt_str (on_ref o1)), (''method'', JStr (on_method o1)), (''simulated'', JBool (on_simulated o1)),
     (''detail'', JDict (case on_target o1 of None \<Rightarrow> [] | Some t \<Rightarrow> [(''target_ref'', JStr t)]))]"

definition receipt_json :: "receipt \<Rightarrow> json" where
  "receipt_json r = JDict [(''provider_ref'', JStr (rc_ref r)), (''returned_state'', JStr (rc_state r)),
     (''deduplicated'', JBool (rc_dedup r)), (''simulated'', JBool (rc_simulated r)), (''at'', JStr (rc_at r))]"

definition no_lease :: "row_update list" where
  "no_lease = [U_lease_owner None, U_lease_expires None]"

subsection \<open>Planning\<close>

definition max_by :: "('a \<Rightarrow> nat) \<Rightarrow> 'a \<Rightarrow> 'a \<Rightarrow> 'a" where
  "max_by rank x y = (if rank y > rank x then y else x)"

definition plan_facts :: "descriptor \<Rightarrow> adapter_args \<Rightarrow> environment \<Rightarrow> risk_class option \<Rightarrow> data_class option \<Rightarrow> risk_facts" where
  "plan_facts d args env requested data =
    (let p = ds_risk d; q = request_facts_of args; est = estimate args in
     \<lparr>rf_operation = rp_operation p, rf_environment = env,
      rf_data_class = max_by data_class_rank (max_by data_class_rank (rp_data_class p) (coalesce (qf_data_class q) (rp_data_class p)))
        (coalesce data (rp_data_class p)),
      rf_cost_minor = ce_amount est, rf_currency = ce_currency est, rf_reversibility = rp_reversibility p,
      rf_audience = max_by audience_rank (rp_audience p) (coalesce (qf_audience q) (rp_audience p)), rf_external = rp_external p,
      rf_notifies = (rp_notifies p \<or> qf_notifies q), rf_blast_radius = qf_blast_radius q,
      rf_scopes = sort (remdups (rp_scopes p @ qf_scopes q)), rf_dependents = 0, rf_requested_class = requested\<rparr>)"

record proposal =
  pp_capability :: string
  pp_project :: string
  pp_environment :: string
  pp_args :: json
  pp_deps :: "string list"
  pp_class :: "string option"
  pp_data_class :: "string option"
  pp_ttl :: int

record plan =
  pl_descriptor :: descriptor
  pl_adapter :: adapter
  pl_args :: adapter_args
  pl_env :: environment
  pl_deps :: "(string \<times> string) list"
  pl_facts :: risk_facts
  pl_risk :: risk_assessment
  pl_cost :: cost_estimate
  pl_autonomy :: autonomy_level
  pl_auto_ok :: bool
  pl_blockers :: "string list"
  pl_subjects :: "string list"
  pl_expires :: string
  pl_target :: string
  pl_payload_hash :: string
  pl_binding :: binding_doc
  pl_binding_hash :: string
  pl_flags :: "string list"
  pl_dep_refs :: "string list"
  pl_ttl :: int

definition environment_of :: "string \<Rightarrow> environment option" where
  "environment_of v = find (\<lambda>e. environment_value e = v) [Env_LOCAL, Env_SANDBOX, Env_LIVE]"

definition class_of :: "string \<Rightarrow> risk_class option" where
  "class_of v = find (\<lambda>c. risk_class_value c = v) all_risk_classes"

definition data_class_of :: "string \<Rightarrow> data_class option" where
  "data_class_of v = find (\<lambda>c. data_class_value c = v) [Data_PUBLIC, Data_INTERNAL, Data_CONFIDENTIAL, Data_RESTRICTED]"

text \<open>\<open>RiskClass(x) if x else None\<close>: an unknown value is the text of the \<open>ValueError\<close>.\<close>

definition optional_enum :: "string \<Rightarrow> (string \<Rightarrow> 'a option) \<Rightarrow> string option \<Rightarrow> amc_error + 'a option" where
  "optional_enum cls read v =
    (if some_or_empty v = [] then Inr None
     else case read (some_or_empty v) of
       Some c \<Rightarrow> Inr (Some c)
     | None \<Rightarrow> Inl (invalid_request ''UNKNOWN_CLASSIFICATION'' (repr_str (some_or_empty v) @ '' is not a valid '' @ cls)))"

definition plan_blockers :: "risk_assessment \<Rightarrow> autonomy_level \<Rightarrow> bool \<Rightarrow> string list" where
  "plan_blockers risk level auto_ok =
    note_if (ra_requires_step_up risk) ''STEP_UP_UNAVAILABLE: step-up authentication is not implemented in this deployment'' @
    note_if (\<not> auto_ok \<and> level \<noteq> Auto_REQUEST_APPROVAL)
      (''AUTONOMY_CEILING: this project allows up to '' @ risk_class_value (auto_ceiling level) @ '' without a person ('' @
       autonomy_level_value level @ ''); raise it to REQUEST_APPROVAL to ask for approval'')"

definition clamp_ttl :: "int \<Rightarrow> int" where
  "clamp_ttl ttl = max 60 (min ttl max_ttl_seconds)"

text \<open>Everything of the plan that needs no more lookups: \<open>_plan\<close> after the autonomy of the project is read.\<close>

definition make_plan :: "config \<Rightarrow> principal \<Rightarrow> proposal \<Rightarrow> descriptor \<Rightarrow> adapter \<Rightarrow> environment \<Rightarrow> adapter_args
    \<Rightarrow> (string \<times> string) list \<Rightarrow> risk_class option \<Rightarrow> data_class option \<Rightarrow> autonomy_level \<Rightarrow> int \<Rightarrow> plan" where
  "make_plan C p q d a env args deps requested data level now =
    (let H = config_hash C;
         facts = plan_facts d args env requested data;
         cost = estimate args;
         risk = assess H facts;
         auto_ok = (risk_class_rank (ra_effective risk) \<le> risk_class_rank (auto_ceiling level) \<and> \<not> ra_requires_approval risk);
         blockers = plan_blockers risk level auto_ok;
         subjects = (if auto_ok \<or> blockers \<noteq> [] then [] else required_subjects risk True);
         ttl = clamp_ttl (pp_ttl q);
         expires = iso (now + seconds ttl);
         target = target_ref H args;
         payload_hash = chash H (payload_json args);
         b = \<lparr>ab_capability_ref = descriptor_ref d, ab_descriptor_hash = descriptor_hash H d, ab_tenant = pr_tenant p,
              ab_project = pp_project q, ab_environment = env, ab_target_ref = target, ab_payload_hash = payload_hash,
              ab_dependency_hashes = deps, ab_policy_version = risk_policy_version, ab_effective_class = ra_effective risk,
              ab_cost_minor = ce_amount cost, ab_currency = ce_currency cost, ab_expires_at = expires, bd_subjects = subjects\<rparr>
     in \<lparr>pl_descriptor = d, pl_adapter = a, pl_args = args, pl_env = env, pl_deps = deps, pl_facts = facts, pl_risk = risk,
         pl_cost = cost, pl_autonomy = level, pl_auto_ok = auto_ok, pl_blockers = blockers, pl_subjects = subjects,
         pl_expires = expires, pl_target = target, pl_payload_hash = payload_hash, pl_binding = b,
         pl_binding_hash = binding_hash_of H b, pl_flags = injection_flags (pp_args q),
         pl_dep_refs = sort (remdups (pp_deps q)), pl_ttl = ttl\<rparr>)"

definition client_must_be_active :: "string \<Rightarrow> ('s, unit) gw" where
  "client_must_be_active project =
    bnd (client_for_project project) (\<lambda>cid.
    if some_or_empty cid = [] then ret ()
    else bnd (get_client (some_or_empty cid)) (\<lambda>client. case client of
        None \<Rightarrow> ret ()
      | Some c \<Rightarrow> guard (cl_status c = ''ACTIVE'') (GatewayError GatewayErrorKind ''CLIENT_NOT_ACTIVE''
          (''the client is '' @ cl_status c @ '': no new actions start''))))"

fun unsafe_request :: "unsafe \<Rightarrow> amc_error" where
  "unsafe_request (UnsafeInput code detail) = invalid_request code (if detail = [] then code else code @ '': '' @ detail)"
| "unsafe_request (Bad_value m) = ValueErr m"

fun dependency_request :: "amc_error \<Rightarrow> amc_error" where
  "dependency_request (DependencyInvalid m) = invalid_request ''DEPENDENCY_INVALID'' m"
| "dependency_request e = e"

definition plan_action :: "config \<Rightarrow> principal \<Rightarrow> proposal \<Rightarrow> int \<Rightarrow> ('s, plan) gw" where
  "plan_action C p q now =
    bnd (of_sum (find_descriptor C (pp_capability q))) (\<lambda>d.
    bnd (of_sum (case environment_of (pp_environment q) of
           None \<Rightarrow> Inl (invalid_request ''UNKNOWN_ENVIRONMENT'' (pp_environment q)) | Some e \<Rightarrow> Inr e)) (\<lambda>env.
    bnd (authorize_scope p (pp_project q) True) (\<lambda>_.
    bnd (client_must_be_active (pp_project q)) (\<lambda>_.
    bnd (guard (env \<noteq> Env_LIVE) (GatewayError LiveGated ''LIVE_GATED'' ''LIVE execution is disabled'')) (\<lambda>_.
    bnd (of_sum (adapter_for d)) (\<lambda>a.
    bnd (guard (env \<in> set (ds_environments d)) (invalid_request ''ENVIRONMENT_NOT_SUPPORTED''
           (ds_id d @ '' runs in '' @ repr_str_list (map environment_value (ds_environments d))))) (\<lambda>_.
    bnd (of_sum (map_sum unsafe_request id (assert_no_secrets (cf_text C) (pp_args q)))) (\<lambda>_.
    bnd (of_sum (map_sum (invalid_request ''ARGS_INVALID'') id (validate C a (pp_args q)))) (\<lambda>args.
    bnd (mapE dependency_request (resolve_dependencies (pp_project q) (pp_deps q))) (\<lambda>deps.
    bnd (of_sum (optional_enum ''RiskClass'' class_of (pp_class q))) (\<lambda>requested.
    bnd (of_sum (optional_enum ''DataClass'' data_class_of (pp_data_class q))) (\<lambda>data.
    bnd (autonomy (pp_project q)) (\<lambda>level.
    ret (make_plan C p q d a env args deps requested data level now))))))))))))))"

subsection \<open>Budget headroom and preview\<close>

record headroom =
  hr_kind :: budget_scope
  hr_ref :: string
  hr_ceiling :: int
  hr_used :: int
  hr_left :: int

definition headroom_match :: "budget_scope \<Rightarrow> string \<Rightarrow> string option \<Rightarrow> int \<Rightarrow> reservation \<Rightarrow> bool" where
  "headroom_match kind project client now r =
    (case kind of
       Scope_PROJECT \<Rightarrow> re_project r = project
     | Scope_CLIENT \<Rightarrow> re_client r = client
     | Scope_TENANT_DAY \<Rightarrow> re_created r \<ge> iso (day_start now)
     | Scope_TENANT_MONTH \<Rightarrow> re_created r \<ge> iso (month_start now)
     | Scope_ACTION \<Rightarrow> False)"

definition budget_headroom :: "string \<Rightarrow> string \<Rightarrow> string option \<Rightarrow> int \<Rightarrow> ('s, headroom list) gw" where
  "budget_headroom tenant project currency now =
    (if some_or_empty currency = [] then ret []
     else bnd (client_for_project project) (\<lambda>client.
       bnd (list_budget_policies tenant) (\<lambda>policies.
       bnd (list_reservations tenant [Res_RESERVED, Res_COMMITTED]) (\<lambda>rs.
       let ps = applicable_policies tenant project client (filter (\<lambda>p. bp_currency p = some_or_empty currency) policies);
           active = filter (\<lambda>r. re_currency r = some_or_empty currency) rs;
           used = (\<lambda>p. sum_list (map counted_amount (filter (headroom_match (bp_kind p) project client now) active)))
       in ret (map (\<lambda>p. \<lparr>hr_kind = bp_kind p, hr_ref = bp_ref p, hr_ceiling = bp_ceiling p, hr_used = used p,
                 hr_left = max (bp_ceiling p - used p) 0\<rparr>) ps)))))"

datatype preview_outcome = Would_be_blocked | Would_run_without_approval | Would_request_approval

record preview_report =
  pv_outcome :: preview_outcome
  pv_plan :: plan
  pv_frozen :: "string list"
  pv_live :: live_report
  pv_budget :: "headroom list option"

definition preview :: "config \<Rightarrow> principal \<Rightarrow> proposal \<Rightarrow> int option \<Rightarrow> ('s, preview_report) gw" where
  "preview C p q now =
    bnd (moment_of (cf_env C) now) (\<lambda>moment.
    bnd (plan_action C p q moment) (\<lambda>pl.
    bnd (freeze_reasons C (pr_tenant p) (pp_project q)) (\<lambda>frozen.
    bnd (if ra_requires_financial_approval (pl_risk pl)
         then bnd (budget_headroom (pr_tenant p) (pp_project q) (ce_currency (pl_cost pl)) moment) (\<lambda>h. ret (Some h))
         else ret None) (\<lambda>budget.
    ret \<lparr>pv_outcome = (if pl_blockers pl \<noteq> [] then Would_be_blocked else if pl_auto_ok pl then Would_run_without_approval
           else Would_request_approval), pv_plan = pl, pv_frozen = frozen, pv_live = live_enablement C, pv_budget = budget\<rparr>))))"

subsection \<open>Proposing\<close>

definition request_hash_of :: "config \<Rightarrow> proposal \<Rightarrow> plan \<Rightarrow> string" where
  "request_hash_of C q pl = chash (config_hash C) (JDict [(''capability'', JStr (descriptor_ref (pl_descriptor pl))),
     (''project'', JStr (pp_project q)), (''environment'', JStr (environment_value (pl_env pl))),
     (''payload'', JStr (pl_payload_hash pl)), (''dependency_refs'', str_list (pl_dep_refs pl)),
     (''requested_class'', opt_str (pp_class q)), (''data_class'', opt_str (pp_data_class q)), (''ttl'', JInt (pl_ttl pl))])"

definition action_id_of :: "config \<Rightarrow> string \<Rightarrow> string \<Rightarrow> string" where
  "action_id_of C tenant key = ''act-'' @ take 32 (chash (config_hash C) (JDict [(''tenant'', JStr tenant), (''key'', JStr key)]))"

definition proposed_row :: "config \<Rightarrow> principal \<Rightarrow> proposal \<Rightarrow> plan \<Rightarrow> string \<Rightarrow> string option \<Rightarrow> string \<Rightarrow> string \<Rightarrow> string \<Rightarrow> int
    \<Rightarrow> action_row" where
  "proposed_row C p q pl key client correlation request_hash args_hash now =
    (let H = config_hash C; d = pl_descriptor pl; stamp = iso now in
     \<lparr>ac_id = action_id_of C (pr_tenant p) key, ac_tenant = pr_tenant p, ac_project = pp_project q, ac_client = client,
      ac_capability = ds_id d, ac_capability_version = ds_version d, ac_environment = pl_env pl, ac_actor = pr_user p,
      ac_target = pl_target pl, ac_args = payload_json (pl_args pl), ac_args_hash = args_hash, ac_payload_hash = pl_payload_hash pl,
      ac_context_hash = chash H (JDict [(''tenant'', JStr (pr_tenant p)), (''project'', JStr (pp_project q)), (''client'', opt_str client),
         (''actor'', JStr (pr_user p)), (''environment'', JStr (environment_value (pl_env pl))), (''policy'', JStr risk_policy_version),
         (''descriptor'', JStr (descriptor_hash H d)), (''correlation'', JStr correlation)]),
      ac_dependencies = pl_deps pl, ac_policy_version = risk_policy_version,
      ac_risk = \<lparr>rd_assessment = pl_risk pl, rd_facts = pl_facts pl, rd_autonomy = pl_autonomy pl\<rparr>,
      ac_risk_hash = assessment_hash H (pl_risk pl), ac_class = ra_effective (pl_risk pl), ac_binding = pl_binding pl,
      ac_binding_hash = pl_binding_hash pl, ac_run = None, ac_approval = None, ac_financial_approval = None, ac_reservation = None,
      ac_key = key, ac_request_hash = request_hash, ac_correlation = correlation, ac_state = A_PROPOSED, ac_version = 1,
      ac_attempts = 0, ac_reconcile_attempts = 0, ac_lease_owner = None, ac_lease_expires = None, ac_retry_eligible = False,
      ac_reasons = [], ac_outcome = None, ac_flags = pl_flags pl, ac_created = stamp, ac_updated = stamp, ac_expires = pl_expires pl\<rparr>)"

text \<open>\<open>propose\<close> from PREPARED on: anchor run, then blocked, waiting for approval or authorized.\<close>

definition settle_proposal :: "config \<Rightarrow> 's rel_store \<Rightarrow> principal \<Rightarrow> plan \<Rightarrow> action_row \<Rightarrow> int \<Rightarrow> ('s, action_row) gw" where
  "settle_proposal C S p pl row now =
    (let V = cf_env C; actor = pr_user p in
     bnd (open_anchor_run V p (ac_id row) (pr_tenant p) (ac_project row) (pl_subjects pl \<noteq> [])) (\<lambda>run.
     if pl_blockers pl \<noteq> [] then
       bnd (move V row A_BLOCKED actor (hd (pl_blockers pl)) (JDict []) [U_run (Some run), U_reasons (pl_blockers pl)] now) (\<lambda>r.
       bnd (trust_decision V S r ''propose'' Pol_DENY [] (pl_blockers pl)) (\<lambda>_. ret r))
     else if pl_subjects pl \<noteq> [] then
       bnd (open_approvals V run (ac_id row) (pr_tenant p) (ac_project row) (pl_subjects pl) (pl_binding_hash pl)
              (ds_title (pl_descriptor pl) @ '' -> '' @ pl_target pl)) (\<lambda>ids.
       bnd (move V row A_AWAITING_APPROVAL actor ''human approval required''
              (JDict [(''approvals'', JDict (map (\<lambda>(s, i). (s, JStr i)) ids))])
              [U_run (Some run), U_approval (map_of ids subject_execution), U_financial_approval (map_of ids subject_spend)] now) (\<lambda>r.
       bnd (trust_decision V S r ''propose'' Pol_REQUIRE_APPROVAL (sort (map snd ids)) []) (\<lambda>_. ret r)))
     else
       bnd (move V row A_AUTHORIZED actor (''within autonomy '' @ autonomy_level_value (pl_autonomy pl) @ '' (<= '' @
              risk_class_value (auto_ceiling (pl_autonomy pl)) @ ''); no approval required'') (JDict []) [U_run (Some run)] now) (\<lambda>r.
       bnd (trust_decision V S r ''propose'' Pol_ALLOW [] []) (\<lambda>_. ret r))))"

definition propose :: "config \<Rightarrow> 's rel_store \<Rightarrow> principal \<Rightarrow> proposal \<Rightarrow> string \<Rightarrow> string option \<Rightarrow> int option
    \<Rightarrow> ('s, action_row \<times> bool) gw" where
  "propose C S p q key correlation now =
    (let V = cf_env C; H = env_hash V; actor = pr_user p in
     bnd (moment_of V now) (\<lambda>moment.
     bnd (guard (8 \<le> length key \<and> length key \<le> 200) (invalid_request ''IDEMPOTENCY_KEY_REQUIRED'' ''8 to 200 characters'')) (\<lambda>_.
     bnd (plan_action C p q moment) (\<lambda>pl.
     let request_hash = request_hash_of C q pl; aid = action_id_of C (pr_tenant p) key in
     bnd (find_by_key (pr_tenant p) key) (\<lambda>existing.
     case existing of
       Some r \<Rightarrow>
         if ac_request_hash r \<noteq> request_hash
         then raise (GatewayError GatewayErrorKind ''IDEMPOTENCY_KEY_REUSED'' ''the key was already used for a different request'')
         else ret (r, False)
     | None \<Rightarrow>
         bnd (client_for_project (pp_project q)) (\<lambda>client.
         bnd (of_sum (map_sum HashErr id (canonical_hash H (pp_args q)))) (\<lambda>args_hash.
         bnd (on_conflict (GatewayError GatewayErrorKind ''IDEMPOTENCY_KEY_REUSED'')
           (insert_request V (proposed_row C p q pl key client (or_default (some_or_empty correlation) aid) request_hash args_hash moment)
             actor ''proposed'' (JDict [(''binding_hash'', JStr (pl_binding_hash pl)),
               (''risk'', JStr (risk_class_value (ra_effective (pl_risk pl))))]))) (\<lambda>(row, created).
         if \<not> created then ret (row, False)
         else
           bnd (move V row A_VALIDATED actor ''args, scope, secrets and dependencies validated''
             (JDict [(''injection_flags'', str_list (pl_flags pl)), (''dependencies'', pair_list (pl_deps pl))]) [] moment) (\<lambda>row1.
           bnd (move V row1 A_PREPARED actor ''effect plan prepared''
             (JDict [(''plan'', JStr (effect_plan (pl_adapter pl) (row_context H row1))),
                     (''expected'', JDict [(''state'', JStr (expected_state (pl_adapter pl))),
                        (''payload_hash'', JStr (ac_payload_hash row1))])]) [] moment) (\<lambda>row2.
           bnd (settle_proposal C S p pl row2 moment) (\<lambda>row3. ret (row3, True))))))))))))"

subsection \<open>Settling, cancelling, expiring\<close>

definition release_budget :: "env \<Rightarrow> action_row \<Rightarrow> reservation_status \<Rightarrow> string \<Rightarrow> ('s, unit) gw" where
  "release_budget V row status reason =
    (let rid = some_or_empty (ac_reservation row) in
     if rid = [] then ret ()
     else bnd (get_reservation rid) (\<lambda>found. case found of
         None \<Rightarrow> ret ()
       | Some r \<Rightarrow> if re_status r \<noteq> Res_RESERVED then ret ()
           else bnd (settle_reservation V (re_id r) status None [(''reason'', JStr reason)] Res_RESERVED) (\<lambda>_. ret ())))"

definition check_json :: "approval_check \<Rightarrow> json" where
  "check_json c = JDict [(''approvals'', JList (map approval_summary (ck_approvals c)))]"

definition unusable_reason :: "string \<Rightarrow> bool" where
  "unusable_reason r = (ends_with ''SELF_APPROVAL'' r \<or> ends_with ''SCOPE_MISMATCH'' r \<or> ends_with ''APPROVAL_MISSING'' r)"

text \<open>What a check makes of a waiting action: the state, the reason and why open approvals go stale.\<close>

definition settlement :: "approval_check \<Rightarrow> (action_state \<times> string \<times> string option) option" where
  "settlement c =
    (if ck_rejected c then Some (A_REJECTED, ''an approver rejected the action'', Some ''action rejected by another approver'')
     else if ck_expired c then Some (A_EXPIRED, ''approval window expired'', Some ''action expired'')
     else if ck_stale c \<or> list_ex unusable_reason (ck_reasons c)
       then Some (A_BLOCKED, ''approval no longer matches this action'', Some ''approval no longer matches'')
     else if ck_satisfied c then Some (A_AUTHORIZED, ''every required approval matches the exact binding'', None)
     else if ck_pending c = [] then Some (A_BLOCKED, ''the decided approvals do not satisfy the policy'', None)
     else None)"

definition settle_once :: "config \<Rightarrow> string \<Rightarrow> string \<Rightarrow> int option \<Rightarrow> ('s, action_row) gw" where
  "settle_once C aid actor now =
    bnd (moment_of (cf_env C) now) (\<lambda>moment.
    bnd (get_request aid) (\<lambda>found.
    case found of
      None \<Rightarrow> raise (LookupErr ''action not found'')
    | Some row \<Rightarrow>
        if ac_state row \<noteq> A_AWAITING_APPROVAL then ret row
        else bnd (check_approvals C row moment) (\<lambda>c.
          case settlement c of
            None \<Rightarrow> ret row
          | Some (dst, reason, stale) \<Rightarrow>
              bnd (move (cf_env C) row dst actor reason (check_json c)
                (if dst = A_AUTHORIZED then [] else [U_reasons (ck_reasons c)]) moment) (\<lambda>r.
              bnd (case stale of None \<Rightarrow> ret [] | Some why \<Rightarrow> stale_open_approvals (cf_env C) r why) (\<lambda>_. ret r)))))"

definition settle :: "config \<Rightarrow> string \<Rightarrow> string \<Rightarrow> int option \<Rightarrow> ('s, action_row) gw" where
  "settle C aid actor now = catch (settle_once C aid actor now) (\<lambda>e.
    if \<not> is_conflict e then raise e
    else bnd (get_request aid) (\<lambda>found. case found of
        None \<Rightarrow> raise e
      | Some r \<Rightarrow> if ac_state r = A_AWAITING_APPROVAL then raise e else ret r))"

definition gateway_actor :: string where "gateway_actor = ''system:gateway''"

definition cancel :: "config \<Rightarrow> principal \<Rightarrow> string \<Rightarrow> string \<Rightarrow> int option \<Rightarrow> ('s, action_row) gw" where
  "cancel C p aid reason now =
    (let V = cf_env C in
     bnd (get_request aid) (\<lambda>found.
     bnd (visible p found) (\<lambda>row.
     bnd (authorize_scope p (ac_project row) True) (\<lambda>_.
     bnd (guard (ac_state row \<in> pre_dispatch) (not_dispatchable ''NOT_CANCELLABLE''
            (''an action in '' @ action_state_value (ac_state row) @ '' can no longer be cancelled''))) (\<lambda>_.
     bnd (release_budget V row Res_RELEASED ''cancelled'') (\<lambda>_.
     bnd (moment_of V now) (\<lambda>moment.
     bnd (move V row A_CANCELLED (pr_user p) (or_default reason ''cancelled'') (JDict []) [] moment) (\<lambda>r.
     bnd (stale_open_approvals V r ''action cancelled'') (\<lambda>_. ret r)))))))))"

text \<open>Whether an interactive sweep handles a row: a project out of reach is skipped, a refusal ends the sweep.\<close>

definition sweeps :: "principal option \<Rightarrow> action_row \<Rightarrow> ('s, bool) gw" where
  "sweeps who row = (case who of
     None \<Rightarrow> ret True
   | Some p \<Rightarrow> if \<not> can_access_project p (ac_project row) then ret False
       else bnd (authorize_scope p (ac_project row) True) (\<lambda>_. ret True))"

definition expire_one :: "config \<Rightarrow> action_row \<Rightarrow> int \<Rightarrow> ('s, string list) gw" where
  "expire_one C row now = catch
    (bnd (release_budget (cf_env C) row Res_EXPIRED ''action expired'') (\<lambda>_.
     bnd (move (cf_env C) row A_EXPIRED gateway_actor ''expired before dispatch'' (JDict []) [] now) (\<lambda>r.
     bnd (stale_open_approvals (cf_env C) r ''action expired'') (\<lambda>_. ret [ac_id r]))))
    (\<lambda>e. if is_conflict e then ret [] else raise e)"

fun expire_rows :: "config \<Rightarrow> principal option \<Rightarrow> int \<Rightarrow> action_row list \<Rightarrow> ('s, string list) gw" where
  "expire_rows C who now [] = ret []"
| "expire_rows C who now (row # rows) =
    bnd (sweeps who row) (\<lambda>mine.
    bnd (if mine then expire_one C row now else ret []) (\<lambda>done.
    bnd (expire_rows C who now rows) (\<lambda>rest. ret (done @ rest))))"

definition expirable_states :: "action_state list" where
  "expirable_states = [A_PREPARED, A_AWAITING_APPROVAL, A_AUTHORIZED, A_RESERVED]"

definition expire_due :: "config \<Rightarrow> string \<Rightarrow> principal option \<Rightarrow> int option \<Rightarrow> ('s, string list) gw" where
  "expire_due C tenant who now =
    bnd (guard (case who of None \<Rightarrow> True | Some p \<Rightarrow> pr_tenant p = tenant) (ActionForbidden ''tenant scope mismatch'')) (\<lambda>_.
    bnd (moment_of (cf_env C) now) (\<lambda>moment.
    bnd (expiring_before tenant moment expirable_states) (\<lambda>rows. expire_rows C who moment rows)))"

subsection \<open>The preflight\<close>

definition capability_block :: "config \<Rightarrow> action_row \<Rightarrow> amc_error + string list" where
  "capability_block C row = (case find_descriptor C (ac_capability row) of
     Inr d \<Rightarrow> Inr (note_if (descriptor_ref d \<noteq> ab_capability_ref (ac_binding row) \<or>
         descriptor_hash (config_hash C) d \<noteq> ab_descriptor_hash (ac_binding row))
         ''CAPABILITY_CHANGED: the catalogue entry changed since the action was bound'')
   | Inl (UnknownAction m) \<Rightarrow> Inr [''CAPABILITY_REMOVED'']
   | Inl e \<Rightarrow> Inl e)"

definition approval_block :: "approval_check \<Rightarrow> string list" where
  "approval_block c =
    (if ck_satisfied c then []
     else if ck_reasons c \<noteq> [] then map (\<lambda>r. ''APPROVAL:'' @ r) (ck_reasons c)
     else map (\<lambda>s. ''APPROVAL_PENDING:'' @ s) (ck_pending c))"

definition autonomy_hold :: "action_row \<Rightarrow> autonomy_level \<Rightarrow> string list" where
  "autonomy_hold row level = note_if (risk_class_rank (ac_class row) > risk_class_rank (auto_ceiling level))
     (''AUTONOMY_CEILING_LOWERED: '' @ autonomy_level_value level @ '' now allows up to '' @ risk_class_value (auto_ceiling level))"

definition preflight :: "config \<Rightarrow> action_row \<Rightarrow> int \<Rightarrow> ('s, string list \<times> string list) gw" where
  "preflight C row now =
    bnd (freeze_reasons C (ac_tenant row) (ac_project row)) (\<lambda>frozen.
    bnd (of_sum (capability_block C row)) (\<lambda>capability.
    bnd (current_dependencies (ac_project row) (ac_dependencies row)) (\<lambda>current.
    bnd (if bd_subjects (ac_binding row) \<noteq> []
         then bnd (check_approvals C row now) (\<lambda>c. ret ([], approval_block c))
         else bnd (autonomy (ac_project row)) (\<lambda>level. ret (autonomy_hold row level, []))) (\<lambda>(held, unapproved).
    bnd (if risk_class_rank (ac_class row) \<ge> risk_class_rank R3
         then bnd (uncertainty (cf_env C) (ac_tenant row) (Some now) default_uncertainty_policy) (\<lambda>debt.
           ret (if ua_allow debt then [] else map (\<lambda>b. ''UNCERTAINTY_DEBT:'' @ b) (ua_blockers debt)))
         else ret []) (\<lambda>debt.
    ret (frozen @ held @ debt,
      note_if (ac_environment row = Env_LIVE) ''LIVE_GATED'' @ note_if (past now (ac_expires row)) ''ACTION_EXPIRED'' @
      note_if (ac_policy_version row \<noteq> risk_policy_version)
        (''POLICY_CHANGED: approved under '' @ ac_policy_version row @ '', current '' @ risk_policy_version) @
      capability @
      note_if (current \<noteq> ac_dependencies row) ''DEPENDENCY_DRIFT: a dependency changed since the action was bound'' @
      unapproved @ note_if (ra_requires_step_up (rd_assessment (ac_risk row))) ''STEP_UP_UNAVAILABLE''))))))"

subsection \<open>Receipts\<close>

definition record_permit :: "action_row \<Rightarrow> int \<Rightarrow> ('s, unit) gw" where
  "record_permit row moment = put_dispatch_permit (ac_run row) (ac_tenant row) (ac_project row)
     \<lparr>dp_id = ''permit-'' @ ac_id row @ ''-a'' @ str_int (ac_attempts row), dp_work_order = ac_id row,
      dp_snapshot = ac_binding_hash row, dp_epoch = ac_attempts row,
      dp_dependencies = map (\<lambda>(a, h). a @ ''@'' @ h) (ac_dependencies row), dp_authorities = [''principal:'' @ ac_actor row],
      dp_approvals = sort (filter (\<lambda>a. a \<noteq> []) [some_or_empty (ac_approval row), some_or_empty (ac_financial_approval row)]),
      dp_contracts = [ab_capability_ref (ac_binding row)], dp_policy = risk_policy_version, dp_issued = moment\<rparr>"

definition execution_receipt_of :: "config \<Rightarrow> action_row \<Rightarrow> int \<Rightarrow> int \<Rightarrow> receipt \<Rightarrow> ('s, unit) gw" where
  "execution_receipt_of C row started ended r = put_execution_receipt (ac_run row) (ac_tenant row) (ac_project row)
     \<lparr>xp_operation = ac_id row @ '':a'' @ str_int (ac_attempts row), xp_work_order = ac_id row, xp_role = gateway_owner,
      xp_tool = ac_capability row, xp_contract = ab_capability_ref (ac_binding row), xp_args_hash = ac_payload_hash row,
      xp_target = ac_target row, xp_key = row_effect_key (config_hash C) row, xp_attempt = max 1 (min (ac_attempts row) 3),
      xp_started = started, xp_ended = ended, xp_state = rc_state r, xp_result = Some (rc_ref r)\<rparr>"

definition observation_receipt_of :: "config \<Rightarrow> action_row \<Rightarrow> observation \<Rightarrow> string \<Rightarrow> bool \<Rightarrow> string \<Rightarrow> ('s, unit) gw" where
  "observation_receipt_of C row obs expected same tag =
    bnd (utc_now (cf_env C)) (\<lambda>observed.
    put_observation_receipt (ac_run row) (ac_tenant row) (ac_project row)
     \<lparr>vp_operation = ac_id row @ '':'' @ tag, vp_target = ac_target row,
      vp_expected = JDict [(''state'', JStr expected), (''payload_hash'', JStr (ac_payload_hash row))],
      vp_observed = JDict [(''found'', JBool (on_found obs)), (''state'', opt_str (on_state obs)),
        (''payload_hash'', opt_str (on_payload obs)), (''cost_minor'', JInt (on_cost obs))],
      vp_method = on_method obs, vp_evidence = filter (\<lambda>x. x \<noteq> []) [some_or_empty (on_ref obs)], vp_at = observed,
      vp_matches = same\<rparr>)"

subsection \<open>Observing and completing\<close>

definition to_unknown :: "config \<Rightarrow> 's rel_store \<Rightarrow> action_row \<Rightarrow> string \<Rightarrow> string \<Rightarrow> int \<Rightarrow> observation option \<Rightarrow> ('s, action_row) gw" where
  "to_unknown C S row reason actor now obs =
    (let V = cf_env C in
     bnd (move V row A_UNKNOWN actor reason
       (JDict [(''observation'', case obs of None \<Rightarrow> JNull | Some o1 \<Rightarrow> observation_json o1)])
       (no_lease @ [U_reasons [reason]]) now) (\<lambda>r.
     bnd (on_trust (
       bnd (bind_project V S (ac_tenant r) (ac_project r)) (\<lambda>_.
       open_recovery_case V S (ac_tenant r) (ac_project r) (ac_id r)
         (if obs = None then ''AMBIGUOUS_EXTERNAL_RESULT'' else ''OBSERVATION_MISMATCH'') None None
         (Some (row_effect_key (env_hash V) r)) [take 200 reason]))) (\<lambda>_. ret r)))"

definition commit_budget :: "config \<Rightarrow> action_row \<Rightarrow> observation \<Rightarrow> ('s, bool) gw" where
  "commit_budget C row obs =
    (let rid = some_or_empty (ac_reservation row) in
     if rid = [] then ret False
     else bnd (get_reservation rid) (\<lambda>found. case found of
         None \<Rightarrow> ret False
       | Some r \<Rightarrow> if re_status r \<noteq> Res_RESERVED then ret False
           else bnd (settle_reservation (cf_env C) (re_id r) Res_COMMITTED (Some (on_cost obs))
             [(''observed_cost_minor'', JInt (on_cost obs)), (''source'', JStr (on_method obs)),
              (''provider_ref'', opt_str (on_ref obs))] Res_RESERVED) (\<lambda>_. ret True)))"

definition outcome_of :: "observation \<Rightarrow> bool \<Rightarrow> action_outcome" where
  "outcome_of obs committed = \<lparr>oc_label = (if on_simulated obs then ''SIMULATED'' else ''OBSERVED''), oc_simulated = on_simulated obs,
     oc_provider_ref = on_ref obs, oc_state = on_state obs, oc_payload_hash = on_payload obs, oc_cost_minor = on_cost obs,
     oc_currency = on_currency obs, oc_budget_committed = committed, oc_delivered = False, oc_compensation = None\<rparr>"

definition complete :: "config \<Rightarrow> action_row \<Rightarrow> observation \<Rightarrow> string \<Rightarrow> int \<Rightarrow> ('s, action_row) gw" where
  "complete C row obs actor now =
    (let V = cf_env C in
     bnd (move V row A_VERIFIED actor ''independent read-back matches the expected effect''
       (JDict [(''observation'', observation_json obs)]) [] now) (\<lambda>row1.
     bnd (commit_budget C row1 obs) (\<lambda>committed.
     bnd (move V row1 A_COMPLETED actor ''completed and independently checked'' (JDict [])
       (no_lease @ [U_outcome (Some (outcome_of obs committed)), U_retry_eligible False]) now) (\<lambda>row2.
     bnd (if some_or_empty (ac_run row2) = [] then ret None
          else update_run_status V (some_or_empty (ac_run row2)) ''completed'') (\<lambda>_. ret row2)))))"

definition observe_action :: "config \<Rightarrow> 's rel_store \<Rightarrow> action_row \<Rightarrow> adapter \<Rightarrow> string \<Rightarrow> int \<Rightarrow> string \<Rightarrow> ('s, action_row) gw" where
  "observe_action C S row a actor now tag =
    bnd (of_sum (row_expected_state C a row)) (\<lambda>expected.
    bnd (attempt (observe C a (row_context (config_hash C) row))) (\<lambda>out.
    case out of
      Inl (AdapterError k d) \<Rightarrow> to_unknown C S row (''OBSERVE_FAILED: '' @ adapter_error_code k) actor now None
    | Inl e \<Rightarrow> raise e
    | Inr obs \<Rightarrow>
        let same = observation_matches row obs expected in
        bnd (observation_receipt_of C row obs expected same tag) (\<lambda>_.
        if \<not> same
        then to_unknown C S row ''OBSERVATION_MISMATCH: the read-back does not match the expected effect'' actor now (Some obs)
        else complete C row obs actor now)))"

subsection \<open>Dispatching\<close>

definition failed_updates :: "bool \<Rightarrow> adapter_error_kind \<Rightarrow> row_update list" where
  "failed_updates eligible k = [U_retry_eligible eligible] @ no_lease @ [U_reasons [adapter_error_code k]]"

definition failure_reason :: "adapter_error_kind \<Rightarrow> string \<Rightarrow> string" where
  "failure_reason k d = adapter_error_code k @ '': '' @ d"

definition after_execute :: "config \<Rightarrow> 's rel_store \<Rightarrow> action_row \<Rightarrow> adapter \<Rightarrow> string \<Rightarrow> int \<Rightarrow> int \<Rightarrow> amc_error + receipt
    \<Rightarrow> ('s, action_row) gw" where
  "after_execute C S row a actor now started out = (case out of
     Inl (AdapterError OutcomeUnknown d) \<Rightarrow> to_unknown C S row (''OUTCOME_UNKNOWN: '' @ d) actor now None
   | Inl (AdapterError TransientBeforeEffect d) \<Rightarrow>
       bnd (release_budget (cf_env C) row Res_RELEASED ''failed before effect'') (\<lambda>_.
       move (cf_env C) row A_FAILED actor (failure_reason TransientBeforeEffect d) (JDict [])
         (failed_updates (ac_attempts row < max_attempts) TransientBeforeEffect @ [U_reservation None]) now)
   | Inl (AdapterError CompensationUnsupported d) \<Rightarrow> raise (AdapterError CompensationUnsupported d)
   | Inl (AdapterError k d) \<Rightarrow>
       bnd (release_budget (cf_env C) row Res_RELEASED ''failed'') (\<lambda>_.
       move (cf_env C) row A_FAILED actor (failure_reason k d) (JDict []) (failed_updates False k) now)
   | Inl e \<Rightarrow> raise e
   | Inr r \<Rightarrow>
       bnd (utc_now (cf_env C)) (\<lambda>ended.
       bnd (execution_receipt_of C row started ended r) (\<lambda>_.
       bnd (move (cf_env C) row A_OBSERVING actor ''receipt persisted; reading back the provider state''
              (JDict [(''receipt'', receipt_json r)]) [] now) (\<lambda>row1.
       observe_action C S row1 a actor now (''observe-a'' @ str_int (ac_attempts row1))))))"

definition execute_and_observe :: "config \<Rightarrow> 's rel_store \<Rightarrow> action_row \<Rightarrow> adapter \<Rightarrow> string \<Rightarrow> int \<Rightarrow> ('s, action_row) gw" where
  "execute_and_observe C S row a actor now =
    bnd (of_sum (args_of C a (ac_args row))) (\<lambda>args.
    bnd (utc_now (cf_env C)) (\<lambda>started.
    bnd (attempt (execute C (row_context (config_hash C) row) args)) (\<lambda>out.
    after_execute C S row a actor now started out)))"

text \<open>The first part of a dispatch: the action, visible, in reach and settled.\<close>

definition dispatch_row :: "config \<Rightarrow> principal \<Rightarrow> string \<Rightarrow> int \<Rightarrow> ('s, action_row) gw" where
  "dispatch_row C p aid moment =
    bnd (get_request aid) (\<lambda>found.
    bnd (visible p found) (\<lambda>row0.
    bnd (authorize_scope p (ac_project row0) True) (\<lambda>_.
    bnd (if ac_state row0 = A_AWAITING_APPROVAL then settle C aid gateway_actor (Some moment) else ret row0) (\<lambda>row.
    bnd (guard (ac_state row = A_AUTHORIZED \<or> ac_state row = A_RESERVED)
      (not_dispatchable ''NOT_DISPATCHABLE'' (''action is '' @ action_state_value (ac_state row)))) (\<lambda>_.
    ret row)))))"

definition frozen_hold :: "string \<Rightarrow> bool" where
  "frozen_hold h = (starts_with ''SYSTEM_FROZEN'' h \<or> starts_with ''TENANT_FROZEN'' h \<or> starts_with ''PROJECT_FROZEN'' h)"

definition hold_error :: "string list \<Rightarrow> amc_error" where
  "hold_error hold = (if list_ex frozen_hold hold then GatewayError Frozen ''DISPATCH_FROZEN'' (join ''; '' hold)
     else not_dispatchable ''HELD'' (join ''; '' hold))"

definition block_dispatch :: "config \<Rightarrow> principal \<Rightarrow> action_row \<Rightarrow> string list \<Rightarrow> int \<Rightarrow> ('s, action_row) gw" where
  "block_dispatch C p row block moment =
    bnd (release_budget (cf_env C) row Res_RELEASED ''blocked at preflight'') (\<lambda>_.
    bnd (move (cf_env C) row (if block = [''ACTION_EXPIRED''] then A_EXPIRED else A_BLOCKED) (pr_user p) (hd block) (JDict [])
           [U_reasons block] moment) (\<lambda>r.
    bnd (stale_open_approvals (cf_env C) r (''blocked at dispatch: '' @ hd block)) (\<lambda>_. ret r)))"

text \<open>The budget reservation of a financial action: the row to dispatch, or the blocked row.\<close>

definition reserve_for :: "config \<Rightarrow> principal \<Rightarrow> action_row \<Rightarrow> int \<Rightarrow> ('s, action_row + action_row) gw" where
  "reserve_for C p row moment =
    (if \<not> (R4 \<in> set (ra_classes (rd_assessment (ac_risk row))) \<and> ac_state row = A_AUTHORIZED) then ret (Inr row)
     else
       bnd (of_sum (case parse_iso (ac_expires row) of None \<Rightarrow> Inl (ValueErr ''Invalid isoformat string'') | Some t \<Rightarrow> Inr t)) (\<lambda>expiry.
       bnd (of_sum (case ab_currency (ac_binding row) of
              None \<Rightarrow> Inl (PythonError (repr_str ''NoneType'' @ '' object has no attribute '' @ repr_str ''upper'')) | Some c \<Rightarrow> Inr c)) (\<lambda>currency.
       bnd (attempt (reserve_budget (cf_env C) (ac_tenant row) (ac_project row) (ac_client row) (ac_id row) currency
              (ab_cost_minor (ac_binding row)) (min expiry (moment + seconds 3600)) moment)) (\<lambda>out.
       case out of
         Inl (BudgetExceeded code details) \<Rightarrow>
           bnd (move (cf_env C) row A_BLOCKED (pr_user p) code (JDict [(''budget'', details)]) [U_reasons [code]] moment) (\<lambda>r.
           ret (Inl r))
       | Inl e \<Rightarrow> raise e
       | Inr res \<Rightarrow>
           bnd (move (cf_env C) row A_RESERVED (pr_user p) ''budget reserved''
             (JDict [(''reservation_id'', JStr (re_id res)), (''amount_minor'', JInt (re_amount res)), (''currency'', JStr (re_currency res))])
             [U_reservation (Some (re_id res))] moment) (\<lambda>r. ret (Inr r))))))"

definition take_lease :: "config \<Rightarrow> principal \<Rightarrow> descriptor \<Rightarrow> action_row \<Rightarrow> string \<Rightarrow> int \<Rightarrow> ('s, action_row) gw" where
  "take_lease C p d row worker moment = on_conflict (not_dispatchable ''ALREADY_DISPATCHING'')
    (move (cf_env C) row A_DISPATCHING (pr_user p) ''lease taken; intent persisted before the effect''
      (JDict [(''worker'', JStr worker), (''effect_key'', JStr (row_effect_key (config_hash C) row))])
      [U_lease_owner (Some worker), U_lease_expires (Some (iso (moment + seconds (ds_timeout d * 2 + lease_slack_seconds)))),
       U_attempts (ac_attempts row + 1)] moment)"

definition dispatch_cleared :: "config \<Rightarrow> 's rel_store \<Rightarrow> principal \<Rightarrow> descriptor \<Rightarrow> adapter \<Rightarrow> action_row \<Rightarrow> string option \<Rightarrow> int
    \<Rightarrow> ('s, action_row) gw" where
  "dispatch_cleared C S p d a row worker_id moment =
    bnd (reserve_for C p row moment) (\<lambda>out. case out of
      Inl blocked \<Rightarrow> ret blocked
    | Inr ready \<Rightarrow>
        let worker = or_default (some_or_empty worker_id) (''api:'' @ pr_user p) in
        bnd (take_lease C p d ready worker moment) (\<lambda>leased.
        bnd (trust_decision (cf_env C) S leased ''dispatch'' Pol_ALLOW [] [''lease:'' @ worker]) (\<lambda>_.
        bnd (record_permit leased moment) (\<lambda>_.
        execute_and_observe C S leased a (pr_user p) moment))))"

definition dispatch :: "config \<Rightarrow> 's rel_store \<Rightarrow> principal \<Rightarrow> string \<Rightarrow> string option \<Rightarrow> int option \<Rightarrow> ('s, action_row) gw" where
  "dispatch C S p aid worker_id now =
    bnd (moment_of (cf_env C) now) (\<lambda>moment.
    bnd (dispatch_row C p aid moment) (\<lambda>row.
    bnd (of_sum (find_descriptor C (ac_capability row))) (\<lambda>d.
    bnd (of_sum (adapter_for d)) (\<lambda>a.
    bnd (preflight C row moment) (\<lambda>(hold, block).
    if hold \<noteq> [] then raise (hold_error hold)
    else if block \<noteq> [] then block_dispatch C p row block moment
    else dispatch_cleared C S p d a row worker_id moment)))))"

subsection \<open>Reconciling, recovering, retrying\<close>

definition recovery_actor :: string where "recovery_actor = ''system:recovery''"

definition reconcilable :: "principal option \<Rightarrow> action_state \<Rightarrow> bool" where
  "reconcilable who s = (s = A_NEEDS_HUMAN \<and> who \<noteq> None \<or> s = A_UNKNOWN)"

definition reconcile_row :: "principal option \<Rightarrow> string \<Rightarrow> ('s, action_row) gw" where
  "reconcile_row who aid =
    bnd (get_request aid) (\<lambda>found.
    case who of
      None \<Rightarrow> (case found of None \<Rightarrow> raise (LookupErr ''action not found'') | Some r \<Rightarrow> ret r)
    | Some p \<Rightarrow> bnd (visible p found) (\<lambda>r. bnd (authorize_scope p (ac_project r) True) (\<lambda>_. ret r)))"

text \<open>What a reconciliation makes of the read-back of the effect.\<close>

definition conclude :: "config \<Rightarrow> 's rel_store \<Rightarrow> action_row \<Rightarrow> string \<Rightarrow> string \<Rightarrow> int \<Rightarrow> amc_error + observation \<Rightarrow> ('s, action_row) gw" where
  "conclude C S row expected actor moment out = (let V = cf_env C in case out of
     Inl (AdapterError k d) \<Rightarrow>
       if ac_reconcile_attempts row \<ge> max_reconcile_attempts
       then move V row A_NEEDS_HUMAN actor (''provider unreadable after '' @ str_int (ac_reconcile_attempts row) @ '' attempts'')
         (JDict []) (no_lease @ [U_reasons [adapter_error_code k]]) moment
       else move V row A_UNKNOWN actor (''provider unreadable ('' @ adapter_error_code k @ ''); will try again'') (JDict []) no_lease moment
   | Inl e \<Rightarrow> raise e
   | Inr obs \<Rightarrow>
       let same = observation_matches row obs expected in
       bnd (observation_receipt_of C row obs expected same (''reconcile-'' @ str_int (ac_reconcile_attempts row))) (\<lambda>_.
       if same then complete C row obs actor moment
       else if \<not> on_found obs then
         bnd (release_budget V row Res_RELEASED ''reconciled: not applied'') (\<lambda>_.
         move V row A_FAILED actor ''NOT_APPLIED: the provider has no record of the effect''
           (JDict [(''observation'', observation_json obs)])
           (no_lease @ [U_retry_eligible (ac_attempts row < max_attempts), U_reasons [''NOT_APPLIED''], U_reservation None]) moment)
       else move V row A_NEEDS_HUMAN actor ''OBSERVATION_MISMATCH: the provider state differs from the bound effect''
           (JDict [(''observation'', observation_json obs)]) (no_lease @ [U_reasons [''OBSERVATION_MISMATCH'']]) moment))"

definition reconcile :: "config \<Rightarrow> 's rel_store \<Rightarrow> string \<Rightarrow> string \<Rightarrow> principal option \<Rightarrow> int option \<Rightarrow> ('s, action_row) gw" where
  "reconcile C S aid default_actor who now =
    (let actor = (case who of None \<Rightarrow> default_actor | Some p \<Rightarrow> pr_user p) in
     bnd (moment_of (cf_env C) now) (\<lambda>moment.
     bnd (reconcile_row who aid) (\<lambda>row0.
     bnd (guard (reconcilable who (ac_state row0)) (not_dispatchable ''NOT_RECONCILABLE'' (''action is '' @ action_state_value (ac_state row0)))) (\<lambda>_.
     bnd (of_sum (find_descriptor C (ac_capability row0))) (\<lambda>d.
     bnd (of_sum (adapter_for d)) (\<lambda>a.
     bnd (on_conflict (not_dispatchable ''ALREADY_RECONCILING'')
       (move (cf_env C) row0 A_RECONCILING actor ''reading provider state by effect key'' (JDict [])
         [U_lease_owner (Some actor), U_lease_expires (Some (iso (moment + seconds 120))),
          U_reconcile_attempts (ac_reconcile_attempts row0 + 1)] moment)) (\<lambda>row.
     bnd (of_sum (row_expected_state C a row)) (\<lambda>expected.
     bnd (attempt (reconcile_effect C a (row_context (config_hash C) row))) (\<lambda>out.
     conclude C S row expected actor moment out)))))))))"

definition recoverable_states :: "action_state list" where
  "recoverable_states = [A_DISPATCHING, A_OBSERVING, A_RECONCILING]"

definition lost_lease :: "config \<Rightarrow> action_row \<Rightarrow> string \<Rightarrow> int \<Rightarrow> ('s, action_row option) gw" where
  "lost_lease C row actor moment = catch
    (bnd (move (cf_env C) row A_UNKNOWN actor ''LEASE_EXPIRED: worker crashed mid-flight'' (JDict []) no_lease moment) (\<lambda>r. ret (Some r)))
    (\<lambda>e. case e of ActionConflict _ \<Rightarrow> ret None | ValueErr _ \<Rightarrow> ret None | _ \<Rightarrow> raise e)"

fun recover_rows :: "config \<Rightarrow> 's rel_store \<Rightarrow> principal option \<Rightarrow> int \<Rightarrow> action_row list \<Rightarrow> ('s, action_row list) gw" where
  "recover_rows C S who moment [] = ret []"
| "recover_rows C S who moment (row # rows) =
    bnd (sweeps who row) (\<lambda>mine.
    bnd (if \<not> mine then ret []
         else bnd (lost_lease C row (case who of None \<Rightarrow> recovery_actor | Some p \<Rightarrow> pr_user p) moment) (\<lambda>lost.
           case lost of None \<Rightarrow> ret []
           | Some r \<Rightarrow> bnd (reconcile C S (ac_id r) recovery_actor who (Some moment)) (\<lambda>out. ret [out]))) (\<lambda>done.
    bnd (recover_rows C S who moment rows) (\<lambda>rest. ret (done @ rest))))"

definition recover_stale :: "config \<Rightarrow> 's rel_store \<Rightarrow> principal option \<Rightarrow> int option \<Rightarrow> ('s, action_row list) gw" where
  "recover_stale C S who now =
    bnd (moment_of (cf_env C) now) (\<lambda>moment.
    bnd (leased_past moment recoverable_states (map_option pr_tenant who)) (\<lambda>rows.
    recover_rows C S who moment rows))"

definition retry :: "config \<Rightarrow> 's rel_store \<Rightarrow> principal \<Rightarrow> string \<Rightarrow> int option \<Rightarrow> ('s, action_row) gw" where
  "retry C S p aid now =
    bnd (moment_of (cf_env C) now) (\<lambda>moment.
    bnd (get_request aid) (\<lambda>found.
    bnd (visible p found) (\<lambda>row.
    bnd (authorize_scope p (ac_project row) True) (\<lambda>_.
    bnd (guard (ac_state row = A_FAILED \<and> ac_retry_eligible row)
      (not_dispatchable ''NOT_RETRYABLE'' ''only a failure known to have had no effect may be retried'')) (\<lambda>_.
    bnd (guard (ac_attempts row < max_attempts) (not_dispatchable ''RETRY_LIMIT'' (str_int max_attempts @ '' attempts used''))) (\<lambda>_.
    bnd (move (cf_env C) row A_AUTHORIZED (pr_user p) ''bounded retry of a failure with no effect'' (JDict [])
      [U_retry_eligible False, U_reasons [], U_reservation None] moment) (\<lambda>_.
    dispatch C S p aid None (Some moment))))))))"

subsection \<open>Compensating\<close>

text \<open>\<open>row.get("outcome") or {}\<close>: a completed action has an outcome.\<close>

definition base_outcome :: "action_row \<Rightarrow> action_outcome" where
  "base_outcome row = coalesce (ac_outcome row)
     \<lparr>oc_label = [], oc_simulated = False, oc_provider_ref = None, oc_state = None, oc_payload_hash = None, oc_cost_minor = 0,
      oc_currency = None, oc_budget_committed = False, oc_delivered = False, oc_compensation = None\<rparr>"

definition unconfirmed :: "config \<Rightarrow> principal \<Rightarrow> action_row \<Rightarrow> string \<Rightarrow> int \<Rightarrow> adapter_error_kind \<Rightarrow> string \<Rightarrow> ('s, action_row) gw" where
  "unconfirmed C p row reason moment k d =
    bnd (annotate (cf_env C) (ac_id row) (ac_version row) (pr_user p)
      (''compensation outcome unconfirmed: '' @ adapter_error_class k)
      (JDict [(''error'', JStr (take 500 (or_default d (adapter_error_code k))))])
      ((base_outcome row)\<lparr>oc_compensation := Some (Unconfirmed (pr_user p) reason (adapter_error_class k) (iso moment))\<rparr>)) (\<lambda>_.
    raise (not_dispatchable ''COMPENSATION_UNCONFIRMED''
      ''the provider may have applied the compensation; run it again to read the provider back''))"

definition refund_budget :: "config \<Rightarrow> action_row \<Rightarrow> observation \<Rightarrow> ('s, unit) gw" where
  "refund_budget C row obs =
    (let rid = some_or_empty (ac_reservation row) in
     if rid = [] then ret ()
     else bnd (get_reservation rid) (\<lambda>found. case found of
         None \<Rightarrow> ret ()
       | Some r \<Rightarrow> if \<not> (re_status r = Res_COMMITTED \<and> on_state obs = Some ''REFUNDED'') then ret ()
           else bnd (settle_reservation (cf_env C) (re_id r) Res_REFUNDED None [(''refund_observed'', observation_json obs)] Res_COMMITTED)
             (\<lambda>_. ret ())))"

definition compensate :: "config \<Rightarrow> principal \<Rightarrow> string \<Rightarrow> string \<Rightarrow> int option \<Rightarrow> ('s, action_row) gw" where
  "compensate C p aid reason now =
    bnd (moment_of (cf_env C) now) (\<lambda>moment.
    bnd (get_request aid) (\<lambda>found.
    bnd (visible p found) (\<lambda>row.
    bnd (authorize_scope p (ac_project row) True) (\<lambda>_.
    bnd (guard (principal_role p \<in> set (approver_roles C)) (ActionForbidden ''compensation requires an approver role'')) (\<lambda>_.
    bnd (guard (pr_user p \<noteq> ac_actor row) (ActionForbidden ''the requester cannot compensate their own action'')) (\<lambda>_.
    bnd (guard (ac_state row = A_COMPLETED) (not_dispatchable ''NOT_COMPENSATABLE'' (''action is '' @ action_state_value (ac_state row)))) (\<lambda>_.
    bnd (freeze_reasons C (ac_tenant row) (ac_project row)) (\<lambda>frozen.
    bnd (guard (frozen = []) (GatewayError Frozen ''DISPATCH_FROZEN'' ''compensation is a dispatch and is frozen too'')) (\<lambda>_.
    bnd (of_sum (find_descriptor C (ac_capability row))) (\<lambda>d.
    bnd (of_sum (adapter_for d)) (\<lambda>a.
    bnd (attempt (compensate_effect C a (row_context (config_hash C) row))) (\<lambda>out.
    case out of
      Inl (AdapterError CompensationUnsupported m) \<Rightarrow> raise (not_dispatchable ''COMPENSATION_UNSUPPORTED'' m)
    | Inl (AdapterError k m) \<Rightarrow> unconfirmed C p row reason moment k m
    | Inl e \<Rightarrow> raise e
    | Inr obs \<Rightarrow>
        bnd (refund_budget C row obs) (\<lambda>_.
        annotate (cf_env C) (ac_id row) (ac_version row) (pr_user p) (''compensated: '' @ reason)
          (JDict [(''observation'', observation_json obs)])
          ((base_outcome row)\<lparr>oc_compensation := Some (Confirmed (pr_user p) reason (on_state obs) (iso moment))\<rparr>))))))))))))))"

end
