(* ===== verification/Frames.thy ===== *)
theory Frames
  imports Action_Store
begin

section \<open>Frames and triples\<close>

text \<open>
  Two judgements about programs, each with one rule per construct, so that a handler is taken
  apart by its syntax. \<open>frame f m\<close> says that \<open>m\<close> leaves the part \<open>f\<close> of the state alone, however
  it ends. \<open>triple I m R\<close> says that \<open>m\<close> keeps the invariant \<open>I\<close>, however it ends, and returns only
  values that satisfy \<open>R\<close>. \<open>steady\<close> parts do not see the clock and identifier counters.
\<close>

definition frame :: "('s \<Rightarrow> 'b) \<Rightarrow> ('s, 'e, 'a) prog \<Rightarrow> bool" where
  "frame f m \<longleftrightarrow> (\<forall>s. f (snd (m s)) = f s)"

definition triple :: "('s \<Rightarrow> bool) \<Rightarrow> ('s, 'e, 'a) prog \<Rightarrow> ('a \<Rightarrow> bool) \<Rightarrow> bool" where
  "triple I m R \<longleftrightarrow> (\<forall>s. I s \<longrightarrow> wp m (\<lambda>a t. I t \<and> R a) (\<lambda>_. I) s)"

definition steady :: "('w world_scheme \<Rightarrow> 'b) \<Rightarrow> bool" where
  "steady f \<longleftrightarrow> (\<forall>s g. f (w_reads_update g s) = f s \<and> f (w_uuids_update g s) = f s)"

named_theorems frame_rules
named_theorems triple_rules

lemma steadyI: "(\<And>s g. f (w_reads_update g s) = f s) \<Longrightarrow> (\<And>s g. f (w_uuids_update g s) = f s) \<Longrightarrow> steady f"
  by (simp add: steady_def)

subsection \<open>Frames\<close>

lemma frameD: "frame f m \<Longrightarrow> m s = (r, t) \<Longrightarrow> f t = f s"
  by (metis frame_def snd_conv)

lemma frame_wp: "frame f m \<longleftrightarrow> (\<forall>s. wp m (\<lambda>_ t. f t = f s) (\<lambda>_ t. f t = f s) s)"
proof -
  have "wp m (\<lambda>_ t. f t = f s) (\<lambda>_ t. f t = f s) s \<longleftrightarrow> f (snd (m s)) = f s" for s
    unfolding wp_def by (cases "m s"; cases "fst (m s)") simp_all
  then show ?thesis by (simp add: frame_def)
qed

lemma frame_ret [frame_rules]: "frame f (ret a)" by (simp add: frame_def ret_def)
lemma frame_raise [frame_rules]: "frame f (raise e)" by (simp add: frame_def raise_def)
lemma frame_gets [frame_rules]: "frame f (gets g)" by (simp add: frame_def gets_def)
lemma frame_guard [frame_rules]: "frame f (guard b e)" by (simp add: frame_def guard_def ret_def raise_def)
lemma frame_of_sum [frame_rules]: "frame f (of_sum r)" by (simp add: frame_def of_sum_def)

lemma frame_modify [frame_rules]: "(\<And>s. f (g s) = f s) \<Longrightarrow> frame f (modify g)"
  by (simp add: frame_def modify_def)

lemma frame_bnd [frame_rules]: "frame f m \<Longrightarrow> (\<And>a. frame f (g a)) \<Longrightarrow> frame f (bnd m g)"
  by (auto simp: frame_def bnd_def split: prod.splits sum.splits) (metis snd_conv)+

lemma frame_catch [frame_rules]: "frame f m \<Longrightarrow> (\<And>e. frame f (h e)) \<Longrightarrow> frame f (catch m h)"
  by (auto simp: frame_def catch_def split: prod.splits sum.splits) (metis snd_conv)+

lemma frame_attempt [frame_rules]: "frame f m \<Longrightarrow> frame f (attempt m)"
  by (auto simp: frame_def attempt_def split: prod.splits) (metis snd_conv)

lemma frame_mapE [frame_rules]: "frame f m \<Longrightarrow> frame f (mapE g m)"
  by (auto simp: frame_def mapE_def split: prod.splits sum.splits) (metis snd_conv)+

lemma frame_on_true [frame_rules]: "(b \<Longrightarrow> frame f m) \<Longrightarrow> frame f (on_true b m)"
  by (simp add: frame_def on_true_def ret_def)

lemma frame_each [frame_rules]: "(\<And>x. frame f (g x)) \<Longrightarrow> frame f (each g xs)"
  by (induction xs) (auto intro!: frame_rules)

lemma frame_if [frame_rules]: "(b \<Longrightarrow> frame f m) \<Longrightarrow> (\<not> b \<Longrightarrow> frame f n) \<Longrightarrow> frame f (if b then m else n)"
  by simp

lemma frame_option [frame_rules]:
  "(x = None \<Longrightarrow> frame f m) \<Longrightarrow> (\<And>a. x = Some a \<Longrightarrow> frame f (g a)) \<Longrightarrow> frame f (case x of None \<Rightarrow> m | Some a \<Rightarrow> g a)"
  by (cases x) simp_all

lemma frame_sum [frame_rules]:
  "(\<And>d. x = Inl d \<Longrightarrow> frame f (h d)) \<Longrightarrow> (\<And>a. x = Inr a \<Longrightarrow> frame f (g a)) \<Longrightarrow> frame f (case x of Inl d \<Rightarrow> h d | Inr a \<Rightarrow> g a)"
  by (cases x) simp_all

lemma frame_prod [frame_rules]: "(\<And>a b. x = (a, b) \<Longrightarrow> frame f (g a b)) \<Longrightarrow> frame f (case x of (a, b) \<Rightarrow> g a b)"
  by (cases x) simp

lemma frame_Let [frame_rules]: "frame f (g e) \<Longrightarrow> frame f (Let e g)"
  by simp

lemma frame_utc_now [frame_rules]: "steady f \<Longrightarrow> frame f (utc_now V)"
  by (simp add: frame_def utc_now_def steady_def prog_defs)

lemma frame_uuid4_hex [frame_rules]: "steady f \<Longrightarrow> frame f (uuid4_hex V)"
  by (simp add: frame_def uuid4_hex_def steady_def prog_defs)

lemma frame_now_iso [frame_rules]: "steady f \<Longrightarrow> frame f (now_iso V)"
  unfolding now_iso_def by (intro frame_rules)

lemma frame_atomic_db [frame_rules]: "steady f \<Longrightarrow> frame f m \<Longrightarrow> frame f (atomic_db m)"
proof -
  assume st: "steady f" and m: "frame f m"
  have reset: "f (s\<lparr>w_reads := i, w_uuids := k\<rparr>) = f s" for s i k using st by (simp add: steady_def)
  have "f (snd (atomic_db m s)) = f s" for s
  proof (cases "m s")
    case (Pair r t)
    then show ?thesis using frameD [OF m Pair] reset by (cases r) (simp_all add: atomic_db_def)
  qed
  then show "frame f (atomic_db m)" unfolding frame_def by blast
qed

text \<open>What a program changed, one of its parts changed: the part before it is passed over.\<close>

lemma bnd_changes:
  assumes "f (snd (bnd m g s)) \<noteq> f s" and "frame f m"
    and go: "\<And>a u. m s = (Inr a, u) \<Longrightarrow> f u = f s \<Longrightarrow> f (snd (g a u)) \<noteq> f u \<Longrightarrow> G"
  shows G
proof -
  obtain r u where m: "m s = (r, u)" by (rule prod.exhaust)
  have u: "f u = f s" using assms(2) m by (rule frameD)
  with assms(1) m go show G by (cases r) (auto simp: bnd_def)
qed

subsection \<open>Triples\<close>

lemma tripleD: "triple I m R \<Longrightarrow> I s \<Longrightarrow> m s = (out, t) \<Longrightarrow> I t \<and> (case out of Inl e \<Rightarrow> True | Inr a \<Rightarrow> R a)"
  by (cases out) (force simp: triple_def wp_def)+

lemma triple_weaken: "triple I m R \<Longrightarrow> (\<And>a. R a \<Longrightarrow> R' a) \<Longrightarrow> triple I m R'"
  unfolding triple_def by (blast intro: wp_mono)

lemma triple_frame: "frame f m \<Longrightarrow> (\<And>s t. f t = f s \<Longrightarrow> I s \<Longrightarrow> I t) \<Longrightarrow> triple I m (\<lambda>_. True)"
proof -
  assume m: "frame f m" and I: "\<And>s t. f t = f s \<Longrightarrow> I s \<Longrightarrow> I t"
  have "wp m (\<lambda>a t. I t \<and> True) (\<lambda>_. I) s" if "I s" for s
    by (rule wp_mono [OF m [unfolded frame_wp, rule_format]]) (use I that in auto)
  then show ?thesis unfolding triple_def by blast
qed

lemma triple_ret [triple_rules]: "R a \<Longrightarrow> triple I (ret a) R" by (simp add: triple_def hoare_rules)
lemma triple_raise [triple_rules]: "triple I (raise e) R" by (simp add: triple_def hoare_rules)
lemma triple_gets: "(\<And>s. I s \<Longrightarrow> R (g s)) \<Longrightarrow> triple I (gets g) R" by (simp add: triple_def hoare_rules)
lemma triple_guard [triple_rules]: "(b \<Longrightarrow> R ()) \<Longrightarrow> triple I (guard b e) R" by (simp add: triple_def hoare_rules)
lemma triple_of_sum [triple_rules]: "(\<And>a. r = Inr a \<Longrightarrow> R a) \<Longrightarrow> triple I (of_sum r) R"
  by (cases r) (simp_all add: triple_def hoare_rules)

lemma triple_bnd: "triple I m Q \<Longrightarrow> (\<And>a. Q a \<Longrightarrow> triple I (g a) R) \<Longrightarrow> triple I (bnd m g) R"
  unfolding triple_def wp_bnd by (auto elim!: wp_mono)

lemma triple_catch: "triple I m R \<Longrightarrow> (\<And>e. triple I (h e) R) \<Longrightarrow> triple I (catch m h) R"
  unfolding triple_def wp_catch by (auto elim!: wp_mono)

lemma triple_mapE [triple_rules]: "triple I m R \<Longrightarrow> triple I (mapE g m) R"
  unfolding triple_def wp_mapE by (auto elim!: wp_mono)

lemma triple_attempt: "triple I m R \<Longrightarrow> triple I (attempt m) (\<lambda>out. case out of Inl e \<Rightarrow> True | Inr a \<Rightarrow> R a)"
  unfolding triple_def wp_attempt by (auto elim!: wp_mono)

lemma triple_if [triple_rules]: "(b \<Longrightarrow> triple I m R) \<Longrightarrow> (\<not> b \<Longrightarrow> triple I n R) \<Longrightarrow> triple I (if b then m else n) R"
  by simp

lemma triple_option [triple_rules]:
  "(x = None \<Longrightarrow> triple I m R) \<Longrightarrow> (\<And>a. x = Some a \<Longrightarrow> triple I (g a) R) \<Longrightarrow> triple I (case x of None \<Rightarrow> m | Some a \<Rightarrow> g a) R"
  by (cases x) simp_all

lemma triple_sum [triple_rules]:
  "(\<And>d. x = Inl d \<Longrightarrow> triple I (h d) R) \<Longrightarrow> (\<And>a. x = Inr a \<Longrightarrow> triple I (g a) R) \<Longrightarrow>
    triple I (case x of Inl d \<Rightarrow> h d | Inr a \<Rightarrow> g a) R"
  by (cases x) simp_all

lemma triple_prod [triple_rules]: "(\<And>a b. x = (a, b) \<Longrightarrow> triple I (g a b) R) \<Longrightarrow> triple I (case x of (a, b) \<Rightarrow> g a b) R"
  by (cases x) simp

lemma triple_Let [triple_rules]: "triple I (g e) R \<Longrightarrow> triple I (Let e g) R"
  by simp

end
