(* ===== verification/Gateway_Frames.thy ===== *)
theory Gateway_Frames
  imports Gateway Frames
begin

section \<open>What the operations of the action plane leave alone\<close>

text \<open>
  One frame lemma per operation: a part of the database that is \<open>blind\<close> to the tables an
  operation writes is unchanged by it. The lemmas form the collection the handler proofs use.
\<close>

definition blind :: "(('c \<Rightarrow> 'c) \<Rightarrow> 's \<Rightarrow> 's) \<Rightarrow> ('s \<Rightarrow> 'b) \<Rightarrow> bool" where
  "blind upd f \<longleftrightarrow> (\<forall>g s. f (upd g s) = f s)"

lemma blindD [simp]: "blind upd f \<Longrightarrow> f (upd g s) = f s"
  by (simp add: blind_def)

lemma blindI: "(\<And>g s. f (upd g s) = f s) \<Longrightarrow> blind upd f"
  by (simp add: blind_def)

lemma frame_case_error [frame_rules]:
  "(\<And>t. e = ActionConflict t \<Longrightarrow> frame f (m t)) \<Longrightarrow> (\<And>t. e = ValueErr t \<Longrightarrow> frame f (n t)) \<Longrightarrow> frame f k \<Longrightarrow>
    frame f (case e of ActionConflict t \<Rightarrow> m t | ValueErr t \<Rightarrow> n t | _ \<Rightarrow> k)"
  by (cases e) simp_all

subsection \<open>Persistence\<close>

lemma frame_tenancy [frame_rules]:
  "blind ad_tenants_update f \<Longrightarrow> frame f (register_tenant t)"
  "blind ad_tenants_update f \<Longrightarrow> blind ad_projects_update f \<Longrightarrow> frame f (ensure_tenant_project t p)"
  unfolding register_tenant_def ensure_tenant_project_def by (intro frame_rules; simp)+

lemma frame_reads [frame_rules]:
  "frame f (get_request aid)" "frame f (find_by_key t k)" "frame f (list_requests t ps ss n)" "frame f (get_reservation rid)"
  "frame f (get_freeze fid)" "frame f (active_freezes t)" "frame f (get_autonomy p)" "frame f (sandbox_get t q k)"
  "frame f (client_for_project p)" "frame f (get_client c)" "frame f (list_budget_policies t)" "frame f (list_reservations t rs)"
  "frame f (expiring_before t m ss)" "frame f (list_transitions aid)"
  unfolding get_request_def find_by_key_def list_requests_def get_reservation_def get_freeze_def active_freezes_def get_autonomy_def
    sandbox_get_def client_for_project_def get_client_def list_budget_policies_def list_reservations_def expiring_before_def
    list_transitions_def
  by (intro frame_rules)+

lemma frame_leased_past [frame_rules]: "frame f (leased_past m ss t)"
  unfolding leased_past_def by (intro frame_rules)

lemma frame_append_transition [frame_rules]:
  "blind ad_transitions_update f \<Longrightarrow> frame f (append_transition V aid tenant src dst actor reason ev created)"
  unfolding append_transition_def by (intro frame_rules; simp)

lemma frame_cas_write [frame_rules]:
  "steady f \<Longrightarrow> blind ad_actions_update f \<Longrightarrow> blind ad_transitions_update f \<Longrightarrow>
    frame f (cas_write V aid hit upd dst stale actor reason ev stamp)"
  unfolding cas_write_def by (intro frame_rules; simp)

lemma frame_transition [frame_rules]:
  "steady f \<Longrightarrow> blind ad_actions_update f \<Longrightarrow> blind ad_transitions_update f \<Longrightarrow>
    frame f (transition V aid v ss dst actor reason ev us now)"
  unfolding transition_def by (intro frame_rules; simp)

lemma frame_annotate [frame_rules]:
  "steady f \<Longrightarrow> blind ad_actions_update f \<Longrightarrow> blind ad_transitions_update f \<Longrightarrow> frame f (annotate V aid v actor reason ev oc)"
  unfolding annotate_def by (intro frame_rules; simp)

lemma frame_insert_request [frame_rules]:
  "steady f \<Longrightarrow> blind ad_actions_update f \<Longrightarrow> blind ad_transitions_update f \<Longrightarrow> blind ad_tenants_update f \<Longrightarrow> blind ad_projects_update f \<Longrightarrow>
    frame f (insert_request V row actor reason ev)"
  unfolding insert_request_def by (intro frame_rules; simp)

lemma frame_reserve_budget [frame_rules]:
  "steady f \<Longrightarrow> blind ad_reservations_update f \<Longrightarrow> frame f (reserve_budget V t p c aid cur n e now)"
  unfolding reserve_budget_def expire_reservations_def by (intro frame_rules; simp)

lemma frame_settle_reservation [frame_rules]:
  "steady f \<Longrightarrow> blind ad_reservations_update f \<Longrightarrow> frame f (settle_reservation V rid st c ev ex)"
  unfolding settle_reservation_def by (intro frame_rules; simp)

lemma frame_freezes [frame_rules]:
  "steady f \<Longrightarrow> blind ad_freezes_update f \<Longrightarrow> blind ad_tenants_update f \<Longrightarrow> frame f (create_freeze V t k r reason actor)"
  "steady f \<Longrightarrow> blind ad_freezes_update f \<Longrightarrow> frame f (lift_freeze V fid actor reason)"
  unfolding create_freeze_def lift_freeze_def by (intro frame_rules; simp)+

lemma frame_sandbox [frame_rules]:
  "steady f \<Longrightarrow> blind ad_effects_update f \<Longrightarrow> frame f (sandbox_put V t p oper k tg pl st body c cur)"
  "steady f \<Longrightarrow> blind ad_effects_update f \<Longrightarrow> frame f (sandbox_set_state V eid st ex)"
  unfolding sandbox_put_def sandbox_set_state_def by (intro frame_rules; simp)+

subsection \<open>Approvals, runs, proofs\<close>

lemma frame_get_approval [frame_rules]: "frame f (get_approval aid)" "frame f (get_run_record rid)"
  unfolding get_approval_def get_run_record_def by (intro frame_rules)+

lemma frame_approvals [frame_rules]:
  "steady f \<Longrightarrow> blind pd_approvals_update f \<Longrightarrow> frame f (create_approval_request V run t p reason ty ref ver h au pol tg)"
  "steady f \<Longrightarrow> blind pd_approvals_update f \<Longrightarrow> frame f (mark_approval_stale V aid why)"
  unfolding create_approval_request_def mark_approval_stale_def by (intro frame_rules; simp)+

lemma frame_runs [frame_rules]:
  "steady f \<Longrightarrow> blind pd_runs_update f \<Longrightarrow> blind ad_tenants_update f \<Longrightarrow> blind ad_projects_update f \<Longrightarrow>
    frame f (create_run_record V rid t p pipe st i pol)"
  "steady f \<Longrightarrow> blind pd_runs_update f \<Longrightarrow> frame f (update_run_status V rid st)"
  unfolding create_run_record_def update_run_status_def by (intro frame_rules; simp)+

lemma frame_proofs [frame_rules]:
  "steady f \<Longrightarrow> blind pf_executions_update f \<Longrightarrow> frame f (put_execution_receipt run t p x)"
  "steady f \<Longrightarrow> blind pf_observations_update f \<Longrightarrow> frame f (put_observation_receipt run t p v)"
  "steady f \<Longrightarrow> blind pf_permits_update f \<Longrightarrow> frame f (put_dispatch_permit run t p d)"
  unfolding put_execution_receipt_def put_observation_receipt_def put_dispatch_permit_def with_run_def by (intro frame_rules; simp)+

subsection \<open>Adapters\<close>

lemma frame_url_host [frame_rules]: "frame f (url_host C u)"
  unfolding url_host_def by (intro frame_rules)

lemma frame_require_sandbox [frame_rules]: "frame f (require_sandbox c)"
  unfolding require_sandbox_def by (intro frame_rules)

lemma frame_effect_body [frame_rules]: "steady f \<Longrightarrow> frame f (effect_body C args)"
  by (cases args) (auto intro!: frame_rules)

lemma frame_observe [frame_rules]: "frame f (observe C a c)" "frame f (reconcile_effect C a c)"
  unfolding reconcile_effect_def observe_def by (intro frame_rules)+

lemma frame_execute [frame_rules]:
  "steady f \<Longrightarrow> blind ad_effects_update f \<Longrightarrow> frame f (base_execute C c args)"
  "steady f \<Longrightarrow> blind ad_effects_update f \<Longrightarrow> frame f (execute C c args)"
proof -
  show base: "frame f (base_execute C c args)" if "steady f" "blind ad_effects_update f" for c args
    unfolding base_execute_def using that by (intro frame_rules)
  show "frame f (execute C c args)" if "steady f" "blind ad_effects_update f"
    by (cases args) (auto intro!: frame_rules base that)
qed

lemma frame_compensate [frame_rules]:
  "steady f \<Longrightarrow> blind ad_effects_update f \<Longrightarrow> frame f (compensate_effect C a c)"
  unfolding compensate_effect_def compensate_to_def by (intro frame_rules)

subsection \<open>Trust kernel, broker, governance\<close>

lemma frame_on_trust [frame_rules]: "steady f \<Longrightarrow> blind gd_trust_update f \<Longrightarrow> frame f (on_trust m)"
proof -
  assume st: "steady f" and b: "blind gd_trust_update f"
  have "f (db\<lparr>w_reads := i, w_uuids := k, gd_trust := t\<rparr>) = f db" for db i k t
    using st b by (simp add: steady_def)
  then show ?thesis by (simp add: frame_def on_trust_def split: prod.splits)
qed

lemma frame_moment_of [frame_rules]: "steady f \<Longrightarrow> frame f (moment_of V now)"
  unfolding moment_of_def by (intro frame_rules)

lemma frame_broker [frame_rules]:
  "frame f (authorize_scope p project w)" "frame f (visible p found)" "frame f (require_role p rs what)"
  "frame f (resolve_dependencies project refs)" "frame f (current_dependencies project pins)" "frame f (action_approvals row)"
  "frame f (check_approvals C row now)"
  unfolding authorize_scope_def visible_def require_role_def resolve_dependencies_def current_dependencies_def action_approvals_def
    check_approvals_def get_project_workspace_def
  by (intro frame_rules)+

lemma frame_open_anchor_run [frame_rules]:
  "steady f \<Longrightarrow> blind pd_runs_update f \<Longrightarrow> blind ad_tenants_update f \<Longrightarrow> blind ad_projects_update f \<Longrightarrow>
    frame f (open_anchor_run V p aid t project b)"
  unfolding open_anchor_run_def by (intro frame_rules)

lemma frame_broker_writes [frame_rules]:
  "steady f \<Longrightarrow> blind pd_approvals_update f \<Longrightarrow> frame f (open_approvals V run aid t p ss h title)"
  "steady f \<Longrightarrow> blind pd_approvals_update f \<Longrightarrow> frame f (stale_open_approvals V row why)"
  unfolding open_approvals_def stale_open_approvals_def action_approvals_def by (intro frame_rules; simp)+

lemma frame_governance [frame_rules]:
  "frame f (freeze_reasons A t p)" "frame f (autonomy p)" "steady f \<Longrightarrow> frame f (uncertainty V t now P)"
  unfolding freeze_reasons_def autonomy_def uncertainty_def by (intro frame_rules; assumption?)+

subsection \<open>The gateway\<close>

lemma frame_gateway [frame_rules]:
  "steady f \<Longrightarrow> blind ad_reservations_update f \<Longrightarrow> frame f (release_budget V row st why)"
  "steady f \<Longrightarrow> blind ad_reservations_update f \<Longrightarrow> frame f (commit_budget C row obs)"
  "steady f \<Longrightarrow> blind ad_reservations_update f \<Longrightarrow> frame f (refund_budget C row obs)"
  "steady f \<Longrightarrow> blind gd_trust_update f \<Longrightarrow> frame f (trust_decision V S row stage eff req ev)"
  "steady f \<Longrightarrow> blind pf_permits_update f \<Longrightarrow> frame f (record_permit row moment)"
  "steady f \<Longrightarrow> blind pf_executions_update f \<Longrightarrow> frame f (execution_receipt_of C row started ended rc)"
  "steady f \<Longrightarrow> blind pf_observations_update f \<Longrightarrow> frame f (observation_receipt_of C row obs ex same tag)"
  "frame f (sweeps who row)" "frame f (reconcile_row who aid)" "frame f (client_must_be_active project)"
  "frame f (plan_action C p q now)" "frame f (budget_headroom t project cur now)"
  "steady f \<Longrightarrow> frame f (preflight C row now)"
  unfolding release_budget_def commit_budget_def refund_budget_def trust_decision_def record_permit_def execution_receipt_of_def
    observation_receipt_of_def sweeps_def reconcile_row_def client_must_be_active_def plan_action_def budget_headroom_def preflight_def
  by (intro frame_rules; assumption?)+

end
