(* ===== verification/Gateway_Safety.thy ===== *)
theory Gateway_Safety
  imports Gateway_Frames Action_Safety Trust_Safety
begin

section \<open>What the gateway guarantees about every action\<close>

text \<open>
  Every handler of \<^verbatim>\<open>agency/actions/gateway.py\<close> keeps the invariant of the store for the edges of
  the action state machine and the condition \<open>row_fit\<close> on rows. The proofs walk over the syntax
  of a handler with triples; the steps that do not write actions are quiet by their frames.
\<close>

subsection \<open>The invariant\<close>

text \<open>A compensation is recorded as an entry from COMPLETED to COMPLETED.\<close>

definition gateway_edges :: "action_state \<Rightarrow> action_state set" where
  "gateway_edges s = (if s = A_COMPLETED then {A_COMPLETED} else action_transitions s)"

definition lease_holders :: "action_state set" where
  "lease_holders = {A_DISPATCHING, A_OBSERVING, A_VERIFIED, A_RECONCILING}"

text \<open>What never changes after an action is stored: no LIVE effect, and a binding that names what will be done.\<close>

definition bound_fit :: "(bytes \<Rightarrow> string) \<Rightarrow> action_row \<Rightarrow> bool" where
  "bound_fit H r = (ac_environment r \<noteq> Env_LIVE \<and> ac_binding_hash r = binding_hash_of H (ac_binding r) \<and>
     ab_payload_hash (ac_binding r) = ac_payload_hash r \<and> ab_tenant (ac_binding r) = ac_tenant r \<and>
     ab_project (ac_binding r) = ac_project r \<and> ab_environment (ac_binding r) = ac_environment r \<and>
     ab_target_ref (ac_binding r) = ac_target r \<and> ab_effective_class (ac_binding r) = ac_class r)"

text \<open>What the state of an action says about its attempts, its lease and its outcome.\<close>

definition phase_fit :: "action_row \<Rightarrow> bool" where
  "phase_fit r = (0 \<le> ac_attempts r \<and> ac_attempts r \<le> 3 \<and> (ac_state r \<in> pre_dispatch \<longrightarrow> ac_attempts r \<le> 2) \<and>
     (ac_lease_owner r \<noteq> None \<longleftrightarrow> ac_state r \<in> lease_holders) \<and> (ac_lease_expires r \<noteq> None \<longleftrightarrow> ac_state r \<in> lease_holders) \<and>
     (ac_retry_eligible r \<longrightarrow> ac_state r = A_FAILED) \<and> (ac_outcome r \<noteq> None \<longleftrightarrow> ac_state r = A_COMPLETED))"

definition row_fit :: "(bytes \<Rightarrow> string) \<Rightarrow> action_row \<Rightarrow> bool" where
  "row_fit H r = (bound_fit H r \<and> phase_fit r)"

abbreviation gateway_ok :: "config \<Rightarrow> 's gateway_db \<Rightarrow> bool" where
  "gateway_ok C \<equiv> store_ok (cf_env C) gateway_edges (row_fit (config_hash C))"

definition fit_in :: "(bytes \<Rightarrow> string) \<Rightarrow> action_state list \<Rightarrow> action_row \<Rightarrow> bool" where
  "fit_in H ss r = (row_fit H r \<and> ac_state r \<in> set ss)"

lemmas state_sets = gateway_edges_def lease_holders_def pre_dispatch_def action_stop_def

definition acts :: "'s gateway_db \<Rightarrow> action_row list \<times> transition_row list" where
  "acts db = (ad_actions db, ad_transitions db)"

lemma acts_blind [simp]:
  "steady acts" "blind ad_tenants_update acts" "blind ad_projects_update acts" "blind ad_reservations_update acts"
  "blind ad_freezes_update acts" "blind ad_effects_update acts" "blind pd_approvals_update acts" "blind pd_runs_update acts"
  "blind pf_executions_update acts" "blind pf_observations_update acts" "blind pf_permits_update acts" "blind gd_trust_update acts"
  by (simp_all add: steady_def blind_def acts_def)

lemma quiet_triple: "frame acts m \<Longrightarrow> triple (store_ok V E P) m (\<lambda>_. True)"
  by (rule triple_frame) (auto simp: acts_def store_ok_def)

lemma quiet_seq: "frame acts m \<Longrightarrow> (\<And>a. triple (store_ok V E P) (g a) R) \<Longrightarrow> triple (store_ok V E P) (bnd m g) R"
  by (rule triple_bnd [OF quiet_triple]) simp_all

lemma seq_guard: "(b \<Longrightarrow> triple I (g ()) R) \<Longrightarrow> triple I (bnd (guard b e) g) R"
  by (rule triple_bnd [OF triple_guard]) auto

lemma seq_of_sum: "(\<And>a. r = Inr a \<Longrightarrow> triple I (g a) R) \<Longrightarrow> triple I (bnd (of_sum r) g) R"
  by (rule triple_bnd [OF triple_of_sum]) auto

lemma seq_ret: "triple I (g a) R \<Longrightarrow> triple I (bnd (ret a) g) R"
  by (simp add: bnd_def ret_def)

lemma get_request_fit: "triple (store_ok V E P) (get_request aid) (\<lambda>r. case r of None \<Rightarrow> True | Some q \<Rightarrow> P q)"
  unfolding get_request_def by (rule triple_gets) (auto dest: store_ok_row split: option.splits)

lemma seq_get_request:
  "triple (store_ok V E P) (g None) R \<Longrightarrow> (\<And>r. P r \<Longrightarrow> triple (store_ok V E P) (g (Some r)) R) \<Longrightarrow>
    triple (store_ok V E P) (bnd (get_request aid) g) R"
  by (rule triple_bnd [OF get_request_fit]) (simp split: option.splits)

lemma seq_visible_None: "triple I (bnd (visible p None) g) R"
  by (simp add: visible_def triple_def hoare_rules)

lemma seq_visible: "triple I (g r) R \<Longrightarrow> triple I (bnd (visible p (Some r)) g) R"
  by (simp add: visible_def triple_def hoare_rules)

subsection \<open>Moving an action\<close>

text \<open>What a set clause does to the columns the invariant speaks of.\<close>

lemma set_columns_Nil: "set_columns [] r = r" by (simp add: set_columns_def)
lemma set_columns_Cons: "set_columns (u # us) r = set_columns us (set_column u r)" by (simp add: set_columns_def)

lemmas set_columns_simps = set_columns_Nil set_columns_Cons set_column.simps

lemma bound_set_columns: "bound_fit H (set_columns us r) = bound_fit H r"
proof (induction us arbitrary: r)
  case (Cons u us)
  have "bound_fit H (set_column u r) = bound_fit H r" by (cases u) (simp_all add: bound_fit_def)
  then show ?case using Cons by (simp add: set_columns_Cons)
qed (simp add: set_columns_Nil)

lemma bound_moved: "bound_fit H (moved us dst stamp r) = bound_fit H r"
  using bound_set_columns [of H us r] by (simp add: moved_def bound_fit_def)

lemma moved_state: "ac_state (moved us dst stamp r) = dst"
  by (simp add: moved_def)

lemma triple_move:
  assumes row: "fit_in H ss row" and edge: "list_all (\<lambda>s. dst \<in> gateway_edges s) ss"
    and fit: "\<And>r stamp. phase_fit r \<Longrightarrow> phase_fit row \<Longrightarrow> ac_state r \<in> set ss \<Longrightarrow> ac_state row = ac_state r \<Longrightarrow> phase_fit (moved us dst stamp r)"
  shows "triple (store_ok V gateway_edges (row_fit H)) (move V row dst actor reason ev us now :: ('s, action_row) gw) (fit_in H [dst])"
proof -
  let ?I = "store_ok V gateway_edges (row_fit H)"
  have "wp (transition V (ac_id row) (ac_version row) [ac_state row] dst actor reason ev us (Some now))
      (\<lambda>a t. ?I t \<and> fit_in H [dst] a) (\<lambda>_. ?I) db" if ok: "?I db" for db :: "'s gateway_db"
  proof (rule wp_transition [OF ok])
    show "?I v" if "same_actions db v" for v using that ok by (simp add: store_ok_same)
    fix r
    assume r: "row_by ac_id (ac_id row) (ad_actions db) = Some r" and st: "ac_state r \<in> set [ac_state row]"
    then have s: "ac_state r \<in> set ss" using row by (simp add: fit_in_def)
    show "dst \<in> gateway_edges (ac_state r)" using edge s by (simp add: list_all_iff)
    have rr: "bound_fit H r" "phase_fit r" using store_ok_row [OF ok r] by (simp_all add: row_fit_def)
    have "phase_fit row" using row by (simp add: fit_in_def row_fit_def)
    then have moved: "row_fit H (moved us dst stamp r)" for stamp
      using fit [OF rr(2) _ s] rr(1) st by (simp add: row_fit_def bound_moved)
    show "row_fit H (moved us dst stamp r)" for stamp by (rule moved)
    show "?I v \<and> fit_in H [dst] (moved us dst stamp r)" if "?I v" for v stamp
      using that moved by (simp add: fit_in_def moved_state)
  qed
  then show ?thesis by (simp add: triple_def move_def)
qed

lemma seq_move:
  assumes "fit_in H ss row" and "list_all (\<lambda>s. dst \<in> gateway_edges s) ss"
    and "\<And>r stamp. phase_fit r \<Longrightarrow> phase_fit row \<Longrightarrow> ac_state r \<in> set ss \<Longrightarrow> ac_state row = ac_state r \<Longrightarrow> phase_fit (moved us dst stamp r)"
    and "\<And>q. fit_in H [dst] q \<Longrightarrow> triple (store_ok V gateway_edges (row_fit H)) (g q) R"
  shows "triple (store_ok V gateway_edges (row_fit H)) (bnd (move V row dst actor reason ev us now) g) R"
  by (rule triple_bnd [OF triple_move [OF assms(1-3)] assms(4)])

text \<open>The facts about the row moved from, as rewrite rules, and the goals of the row moved to.\<close>

lemma phase_facts:
  assumes "phase_fit r"
  shows "0 \<le> ac_attempts r" "ac_attempts r \<le> 3" "ac_state r \<in> pre_dispatch \<Longrightarrow> ac_attempts r \<le> 2"
    "(ac_lease_owner r = None) = (ac_state r \<notin> lease_holders)" "(ac_lease_expires r = None) = (ac_state r \<notin> lease_holders)"
    "ac_state r \<noteq> A_FAILED \<Longrightarrow> \<not> ac_retry_eligible r" "(ac_outcome r = None) = (ac_state r \<noteq> A_COMPLETED)"
  using assms by (auto simp: phase_fit_def)

lemma phase_fitI:
  assumes "0 \<le> ac_attempts q" "ac_attempts q \<le> 3" "ac_state q \<in> pre_dispatch \<Longrightarrow> ac_attempts q \<le> 2"
    "(ac_lease_owner q = None) = (ac_state q \<notin> lease_holders)" "(ac_lease_expires q = None) = (ac_state q \<notin> lease_holders)"
    "ac_state q \<noteq> A_FAILED \<Longrightarrow> \<not> ac_retry_eligible q" "(ac_outcome q = None) = (ac_state q \<noteq> A_COMPLETED)"
  shows "phase_fit q"
  using assms by (auto simp: phase_fit_def)

lemmas phase_simps = phase_facts moved_def set_columns_simps state_sets no_lease_def failed_updates_def

lemma quiet_leaf:
  "frame acts (authorize_scope p project w)" "frame acts (moment_of V now)" "frame acts (release_budget V row st why)"
  "frame acts (commit_budget C row obs)" "frame acts (trust_decision V S row stage eff req evi)" "frame acts (record_permit row moment)"
  "frame acts (execution_receipt_of C row started ended rc)" "frame acts (observation_receipt_of C row obs ex same tag)"
  "frame acts (stale_open_approvals V row why)" "frame acts (check_approvals C row moment)" "frame acts (utc_now V)"
  "frame acts (preflight C row moment)" "frame acts (open_anchor_run V p aid t project b)"
  "frame acts (open_approvals V run aid t project subjects h title)" "frame acts (plan_action C p q moment)"
  "frame acts (find_by_key t k)" "frame acts (client_for_project project)" "frame acts (freeze_reasons C t project)"
  "frame acts (update_run_status V rid status)" "frame acts (on_trust m)" "frame acts (sweeps who row)"
  "frame acts (attempt (reserve_budget V t project client aid cur n until moment))" "frame acts (attempt (observe C a c))"
  "frame acts (attempt (execute C c args))" "frame acts (attempt (compensate_effect C a c))" "frame acts (attempt (reconcile_effect C a c))"
  "frame acts (expiring_before t moment states)" "frame acts (leased_past moment states tenant)"
  by (intro frame_rules; simp)+

lemmas quiet_seqs = quiet_leaf [THEN quiet_seq]

lemma seq_if: "(b \<Longrightarrow> triple I (bnd m g) R) \<Longrightarrow> (\<not> b \<Longrightarrow> triple I (bnd n g) R) \<Longrightarrow> triple I (bnd (if b then m else n) g) R"
  by simp

lemma seq_option:
  "(x = None \<Longrightarrow> triple I (bnd m g) R) \<Longrightarrow> (\<And>a. x = Some a \<Longrightarrow> triple I (bnd (h a) g) R) \<Longrightarrow>
    triple I (bnd (case x of None \<Rightarrow> m | Some a \<Rightarrow> h a) g) R"
  by (cases x) simp_all

lemma seq_raise: "triple I (bnd (raise e) g) R"
  by (simp add: bnd_def raise_def triple_def wp_def)

lemmas steps = seq_guard seq_of_sum seq_ret seq_raise seq_if seq_option quiet_seqs triple_rules

lemma fit_inI: "row_fit H r \<Longrightarrow> ac_state r \<in> set ss \<Longrightarrow> fit_in H ss r" by (simp add: fit_in_def)
lemma fit_in_sub: "fit_in H ss r \<Longrightarrow> set ss \<subseteq> set ts \<Longrightarrow> fit_in H ts r" by (auto simp: fit_in_def)
lemma fit_in_fit: "fit_in H ss r \<Longrightarrow> row_fit H r" by (simp add: fit_in_def)

lemma quiet_by: "frame acts m \<Longrightarrow> (\<And>a. R a) \<Longrightarrow> triple (store_ok V E P) m R"
  by (rule triple_weaken [OF quiet_triple])

subsection \<open>The steps of a dispatch\<close>

lemma triple_to_unknown:
  assumes "fit_in (config_hash C) [A_DISPATCHING, A_OBSERVING] row"
  shows "triple (gateway_ok C) (to_unknown C S row reason actor now obs) (row_fit (config_hash C))"
  unfolding to_unknown_def Let_def
  apply (rule seq_move [OF assms])
  subgoal by (simp add: state_sets)
  subgoal by (rule phase_fitI) (auto simp: phase_simps)
  subgoal by (rule quiet_seqs, rule triple_ret) (rule fit_in_fit)
  done

lemma triple_complete:
  assumes "fit_in (config_hash C) [A_OBSERVING, A_RECONCILING] row"
  shows "triple (gateway_ok C) (complete C row obs actor now) (row_fit (config_hash C))"
  unfolding complete_def Let_def
  apply (rule seq_move [OF assms])
  subgoal by (simp add: state_sets)
  subgoal by (rule phase_fitI) (auto simp: phase_simps)
  apply (rule quiet_seqs, rule seq_move, assumption)
  subgoal by (simp add: state_sets)
  subgoal by (rule phase_fitI) (auto simp: phase_simps)
  subgoal by (intro seq_if seq_ret quiet_seqs triple_ret; erule fit_in_fit)
  done

lemma triple_observe_action:
  assumes "fit_in (config_hash C) [A_OBSERVING] row"
  shows "triple (gateway_ok C) (observe_action C S row a actor now tag) (row_fit (config_hash C))"
proof -
  have row: "fit_in (config_hash C) [A_DISPATCHING, A_OBSERVING] row" "fit_in (config_hash C) [A_OBSERVING, A_RECONCILING] row"
    using assms by (auto elim: fit_in_sub)
  show ?thesis unfolding observe_action_def Let_def
    by (intro seq_of_sum quiet_seqs triple_rules triple_to_unknown row triple_complete)
       (auto split: amc_error.splits intro: triple_raise triple_to_unknown row)
qed

lemma triple_fail:
  assumes row: "fit_in H [A_DISPATCHING] row" and us: "us = [] \<or> us = [U_reservation None]"
  shows "triple (store_ok V gateway_edges (row_fit H))
    (bnd (release_budget V row st why) (\<lambda>_. move V row A_FAILED actor reason ev (failed_updates eligible k @ us) now)) (row_fit H)"
  apply (rule quiet_seqs, rule triple_weaken [OF triple_move [OF row]])
  subgoal by (simp add: state_sets)
  subgoal by (rule phase_fitI) (use us in \<open>auto simp: phase_simps\<close>)
  subgoal by (rule fit_in_fit)
  done

lemma triple_after_execute:
  assumes row: "fit_in (config_hash C) [A_DISPATCHING] row"
  shows "triple (gateway_ok C) (after_execute C S row a actor now started out) (row_fit (config_hash C))"
proof -
  have wide: "fit_in (config_hash C) [A_DISPATCHING, A_OBSERVING] row" using row by (auto elim: fit_in_sub)
  have failed: "triple (gateway_ok C) (bnd (release_budget (cf_env C) row st why)
      (\<lambda>_. move (cf_env C) row A_FAILED actor reason ev (failed_updates e k) now)) (row_fit (config_hash C))" for st why reason ev e k
    using triple_fail [OF row, of "[]"] by simp
  show ?thesis
  proof (cases out)
    case (Inl e)
    show ?thesis unfolding after_execute_def Inl
      by (auto split: amc_error.splits adapter_error_kind.splits
          intro: triple_raise triple_to_unknown wide failed triple_fail [OF row])
  next
    case (Inr r)
    show ?thesis unfolding after_execute_def Inr sum.case
      apply (rule quiet_seqs, rule quiet_seqs, rule seq_move [OF row])
      subgoal by (simp add: state_sets)
      subgoal by (rule phase_fitI) (auto simp: phase_simps)
      subgoal by (rule triple_observe_action)
      done
  qed
qed

lemma triple_execute_and_observe:
  assumes "fit_in (config_hash C) [A_DISPATCHING] row"
  shows "triple (gateway_ok C) (execute_and_observe C S row a actor now) (row_fit (config_hash C))"
  unfolding execute_and_observe_def by (intro seq_of_sum quiet_seqs triple_after_execute assms)

subsection \<open>Settling and dispatching\<close>

lemma settlement_states:
  "settlement c = Some (dst, reason, stale) \<Longrightarrow> dst \<in> {A_REJECTED, A_EXPIRED, A_BLOCKED, A_AUTHORIZED}"
  by (auto simp: settlement_def split: if_splits)

lemma triple_settle_once:
  "triple (gateway_ok C) (settle_once C aid actor now) (row_fit (config_hash C))"
proof -
  have decide: "triple (gateway_ok C) (bnd (move (cf_env C) row dst actor reason ev us moment) (\<lambda>r.
      bnd (case stale of None \<Rightarrow> ret [] | Some why \<Rightarrow> stale_open_approvals (cf_env C) r why) (\<lambda>_. ret r))) (row_fit (config_hash C))"
    if row: "fit_in (config_hash C) [A_AWAITING_APPROVAL] row" and dst: "dst \<in> {A_REJECTED, A_EXPIRED, A_BLOCKED, A_AUTHORIZED}"
      and us: "us = [] \<or> us = [U_reasons rs]" for row dst reason ev us moment stale rs
    apply (rule seq_move [OF row])
    subgoal using dst by (auto simp: state_sets)
    subgoal by (rule phase_fitI) (use dst us in \<open>auto simp: phase_simps\<close>)
    subgoal by (intro seq_option seq_ret quiet_seqs triple_ret; erule fit_in_fit)
    done
  show ?thesis unfolding settle_once_def
  proof (rule quiet_seqs, rule seq_get_request)
    fix moment r
    assume r: "row_fit (config_hash C) r"
    show "triple (gateway_ok C) (case Some r of None \<Rightarrow> raise (LookupErr ''action not found'') | Some row \<Rightarrow>
        if ac_state row \<noteq> A_AWAITING_APPROVAL then ret row
        else bnd (check_approvals C row moment) (\<lambda>c. case settlement c of None \<Rightarrow> ret row
          | Some (dst, reason, stale) \<Rightarrow>
              bnd (move (cf_env C) row dst actor reason (check_json c)
                (if dst = A_AUTHORIZED then [] else [U_reasons (ck_reasons c)]) moment) (\<lambda>r.
              bnd (case stale of None \<Rightarrow> ret [] | Some why \<Rightarrow> stale_open_approvals (cf_env C) r why) (\<lambda>_. ret r))))
      (row_fit (config_hash C))"
      unfolding option.case
      by (intro triple_if triple_ret quiet_seqs triple_option triple_prod r)
         (auto intro!: decide fit_inI r dest: settlement_states)
  qed (simp add: triple_raise)
qed

lemma triple_settle: "triple (gateway_ok C) (settle C aid actor now) (row_fit (config_hash C))"
  unfolding settle_def
  by (intro triple_catch triple_settle_once triple_if triple_raise seq_get_request)
     (auto intro!: triple_raise triple_ret)

lemma triple_dispatch_row:
  "triple (gateway_ok C) (dispatch_row C p aid moment) (fit_in (config_hash C) [A_AUTHORIZED, A_RESERVED])"
proof -
  have cleared: "triple (gateway_ok C) (bnd (guard (ac_state row = A_AUTHORIZED \<or> ac_state row = A_RESERVED) e) (\<lambda>_. ret row))
      (fit_in (config_hash C) [A_AUTHORIZED, A_RESERVED])" if "row_fit (config_hash C) row" for row e
    by (intro seq_guard triple_ret fit_inI) (use that in auto)
  have settled: "triple (gateway_ok C) (if ac_state row = A_AWAITING_APPROVAL then settle C aid gateway_actor (Some moment) else ret row)
      (row_fit (config_hash C))" if "row_fit (config_hash C) row" for row
    by (intro triple_if triple_settle triple_ret that)
  show ?thesis unfolding dispatch_row_def
    by (rule seq_get_request, rule seq_visible_None, rule seq_visible, rule quiet_seqs, rule triple_bnd [OF settled])
       (assumption, rule cleared)
qed

lemma triple_block_dispatch:
  assumes row: "fit_in (config_hash C) [A_AUTHORIZED, A_RESERVED] row"
  shows "triple (gateway_ok C) (block_dispatch C p row block moment) (row_fit (config_hash C))"
  unfolding block_dispatch_def
  apply (rule quiet_seqs, rule seq_move [OF row])
  subgoal by (simp add: state_sets)
  subgoal by (rule phase_fitI) (auto simp: phase_simps)
  subgoal by (intro quiet_seqs triple_ret; erule fit_in_fit)
  done

definition ready_row :: "(bytes \<Rightarrow> string) \<Rightarrow> action_row + action_row \<Rightarrow> bool" where
  "ready_row H out = (case out of Inl r \<Rightarrow> row_fit H r | Inr r \<Rightarrow> fit_in H [A_AUTHORIZED, A_RESERVED] r)"

lemma triple_reserve_for:
  assumes row: "fit_in (config_hash C) [A_AUTHORIZED, A_RESERVED] row"
  shows "triple (gateway_ok C) (reserve_for C p row moment) (ready_row (config_hash C))"
proof (cases "ac_state row = A_AUTHORIZED")
  case False
  then show ?thesis unfolding reserve_for_def by (auto intro: triple_ret simp: ready_row_def row)
next
  case True
  then have row1: "fit_in (config_hash C) [A_AUTHORIZED] row" using row by (simp add: fit_in_def)
  have stop: "triple (gateway_ok C) (bnd (move (cf_env C) row A_BLOCKED actor code ev [U_reasons rs] moment) (\<lambda>r. ret (Inl r)))
      (ready_row (config_hash C))" for actor code ev rs
    apply (rule seq_move [OF row1])
    subgoal by (simp add: state_sets)
    subgoal by (rule phase_fitI) (auto simp: phase_simps)
    subgoal by (rule triple_ret) (auto simp: ready_row_def dest: fit_in_fit)
    done
  have held: "triple (gateway_ok C) (bnd (move (cf_env C) row A_RESERVED actor reason ev [U_reservation rid] moment) (\<lambda>r. ret (Inr r)))
      (ready_row (config_hash C))" for actor reason ev rid
    apply (rule seq_move [OF row1])
    subgoal by (simp add: state_sets)
    subgoal by (rule phase_fitI) (auto simp: phase_simps)
    subgoal by (rule triple_ret) (auto simp: ready_row_def elim: fit_in_sub)
    done
  have "triple (gateway_ok C) (ret (Inr row)) (ready_row (config_hash C))" by (rule triple_ret) (simp add: ready_row_def row)
  then show ?thesis unfolding reserve_for_def
    by (intro triple_if seq_of_sum quiet_seqs triple_sum) (auto intro!: stop held triple_raise split: amc_error.splits)
qed

lemma triple_take_lease:
  assumes row: "fit_in (config_hash C) [A_AUTHORIZED, A_RESERVED] row"
  shows "triple (gateway_ok C) (take_lease C p d row worker moment) (fit_in (config_hash C) [A_DISPATCHING])"
  unfolding take_lease_def on_conflict_def
  apply (rule triple_mapE, rule triple_move [OF row])
  subgoal by (simp add: state_sets)
  subgoal by (rule phase_fitI) (auto simp: phase_simps)
  done

lemma triple_dispatch_cleared:
  assumes "fit_in (config_hash C) [A_AUTHORIZED, A_RESERVED] row"
  shows "triple (gateway_ok C) (dispatch_cleared C S p d a row worker moment) (row_fit (config_hash C))"
  unfolding dispatch_cleared_def Let_def
  apply (rule triple_bnd [OF triple_reserve_for [OF assms]])
  subgoal for out
    by (cases out)
       (auto simp: ready_row_def intro!: triple_ret triple_bnd [OF triple_take_lease] quiet_seqs triple_execute_and_observe)
  done

lemma triple_dispatch: "triple (gateway_ok C) (dispatch C S p aid worker now) (row_fit (config_hash C))"
  unfolding dispatch_def
  by (rule quiet_seqs, rule triple_bnd [OF triple_dispatch_row], rule seq_of_sum, rule seq_of_sum, rule quiet_seqs)
     (auto intro!: triple_raise triple_block_dispatch triple_dispatch_cleared split: prod.splits)

subsection \<open>Reconciling and recovering\<close>

lemma triple_conclude:
  assumes row: "fit_in (config_hash C) [A_RECONCILING] row"
  shows "triple (gateway_ok C) (conclude C S row expected actor moment out) (row_fit (config_hash C))"
proof -
  let ?H = "config_hash C" and ?V = "cf_env C"
  have wide: "fit_in ?H [A_OBSERVING, A_RECONCILING] row" using row by (auto elim: fit_in_sub)
  have leave: "triple (gateway_ok C) (move ?V row dst actor reason ev (no_lease @ us) moment) (row_fit ?H)"
    if dst: "dst \<in> {A_NEEDS_HUMAN, A_UNKNOWN}" and us: "us = [] \<or> us = [U_reasons rs]" for dst actor reason ev us rs moment
    apply (rule triple_weaken [OF triple_move [OF row]])
    subgoal using dst by (auto simp: state_sets)
    subgoal by (rule phase_fitI) (use dst us in \<open>auto simp: phase_simps\<close>)
    subgoal by (rule fit_in_fit)
    done
  have failed: "triple (gateway_ok C) (move ?V row A_FAILED actor reason ev
      (no_lease @ [U_retry_eligible e, U_reasons rs, U_reservation None]) moment) (row_fit ?H)" for actor reason ev e rs moment
    apply (rule triple_weaken [OF triple_move [OF row]])
    subgoal by (simp add: state_sets)
    subgoal by (rule phase_fitI) (auto simp: phase_simps)
    subgoal by (rule fit_in_fit)
    done
  show ?thesis
  proof (cases out)
    case (Inl e)
    show ?thesis unfolding conclude_def Let_def Inl
      using leave [of A_UNKNOWN "[]"] by (auto intro!: leave triple_raise split: amc_error.splits)
  next
    case (Inr obs)
    show ?thesis unfolding conclude_def Let_def Inr sum.case
      by (intro quiet_seqs triple_if triple_complete [OF wide] failed leave) auto
  qed
qed

lemma reconcile_row_fit: "triple (gateway_ok C) (reconcile_row who aid) (row_fit (config_hash C))"
  unfolding reconcile_row_def
  by (cases who) (auto intro!: seq_get_request triple_ret triple_raise seq_visible_None seq_visible quiet_seqs)

lemma triple_reconcile: "triple (gateway_ok C) (reconcile C S aid actor who now) (row_fit (config_hash C))"
  unfolding reconcile_def Let_def on_conflict_def
  apply (rule quiet_seqs, rule triple_bnd [OF reconcile_row_fit], rule seq_guard, rule seq_of_sum, rule seq_of_sum)
  subgoal for moment row d a
    apply (rule triple_bnd [OF triple_mapE [OF triple_move [of "config_hash C" "[A_UNKNOWN, A_NEEDS_HUMAN]"]]])
    subgoal by (auto simp: reconcilable_def fit_in_def)
    subgoal by (simp add: state_sets)
    subgoal by (rule phase_fitI) (auto simp: phase_simps)
    subgoal by (intro seq_of_sum quiet_seqs triple_conclude)
    done
  done

lemma rows_fit:
  assumes "\<And>db r. r \<in> set (f db) \<Longrightarrow> r \<in> set (ad_actions db) \<and> ac_state r \<in> set states"
  shows "triple (store_ok V E (row_fit H)) (gets f) (list_all (fit_in H states))"
  by (rule triple_gets) (auto simp: list_all_iff fit_in_def store_ok_def dest: assms)

lemma leased_past_fit: "triple (store_ok V E (row_fit H)) (leased_past moment states tenant) (list_all (fit_in H states))"
  unfolding leased_past_def by (rule triple_if, simp add: triple_ret, rule rows_fit) auto

lemma expiring_before_fit: "triple (store_ok V E (row_fit H)) (expiring_before tenant moment states) (list_all (fit_in H states))"
  unfolding expiring_before_def by (rule rows_fit) auto

lemma triple_lost_lease:
  assumes row: "fit_in (config_hash C) recoverable_states row"
  shows "triple (gateway_ok C) (lost_lease C row actor moment) (\<lambda>_. True)"
  unfolding lost_lease_def
  apply (rule triple_catch)
  subgoal
    apply (rule seq_move [OF row])
    subgoal by (simp add: state_sets recoverable_states_def)
    subgoal by (rule phase_fitI) (auto simp: phase_simps recoverable_states_def)
    subgoal by (rule triple_ret) simp
    done
  subgoal for e by (cases e) (auto intro: triple_ret triple_raise)
  done

lemma seq_any: "triple I m (\<lambda>_. True) \<Longrightarrow> (\<And>a. triple I (g a) R) \<Longrightarrow> triple I (bnd m g) R"
  by (rule triple_bnd) simp_all

lemma triple_recover_rows:
  "list_all (fit_in (config_hash C) recoverable_states) rows \<Longrightarrow>
    triple (gateway_ok C) (recover_rows C S who moment rows) (\<lambda>_. True)"
proof (induction rows)
  case (Cons row rows)
  then have row: "fit_in (config_hash C) recoverable_states row" by simp
  have one: "triple (gateway_ok C) (bnd (lost_lease C row actor moment) (\<lambda>lost. case lost of None \<Rightarrow> ret []
      | Some r \<Rightarrow> bnd (reconcile C S (ac_id r) recovery_actor who (Some moment)) (\<lambda>out. ret [out]))) (\<lambda>_. True)" for actor
    by (intro seq_any [OF triple_lost_lease [OF row]] triple_option triple_ret triple_bnd [OF triple_reconcile] TrueI)
  from Cons show ?case
    by (auto intro!: quiet_seqs seq_any triple_if triple_ret one)
qed (simp add: triple_ret)

lemma triple_recover_stale: "triple (gateway_ok C) (recover_stale C S who now) (\<lambda>_. True)"
  unfolding recover_stale_def
  by (rule quiet_seqs, rule triple_bnd [OF leased_past_fit triple_recover_rows])

subsection \<open>Cancelling and expiring\<close>

lemma triple_cancel: "triple (gateway_ok C) (cancel C p aid reason now) (row_fit (config_hash C))"
proof -
  let ?pre = "[A_PROPOSED, A_VALIDATED, A_PREPARED, A_AWAITING_APPROVAL, A_AUTHORIZED, A_RESERVED]"
  show ?thesis unfolding cancel_def Let_def
    apply (rule seq_get_request, rule seq_visible_None, rule seq_visible, rule quiet_seqs, rule seq_guard, rule quiet_seqs, rule quiet_seqs)
    apply (rule seq_move [of "config_hash C" ?pre])
    subgoal by (auto simp: fit_in_def pre_dispatch_def)
    subgoal by (simp add: state_sets)
    subgoal by (rule phase_fitI) (auto simp: phase_simps)
    subgoal by (intro quiet_seqs triple_ret; erule fit_in_fit)
    done
qed

lemma triple_expire_one:
  assumes row: "fit_in (config_hash C) expirable_states row"
  shows "triple (gateway_ok C) (expire_one C row now) (\<lambda>_. True)"
  unfolding expire_one_def
  apply (rule triple_catch)
  subgoal
    apply (rule quiet_seqs, rule seq_move [OF row])
    subgoal by (simp add: state_sets expirable_states_def)
    subgoal by (rule phase_fitI) (auto simp: phase_simps expirable_states_def)
    subgoal by (intro quiet_seqs triple_ret TrueI)
    done
  subgoal by (intro triple_if triple_ret triple_raise TrueI)
  done

lemma triple_expire_rows:
  "list_all (fit_in (config_hash C) expirable_states) rows \<Longrightarrow> triple (gateway_ok C) (expire_rows C who now rows) (\<lambda>_. True)"
  by (induction rows) (auto intro!: quiet_seqs seq_any triple_if triple_ret triple_expire_one)

lemma triple_expire_due: "triple (gateway_ok C) (expire_due C tenant who now) (\<lambda>_. True)"
  unfolding expire_due_def
  by (rule seq_guard, rule quiet_seqs, rule triple_bnd [OF expiring_before_fit triple_expire_rows])

subsection \<open>Handlers that rely on the row they read\<close>

text \<open>
  \<open>retry\<close> and \<open>compensate\<close> decide on columns of the row they read. Between the read and the write
  nothing touches actions, so the row they write from is still the stored one.
\<close>

definition holds :: "('s gateway_db \<Rightarrow> bool) \<Rightarrow> action_row \<Rightarrow> 's gateway_db \<Rightarrow> bool" where
  "holds I row db = (I db \<and> row_by ac_id (ac_id row) (ad_actions db) = Some row)"

definition from_row :: "('s gateway_db \<Rightarrow> bool) \<Rightarrow> action_row \<Rightarrow> ('s, 'a) gw \<Rightarrow> ('a \<Rightarrow> bool) \<Rightarrow> bool" where
  "from_row I row m R = (\<forall>s. holds I row s \<longrightarrow> wp m (\<lambda>a t. I t \<and> R a) (\<lambda>_. I) s)"

lemma from_row_triple: "triple I m R \<Longrightarrow> from_row I row m R"
  by (simp add: from_row_def triple_def holds_def)

lemma from_row_read:
  assumes "triple (store_ok V E P) (g None) R" and "\<And>r. P r \<Longrightarrow> from_row (store_ok V E P) r (g (Some r)) R"
  shows "triple (store_ok V E P) (bnd (get_request aid) g) R"
proof -
  have "wp (g (row_by ac_id aid (ad_actions db))) (\<lambda>a t. store_ok V E P t \<and> R a) (\<lambda>_. store_ok V E P) db"
    if ok: "store_ok V E P db" for db :: "'a gateway_db"
  proof (cases "row_by ac_id aid (ad_actions db)")
    case None
    then show ?thesis using assms(1) ok by (simp add: triple_def)
  next
    case (Some r)
    have "P r" "ac_id r = aid" using store_ok_row [OF ok Some] by simp_all
    then show ?thesis using assms(2) [of r] ok Some by (simp add: from_row_def holds_def)
  qed
  then show ?thesis by (simp add: triple_def get_request_def hoare_rules)
qed

lemma from_row_quiet:
  assumes m: "frame acts m" and g: "\<And>a. from_row (store_ok V E P) row (g a) R"
  shows "from_row (store_ok V E P) row (bnd m g :: ('s, 'b) gw) R"
proof -
  have "wp m (\<lambda>a. wp (g a) (\<lambda>a t. store_ok V E P t \<and> R a) (\<lambda>_. store_ok V E P)) (\<lambda>_. store_ok V E P) s"
    if h: "holds (store_ok V E P) row s" for s :: "'s gateway_db"
  proof (rule wp_mono [OF m [unfolded frame_wp, rule_format]])
    fix a and t :: "'s gateway_db"
    assume "acts t = acts s"
    then have "holds (store_ok V E P) row t" using h by (simp add: holds_def acts_def store_ok_def)
    then show "wp (g a) (\<lambda>a t. store_ok V E P t \<and> R a) (\<lambda>_. store_ok V E P) t" using g by (simp add: from_row_def)
  next
    fix e :: amc_error and t :: "'s gateway_db"
    assume "acts t = acts s"
    then show "store_ok V E P t" using h by (simp add: holds_def acts_def store_ok_def)
  qed
  then show ?thesis by (simp add: from_row_def wp_bnd)
qed

lemma from_row_raise: "from_row I row (raise e) R"
  by (rule from_row_triple) (rule triple_raise)

lemma from_row_guard: "(b \<Longrightarrow> from_row I row (g ()) R) \<Longrightarrow> from_row I row (bnd (guard b e) g) R"
  by (simp add: from_row_def holds_def hoare_rules)

lemma from_row_of_sum: "(\<And>a. r = Inr a \<Longrightarrow> from_row I row (g a) R) \<Longrightarrow> from_row I row (bnd (of_sum r) g) R"
  by (cases r) (simp_all add: from_row_def holds_def hoare_rules)

lemma from_row_visible: "from_row I row (g row) R \<Longrightarrow> from_row I row (bnd (visible p (Some row)) g) R"
  by (simp add: visible_def from_row_def holds_def hoare_rules)

lemma from_row_move:
  assumes row: "fit_in H ss row" and edge: "list_all (\<lambda>s. dst \<in> gateway_edges s) ss"
    and fit: "\<And>stamp. phase_fit row \<Longrightarrow> phase_fit (moved us dst stamp row)"
    and g: "\<And>q. row_fit H q \<Longrightarrow> triple (store_ok V gateway_edges (row_fit H)) (g q) R"
  shows "from_row (store_ok V gateway_edges (row_fit H)) row (bnd (move V row dst actor reason ev us now) g :: ('s, 'b) gw) R"
proof -
  let ?I = "store_ok V gateway_edges (row_fit H)"
  have "wp (transition V (ac_id row) (ac_version row) [ac_state row] dst actor reason ev us (Some now))
      (\<lambda>a t. wp (g a) (\<lambda>a t. ?I t \<and> R a) (\<lambda>_. ?I) t) (\<lambda>_. ?I) db" if h: "holds ?I row db" for db :: "'s gateway_db"
  proof (rule wp_transition)
    show ok: "?I db" using h by (simp add: holds_def)
    show "?I v" if "same_actions db v" for v using that ok by (simp add: store_ok_same)
    fix r
    assume "row_by ac_id (ac_id row) (ad_actions db) = Some r"
    then have r: "r = row" using h by (simp add: holds_def)
    show "dst \<in> gateway_edges (ac_state r)" using edge row by (simp add: r list_all_iff fit_in_def)
    have moved: "row_fit H (moved us dst stamp r)" for stamp
      using fit row by (simp add: r row_fit_def bound_moved fit_in_def)
    show "row_fit H (moved us dst stamp r)" for stamp by (rule moved)
    show "wp (g (moved us dst stamp r)) (\<lambda>a t. ?I t \<and> R a) (\<lambda>_. ?I) v" if "?I v" for v stamp
      using g [OF moved] that by (simp add: triple_def)
  qed
  then show ?thesis by (simp add: from_row_def move_def wp_bnd)
qed

lemma from_row_annotate:
  assumes row: "fit_in H [A_COMPLETED] row"
  shows "from_row (store_ok V gateway_edges (row_fit H)) row (annotate V (ac_id row) (ac_version row) actor reason ev oc :: ('s, action_row) gw) (row_fit H)"
proof -
  let ?I = "store_ok V gateway_edges (row_fit H)"
  have "wp (annotate V (ac_id row) (ac_version row) actor reason ev oc) (\<lambda>a t. ?I t \<and> row_fit H a) (\<lambda>_. ?I) db"
    if h: "holds ?I row db" for db :: "'s gateway_db"
  proof (rule wp_annotate)
    show ok: "?I db" using h by (simp add: holds_def)
    show "?I v" if "same_actions db v" for v using that ok by (simp add: store_ok_same)
    fix r
    assume "row_by ac_id (ac_id row) (ad_actions db) = Some r"
    then have r: "r = row" using h by (simp add: holds_def)
    show "ac_state r \<in> gateway_edges (ac_state r)" using row by (simp add: r fit_in_def gateway_edges_def)
    have state: "ac_state row = A_COMPLETED" "phase_fit row" "bound_fit H row" using row by (simp_all add: fit_in_def row_fit_def)
    have "phase_fit (moved [U_outcome (Some oc)] A_COMPLETED stamp row)" for stamp
      by (rule phase_fitI) (use state in \<open>auto simp: phase_simps\<close>)
    then have noted: "row_fit H (moved [U_outcome (Some oc)] (ac_state r) stamp r)" for stamp
      using state by (simp add: r row_fit_def bound_moved)
    show "row_fit H (moved [U_outcome (Some oc)] (ac_state r) stamp r)" for stamp by (rule noted)
    show "?I v \<and> row_fit H (moved [U_outcome (Some oc)] (ac_state r) stamp r)" if "?I v" for v stamp using that noted by blast
  qed
  then show ?thesis by (simp add: from_row_def)
qed

lemmas from_row_seqs = quiet_leaf [THEN from_row_quiet] frame_gateway(3) [where f = acts, THEN from_row_quiet]

lemma triple_retry: "triple (gateway_ok C) (retry C S p aid now) (row_fit (config_hash C))"
  unfolding retry_def
  apply (rule quiet_seqs, rule from_row_read, rule seq_visible_None)
  apply (rule from_row_visible, rule from_row_seqs, rule from_row_guard, rule from_row_guard)
  apply (rule from_row_move [of "config_hash C" "[A_FAILED]"])
  subgoal by (auto simp: fit_in_def)
  subgoal by (simp add: state_sets)
  subgoal by (rule phase_fitI) (auto simp: phase_simps max_attempts_def)
  subgoal by (rule triple_dispatch)
  done

lemma from_row_then: "from_row I row m R \<Longrightarrow> (\<And>a. R a \<Longrightarrow> triple I (g a) R') \<Longrightarrow> from_row I row (bnd m g) R'"
  unfolding from_row_def triple_def wp_bnd by (blast intro: wp_mono)

lemma from_row_unconfirmed:
  "fit_in (config_hash C) [A_COMPLETED] row \<Longrightarrow> from_row (gateway_ok C) row (unconfirmed C p row reason moment k d) R"
  unfolding unconfirmed_def by (rule from_row_then [OF from_row_annotate triple_raise])

lemma triple_compensate: "triple (gateway_ok C) (compensate C p aid reason now) (row_fit (config_hash C))"
  unfolding compensate_def
  apply (rule quiet_seqs, rule from_row_read, rule seq_visible_None)
  apply (rule from_row_visible, rule from_row_seqs, rule from_row_guard, rule from_row_guard, rule from_row_guard)
  apply (rule from_row_seqs, rule from_row_guard, rule from_row_of_sum, rule from_row_of_sum, rule from_row_seqs)
  subgoal for moment row u1 frozen d a out
    apply (cases out)
    subgoal for e
      by (auto split: amc_error.splits adapter_error_kind.splits simp: fit_in_def
          intro!: from_row_unconfirmed from_row_raise)
    subgoal for obs by (auto intro!: from_row_seqs from_row_annotate simp: fit_in_def)
    done
  done

subsection \<open>Proposing\<close>

text \<open>What a finished plan fixes for the row that is stored from it.\<close>

definition plan_fit :: "(bytes \<Rightarrow> string) \<Rightarrow> principal \<Rightarrow> proposal \<Rightarrow> plan \<Rightarrow> bool" where
  "plan_fit H p q pl = (pl_env pl \<noteq> Env_LIVE \<and> pl_binding_hash pl = binding_hash_of H (pl_binding pl) \<and>
     ab_payload_hash (pl_binding pl) = pl_payload_hash pl \<and> ab_tenant (pl_binding pl) = pr_tenant p \<and>
     ab_project (pl_binding pl) = pp_project q \<and> ab_environment (pl_binding pl) = pl_env pl \<and>
     ab_target_ref (pl_binding pl) = pl_target pl \<and> ab_effective_class (pl_binding pl) = ra_effective (pl_risk pl))"

lemma make_plan_fit: "env \<noteq> Env_LIVE \<Longrightarrow> plan_fit (config_hash C) p q (make_plan C p q d a env args deps requested data level now)"
  by (simp add: plan_fit_def make_plan_def Let_def)

lemma plan_action_fit: "triple (store_ok V E P) (plan_action C p q now) (plan_fit (config_hash C) p q)"
proof -
  have quiet: "frame acts (client_must_be_active project)" "frame acts (mapE h (resolve_dependencies project refs))"
    "frame acts (autonomy project)" for project refs h
    by (intro frame_rules)+
  show ?thesis unfolding plan_action_def
    by (rule seq_of_sum, rule seq_of_sum, rule quiet_seqs, rule quiet [THEN quiet_seq], rule seq_guard, rule seq_of_sum, rule seq_guard,
        rule seq_of_sum, rule seq_of_sum, rule quiet [THEN quiet_seq], rule seq_of_sum, rule seq_of_sum, rule quiet [THEN quiet_seq],
        rule triple_ret, rule make_plan_fit)
qed

lemma proposed_fit:
  assumes "plan_fit (config_hash C) p q pl"
  shows "fit_in (config_hash C) [A_PROPOSED] (proposed_row C p q pl key client correlation request_hash args_hash now)"
  using assms
  by (simp add: fit_in_def row_fit_def bound_fit_def phase_fit_def plan_fit_def proposed_row_def Let_def state_sets)

definition inserted :: "(bytes \<Rightarrow> string) \<Rightarrow> action_row \<times> bool \<Rightarrow> bool" where
  "inserted H = (\<lambda>(r, created). row_fit H r \<and> (created \<longrightarrow> ac_state r = A_PROPOSED))"

lemma triple_insert_request:
  assumes row: "fit_in H [A_PROPOSED] row" and one: "ac_version row = 1"
  shows "triple (store_ok V E (row_fit H)) (insert_request V row actor reason ev :: ('s, action_row \<times> bool) gw) (inserted H)"
proof -
  let ?I = "store_ok V E (row_fit H)"
  have "wp (insert_request V row actor reason ev) (\<lambda>a t. ?I t \<and> inserted H a) (\<lambda>_. ?I) db" if ok: "?I db" for db :: "'s gateway_db"
  proof (rule wp_insert_request [OF ok _ one])
    show "row_fit H row" using row by (rule fit_in_fit)
    show "?I v" if "same_actions db v" for v using that ok by (simp add: store_ok_same)
    show "?I v \<and> inserted H (r, False)" if "r \<in> set (ad_actions db)" "same_actions db v" for r v
      using that ok by (simp add: inserted_def store_ok_same) (simp add: store_ok_def)
    show "?I v \<and> inserted H (row, True)" if "?I v" for v
      using that row by (simp add: inserted_def fit_in_def)
  qed
  then show ?thesis by (simp add: triple_def)
qed

lemma triple_settle_proposal:
  assumes row: "fit_in (config_hash C) [A_PREPARED] row"
  shows "triple (gateway_ok C) (settle_proposal C S p pl row now) (row_fit (config_hash C))"
proof -
  have go: "triple (gateway_ok C) (bnd (move (cf_env C) row dst actor reason ev us now) (\<lambda>r.
      bnd (trust_decision (cf_env C) S r stage eff req evi) (\<lambda>_. ret r))) (row_fit (config_hash C))"
    if "dst \<in> {A_BLOCKED, A_AWAITING_APPROVAL, A_AUTHORIZED}"
      and "us = [U_run r, U_reasons rs] \<or> us = [U_run r, U_approval ap, U_financial_approval fp] \<or> us = [U_run r]"
    for dst actor reason ev us stage eff req evi r rs ap fp
    apply (rule seq_move [OF row])
    subgoal using that by (auto simp: state_sets)
    subgoal by (rule phase_fitI) (use that in \<open>auto simp: phase_simps\<close>)
    subgoal by (intro quiet_seqs triple_ret; erule fit_in_fit)
    done
  show ?thesis unfolding settle_proposal_def Let_def
    by (intro quiet_seqs triple_if go) simp_all
qed

lemma triple_propose: "triple (gateway_ok C) (propose C S p q key correlation now) (\<lambda>(r, created). row_fit (config_hash C) r)"
proof -
  let ?H = "config_hash C" and ?V = "cf_env C"
  have found: "triple (gateway_ok C) (find_by_key t k) (\<lambda>x. case x of None \<Rightarrow> True | Some r \<Rightarrow> row_fit ?H r)" for t k
    unfolding find_by_key_def by (rule triple_gets) (auto simp: store_ok_def dest: row_by_SomeD split: option.splits)
  have created: "triple (gateway_ok C) (bnd (move ?V row A_VALIDATED actor r1 e1 [] moment) (\<lambda>row1.
      bnd (move ?V row1 A_PREPARED actor r2 (e2 row1) [] moment) (\<lambda>row2.
      bnd (settle_proposal C S p pl row2 moment) (\<lambda>row3. ret (row3, True))))) (\<lambda>(r, created). row_fit ?H r)"
    if row: "fit_in ?H [A_PROPOSED] row" for row actor r1 e1 r2 e2 moment pl
    apply (rule seq_move [OF row])
    subgoal by (simp add: state_sets)
    subgoal by (rule phase_fitI) (auto simp: phase_simps)
    apply (rule seq_move, assumption)
    subgoal by (simp add: state_sets)
    subgoal by (rule phase_fitI) (auto simp: phase_simps)
    subgoal by (rule triple_bnd [OF triple_settle_proposal]) (auto intro: triple_ret)
    done
  show ?thesis unfolding propose_def Let_def on_conflict_def
    apply (rule quiet_seqs, rule seq_guard, rule triple_bnd [OF plan_action_fit], rule triple_bnd [OF found], rule triple_option)
    subgoal for moment pl
      apply (rule quiet_seqs, rule seq_of_sum, rule triple_bnd [OF triple_mapE [OF triple_insert_request [OF proposed_fit]]])
      subgoal by assumption
      subgoal by (simp add: proposed_row_def Let_def)
      subgoal by (auto simp: inserted_def intro!: triple_ret created fit_inI)
      done
    subgoal by (auto intro!: triple_raise triple_ret)
    done
qed

end
