(* ===== verification/Gateway_Machine.thy ===== *)
theory Gateway_Machine
  imports Gateway_Safety Adapter_Safety
begin

section \<open>The gateway as a state machine\<close>

text \<open>
  One step of the deployment is one call of a handler of the gateway, whatever it returns or
  raises, or a write of any other part of the server, which leaves the action tables alone. The
  properties below hold in every state such steps reach from an empty action plane: the histories
  follow the table of \<^verbatim>\<open>agency/actions/fsm.py\<close>, which no code path of the gateway consults, and
  every action keeps the invariant of its state.
\<close>

inductive gateway_step :: "config \<Rightarrow> 's rel_store \<Rightarrow> 's gateway_db \<Rightarrow> 's gateway_db \<Rightarrow> bool" for C :: config and S :: "'s rel_store" where
  G_propose: "gateway_step C S db (snd (propose C S p q key correlation now db))"
| G_preview: "gateway_step C S db (snd (preview C p q now db))"
| G_settle: "gateway_step C S db (snd (settle C aid actor now db))"
| G_cancel: "gateway_step C S db (snd (cancel C p aid reason now db))"
| G_expire: "gateway_step C S db (snd (expire_due C tenant who now db))"
| G_dispatch: "gateway_step C S db (snd (dispatch C S p aid worker now db))"
| G_reconcile: "gateway_step C S db (snd (reconcile C S aid actor who now db))"
| G_recover: "gateway_step C S db (snd (recover_stale C S who now db))"
| G_retry: "gateway_step C S db (snd (retry C S p aid now db))"
| G_compensate: "gateway_step C S db (snd (compensate C p aid reason now db))"
| G_other: "ad_actions v = ad_actions db \<Longrightarrow> ad_transitions v = ad_transitions db \<Longrightarrow> gateway_step C S db v"

inductive gateway_reach :: "config \<Rightarrow> 's rel_store \<Rightarrow> 's gateway_db \<Rightarrow> bool" for C :: config and S :: "'s rel_store" where
  R_start: "ad_actions db = [] \<Longrightarrow> ad_transitions db = [] \<Longrightarrow> gateway_reach C S db"
| R_step: "gateway_reach C S db \<Longrightarrow> gateway_step C S db v \<Longrightarrow> gateway_reach C S v"

lemma triple_state: "triple I m R \<Longrightarrow> I db \<Longrightarrow> I (snd (m db))"
  by (cases "m db") (auto dest: tripleD)

lemma triple_preview: "triple (gateway_ok C) (preview C p q now) (\<lambda>_. True)"
  unfolding preview_def
  by (rule quiet_triple) (intro frame_rules; simp)

lemmas handler_triples = triple_propose triple_preview triple_settle triple_cancel triple_expire_due triple_dispatch
  triple_reconcile triple_recover_stale triple_retry triple_compensate

lemma gateway_step_ok: "gateway_step C S db v \<Longrightarrow> gateway_ok C db \<Longrightarrow> gateway_ok C v"
  by (induction rule: gateway_step.induct)
     (blast intro: handler_triples [THEN triple_state] | simp add: store_ok_def)+

lemma gateway_reach_ok: "gateway_reach C S db \<Longrightarrow> gateway_ok C db"
  by (induction rule: gateway_reach.induct) (auto intro: gateway_step_ok empty_store_ok)

subsection \<open>What a handler leaves alone\<close>

text \<open>
  \<open>aside f\<close>: the part \<open>f\<close> of the database sees none of the tables that bookkeeping writes, which
  holds of the effects of the provider, of the freezes and of the autonomy levels.
\<close>

definition aside :: "('s gateway_db \<Rightarrow> 'b) \<Rightarrow> bool" where
  "aside f = (steady f \<and> blind ad_actions_update f \<and> blind ad_transitions_update f \<and> blind ad_tenants_update f \<and>
     blind ad_projects_update f \<and> blind ad_reservations_update f \<and> blind pd_approvals_update f \<and> blind pd_runs_update f \<and>
     blind pf_executions_update f \<and> blind pf_observations_update f \<and> blind pf_permits_update f \<and> blind gd_trust_update f)"

lemma asideD:
  assumes "aside f"
  shows "steady f" "blind ad_actions_update f" "blind ad_transitions_update f" "blind ad_tenants_update f"
    "blind ad_projects_update f" "blind ad_reservations_update f" "blind pd_approvals_update f" "blind pd_runs_update f"
    "blind pf_executions_update f" "blind pf_observations_update f" "blind pf_permits_update f" "blind gd_trust_update f"
  using assms by (simp_all add: aside_def)

lemma aside_parts: "aside ad_effects" "aside ad_freezes" "aside ad_autonomy"
  "aside (\<lambda>db. (ad_effects db, ad_freezes db, ad_autonomy db))"
  by (simp_all add: aside_def steady_def blind_def)

lemma aside_move [frame_rules]: "aside f \<Longrightarrow> frame f (move V row dst actor reason ev us now)"
  unfolding move_def by (intro frame_rules asideD)

lemma aside_to_unknown [frame_rules]: "aside f \<Longrightarrow> frame f (to_unknown C S row reason actor now obs)"
  unfolding to_unknown_def by (intro frame_rules asideD)

lemma aside_complete [frame_rules]: "aside f \<Longrightarrow> frame f (complete C row obs actor now)"
  unfolding complete_def by (intro frame_rules asideD)

lemma aside_conclude [frame_rules]: "aside f \<Longrightarrow> frame f (conclude C S row expected actor moment out)"
proof (cases out)
  case (Inl e)
  assume f: "aside f"
  show ?thesis unfolding conclude_def Inl sum.case by (cases e) (auto intro!: frame_rules f)
next
  case (Inr obs)
  assume f: "aside f"
  show ?thesis unfolding conclude_def Inr sum.case by (intro frame_rules f asideD [OF f])
qed

lemma aside_reconcile [frame_rules]: "aside f \<Longrightarrow> frame f (reconcile C S aid actor who now)"
  unfolding reconcile_def on_conflict_def by (intro frame_rules asideD; assumption?)

lemma aside_settle [frame_rules]: "aside f \<Longrightarrow> frame f (settle C aid actor now)"
  unfolding settle_def settle_once_def by (intro frame_rules asideD; assumption?)

lemma aside_cancel: "aside f \<Longrightarrow> frame f (cancel C p aid reason now)"
  unfolding cancel_def by (intro frame_rules asideD; assumption?)

lemma aside_expire_due: "aside f \<Longrightarrow> frame f (expire_due C tenant who now)"
proof -
  assume f: "aside f"
  have one: "frame f (expire_one C row moment)" for row moment
    unfolding expire_one_def by (intro frame_rules asideD [OF f] f)
  have "frame f (expire_rows C who moment rows)" for moment rows
    by (induction rows) (auto intro!: frame_rules one)
  then show ?thesis unfolding expire_due_def by (intro frame_rules asideD [OF f])
qed

lemma aside_recover_stale: "aside f \<Longrightarrow> frame f (recover_stale C S who now)"
proof -
  assume f: "aside f"
  have lost: "frame f (lost_lease C row actor moment)" for row actor moment
    unfolding lost_lease_def by (intro frame_rules f)
  have "frame f (recover_rows C S who moment rows)" for moment rows
    by (induction rows) (auto intro!: frame_rules lost f)
  then show ?thesis unfolding recover_stale_def by (intro frame_rules asideD [OF f])
qed

lemma aside_propose: "aside f \<Longrightarrow> frame f (propose C S p q key correlation now)"
proof -
  assume f: "aside f"
  have "frame f (settle_proposal C S p pl row moment)" for pl row moment
    unfolding settle_proposal_def by (intro frame_rules asideD [OF f] f)
  then show ?thesis unfolding propose_def on_conflict_def by (intro frame_rules asideD [OF f] f)
qed

lemma aside_preview: "aside f \<Longrightarrow> frame f (preview C p q now)"
  unfolding preview_def by (intro frame_rules asideD; assumption?)

lemma aside_dispatch_row [frame_rules]: "aside f \<Longrightarrow> frame f (dispatch_row C p aid moment)"
  unfolding dispatch_row_def by (intro frame_rules asideD; assumption?)

lemma aside_block_dispatch [frame_rules]: "aside f \<Longrightarrow> frame f (block_dispatch C p row block moment)"
  unfolding block_dispatch_def by (intro frame_rules asideD; assumption?)

lemma aside_observe_action [frame_rules]: "aside f \<Longrightarrow> frame f (observe_action C S row a actor now tag)"
  unfolding observe_action_def
  apply (intro frame_bnd frame_of_sum frame_attempt frame_observe)
  subgoal for expected out
    apply (cases out)
    subgoal for e by (cases e) (auto intro!: frame_rules)
    subgoal by (auto intro!: frame_rules dest: asideD)
    done
  done

lemma aside_after_execute [frame_rules]: "aside f \<Longrightarrow> frame f (after_execute C S row a actor now started out)"
proof -
  assume f: "aside f"
  show ?thesis
  proof (cases out)
    case (Inl e)
    show ?thesis unfolding after_execute_def Inl sum.case
      by (auto split: amc_error.splits adapter_error_kind.splits intro!: frame_rules f asideD [OF f])
  next
    case (Inr r)
    show ?thesis unfolding after_execute_def Inr sum.case by (intro frame_rules f asideD [OF f])
  qed
qed

lemma aside_reserve_for [frame_rules]:
  fixes f :: "'s gateway_db \<Rightarrow> 'b"
  assumes f: "aside f"
  shows "frame f (reserve_for C p row moment)"
proof -
  have settled: "frame f (case out of Inl (BudgetExceeded code details) \<Rightarrow> m code details | Inl e \<Rightarrow> raise e | Inr res \<Rightarrow> g res)"
    if "\<And>code details. frame f (m code details)" "\<And>res. frame f (g res)"
    for out m and g :: "reservation \<Rightarrow> ('s, action_row + action_row) gw"
  proof (cases out)
    case (Inl e)
    then show ?thesis using that by (cases e) (auto intro: frame_raise)
  qed (simp add: that)
  show ?thesis
    unfolding reserve_for_def
    by (intro frame_if frame_bnd frame_ret frame_of_sum frame_attempt frame_reserve_budget asideD [OF f] aside_move settled f)
qed

lemma aside_take_lease [frame_rules]: "aside f \<Longrightarrow> frame f (take_lease C p d row worker moment)"
  unfolding take_lease_def on_conflict_def by (intro frame_rules)

subsection \<open>What a clear preflight means\<close>

definition cleared :: "config \<Rightarrow> action_row \<Rightarrow> int \<Rightarrow> 's gateway_db \<Rightarrow> bool" where
  "cleared C row now db = (
     \<not> system_frozen C \<and> list_all (\<lambda>z. \<not> (fz_tenant z = ac_tenant row \<and> fz_lifted_at z = None \<and> freezes_apply (ac_project row) z)) (ad_freezes db) \<and>
     ac_environment row \<noteq> Env_LIVE \<and> iso now \<le> ac_expires row \<and> ac_policy_version row = risk_policy_version \<and>
     (\<exists>d. find_descriptor C (ac_capability row) = Inr d \<and> descriptor_ref d = ab_capability_ref (ac_binding row) \<and>
        descriptor_hash (config_hash C) d = ab_descriptor_hash (ac_binding row)) \<and>
     current_heads (gd_artifacts db) (ac_project row) (ac_dependencies row) = ac_dependencies row \<and>
     \<not> ra_requires_step_up (rd_assessment (ac_risk row)) \<and>
     (if bd_subjects (ac_binding row) \<noteq> []
      then ck_satisfied (check_found (self_approval_allowed C) row (approvals_of (pd_approvals db) row) now)
      else risk_class_rank (ac_class row) \<le> risk_class_rank (auto_ceiling
        (case row_by au_project_id (ac_project row) (ad_autonomy db) of None \<Rightarrow> default_autonomy | Some a \<Rightarrow> au_level a))) \<and>
     (risk_class_rank (ac_class row) < risk_class_rank R3 \<or>
      list_all (\<lambda>q. \<not> (ac_tenant q = ac_tenant row \<and> ac_state q \<in> set unresolved_states)) (ad_actions db)))"

lemma bnd_returns: "bnd m f s = (Inr b, t) \<longleftrightarrow> (\<exists>a u. m s = (Inr a, u) \<and> f a u = (Inr b, t))"
  by (auto simp: bnd_def split: prod.splits sum.splits)

lemma note_if_Nil: "note_if b x = [] \<longleftrightarrow> \<not> b" by (simp add: note_if_def)

lemma observed_unresolved: "observations_of V rs = Inr obs \<Longrightarrow> length obs = length rs \<and> unresolved_effects obs = obs"
  by (induction rs arbitrary: obs)
     (auto simp: unresolved_effects_def observation_of_def observation_status_def map_sum_def split: sum.splits option.splits if_splits)

lemma assess_blockers: "ua_blockers (assess_uncertainty obs now P whole) = [] \<longleftrightarrow> ua_allow (assess_uncertainty obs now P whole)"
  by (simp add: assess_uncertainty_def Let_def)

lemma assess_allows_none:
  "ua_allow (assess_uncertainty obs now default_uncertainty_policy whole) \<Longrightarrow> unresolved_effects obs = []"
  by (auto simp: assess_uncertainty_def Let_def note_if_Nil default_uncertainty_policy_def)

lemma sort_key_Nil: "sort_key f xs = [] \<longleftrightarrow> xs = []"
  by (metis length_0_conv length_sort)

definition debtors :: "string \<Rightarrow> action_row list \<Rightarrow> action_row list" where
  "debtors tenant as = take (uncertainty_snapshot_limit + 1) (rev (sort_key ac_created (filter (\<lambda>r. ac_tenant r = tenant \<and>
      (unresolved_states = [] \<or> ac_state r \<in> set unresolved_states)) as)))"

lemma debtors_Nil:
  "debtors tenant as = [] \<longleftrightarrow> list_all (\<lambda>q. \<not> (ac_tenant q = tenant \<and> ac_state q \<in> set unresolved_states)) as"
proof -
  have "debtors tenant as = [] \<longleftrightarrow> filter (\<lambda>r. ac_tenant r = tenant \<and> (unresolved_states = [] \<or> ac_state r \<in> set unresolved_states)) as = []"
    unfolding debtors_def by (simp add: sort_key_Nil)
  also have "\<dots> \<longleftrightarrow> list_all (\<lambda>q. \<not> (ac_tenant q = tenant \<and> ac_state q \<in> set unresolved_states)) as"
    unfolding filter_empty_conv list_all_iff by (simp add: unresolved_states_def)
  finally show ?thesis .
qed

lemma uncertainty_value:
  assumes "uncertainty V tenant (Some now) P db = (Inr debt, v)"
  obtains obs where "v = db" "observations_of V (take uncertainty_snapshot_limit (debtors tenant (ad_actions db))) = Inr obs"
    "debt = assess_uncertainty obs now P (length (debtors tenant (ad_actions db)) \<le> uncertainty_snapshot_limit)"
  using assms unfolding uncertainty_def list_requests_def moment_of_def debtors_def
  by (auto simp: bnd_returns gets_def of_sum_def ret_def)

lemma uncertainty_clear:
  assumes "uncertainty V tenant (Some now) default_uncertainty_policy db = (Inr debt, v)" and "ua_allow debt"
  shows "list_all (\<lambda>q. \<not> (ac_tenant q = tenant \<and> ac_state q \<in> set unresolved_states)) (ad_actions db)"
proof -
  obtain obs where o: "observations_of V (take uncertainty_snapshot_limit (debtors tenant (ad_actions db))) = Inr obs"
    and d: "debt = assess_uncertainty obs now default_uncertainty_policy (length (debtors tenant (ad_actions db)) \<le> uncertainty_snapshot_limit)"
    using assms(1) by (rule uncertainty_value)
  have "obs = []" using observed_unresolved [OF o] assess_allows_none assms(2) d by metis
  then have "take uncertainty_snapshot_limit (debtors tenant (ad_actions db)) = []"
    using observed_unresolved [OF o] by (metis length_0_conv)
  then have "debtors tenant (ad_actions db) = []" by (simp add: uncertainty_snapshot_limit_def)
  then show ?thesis by (simp add: debtors_Nil)
qed

lemma capability_clear:
  "capability_block C row = Inr [] \<Longrightarrow> \<exists>d. find_descriptor C (ac_capability row) = Inr d \<and>
     descriptor_ref d = ab_capability_ref (ac_binding row) \<and> descriptor_hash (config_hash C) d = ab_descriptor_hash (ac_binding row)"
  by (auto simp: capability_block_def note_if_Nil split: sum.splits amc_error.splits)

lemma check_unsatisfied:
  "\<not> ck_satisfied (check_found s row found now) \<Longrightarrow>
    ck_reasons (check_found s row found now) \<noteq> [] \<or> ck_pending (check_found s row found now) \<noteq> []"
  by (cases "bd_subjects (ac_binding row) = []")
     (simp_all add: check_found_def Let_def del: append_is_Nil_conv concat_eq_Nil_conv)

lemma preflight_clear:
  assumes "preflight C row now db = (Inr ([], []), v)"
  shows "cleared C row now db"
proof -
  obtain frozen capability current held unapproved debt u w where
    steps: "freeze_reasons C (ac_tenant row) (ac_project row) db = (Inr frozen, db)" "capability_block C row = Inr capability"
      "current = current_heads (gd_artifacts db) (ac_project row) (ac_dependencies row)"
      "(if bd_subjects (ac_binding row) \<noteq> []
        then bnd (check_approvals C row now) (\<lambda>c. ret ([], approval_block c))
        else bnd (autonomy (ac_project row)) (\<lambda>level. ret (autonomy_hold row level, []))) db = (Inr (held, unapproved), u)"
      "(if risk_class_rank (ac_class row) \<ge> risk_class_rank R3
         then bnd (uncertainty (cf_env C) (ac_tenant row) (Some now) default_uncertainty_policy) (\<lambda>debt.
           ret (if ua_allow debt then [] else map (\<lambda>b. ''UNCERTAINTY_DEBT:'' @ b) (ua_blockers debt)))
         else ret []) u = (Inr debt, w)"
    and out: "frozen @ held @ debt = []" "capability @ unapproved = []" "ac_environment row \<noteq> Env_LIVE" "\<not> past now (ac_expires row)"
      "ac_policy_version row = risk_policy_version" "current = ac_dependencies row" "\<not> ra_requires_step_up (rd_assessment (ac_risk row))"
    using assms
    by (auto simp: preflight_def bnd_returns of_sum_def current_dependencies_def gets_def ret_def note_if_Nil freeze_reasons_def
        active_freezes_def)
  have u: "u = db"
    using steps(4)
    by (auto simp: check_approvals_def action_approvals_def autonomy_def get_autonomy_def bnd_returns gets_def ret_def split: if_splits)
  have approved: "if bd_subjects (ac_binding row) \<noteq> []
      then ck_satisfied (check_found (self_approval_allowed C) row (approvals_of (pd_approvals db) row) now)
      else risk_class_rank (ac_class row) \<le> risk_class_rank (auto_ceiling
        (case row_by au_project_id (ac_project row) (ad_autonomy db) of None \<Rightarrow> default_autonomy | Some a \<Rightarrow> au_level a))"
    using steps(4) out(1,2) check_unsatisfied
    by (auto simp: check_approvals_def action_approvals_def autonomy_def get_autonomy_def bnd_returns gets_def ret_def
        approval_block_def autonomy_hold_def note_if_Nil split: if_splits)
  have debt: "risk_class_rank (ac_class row) < risk_class_rank R3 \<or>
      list_all (\<lambda>q. \<not> (ac_tenant q = ac_tenant row \<and> ac_state q \<in> set unresolved_states)) (ad_actions db)"
  proof (cases "risk_class_rank R3 \<le> risk_class_rank (ac_class row)")
    case True
    then obtain a where a: "uncertainty (cf_env C) (ac_tenant row) (Some now) default_uncertainty_policy db = (Inr a, w)"
      and "(if ua_allow a then [] else map (\<lambda>b. ''UNCERTAINTY_DEBT:'' @ b) (ua_blockers a)) = []"
      using steps(5) out(1) by (auto simp: u bnd_returns ret_def)
    then have "ua_allow a" using assess_blockers by (auto elim!: uncertainty_value split: if_splits)
    with a show ?thesis by (intro disjI2 uncertainty_clear)
  qed simp
  have unfrozen: "\<not> system_frozen C \<and> list_all (\<lambda>z. \<not> (fz_tenant z = ac_tenant row \<and> fz_lifted_at z = None \<and>
      freezes_apply (ac_project row) z)) (ad_freezes db)"
    using steps(1) out(1)
    by (auto simp: freeze_reasons_def active_freezes_def bnd_returns gets_def ret_def note_if_Nil filter_empty_conv list_all_iff)
  have fresh: "iso now \<le> ac_expires row" using out(4) by (simp add: past_def)
  have "capability_block C row = Inr []" using steps(2) out(2) by simp
  then obtain d where d: "find_descriptor C (ac_capability row) = Inr d" "descriptor_ref d = ab_capability_ref (ac_binding row)"
    "descriptor_hash (config_hash C) d = ab_descriptor_hash (ac_binding row)"
    using capability_clear by blast
  show ?thesis unfolding cleared_def
    by (intro conjI exI [of _ d] approved debt unfrozen [THEN conjunct1] unfrozen [THEN conjunct2] fresh d out(3,5,7)
        trans [OF steps(3) [symmetric] out(6)])
qed

subsection \<open>Properties of the gateway\<close>

lemma frame_state: "frame f m \<Longrightarrow> f (snd (m s)) = f s" by (simp add: frame_def)

lemma frame_unchanged: "frame f m \<Longrightarrow> m s = (r, t) \<Longrightarrow> f t = f s" by (rule frameD)

lemma of_sum_returns: "of_sum r s = (Inr a, t) \<longleftrightarrow> r = Inr a \<and> t = s"
  by (auto simp: of_sum_def)

lemma ret_returns: "ret a s = (Inr b, t) \<longleftrightarrow> b = a \<and> t = s"
  by (auto simp: ret_def)

lemma guard_returns: "guard b e s = (Inr u, t) \<longleftrightarrow> b \<and> t = s"
  by (auto simp: guard_def ret_def raise_def)

lemma dispatch_row_reads:
  assumes "dispatch_row C p aid moment db = (Inr row, v)"
  obtains row0 where "row_by ac_id aid (ad_actions db) = Some row0" "ac_tenant row0 = pr_tenant p" "can_access_project p (ac_project row0)"
    "principal_role p \<notin> set read_only_roles" "ac_state row = A_AUTHORIZED \<or> ac_state row = A_RESERVED"
    "if ac_state row0 = A_AWAITING_APPROVAL then settle C aid gateway_actor (Some moment) db = (Inr row, v) else row = row0 \<and> v = db"
  using assms unfolding dispatch_row_def get_request_def visible_def authorize_scope_def get_project_workspace_def
  by (auto simp: bnd_returns gets_def guard_returns ret_returns raise_def split: option.splits if_splits)

text \<open>What happened up to the effect of a dispatch that had one.\<close>

lemma dispatch_with_effect:
  assumes "ad_effects (snd (dispatch C S p aid worker now db)) \<noteq> ad_effects db"
  obtains t db0 row db1 d a db2 where "moment_of (cf_env C) now db = (Inr t, db0)" "dispatch_row C p aid t db0 = (Inr row, db1)"
    "preflight C row t db1 = (Inr ([], []), db2)" "ad_effects db2 = ad_effects db"
    "dispatch C S p aid worker now db = dispatch_cleared C S p d a row worker t db2"
    "ad_effects (snd (dispatch_cleared C S p d a row worker t db2)) \<noteq> ad_effects db2"
proof -
  note steady = aside_parts(1) [THEN asideD(1)]
  have blocked: "ad_effects (snd (block_dispatch C p row block t s)) = ad_effects s" for row block t and s :: "'a gateway_db"
    using aside_block_dispatch [OF aside_parts(1)] unfolding frame_def by blast
  show thesis
    using assms unfolding dispatch_def
    apply (elim bnd_changes [OF _ frame_moment_of [OF steady]])
    apply (erule bnd_changes [OF _ aside_dispatch_row [OF aside_parts(1)]])
    apply (erule bnd_changes [OF _ frame_of_sum])
    apply (erule bnd_changes [OF _ frame_of_sum])
    apply (erule bnd_changes [OF _ frame_gateway(13) [OF steady]])
    subgoal for t db0 row db1 d u a w verdict db2
      using blocked
      by (cases verdict) (auto simp: raise_def of_sum_returns of_sum_def bnd_def dispatch_def split: if_splits intro!: that [of t db0 row db1 db2 d a])
    done
qed

lemma store_ok_any:
  assumes "store_ok V E P db"
  shows "store_ok V (\<lambda>_. UNIV) (\<lambda>_. True) db"
proof -
  have "walk (\<lambda>_. UNIV) xs" for xs :: "action_state list" by (induction xs rule: induct_list012) auto
  then show ?thesis using assms by (auto simp: store_ok_def history_ok_def Let_def)
qed

lemma moved_stored:
  "row_by ac_id aid rows = Some r \<Longrightarrow>
    row_by ac_id (ac_id (moved us dst stamp r)) (replace_row (moved us dst stamp r) rows) = Some (moved us dst stamp r)"
  using row_by_replace_row [of "moved us dst stamp r" rows "ac_id r"] row_by_SomeD [of ac_id aid rows r] by auto

text \<open>
  A waiting action that a dispatch finds settled: the approvals in the store satisfy the policy, and
  the row changes in nothing but its state, its version and its stamp.
\<close>

lemma wp_steady:
  assumes "frame acts m" and "\<And>a t. acts t = acts s \<Longrightarrow> Q a t" and "\<And>e t. acts t = acts s \<Longrightarrow> F e t"
  shows "wp m Q F s"
  using assms(2,3) frameD [OF assms(1)] by (auto simp: wp_def split: prod.splits sum.splits)

definition authorized_from :: "'s gateway_db \<Rightarrow> action_row \<Rightarrow> action_row \<Rightarrow> 's gateway_db \<Rightarrow> bool" where
  "authorized_from db r0 row v = (ac_state row \<in> {A_AUTHORIZED, A_RESERVED} \<longrightarrow>
     (\<exists>stamp. row = moved [] A_AUTHORIZED stamp r0) \<and> rest v = rest db \<and> ad_actions v = replace_row row (ad_actions db))"

lemma settle_authorizes:
  assumes ok: "store_ok (cf_env C) E P db" and r0: "row_by ac_id aid (ad_actions db) = Some r0" and waits: "ac_state r0 = A_AWAITING_APPROVAL"
    and run: "settle C aid actor (Some t) db = (Inr row, v)"
  shows "authorized_from db r0 row v"
proof -
  have id: "ac_id r0 = aid" using row_by_SomeD [OF r0] by simp
  define again where "again = (\<lambda>e. if \<not> is_conflict e then raise e else bnd (get_request aid) (\<lambda>found. case found of None \<Rightarrow> raise e
      | Some r \<Rightarrow> if ac_state r = A_AWAITING_APPROVAL then raise e else (ret r :: ('a, action_row) gw)))"
  have settle: "settle C aid actor (Some t) = catch (settle_once C aid actor (Some t)) again"
    unfolding settle_def again_def ..
  have "wp (settle C aid actor (Some t)) (authorized_from db r0) (\<lambda>_ _. True) db"
  proof (cases "settlement (check_found (self_approval_allowed C) r0 (approvals_of (pd_approvals db) r0) t)")
    case None
    then show ?thesis
      by (simp add: settle settle_once_def moment_of_def get_request_def check_approvals_def action_approvals_def hoare_rules
          r0 waits authorized_from_def)
  next
    case (Some out)
    obtain dst why stale where out: "out = (dst, why, stale)" by (cases out)
    have dst: "dst = A_AUTHORIZED \<and> stale = None \<or> dst \<notin> {A_AUTHORIZED, A_RESERVED}"
      using Some unfolding out settlement_def by (auto split: if_splits)
    let ?us = "if dst = A_AUTHORIZED then [] else [U_reasons (ck_reasons (check_found (self_approval_allowed C) r0
      (approvals_of (pd_approvals db) r0) t))]"
    let ?h = "\<lambda>e. wp (again e) (authorized_from db r0) (\<lambda>_ _. True)"
    have moving: "wp (transition (cf_env C) aid (ac_version r0) [A_AWAITING_APPROVAL] dst actor why ev ?us (Some t))
      (\<lambda>r. wp (bnd (case stale of None \<Rightarrow> ret [] | Some why \<Rightarrow> stale_open_approvals (cf_env C) r why) (\<lambda>_. ret r))
         (authorized_from db r0) ?h) ?h db" for ev
    proof (rule wp_transition [OF store_ok_any [OF ok]])
      fix r stamp w e
      assume "row_by ac_id aid (ad_actions db) = Some r" and w: "rest w = rest db" "ad_actions w = replace_row (moved ?us dst stamp r) (ad_actions db)"
      then have r: "r = r0" using r0 by simp
      have stored: "row_by ac_id aid (ad_actions w) = Some (moved ?us dst stamp r0)"
        using moved_stored [OF r0, of ?us dst stamp] w(2) r id by simp
      show "wp (bnd (case stale of None \<Rightarrow> ret [] | Some why \<Rightarrow> stale_open_approvals (cf_env C) (moved ?us dst stamp r) why)
          (\<lambda>_. ret (moved ?us dst stamp r))) (authorized_from db r0) ?h w"
      proof (cases "dst = A_AUTHORIZED")
        case True
        then show ?thesis using dst w r by (auto simp: hoare_rules authorized_from_def)
      next
        case False
        then have off: "ac_state (moved ?us dst stamp r0) \<notin> {A_AUTHORIZED, A_RESERVED}" using dst by (simp add: moved_def)
        then have off': "authorized_from db r0 (moved ?us dst stamp r0) x" for x by (simp add: authorized_from_def)
        have h: "?h e x" if "acts x = acts w" for e x
          using stored that off' by (simp add: again_def hoare_rules get_request_def acts_def)
        have "wp (stale_open_approvals (cf_env C) (moved ?us dst stamp r0) why) (\<lambda>_ _. True) ?h w" for why
          by (rule wp_steady [OF quiet_leaf(9)]) (use h in blast)+
        then show ?thesis using r off' False by (cases stale) (simp_all add: hoare_rules)
      qed
    next
      fix e w
      assume "same_actions db w" "rest w = rest db"
      then show "?h e w" using r0 waits by (simp add: again_def hoare_rules get_request_def same_actions_def)
    qed simp_all
    show ?thesis
      using moving
      by (simp add: settle settle_once_def moment_of_def get_request_def check_approvals_def action_approvals_def move_def hoare_rules
          r0 waits id Some out)
  qed
  then show ?thesis using run by (simp add: wp_def)
qed

text \<open>What the preflight cleared was clear already in the state the dispatch began in.\<close>

lemma rest_reads: "ad_freezes (rest db) = ad_freezes db" "ad_autonomy (rest db) = ad_autonomy db"
  by (simp_all add: rest_def)

lemma rest_reads_more: "pd_approvals (rest db) = pd_approvals db" "gd_artifacts (rest v) = gd_artifacts v"
  by (simp_all add: rest_def)

lemma rest_parts:
  assumes "rest v = rest db"
  shows "ad_freezes v = ad_freezes db" "gd_artifacts v = gd_artifacts db" "pd_approvals v = pd_approvals db" "ad_autonomy v = ad_autonomy db"
  by (rule arg_cong [OF assms, of ad_freezes, unfolded rest_reads], rule arg_cong [OF assms, of gd_artifacts, unfolded rest_reads_more],
      rule arg_cong [OF assms, of pd_approvals, unfolded rest_reads_more], rule arg_cong [OF assms, of ad_autonomy, unfolded rest_reads])

lemma cleared_same:
  assumes "rest v = rest db" and "ad_actions v = ad_actions db"
  shows "cleared C row t v = cleared C row t db"
  by (simp add: cleared_def rest_parts [OF assms(1)] assms(2))

lemma moved_parts [simp]:
  "ac_id (moved [] dst stamp r) = ac_id r" "ac_tenant (moved [] dst stamp r) = ac_tenant r" "ac_project (moved [] dst stamp r) = ac_project r"
  "ac_environment (moved [] dst stamp r) = ac_environment r" "ac_expires (moved [] dst stamp r) = ac_expires r"
  "ac_policy_version (moved [] dst stamp r) = ac_policy_version r" "ac_capability (moved [] dst stamp r) = ac_capability r"
  "ac_binding (moved [] dst stamp r) = ac_binding r" "ac_dependencies (moved [] dst stamp r) = ac_dependencies r"
  "ac_risk (moved [] dst stamp r) = ac_risk r" "ac_class (moved [] dst stamp r) = ac_class r"
  "approvals_of as (moved [] dst stamp r) = approvals_of as r"
  "check_subject self_ok (moved [] dst stamp r) = check_subject self_ok r"
  by (simp_all add: moved_def set_columns_def approvals_of_def check_subject_def fun_eq_iff Let_def)

lemma check_found_moved [simp]: "check_found self_ok (moved [] dst stamp r) found now = check_found self_ok r found now"
  by (simp only: check_found_def moved_parts)

lemma cleared_settled:
  assumes ok: "store_ok V E P db" and r0: "row_by ac_id aid (ad_actions db) = Some r0" and waits: "ac_state r0 = A_AWAITING_APPROVAL"
    and v: "rest v = rest db" "ad_actions v = replace_row (moved [] A_AUTHORIZED stamp r0) (ad_actions db)"
    and clear: "cleared C (moved [] A_AUTHORIZED stamp r0) t v"
  shows "cleared C r0 t db"
proof -
  have "q = r0" if "q \<in> set (ad_actions db)" "ac_id q = ac_id r0" for q
    using ok that row_by_SomeD [OF r0] by (auto simp: store_ok_def distinct_map dest: inj_onD)
  then have kept: "q \<in> set (ad_actions v)" if "q \<in> set (ad_actions db)" "ac_state q \<in> set unresolved_states" for q
    using that(1) by (cases "q = r0") (use that waits \<open>\<And>q. q \<in> set (ad_actions db) \<Longrightarrow> ac_id q = ac_id r0 \<Longrightarrow> q = r0\<close> in
      \<open>auto simp: v(2) replace_row_def set_update_rows unresolved_states_def\<close>)
  show ?thesis
    using clear kept by (auto simp: cleared_def rest_parts [OF v(1)] list_all_iff)
qed

text \<open>
  C3. Nothing is dispatched that is not cleared: if a dispatch of an action touched the effects of any
  provider, then in the state it began in the caller could write to the project of that action, the
  action was AUTHORIZED, RESERVED or waiting for approvals, and it was clear: no freeze applied to it,
  it was not LIVE and not expired at the moment of the dispatch, its policy, capability and
  dependencies were those of its binding, it needed no step-up, every approval of its binding was
  given (or, where the binding asks for none, its class was within the autonomy of the project) and,
  from R3 on, no effect of the tenant was unresolved.
\<close>

theorem dispatch_authorized:
  fixes db :: "'s gateway_db"
  assumes "gateway_reach C S db" and "ad_effects (snd (dispatch C S p aid worker now db)) \<noteq> ad_effects db"
  shows "\<exists>t row. fst (moment_of (cf_env C) now db) = Inr t \<and> row_by ac_id aid (ad_actions db) = Some row \<and>
    ac_state row \<in> {A_AUTHORIZED, A_RESERVED, A_AWAITING_APPROVAL} \<and> cleared C row t db \<and>
    ac_tenant row = pr_tenant p \<and> can_access_project p (ac_project row) \<and> principal_role p \<notin> set read_only_roles"
proof -
  obtain t db0 row db1 d a db2 where t: "moment_of (cf_env C) now db = (Inr t, db0)" and row: "dispatch_row C p aid t db0 = (Inr row, db1)"
    and clear: "preflight C row t db1 = (Inr ([], []), db2)"
    using assms(2) by (rule dispatch_with_effect)
  have db0: "rest db0 = rest db" "acts db0 = acts db"
    by (rule frameD [OF frame_moment_of t], simp add: steady_def, rule frameD [OF quiet_leaf(2) t])
  then have ok: "gateway_ok C db0" using gateway_reach_ok [OF assms(1)] by (simp add: store_ok_def acts_def)
  obtain row0 where row0: "row_by ac_id aid (ad_actions db0) = Some row0" "ac_tenant row0 = pr_tenant p" "can_access_project p (ac_project row0)"
      "principal_role p \<notin> set read_only_roles" "ac_state row = A_AUTHORIZED \<or> ac_state row = A_RESERVED"
    and from_row0: "if ac_state row0 = A_AWAITING_APPROVAL then settle C aid gateway_actor (Some t) db0 = (Inr row, db1) else row = row0 \<and> db1 = db0"
    using row by (rule dispatch_row_reads)
  have "cleared C row0 t db0"
  proof (cases "ac_state row0 = A_AWAITING_APPROVAL")
    case True
    then have "authorized_from db0 row0 row db1" using from_row0 by (intro settle_authorizes [OF ok row0(1)]) auto
    then show ?thesis
      using cleared_settled [OF ok row0(1) True] preflight_clear [OF clear] row0(5) by (auto simp: authorized_from_def)
  next
    case False
    then show ?thesis using from_row0 preflight_clear [OF clear] by simp
  qed
  then show ?thesis
    using row0 t db0 cleared_same [of db0 db] from_row0
    by (intro exI [of _ t] exI [of _ row0]) (auto simp: acts_def split: if_splits)
qed

lemma walk_successively: "walk E xs \<longleftrightarrow> successively (\<lambda>a b. b \<in> E a) xs"
  by (induction xs rule: induct_list012) auto

text \<open>
  C1. The gateway follows its state machine: whatever handlers ran, in any order and however they
  ended, the history of every action is an intact chain from nothing to the state of its row, and
  each step of it is one that \<open>assert_transition\<close> of the state machine allows (a recorded
  compensation repeats COMPLETED). The gateway itself never calls \<open>assert_transition\<close>.
\<close>

theorem gateway_follows_fsm:
  assumes "gateway_reach C S db"
  shows "list_all (\<lambda>r. \<exists>es h. list_transitions (ac_id r) db = (Inr es, db) \<and>
    verify_transition_chain (cf_env C) (ac_id r) db = (Inr (Intact (length es) h), db) \<and>
    continuous None es \<and> es \<noteq> [] \<and> tr_to (last es) = ac_state r \<and> int (length es) = ac_version r \<and>
    successively (\<lambda>a b. assert_action_transition (action_state_value (tr_to a)) (action_state_value (tr_to b)) = Inr () \<or>
      tr_to a = A_COMPLETED \<and> tr_to b = A_COMPLETED) es) (ad_actions db)"
  unfolding list_all_iff
proof
  fix r
  assume "r \<in> set (ad_actions db)"
  let ?es = "entries_of (ac_id r) (ad_transitions db)"
  have h: "?es \<noteq> []" "intact (cf_env C) ?es" "continuous None ?es" "tr_to (last ?es) = ac_state r" "int (length ?es) = ac_version r"
    "walk gateway_edges (map tr_to ?es)"
    using gateway_reach_ok [OF assms] \<open>r \<in> set (ad_actions db)\<close> by (auto simp: store_ok_def history_ok_def Let_def)
  obtain hd where "check_chain (cf_env C) (length ?es) 0 None ?es = Intact (length ?es) hd"
    using h(2) check_chain_intact by (metis intact_def)
  moreover have "successively (\<lambda>a b. assert_action_transition (action_state_value (tr_to a)) (action_state_value (tr_to b)) = Inr () \<or>
      tr_to a = A_COMPLETED \<and> tr_to b = A_COMPLETED) ?es"
    using h(6) unfolding walk_successively successively_map
    by (rule successively_mono) (auto simp: assert_action_transition_iff gateway_edges_def split: if_splits)
  ultimately show "\<exists>es h. list_transitions (ac_id r) db = (Inr es, db) \<and>
    verify_transition_chain (cf_env C) (ac_id r) db = (Inr (Intact (length es) h), db) \<and>
    continuous None es \<and> es \<noteq> [] \<and> tr_to (last es) = ac_state r \<and> int (length es) = ac_version r \<and>
    successively (\<lambda>a b. assert_action_transition (action_state_value (tr_to a)) (action_state_value (tr_to b)) = Inr () \<or>
      tr_to a = A_COMPLETED \<and> tr_to b = A_COMPLETED) es"
    using h by (simp add: list_transitions_def verify_transition_chain_def prog_defs)
qed

text \<open>
  C2. What every action satisfies at all times: it is not a LIVE action, its binding hash is the
  hash of its binding and the binding names its tenant, project, environment, target, payload and
  class, it was attempted at most three times (at most twice while it may still be dispatched), it
  holds a lease exactly while it is in flight, only a FAILED action is eligible for a retry and it
  has an outcome exactly when it is COMPLETED.
\<close>

theorem gateway_invariant:
  assumes "gateway_reach C S db"
  shows "list_all (\<lambda>r. ac_environment r \<noteq> Env_LIVE \<and> ac_binding_hash r = binding_hash_of (config_hash C) (ac_binding r) \<and>
    ab_payload_hash (ac_binding r) = ac_payload_hash r \<and> ab_tenant (ac_binding r) = ac_tenant r \<and>
    ab_project (ac_binding r) = ac_project r \<and> ab_environment (ac_binding r) = ac_environment r \<and>
    ab_target_ref (ac_binding r) = ac_target r \<and> ab_effective_class (ac_binding r) = ac_class r \<and>
    0 \<le> ac_attempts r \<and> ac_attempts r \<le> max_attempts \<and> (ac_state r \<in> pre_dispatch \<longrightarrow> ac_attempts r < max_attempts) \<and>
    (ac_lease_owner r \<noteq> None \<longleftrightarrow> ac_state r \<in> leased_states \<union> {A_VERIFIED}) \<and>
    (ac_lease_expires r \<noteq> None \<longleftrightarrow> ac_state r \<in> leased_states \<union> {A_VERIFIED}) \<and>
    (ac_retry_eligible r \<longrightarrow> ac_state r = A_FAILED) \<and> (ac_outcome r \<noteq> None \<longleftrightarrow> ac_state r = A_COMPLETED)) (ad_actions db)"
proof -
  have fit: "list_all (row_fit (config_hash C)) (ad_actions db)"
    using gateway_reach_ok [OF assms] by (simp add: store_ok_def list_all_iff)
  have holders: "lease_holders = leased_states \<union> {A_VERIFIED}" by (auto simp: lease_holders_def leased_states_def)
  have limit: "(n \<le> 2) = (n < max_attempts)" "(n \<le> 3) = (n \<le> max_attempts)" for n :: int
    by (auto simp: max_attempts_def)
  show ?thesis
    by (rule list.pred_mono_strong [OF fit])
       (simp only: row_fit_def bound_fit_def phase_fit_def holders limit, simp)
qed

text \<open>
  C36. Only a dispatch, a retry or a compensation reaches a provider: proposing, previewing, settling,
  cancelling, expiring, reconciling and recovering leave the effects of every provider as they are.
  In particular an effect whose outcome is unknown is never sent again by a reconciliation.
\<close>

theorem reconcile_never_resends:
  "ad_effects (snd (reconcile C S aid actor who now db)) = ad_effects db \<and>
   ad_effects (snd (recover_stale C S who now db)) = ad_effects db \<and>
   ad_effects (snd (settle C aid actor now db)) = ad_effects db \<and>
   ad_effects (snd (propose C S p q key correlation now db)) = ad_effects db \<and>
   ad_effects (snd (preview C p q now db)) = ad_effects db \<and>
   ad_effects (snd (cancel C p aid reason now db)) = ad_effects db \<and>
   ad_effects (snd (expire_due C tenant who now db)) = ad_effects db"
  by (intro conjI frame_state [where f = ad_effects] aside_reconcile aside_recover_stale aside_settle aside_propose aside_preview
      aside_cancel aside_expire_due aside_parts(1))

lemma take_lease_stored:
  assumes ok: "store_ok (cf_env C) E P s" and out: "take_lease C p d row worker moment s = (Inr leased, v)"
  shows "row_by ac_id (ac_id leased) (ad_actions v) = Some leased \<and> ac_state leased = A_DISPATCHING \<and>
    ac_lease_owner leased = Some worker \<and> ac_attempts leased = ac_attempts row + 1 \<and>
    tr_action (last (ad_transitions v)) = ac_id leased \<and> tr_to (last (ad_transitions v)) = A_DISPATCHING"
    (is "?stored leased v")
proof -
  have "wp (take_lease C p d row worker moment) ?stored (\<lambda>_ _. True) s"
    unfolding take_lease_def on_conflict_def move_def
    apply (simp add: hoare_rules)
    apply (rule wp_transition [OF store_ok_any [OF ok]])
    subgoal by simp
    subgoal by simp
    subgoal for r stamp v t
      by (rule conjI, simp only: moved_stored) (simp add: next_entry_def moved_def set_columns_simps)
    subgoal by simp
    done
  then show ?thesis using out by (simp add: wp_def)
qed

lemma quiet_ok: "frame acts m \<Longrightarrow> store_ok V E P s \<Longrightarrow> m s = (r, t) \<Longrightarrow> store_ok V E P t"
  by (drule frameD, assumption) (simp add: acts_def store_ok_def)

lemma cleared_with_effect:
  fixes s :: "'s gateway_db"
  assumes ok: "gateway_ok C s" and row: "fit_in (config_hash C) [A_AUTHORIZED, A_RESERVED] row"
    and eff: "ad_effects (snd (dispatch_cleared C S p d a row worker t s)) \<noteq> ad_effects s"
  obtains ready who leased s1 s2 u where "reserve_for C p row t s = (Inr (Inr ready), s1)" "gateway_ok C s1"
    "fit_in (config_hash C) [A_AUTHORIZED, A_RESERVED] ready" "take_lease C p d ready who t s1 = (Inr leased, s2)"
    "ad_effects s2 = ad_effects s" "acts u = acts s2" "ad_effects u = ad_effects s2"
    "dispatch_cleared C S p d a row worker t s = execute_and_observe C S leased a (pr_user p) t u"
proof -
  note steady = aside_parts(1) [THEN asideD(1)] and blinds = aside_parts(1) [THEN asideD(12)] aside_parts(1) [THEN asideD(11)]
  have quiet: "trust_decision V S q stage e req evi w = (r, v) \<Longrightarrow> acts v = acts w" "record_permit q moment w = (r, v) \<Longrightarrow> acts v = acts w"
    for V q stage e req evi moment r and v w :: "'s gateway_db"
    by (rule frameD [OF quiet_leaf(5)], assumption) (rule frameD [OF quiet_leaf(6)])
  show thesis
    using eff unfolding dispatch_cleared_def Let_def
    apply (elim bnd_changes [OF _ aside_reserve_for [OF aside_parts(1)]])
    subgoal for out s1
      apply (cases out)
      subgoal by (simp add: ret_def)
      subgoal for ready
        apply hypsubst
        apply (simp (no_asm_use) only: sum.case)
        apply (elim bnd_changes [OF _ aside_take_lease [OF aside_parts(1)]])
        apply (elim bnd_changes [OF _ frame_gateway(4) [OF steady blinds(1)]])
        apply (elim bnd_changes [OF _ frame_gateway(5) [OF steady blinds(2)]])
        subgoal for leased s2 u1 u2 u3 u4
          using tripleD [OF triple_reserve_for [OF row] ok, of p t "Inr (Inr ready)" s1] quiet
          by (intro that [of ready s1 "or_default (some_or_empty worker) (''api:'' @ pr_user p)" leased s2 u4])
             (auto simp: ready_row_def bnd_def dispatch_cleared_def Let_def)
        done
      done
    done
qed

text \<open>
  C4. The intent is on record before the effect: if a dispatch touched the effects of any provider,
  then its run passed through a state in which no effect had been touched yet, the action dispatched
  was stored in DISPATCHING with a lease and one more attempt than the row that was cleared, the
  entry for it was the last of the transition log, and the effect was executed for exactly that row.
\<close>

theorem intent_before_effect:
  fixes db :: "'s gateway_db"
  assumes "gateway_reach C S db" and "ad_effects (snd (dispatch C S p aid worker now db)) \<noteq> ad_effects db"
  shows "\<exists>t leased a who (s :: 's gateway_db) u. ad_effects s = ad_effects db \<and>
    row_by ac_id (ac_id leased) (ad_actions s) = Some leased \<and> ac_state leased = A_DISPATCHING \<and>
    ac_lease_owner leased = Some who \<and> 1 \<le> ac_attempts leased \<and> ac_attempts leased \<le> max_attempts \<and>
    tr_action (last (ad_transitions s)) = ac_id leased \<and> tr_to (last (ad_transitions s)) = A_DISPATCHING \<and>
    acts u = acts s \<and> ad_effects u = ad_effects s \<and>
    dispatch C S p aid worker now db = execute_and_observe C S leased a (pr_user p) t u"
proof -
  note ok = gateway_reach_ok [OF assms(1)]
  obtain t db0 row db1 d a db2 where t: "moment_of (cf_env C) now db = (Inr t, db0)" and row: "dispatch_row C p aid t db0 = (Inr row, db1)"
    and pre: "preflight C row t db1 = (Inr ([], []), db2)" and e2: "ad_effects db2 = ad_effects db"
    and run: "dispatch C S p aid worker now db = dispatch_cleared C S p d a row worker t db2"
    and eff: "ad_effects (snd (dispatch_cleared C S p d a row worker t db2)) \<noteq> ad_effects db2"
    using assms(2) by (rule dispatch_with_effect)
  have "gateway_ok C db0" by (rule quiet_ok [OF quiet_leaf(2) ok t])
  then have "gateway_ok C db1" and fit: "fit_in (config_hash C) [A_AUTHORIZED, A_RESERVED] row"
    using tripleD [OF triple_dispatch_row _ row] by simp_all
  then have ok2: "gateway_ok C db2" using quiet_ok [OF quiet_leaf(12) _ pre] by blast
  obtain ready who leased s1 s2 u where "reserve_for C p row t db2 = (Inr (Inr ready), s1)" "gateway_ok C s1" and ready: "fit_in (config_hash C) [A_AUTHORIZED, A_RESERVED] ready"
    and lease: "take_lease C p d ready who t s1 = (Inr leased, s2)"
    and rest: "ad_effects s2 = ad_effects db2" "acts u = acts s2" "ad_effects u = ad_effects s2"
      "dispatch_cleared C S p d a row worker t db2 = execute_and_observe C S leased a (pr_user p) t u"
    using ok2 fit eff by (rule cleared_with_effect)
  have "0 \<le> ac_attempts ready \<and> ac_attempts ready \<le> 2"
    using ready by (auto simp: fit_in_def row_fit_def phase_fit_def pre_dispatch_def)
  then show ?thesis
    using take_lease_stored [OF \<open>gateway_ok C s1\<close> lease] rest e2 run
    by (intro exI [of _ t] exI [of _ leased] exI [of _ a] exI [of _ who] exI [of _ s2] exI [of _ u]) (simp add: max_attempts_def)
qed

end
