(* ===== verification/Gateway_Witness.thy ===== *)
theory Gateway_Witness
  imports Gateway_Machine
begin

section \<open>A run of the gateway\<close>

text \<open>
  One concrete run: an operator proposes a draft page in the sandbox (class R2, within the autonomy
  PREPARE, so no approval), and dispatches it to the CMS adapter. The run is evaluated handler by
  handler, as rewrites over the tables it touches, and discharges the hypotheses of the gateway's
  properties.
\<close>

definition gate_config :: config where
  "gate_config = (sample_config None)\<lparr>cf_coerce := sample_coercions\<lparr>pc_draft := (\<lambda>_. Inr (''summer'', ''/p'', ''Title'', ''Body''))\<rparr>\<rparr>"

definition gate_args :: adapter_args where "gate_args = DraftArgs ''summer'' ''/p'' ''Title'' ''Body''"

lemma gate_validate: "validate gate_config Cms_Draft j = Inr gate_args"
proof -
  have r: "re_fullmatch (site_rx 40) ''summer''" "safe_relative_path ''/p'' = Inr ''/p''" by code_simp+
  show ?thesis
    by (simp add: validate_def coerce_def gate_config_def sample_config_def sample_coercions_def check_defs size_in_def r gate_args_def)
qed

lemma gate_catalog: "find_descriptor gate_config ''sandbox.cms.create_draft'' = Inr (adapter_descriptor gate_config Cms_Draft)"
proof -
  have res: "reserved_match ''sandbox.cms.create_draft'' = None" by code_simp
  have ids: "ds_id (adapter_descriptor gate_config a) = adapter_id a" "ds_version (adapter_descriptor gate_config a) = ''v1''" for a
    by (cases a; simp add: descriptor_defs)+
  have others: "cf_other_entries gate_config = []" by (simp add: gate_config_def sample_config_def)
  show ?thesis
    by (simp add: find_descriptor_def the_catalog_def gateway_descriptors_def all_adapters_def integration_entries_def integration_def
        ids catalog_get_def res others del: adapter_descriptor.simps)
qed

definition gate_facts :: risk_facts where
  "gate_facts = plan_facts (adapter_descriptor gate_config Cms_Draft) gate_args Env_SANDBOX None None"


definition gate_risk :: risk_assessment where "gate_risk = assess id gate_facts"


lemma gate_facts_eq: "gate_facts = \<lparr>rf_operation = Op_WRITE_DRAFT, rf_environment = Env_SANDBOX, rf_data_class = Data_INTERNAL,
  rf_cost_minor = 0, rf_currency = None, rf_reversibility = Rev_REVERSIBLE, rf_audience = Aud_NONE, rf_external = True,
  rf_notifies = False, rf_blast_radius = 1, rf_scopes = [], rf_dependents = 0, rf_requested_class = None\<rparr>"
  by (simp add: gate_facts_def plan_facts_def gate_args_def descriptor_defs profile_def Let_def max_by_def plain_facts_def no_cost_def
     coalesce_def)

lemma gate_risk_eq: "ra_effective gate_risk = R2 \<and> \<not> ra_requires_approval gate_risk \<and> \<not> ra_requires_step_up gate_risk \<and>
   ra_classes gate_risk = [R2]"
proof -
  have gov: "governance_scopes [] = []" by (simp add: governance_scopes_def)
  have "classes_of (class_rules gate_facts) = {R2}"
    by (simp add: class_rules_def base_rules_def requested_rule_def unclassified_rule_def gate_facts_eq Let_def gov bulk_mutation_threshold_def)
  then show ?thesis
    by (simp add: gate_risk_def assess_def Let_def all_risk_classes_def)
qed

definition gate_principal :: principal where
  "gate_principal = \<lparr>pr_user = ''u'', pr_tenant = ''t'', pr_role = ''operator'', pr_projects = [''p'']\<rparr>"

definition gate_proposal :: proposal where
  "gate_proposal = \<lparr>pp_capability = ''sandbox.cms.create_draft'', pp_project = ''p'', pp_environment = ''SANDBOX'', pp_args = JNull, pp_deps = [],
     pp_class = None, pp_data_class = None, pp_ttl = 3600\<rparr>"

definition gate_db :: "rel_state gateway_db" where
  "gate_db = \<lparr>w_reads = 0, w_uuids = 0, ad_tenants = [], ad_projects = [], ad_actions = [], ad_transitions = [],
     ad_policies = [], ad_reservations = [], ad_freezes = [],
     ad_autonomy = [\<lparr>au_project_id = ''p'', au_tenant_id = ''t'', au_level = Auto_PREPARE, au_by = ''o'', au_at = ''2''\<rparr>],
     ad_effects = [], ad_clients = [], ad_links = [],
     pd_approvals = [], pd_runs = [], pf_permits = [], pf_executions = [], pf_observations = [], pf_failures = [], pf_completions = [],
     gd_workspaces = [\<lparr>wk_project = ''p'', wk_tenant = ''t''\<rparr>], gd_artifacts = [], gd_trust = empty_rel_state\<rparr>"

definition gate_plan :: plan where
  "gate_plan = make_plan gate_config gate_principal gate_proposal (adapter_descriptor gate_config Cms_Draft) Cms_Draft Env_SANDBOX
     gate_args [] None None Auto_PREPARE 0"

lemma gate_plan_action: "plan_action gate_config gate_principal gate_proposal 0 gate_db = (Inr gate_plan, gate_db)"
proof -
  have p: "pr_tenant gate_principal = ''t''" "pr_projects gate_principal = [''p'']" by (simp_all add: gate_principal_def)
  have role: "principal_role gate_principal = ''operator''" by code_simp
  have d: "ds_owner (adapter_descriptor gate_config Cms_Draft) = gateway_owner" "ds_id (adapter_descriptor gate_config Cms_Draft) = adapter_id Cms_Draft"
     "Env_SANDBOX \<in> set (ds_environments (adapter_descriptor gate_config Cms_Draft))"
    by (simp_all add: descriptor_defs)
  have clean: "assert_no_secrets T JNull = Inr ()" for T by (simp add: assert_no_secrets_def)
  have env: "environment_of ''SANDBOX'' = Some Env_SANDBOX" by code_simp
  have ga: "get_adapter ''sandbox.cms.create_draft'' = Some Cms_Draft" using get_adapter_id [of Cms_Draft] by simp
  show ?thesis
    unfolding plan_action_def
    by (simp add: prog_defs some_or_empty_def gate_catalog gate_validate gate_proposal_def env authorize_scope_def get_project_workspace_def gate_db_def
       can_access_project_def client_must_be_active_def client_for_project_def d clean adapter_for_def ga
       resolve_dependencies_def optional_enum_def autonomy_def get_autonomy_def gate_plan_def p role read_only_roles_def del: adapter_descriptor.simps)
qed

lemma gate_plan_simps: "pl_env gate_plan = Env_SANDBOX" "pl_args gate_plan = gate_args" "pl_blockers gate_plan = []"
   "pl_subjects gate_plan = []" "pl_deps gate_plan = []" "pl_risk gate_plan = gate_risk" "pl_adapter gate_plan = Cms_Draft" 
   "pl_autonomy gate_plan = Auto_PREPARE"
   "pl_descriptor gate_plan = adapter_descriptor gate_config Cms_Draft"
   "pl_flags gate_plan = []" "pl_dep_refs gate_plan = []" "pl_expires gate_plan = ''1970-01-01T01:00:00.000000Z''"
proof -
  have risk: "assess (config_hash gate_config) gate_facts = gate_risk" by (simp add: gate_risk_def gate_config_def sample_config_def sample_env_def)
  have i: "iso (0 + seconds (clamp_ttl 3600)) = ''1970-01-01T01:00:00.000000Z''" by code_simp
  show "pl_env gate_plan = Env_SANDBOX" "pl_args gate_plan = gate_args" "pl_blockers gate_plan = []"
   "pl_subjects gate_plan = []" "pl_deps gate_plan = []" "pl_risk gate_plan = gate_risk" "pl_adapter gate_plan = Cms_Draft" 
   "pl_autonomy gate_plan = Auto_PREPARE"
   "pl_descriptor gate_plan = adapter_descriptor gate_config Cms_Draft"
   "pl_flags gate_plan = []" "pl_dep_refs gate_plan = []" "pl_expires gate_plan = ''1970-01-01T01:00:00.000000Z''"
    unfolding gate_plan_def make_plan_def Let_def gate_facts_def [symmetric] risk
    using gate_risk_eq i
    by (simp_all add: plan_blockers_def note_if_def gate_proposal_def injection_flags_def del: adapter_descriptor.simps)
qed

text \<open>Runs on a store that holds one action, as rewrites.\<close>

definition move_entry :: "env \<Rightarrow> action_row \<Rightarrow> action_state \<Rightarrow> string \<Rightarrow> string \<Rightarrow> json \<Rightarrow> int \<Rightarrow> transition_row list \<Rightarrow> transition_row" where
  "move_entry V row dst actor reason evidence now ts =
    (let es = entries_of (ac_id row) ts;
         t = \<lparr>tr_action = ac_id row, tr_tenant = ac_tenant row, tr_from = Some (ac_state row), tr_to = dst, tr_actor = actor, tr_reason = reason,
             tr_evidence = evidence, tr_prev = (if es = [] then None else Some (tr_hash (last es))), tr_hash = [], tr_created = iso now\<rparr>
     in t\<lparr>tr_hash := chash (env_hash V) (transition_body t)\<rparr>)"

lemma move_alone:
  fixes db :: "'s gateway_db"
  assumes "ad_actions db = [row]" "plain evidence" "list_all mutable_column ups"
  shows "move V row dst actor reason evidence ups now db =
    (Inr (moved ups dst (iso now) row), db\<lparr>ad_actions := [moved ups dst (iso now) row],
       ad_transitions := ad_transitions db @ [move_entry V row dst actor reason evidence now (ad_transitions db)]\<rparr>)"
  using assms
  by (cases db) (simp add: move_def transition_def cas_write_def atomic_db_def get_request_def append_transition_def prog_defs list_all_iff
      count_rows_def update_rows_def row_by_def Let_def move_entry_def moved_def)

lemma insert_alone:
  fixes db :: "'s gateway_db"
  assumes "ad_actions db = []" "ad_projects db = []" "ac_tenant row \<noteq> []" "ac_project row \<noteq> []" "plain evidence"
  shows "\<exists>ts. insert_request V row actor reason evidence db = (Inr (row, True), db\<lparr>ad_tenants := (if ac_tenant row \<in> set (ad_tenants db)
     then ad_tenants db else ad_tenants db @ [ac_tenant row]), ad_projects := [\<lparr>pj_id = ac_project row, pj_tenant = ac_tenant row\<rparr>],
     ad_actions := [row], ad_transitions := ts\<rparr>)"
  using assms
  by (cases db) (simp add: insert_request_def ensure_tenant_project_def register_tenant_def find_by_key_def atomic_db_def get_request_def
      append_transition_def prog_defs row_by_def Let_def)

lemma anchor_alone:
  fixes db :: "'s gateway_db"
  assumes "pd_runs db = []" "ad_projects db = [\<lparr>pj_id = project, pj_tenant = tenant\<rparr>]" "tenant \<in> set (ad_tenants db)" "tenant \<noteq> []" "project \<noteq> []"
  shows "\<exists>k rs. open_anchor_run V p aid tenant project b db =
    (Inr (approval_run_id (env_hash V) aid), db\<lparr>w_reads := k, pd_runs := rs\<rparr>) \<and> map rn_id rs = [approval_run_id (env_hash V) aid]"
  using assms
  by (cases db) (simp add: open_anchor_run_def create_run_record_def get_run_record_def ensure_tenant_project_def register_tenant_def atomic_db_def
      utc_now_def prog_defs row_by_def Let_def)

definition trust_fits :: "env \<Rightarrow> string \<Rightarrow> string \<Rightarrow> string list \<Rightarrow> rel_state \<Rightarrow> bool" where
  "trust_fits V tenant project ids T = (
     list_all (\<lambda>b. bi_tenant b = tenant \<and> bi_project b = project) (rs_bindings T) \<and> length (rs_bindings T) \<le> 1 \<and>
     map pd_id (rs_policies T) = ids \<and> (rs_audits T \<noteq> [] \<longrightarrow> au_seq (last (rs_audits T)) = int (length (rs_audits T))))"

lemma trust_fits_empty [simp]: "trust_fits V tenant project [] empty_rel_state"
  by (simp add: trust_fits_def empty_rel_state_def)

lemma row_by_absent: "k \<notin> set (map key rows) \<Longrightarrow> row_by key k rows = None"
  by (induction rows) (auto simp: row_by_def)

lemma trust_runs:
  fixes db :: "rel_state gateway_db"
  assumes "trust_fits V (ac_tenant row) (ac_project row) ids (gd_trust db)"
    and "''action-'' @ ac_id row @ ''-'' @ stage @ ''-v'' @ str_int (ac_version row) \<notin> set ids"
  shows "\<exists>k T. trust_decision V mem_store row stage eff req evs db = (Inr (), db\<lparr>w_reads := k, gd_trust := T\<rparr>) \<and>
    trust_fits V (ac_tenant row) (ac_project row) (ids @ [''action-'' @ ac_id row @ ''-'' @ stage @ ''-v'' @ str_int (ac_version row)]) T"
proof -
  let ?T = "gd_trust db"
  let ?did = "''action-'' @ ac_id row @ ''-'' @ stage @ ''-v'' @ str_int (ac_version row)"
  have known: "row_by bi_project (ac_project row) (rs_bindings ?T) = None \<and> rs_bindings ?T = [] \<or>
     (\<exists>b. row_by bi_project (ac_project row) (rs_bindings ?T) = Some b \<and> rs_bindings ?T = [b] \<and> bi_tenant b = ac_tenant row \<and> bi_project b = ac_project row)"
    using assms(1) by (cases "rs_bindings ?T") (auto simp: trust_fits_def row_by_def)
  have none: "row_by pd_id ?did (rs_policies ?T) = None"
    using assms by (intro row_by_absent) (simp add: trust_fits_def)
  have new: "upsert pd_id q (rs_policies ?T) = rs_policies ?T @ [q]" if "pd_id q = ?did" for q
    using none that by (simp add: upsert_def)
  have scope: "plain (scope_payload tenant project)" for tenant project by (simp add: scope_payload_def)
  have ids: "map pd_id (rs_policies ?T) = ids" and seq: "rs_audits ?T \<noteq> [] \<longrightarrow> au_seq (last (rs_audits ?T)) = int (length (rs_audits ?T))"
    using assms(1) by (simp_all add: trust_fits_def)
  have hash: "canonical_hash H (JDict [(''binding_hash'', JStr a), (''state'', JStr b), (''risk_hash'', JStr c)]) =
     Inr (chash H (JDict [(''binding_hash'', JStr a), (''state'', JStr b), (''risk_hash'', JStr c)]))" for H a b c
    by (rule chash_plain) simp
  note steps = trust_decision_def on_trust_def bind_project_def record_policy_decision_def assert_scope_def scope_check_def hash_any_def
    the_state_def transact_def on_store_def next_audit_def audit_event_def utc_now_def mem_defs prog_defs Let_def
  obtain T where T: "gd_trust db = T" by simp
  from known show ?thesis
  proof (elim disjE conjE exE)
    assume "rs_bindings ?T = []"
    then show ?thesis
      using none new ids seq
      by (cases db; cases "gd_trust db")
         (simp add: steps hash trust_fits_def; simp add: upsert_def [of bi_project] row_by_def [of bi_project])
  next
    fix b
    assume "rs_bindings ?T = [b]" "bi_tenant b = ac_tenant row" "bi_project b = ac_project row"
    then show ?thesis
      using none new ids seq
      by (cases db; cases "gd_trust db")
         (simp add: steps hash trust_fits_def; simp add: upsert_def [of bi_project] row_by_def [of bi_project] update_rows_def)
  qed
qed

definition gate_row :: action_row where
  "gate_row = proposed_row gate_config gate_principal gate_proposal gate_plan ''key-0001'' None
     (action_id_of gate_config ''t'' ''key-0001'') (request_hash_of gate_config gate_proposal gate_plan) (chash (config_hash gate_config) JNull) 0"

lemma gate_row_simps [simp]: "ac_tenant gate_row = ''t''" "ac_project gate_row = ''p''" "ac_state gate_row = A_PROPOSED" "ac_version gate_row = 1"
  "ac_id gate_row = action_id_of gate_config ''t'' ''key-0001''" "ac_environment gate_row = Env_SANDBOX"
  by (simp_all add: gate_row_def proposed_row_def Let_def gate_principal_def gate_proposal_def gate_plan_simps)

lemma gate_db_simps [simp]: "ad_actions gate_db = []" "ad_projects gate_db = []" "ad_tenants gate_db = []" "pd_runs gate_db = []"
  "gd_trust gate_db = empty_rel_state" "ad_effects gate_db = []" "w_reads gate_db = 0" "ad_clients gate_db = []" "ad_links gate_db = []"
  "ad_freezes gate_db = []" "ad_transitions gate_db = []" "gd_artifacts gate_db = []"
  by (simp_all add: gate_db_def)

definition gate_authorized :: action_row where
  "gate_authorized = moved [U_run (Some (approval_run_id (config_hash gate_config) (ac_id gate_row)))] A_AUTHORIZED (iso 0)
     (moved [] A_PREPARED (iso 0) (moved [] A_VALIDATED (iso 0) gate_row))"

lemma gate_authorized_simps [simp]: "ac_id gate_authorized = ac_id gate_row" "ac_tenant gate_authorized = ''t''" "ac_project gate_authorized = ''p''"
  "ac_version gate_authorized = 4" "ac_state gate_authorized = A_AUTHORIZED" "ac_environment gate_authorized = Env_SANDBOX"
  by (simp_all add: gate_authorized_def)

definition proposed_db :: "transition_row list \<Rightarrow> run_row list \<Rightarrow> nat \<Rightarrow> rel_state \<Rightarrow> rel_state gateway_db" where
  "proposed_db ts rs k T = gate_db\<lparr>ad_tenants := [''t''], ad_projects := [\<lparr>pj_id = ''p'', pj_tenant = ''t''\<rparr>],
     ad_actions := [gate_authorized], ad_transitions := ts, pd_runs := rs, w_reads := k, gd_trust := T\<rparr>"

lemma propose_runs:
  obtains ts rs k T where "propose gate_config mem_store gate_principal gate_proposal ''key-0001'' None (Some 0) gate_db =
      (Inr (gate_authorized, True), proposed_db ts rs k T)"
    and "trust_fits (cf_env gate_config) ''t'' ''p'' [''action-'' @ ac_id gate_row @ ''-propose-v4''] T"
    and "map rn_id rs = [approval_run_id (config_hash gate_config) (ac_id gate_row)]"
proof -
  let ?V = "cf_env gate_config"
  let ?p = gate_principal
  have args: "canonical_hash (config_hash gate_config) JNull = Inr (chash (config_hash gate_config) JNull)"
    by (rule chash_plain) simp
  have p: "pr_tenant gate_principal = ''t''" "pp_project gate_proposal = ''p''" "pp_args gate_proposal = JNull"
    by (simp_all add: gate_principal_def gate_proposal_def)
  obtain ts where ins: "insert_request ?V gate_row (pr_user ?p) ''proposed'' (JDict [(''binding_hash'', JStr (pl_binding_hash gate_plan)),
                (''risk'', JStr (risk_class_value (ra_effective (pl_risk gate_plan))))]) gate_db =
      (Inr (gate_row, True), gate_db\<lparr>ad_tenants := [''t''], ad_projects := [\<lparr>pj_id = ''p'', pj_tenant = ''t''\<rparr>],
       ad_actions := [gate_row], ad_transitions := ts\<rparr>)" (is "_ = (_, ?db1)")
    using insert_alone [of gate_db gate_row "JDict [(''binding_hash'', JStr (pl_binding_hash gate_plan)),
                (''risk'', JStr (risk_class_value (ra_effective (pl_risk gate_plan))))]" ?V "pr_user ?p" "''proposed''"] by auto
  have key: "find_by_key ''t'' ''key-0001'' gate_db = (Inr None, gate_db)" "client_for_project ''p'' gate_db = (Inr None, gate_db)"
    by (simp_all add: find_by_key_def client_for_project_def gets_def row_by_def)
  let ?row1 = "moved [] A_VALIDATED (iso 0) gate_row" and ?row2 = "moved [] A_PREPARED (iso 0) (moved [] A_VALIDATED (iso 0) gate_row)"
  have plain: "plain (str_list (pl_flags gate_plan))" "plain (pair_list (pl_deps gate_plan))"
    by (simp_all add: gate_plan_simps str_list_def pair_list_def)
  obtain ts1 where m1: "move ?V gate_row A_VALIDATED (pr_user ?p) ''args, scope, secrets and dependencies validated''
             (JDict [(''injection_flags'', str_list (pl_flags gate_plan)), (''dependencies'', pair_list (pl_deps gate_plan))]) [] 0 ?db1 = 
      (Inr ?row1, ?db1\<lparr>ad_actions := [?row1], ad_transitions := ts1\<rparr>)" (is "_ = (_, ?db2)")
    using move_alone [of ?db1 gate_row] plain by auto
  obtain ts2 where m2: "move ?V ?row1 A_PREPARED (pr_user ?p) ''effect plan prepared''
             (JDict [(''plan'', JStr (effect_plan (pl_adapter gate_plan) (row_context (config_hash gate_config) ?row1))),
                     (''expected'', JDict [(''state'', JStr (expected_state (pl_adapter gate_plan))),
                        (''payload_hash'', JStr (ac_payload_hash ?row1))])]) [] 0 ?db2 = 
      (Inr ?row2, ?db2\<lparr>ad_actions := [?row2], ad_transitions := ts2\<rparr>)" (is "_ = (_, ?db3)")
    using move_alone [of ?db2 ?row1] by auto
  have prefix: "propose gate_config mem_store gate_principal gate_proposal ''key-0001'' None (Some 0) gate_db =
     bnd (settle_proposal gate_config mem_store ?p gate_plan ?row2 0) (\<lambda>r. ret (r, True)) ?db3"
    using m2
    by (simp add: propose_def Let_def moment_of_def guard_def ret_def gate_plan_action key args p or_default_def some_or_empty_def
      on_conflict_def mapE_def of_sum_def gate_row_def [symmetric] ins m1 bnd_def)
  obtain k rs where run: "open_anchor_run ?V ?p (ac_id ?row2) ''t'' ''p'' False ?db3 =
      (Inr (approval_run_id (config_hash gate_config) (ac_id gate_row)), ?db3\<lparr>w_reads := k, pd_runs := rs\<rparr>)" (is "_ = (Inr ?run, ?db4)")
    and rs: "map rn_id rs = [approval_run_id (config_hash gate_config) (ac_id gate_row)]"
    using anchor_alone [of ?db3 "''p''" "''t''" ?V ?p "ac_id ?row2" False] by auto
  obtain ts3 where m3: "move ?V ?row2 A_AUTHORIZED (pr_user ?p) (''within autonomy '' @ autonomy_level_value (pl_autonomy gate_plan) @ '' (<= '' @
              risk_class_value (auto_ceiling (pl_autonomy gate_plan)) @ ''); no approval required'') (JDict []) [U_run (Some ?run)] 0 ?db4 =
       (Inr gate_authorized, ?db4\<lparr>ad_actions := [gate_authorized], ad_transitions := ts3\<rparr>)" (is "_ = (_, ?db5)")
    using move_alone [of ?db4 ?row2 "JDict []" "[U_run (Some ?run)]"] by (auto simp: gate_authorized_def)
  have v4: "str_int 4 = ''4''" by code_simp
  obtain k' T where trust: "trust_decision ?V mem_store gate_authorized ''propose'' Pol_ALLOW [] [] ?db5 = (Inr (), ?db5\<lparr>w_reads := k', gd_trust := T\<rparr>)"
    and T: "trust_fits ?V ''t'' ''p'' [''action-'' @ ac_id gate_row @ ''-propose-v4''] T"
    using trust_runs [of ?V gate_authorized "[]" ?db5 "''propose''" Pol_ALLOW "[]" "[]"] by (auto simp: v4)
  have "settle_proposal gate_config mem_store ?p gate_plan ?row2 0 ?db3 = (Inr gate_authorized, ?db5\<lparr>w_reads := k', gd_trust := T\<rparr>)"
    using run m3 trust p by (simp add: settle_proposal_def gate_plan_simps bnd_def ret_def Let_def)
  then show thesis
    using prefix T rs by (intro that [of ts3 rs k' T]) (simp_all add: bnd_def ret_def proposed_db_def)
qed

text \<open>The dispatch of the proposed action reaches the provider.\<close>

lemma gate_plan_binding: "bd_subjects (pl_binding gate_plan) = pl_subjects gate_plan"
  "ab_capability_ref (pl_binding gate_plan) = descriptor_ref (adapter_descriptor gate_config Cms_Draft)"
  "ab_descriptor_hash (pl_binding gate_plan) = descriptor_hash (config_hash gate_config) (adapter_descriptor gate_config Cms_Draft)"
  by (simp_all add: gate_plan_def make_plan_def Let_def del: adapter_descriptor.simps)

lemma gate_bound: "ac_capability gate_authorized = ''sandbox.cms.create_draft''" "ac_dependencies gate_authorized = []"
  "bd_subjects (ac_binding gate_authorized) = []" "ac_class gate_authorized = R2" "ac_policy_version gate_authorized = risk_policy_version"
  "rd_assessment (ac_risk gate_authorized) = gate_risk" "ac_args gate_authorized = payload_json gate_args"
  "ac_expires gate_authorized = ''1970-01-01T01:00:00.000000Z''"
  "ab_capability_ref (ac_binding gate_authorized) = descriptor_ref (adapter_descriptor gate_config Cms_Draft)"
  "ab_descriptor_hash (ac_binding gate_authorized) = descriptor_hash (config_hash gate_config) (adapter_descriptor gate_config Cms_Draft)"
  "ac_run gate_authorized = Some (approval_run_id (config_hash gate_config) (ac_id gate_row))" "ac_attempts gate_authorized = 0"
  by (simp_all add: gate_authorized_def gate_row_def proposed_row_def Let_def gate_plan_simps gate_plan_binding gate_risk_eq moved_def set_columns_def
      del: adapter_descriptor.simps)

lemma gate_authority: "pr_tenant gate_principal = ''t''" "can_access_project gate_principal ''p''"
  "principal_role gate_principal \<notin> set read_only_roles" 
proof -
  have "principal_role gate_principal = ''operator''" by code_simp
  then show "pr_tenant gate_principal = ''t''" "can_access_project gate_principal ''p''" "principal_role gate_principal \<notin> set read_only_roles" 
    by (simp_all add: gate_principal_def can_access_project_def read_only_roles_def)
qed

lemma gate_scope: "authorize_scope gate_principal ''p'' True (proposed_db ts rs k T) = (Inr (), proposed_db ts rs k T)"
  using gate_authority by (simp add: authorize_scope_def get_project_workspace_def prog_defs row_by_def proposed_db_def gate_db_def)

lemma dispatch_row_runs: "dispatch_row gate_config gate_principal (ac_id gate_row) 0 (proposed_db ts rs k T) = (Inr gate_authorized, proposed_db ts rs k T)"
proof -
  have "get_request (ac_id gate_row) (proposed_db ts rs k T) = (Inr (Some gate_authorized), proposed_db ts rs k T)"
    by (simp add: get_request_def gets_def row_by_def proposed_db_def)
  then show ?thesis
    using gate_authority gate_scope by (simp add: dispatch_row_def bnd_def visible_def ret_def guard_def)
qed

lemma preflight_runs: "preflight gate_config gate_authorized 0 (proposed_db ts rs k T) = (Inr ([], []), proposed_db ts rs k T)"
proof -
  let ?db = "proposed_db ts rs k T"
  have thawed: "\<not> system_frozen gate_config" by code_simp
  have frozen: "freeze_reasons gate_config ''t'' ''p'' ?db = (Inr [], ?db)"
    by (simp add: freeze_reasons_def active_freezes_def prog_defs proposed_db_def note_if_def thawed)
  have capability: "capability_block gate_config gate_authorized = Inr []"
    by (simp add: capability_block_def gate_bound gate_catalog note_if_def del: adapter_descriptor.simps)
  have deps: "current_dependencies ''p'' [] ?db = (Inr [], ?db)"
    by (simp add: current_dependencies_def gets_def current_heads_def)
  have level: "autonomy ''p'' ?db = (Inr Auto_PREPARE, ?db)"
    by (simp add: autonomy_def get_autonomy_def prog_defs row_by_def proposed_db_def gate_db_def)
  have time: "\<not> past 0 ''1970-01-01T01:00:00.000000Z''" by (simp add: past_def iso_epoch)
  show ?thesis
    using gate_risk_eq
    by (simp add: preflight_def bnd_def frozen capability deps level time of_sum_def ret_def gate_bound note_if_def autonomy_hold_def)
qed

definition gate_leased :: action_row where
  "gate_leased = moved [U_lease_owner (Some ''api:u''), U_lease_expires (Some (iso (seconds (ds_timeout (adapter_descriptor gate_config Cms_Draft) * 2 + lease_slack_seconds)))),
     U_attempts 1] A_DISPATCHING (iso 0) gate_authorized"

lemma gate_leased_simps: "ac_id gate_leased = ac_id gate_row" "ac_tenant gate_leased = ''t''" "ac_project gate_leased = ''p''"
  "ac_version gate_leased = 5" "ac_args gate_leased = payload_json gate_args" "ac_environment gate_leased = Env_SANDBOX"
  "ac_run gate_leased = Some (approval_run_id (config_hash gate_config) (ac_id gate_row))" "ac_attempts gate_leased = 1"
  by (simp_all add: gate_leased_def) (simp_all add: moved_def set_columns_def gate_bound)

lemma dispatch_runs:
  assumes "trust_fits (cf_env gate_config) ''t'' ''p'' [''action-'' @ ac_id gate_row @ ''-propose-v4''] T"
  shows "ad_effects (snd (dispatch gate_config mem_store gate_principal (ac_id gate_row) None (Some 0) (proposed_db ts rs k T))) \<noteq> []"
proof -
  let ?db = "proposed_db ts rs k T"
  let ?V = "cf_env gate_config"
  let ?d = "adapter_descriptor gate_config Cms_Draft"
  have adapter: "adapter_for ?d = Inr Cms_Draft"
    using get_adapter_id [of Cms_Draft] by (simp add: adapter_for_def descriptor_defs)
  note leased = gate_leased_simps
  have "ad_actions ?db = [gate_authorized]" by (simp add: proposed_db_def)
  then have "\<exists>ts'. take_lease gate_config gate_principal ?d gate_authorized ''api:u'' 0 ?db = (Inr gate_leased, ?db\<lparr>ad_actions := [gate_leased], ad_transitions := ts'\<rparr>)"
    by (auto simp: take_lease_def on_conflict_def mapE_def move_alone gate_bound gate_leased_def simp del: adapter_descriptor.simps)
  then obtain ts' where lease: "take_lease gate_config gate_principal ?d gate_authorized ''api:u'' 0 ?db =
      (Inr gate_leased, ?db\<lparr>ad_actions := [gate_leased], ad_transitions := ts'\<rparr>)" ..
  let ?leased = "?db\<lparr>ad_actions := [gate_leased], ad_transitions := ts'\<rparr>"
  have v5: "str_int 5 = ''5''" by code_simp
  obtain k' T' where trust: "trust_decision ?V mem_store gate_leased ''dispatch'' Pol_ALLOW [] [''lease:api:u''] ?leased =
      (Inr (), ?leased\<lparr>w_reads := k', gd_trust := T'\<rparr>)"
    using trust_runs [of ?V gate_leased "[''action-'' @ ac_id gate_row @ ''-propose-v4'']" ?leased "''dispatch''" Pol_ALLOW "[]" "[''lease:api:u'']"] assms leased
    by (auto simp: v5 proposed_db_def)
  let ?trusted = "?leased\<lparr>w_reads := k', gd_trust := T'\<rparr>"
  obtain ps where permit: "record_permit gate_leased 0 ?trusted = (Inr (), ?trusted\<lparr>pf_permits := ps\<rparr>)"
    using leased by (cases ?trusted) (simp add: record_permit_def put_dispatch_permit_def with_run_def prog_defs atomic_db_def)
  let ?ready = "?trusted\<lparr>pf_permits := ps\<rparr>"
  have user: "pr_user gate_principal = ''u''" by (simp add: gate_principal_def)
  have fault: "cf_fault gate_config a = None" for a by (simp add: gate_config_def sample_config_def)
  have "\<exists>r v. execute gate_config (row_context (config_hash gate_config) gate_leased) gate_args (w_reads_update Suc ?ready) = (Inr r, v) \<and> ad_effects v \<noteq> []"
    by (simp add: gate_args_def base_execute_def row_context_def leased require_sandbox_def sandbox_put_def fault atomic_db_def utc_now_def now_iso_def uuid4_hex_def prog_defs Let_def
      row_by_def proposed_db_def)
  then obtain r v where run: "execute gate_config (row_context (config_hash gate_config) gate_leased) gate_args (w_reads_update Suc ?ready) = (Inr r, v)"
    and effect: "ad_effects v \<noteq> []" by blast
  have kept: "ad_effects (snd (after_execute gate_config mem_store gate_leased Cms_Draft (pr_user gate_principal) 0 started out v)) = ad_effects v" for started out
    by (intro frame_state [where f = ad_effects] aside_after_execute aside_parts(1))
  have "execute_and_observe gate_config mem_store gate_leased Cms_Draft (pr_user gate_principal) 0 ?ready =
      after_execute gate_config mem_store gate_leased Cms_Draft (pr_user gate_principal) 0 (env_clock ?V (w_reads ?ready)) (Inr r) v"
    using run by (simp add: execute_and_observe_def args_of_def leased gate_validate of_sum_def utc_now_def attempt_def bnd_def gets_def modify_def ret_def)
  moreover have "dispatch gate_config mem_store gate_principal (ac_id gate_row) None (Some 0) ?db =
      execute_and_observe gate_config mem_store gate_leased Cms_Draft (pr_user gate_principal) 0 ?ready"
    using lease trust permit dispatch_row_runs [of ts rs k T]
    by (simp add: dispatch_def moment_of_def bnd_def preflight_runs ret_def gate_bound gate_catalog adapter of_sum_def
     dispatch_cleared_def reserve_for_def gate_risk_eq some_or_empty_def or_default_def user Let_def del: adapter_descriptor.simps)
  ultimately show ?thesis
    using kept effect by simp
qed

text \<open>The machine at its first two steps: an action proposed, and dispatched.\<close>

definition gate_proposed :: "rel_state gateway_db" where
  "gate_proposed = snd (propose gate_config mem_store gate_principal gate_proposal ''key-0001'' None (Some 0) gate_db)"

definition gate_dispatched :: "rel_state gateway_db" where
  "gate_dispatched = snd (dispatch gate_config mem_store gate_principal (ac_id gate_row) None (Some 0) gate_proposed)"

lemma gate_reach: "gateway_reach gate_config mem_store gate_proposed" "gateway_reach gate_config mem_store gate_dispatched"
proof -
  have start: "gateway_reach gate_config mem_store gate_db" by (rule R_start) simp_all
  show p: "gateway_reach gate_config mem_store gate_proposed"
    unfolding gate_proposed_def by (rule R_step [OF start G_propose])
  show "gateway_reach gate_config mem_store gate_dispatched"
    unfolding gate_dispatched_def by (rule R_step [OF p G_dispatch])
qed

lemma gate_effect: "ad_effects gate_dispatched \<noteq> ad_effects gate_proposed" "ad_actions gate_proposed = [gate_authorized]"
proof -
  obtain ts rs k T where run: "gate_proposed = proposed_db ts rs k T" and T: "trust_fits (cf_env gate_config) ''t'' ''p'' [''action-'' @ ac_id gate_row @ ''-propose-v4''] T"
    using propose_runs unfolding gate_proposed_def by (metis snd_conv)
  show "ad_effects gate_dispatched \<noteq> ad_effects gate_proposed"
    using dispatch_runs [OF T, of ts rs k] unfolding gate_dispatched_def run by (simp add: proposed_db_def)
  show "ad_actions gate_proposed = [gate_authorized]" by (simp add: run proposed_db_def)
qed

theorem gateway_follows_fsm_witness:
  "ad_actions gate_proposed = [gate_authorized] \<and> (\<exists>es h. list_transitions (ac_id gate_authorized) gate_proposed = (Inr es, gate_proposed) \<and>
    verify_transition_chain (cf_env gate_config) (ac_id gate_authorized) gate_proposed = (Inr (Intact 4 h), gate_proposed) \<and>
    length es = 4 \<and> tr_to (last es) = A_AUTHORIZED)"
  using gateway_follows_fsm [OF gate_reach(1)] gate_effect(2) by auto

theorem gateway_invariant_witness:
  "ad_actions gate_proposed = [gate_authorized] \<and> ac_attempts gate_authorized < max_attempts \<and> ac_lease_owner gate_authorized = None \<and>
   ac_binding_hash gate_authorized = binding_hash_of (config_hash gate_config) (ac_binding gate_authorized)"
  using gateway_invariant [OF gate_reach(1)] gate_effect(2) by (auto simp: pre_dispatch_def leased_states_def)

theorem dispatch_authorized_witness:
  "ad_effects gate_dispatched \<noteq> ad_effects gate_proposed \<and>
   (\<exists>row. row_by ac_id (ac_id gate_row) (ad_actions gate_proposed) = Some row \<and> cleared gate_config row 0 gate_proposed \<and>
      ac_tenant row = pr_tenant gate_principal)"
proof -
  have e: "ad_effects (snd (dispatch gate_config mem_store gate_principal (ac_id gate_row) None (Some 0) gate_proposed)) \<noteq> ad_effects gate_proposed"
    using gate_effect(1) unfolding gate_dispatched_def .
  show ?thesis using dispatch_authorized [OF gate_reach(1) e] gate_effect(1) by (auto simp: moment_of_def ret_def)
qed

theorem intent_before_effect_witness:
  "ad_effects gate_dispatched \<noteq> ad_effects gate_proposed \<and>
   (\<exists>leased (s :: rel_state gateway_db). ad_effects s = ad_effects gate_proposed \<and>
      row_by ac_id (ac_id leased) (ad_actions s) = Some leased \<and> ac_state leased = A_DISPATCHING)"
proof -
  have e: "ad_effects (snd (dispatch gate_config mem_store gate_principal (ac_id gate_row) None (Some 0) gate_proposed)) \<noteq> ad_effects gate_proposed"
    using gate_effect(1) unfolding gate_dispatched_def .
  show ?thesis using intent_before_effect [OF gate_reach(1) e] gate_effect(1) by blast
qed

end
