(* ===== verification/Durable_Fsm.thy ===== *)
theory Durable_Fsm
  imports Action_Fsm
begin

section \<open>The durable run state machine\<close>

text \<open>
  Models \<^verbatim>\<open>agency/durable/fsm.py\<close>: the states of a durable job, the legal edges with the edge
  to STOPPED that every state with a lease has, and the worklist that computes the states
  reachable from a state. The code iterates over a \<open>frozenset\<close>, in an order Python leaves open:
  \<open>reach_from\<close> takes that order as an argument.
\<close>

datatype run_state =
    Run_DORMANT
  | Run_SCHEDULED
  | Run_LEASED
  | Run_PRECHECK
  | Run_READY
  | Run_RUNNING
  | Run_OBSERVING
  | Run_VERIFYING
  | Run_COMMITTING
  | Run_RECONCILING
  | Run_WAITING_APPROVAL
  | Run_RETRY_PENDING
  | Run_DEGRADED
  | Run_BLOCKED_PROVIDER
  | Run_BLOCKED_AUTHORITY
  | Run_BLOCKED_ENVIRONMENT
  | Run_INCONCLUSIVE
  | Run_DEAD_LETTER
  | Run_PAUSED
  | Run_STOPPED

fun run_state_value :: "run_state \<Rightarrow> string" where
  "run_state_value Run_DORMANT = ''DORMANT''"
| "run_state_value Run_SCHEDULED = ''SCHEDULED''"
| "run_state_value Run_LEASED = ''LEASED''"
| "run_state_value Run_PRECHECK = ''PRECHECK''"
| "run_state_value Run_READY = ''READY''"
| "run_state_value Run_RUNNING = ''RUNNING''"
| "run_state_value Run_OBSERVING = ''OBSERVING''"
| "run_state_value Run_VERIFYING = ''VERIFYING''"
| "run_state_value Run_COMMITTING = ''COMMITTING''"
| "run_state_value Run_RECONCILING = ''RECONCILING''"
| "run_state_value Run_WAITING_APPROVAL = ''WAITING_APPROVAL''"
| "run_state_value Run_RETRY_PENDING = ''RETRY_PENDING''"
| "run_state_value Run_DEGRADED = ''DEGRADED''"
| "run_state_value Run_BLOCKED_PROVIDER = ''BLOCKED_PROVIDER''"
| "run_state_value Run_BLOCKED_AUTHORITY = ''BLOCKED_AUTHORITY''"
| "run_state_value Run_BLOCKED_ENVIRONMENT = ''BLOCKED_ENVIRONMENT''"
| "run_state_value Run_INCONCLUSIVE = ''INCONCLUSIVE''"
| "run_state_value Run_DEAD_LETTER = ''DEAD_LETTER''"
| "run_state_value Run_PAUSED = ''PAUSED''"
| "run_state_value Run_STOPPED = ''STOPPED''"

definition all_run_states :: "run_state list" where
  "all_run_states = [Run_DORMANT, Run_SCHEDULED, Run_LEASED, Run_PRECHECK, Run_READY, Run_RUNNING, Run_OBSERVING, Run_VERIFYING, Run_COMMITTING, Run_RECONCILING,
     Run_WAITING_APPROVAL, Run_RETRY_PENDING, Run_DEGRADED, Run_BLOCKED_PROVIDER, Run_BLOCKED_AUTHORITY, Run_BLOCKED_ENVIRONMENT, Run_INCONCLUSIVE, Run_DEAD_LETTER, Run_PAUSED, Run_STOPPED]"

definition in_flight :: "run_state set" where
  "in_flight = {Run_LEASED, Run_PRECHECK, Run_READY, Run_RUNNING, Run_OBSERVING, Run_VERIFYING, Run_COMMITTING, Run_RECONCILING}"

definition claimable :: "run_state set" where
  "claimable = {Run_SCHEDULED, Run_RETRY_PENDING}"

definition terminal_runs :: "run_state set" where
  "terminal_runs = {Run_STOPPED}"

definition blocked_runs :: "run_state set" where
  "blocked_runs = {Run_BLOCKED_PROVIDER, Run_BLOCKED_AUTHORITY, Run_BLOCKED_ENVIRONMENT}"

fun run_table :: "run_state \<Rightarrow> run_state set" where
  "run_table Run_DORMANT = {Run_SCHEDULED, Run_STOPPED}"
| "run_table Run_SCHEDULED = {Run_LEASED, Run_PAUSED, Run_STOPPED}"
| "run_table Run_LEASED = {Run_PRECHECK, Run_SCHEDULED, Run_RECONCILING}"
| "run_table Run_PRECHECK = {Run_READY, Run_RECONCILING, Run_WAITING_APPROVAL, Run_DORMANT} \<union> blocked_runs"
| "run_table Run_READY = {Run_RUNNING, Run_RECONCILING}"
| "run_table Run_RUNNING = {Run_OBSERVING, Run_RETRY_PENDING, Run_DEGRADED, Run_INCONCLUSIVE, Run_DEAD_LETTER, Run_RECONCILING} \<union> blocked_runs"
| "run_table Run_OBSERVING = {Run_VERIFYING, Run_INCONCLUSIVE, Run_RECONCILING}"
| "run_table Run_VERIFYING = {Run_COMMITTING, Run_RETRY_PENDING, Run_INCONCLUSIVE, Run_DEAD_LETTER, Run_RECONCILING}"
| "run_table Run_COMMITTING = {Run_WAITING_APPROVAL, Run_SCHEDULED, Run_DORMANT, Run_RECONCILING}"
| "run_table Run_RECONCILING = {Run_RECONCILING, Run_READY, Run_OBSERVING, Run_DEAD_LETTER, Run_WAITING_APPROVAL}"
| "run_table Run_WAITING_APPROVAL = {Run_SCHEDULED, Run_DORMANT, Run_STOPPED}"
| "run_table Run_RETRY_PENDING = {Run_LEASED, Run_DEAD_LETTER, Run_PAUSED, Run_STOPPED}"
| "run_table Run_DEGRADED = {Run_SCHEDULED, Run_PAUSED, Run_STOPPED}"
| "run_table Run_BLOCKED_PROVIDER = {Run_SCHEDULED, Run_PAUSED, Run_STOPPED}"
| "run_table Run_BLOCKED_AUTHORITY = {Run_SCHEDULED, Run_PAUSED, Run_STOPPED}"
| "run_table Run_BLOCKED_ENVIRONMENT = {Run_SCHEDULED, Run_PAUSED, Run_STOPPED}"
| "run_table Run_INCONCLUSIVE = {Run_SCHEDULED, Run_DEAD_LETTER, Run_PAUSED, Run_STOPPED}"
| "run_table Run_DEAD_LETTER = {Run_PAUSED, Run_STOPPED}"
| "run_table Run_PAUSED = {Run_SCHEDULED, Run_STOPPED}"
| "run_table Run_STOPPED = {}"

text \<open>The table after the loop that lets an operator stop a job in flight.\<close>

definition run_transitions :: "run_state \<Rightarrow> run_state set" where
  "run_transitions s = run_table s \<union> (if s \<in> in_flight then {Run_STOPPED} else {})"

lemmas run_sets = in_flight_def claimable_def blocked_runs_def

interpretation run_fsm: transition_matrix run_transitions "\<lambda>s. s \<in> terminal_runs"
proof
  show "(s \<in> terminal_runs) = (run_transitions s = {})" for s
    by (cases s) (auto simp: terminal_runs_def run_transitions_def run_sets)
qed

lemma in_all_run_states: "s \<in> set all_run_states"
  by (cases s) (simp_all add: all_run_states_def)

instantiation run_state :: finite
begin

instance
proof
  have "(UNIV :: run_state set) = set all_run_states" using in_all_run_states by auto
  then show "finite (UNIV :: run_state set)" by (metis List.finite_set)
qed

end

subsection \<open>Edges the workers rely on\<close>

lemma claim_edges: "s \<in> claimable \<Longrightarrow> Run_LEASED \<in> run_transitions s" "s \<in> in_flight \<Longrightarrow> Run_RECONCILING \<in> run_transitions s"
  by (cases s; simp add: run_transitions_def run_sets)+

lemma claimable_not_in_flight: "s \<in> claimable \<Longrightarrow> s \<notin> in_flight"
  by (auto simp: run_sets)

text \<open>A lease starts only in LEASED, from a claimable state, or in RECONCILING.\<close>

lemma into_flight: "b \<in> run_transitions a \<Longrightarrow> b \<in> in_flight \<Longrightarrow> a \<notin> in_flight \<Longrightarrow> b = Run_LEASED \<and> a \<in> claimable"
  by (cases a) (auto simp: run_transitions_def run_sets)

subsection \<open>Reachable states\<close>

text \<open>The loop body: the targets of the popped state that were not seen are marked and pushed.\<close>

fun visit :: "'s list \<Rightarrow> 's set \<Rightarrow> 's list \<Rightarrow> 's set \<times> 's list" where
  "visit [] seen stack = (seen, stack)"
| "visit (t # ts) seen stack = (if t \<in> seen then visit ts seen stack else visit ts (insert t seen) (t # stack))"

lemma visit_seen: "fst (visit ts seen stack) = seen \<union> set ts"
  by (induction ts arbitrary: seen stack) auto

lemma visit_stack: "set (snd (visit ts seen stack)) = set stack \<union> (set ts - seen)"
  by (induction ts arbitrary: seen stack) auto

lemma visit_same: "set ts \<subseteq> seen \<Longrightarrow> visit ts seen stack = (seen, stack)"
  by (induction ts) auto

function reach_from :: "('s::finite \<Rightarrow> 's list) \<Rightarrow> 's set \<Rightarrow> 's list \<Rightarrow> 's set" where
  "reach_from order seen [] = seen"
| "reach_from order seen (s # stack) = (let (seen', stack') = visit (order s) seen stack in reach_from order seen' stack')"
  by pat_completeness auto

text \<open>Each round marks a new state or shortens the stack.\<close>

termination
proof (relation "measures [\<lambda>(order, seen, stack). card (- seen), \<lambda>(order, seen, stack). length stack]")
  fix order :: "'s::finite \<Rightarrow> 's list" and seen s stack x seen' stack'
  assume x: "x = visit (order s) seen stack" "(seen', stack') = x"
  show "((order, seen', stack'), order, seen, s # stack)
    \<in> measures [\<lambda>(order, seen, stack). card (- seen), \<lambda>(order, seen, stack). length stack]"
  proof (cases "set (order s) \<subseteq> seen")
    case True
    then show ?thesis using x visit_same [of "order s" seen stack] by simp
  next
    case False
    have "seen' = seen \<union> set (order s)" using x visit_seen [of "order s" seen stack] by (metis fst_conv)
    then have "- seen' \<subset> - seen" using False by blast
    then have "card (- seen') < card (- seen)" by (intro psubset_card_mono) simp_all
    then show ?thesis by simp
  qed
qed simp

definition reachable :: "(run_state \<Rightarrow> run_state list) \<Rightarrow> run_state \<Rightarrow> run_state set" where
  "reachable order start = reach_from order {start} [start]"

lemma reach_from_closed:
  assumes "set stack \<subseteq> seen" and "\<And>a. a \<in> seen \<Longrightarrow> a \<notin> set stack \<Longrightarrow> set (order a) \<subseteq> seen"
  shows "seen \<subseteq> reach_from order seen stack \<and> (\<forall>a \<in> reach_from order seen stack. set (order a) \<subseteq> reach_from order seen stack)"
  using assms
proof (induction order seen stack rule: reach_from.induct)
  case (2 order seen s stack)
  obtain seen' stack' where v: "visit (order s) seen stack = (seen', stack')" by fastforce
  have seen': "seen' = seen \<union> set (order s)" and stack': "set stack' = set stack \<union> (set (order s) - seen)"
    using visit_seen [of "order s" seen stack] visit_stack [of "order s" seen stack] v by simp_all
  have "seen' \<subseteq> reach_from order seen' stack' \<and> (\<forall>a \<in> reach_from order seen' stack'. set (order a) \<subseteq> reach_from order seen' stack')"
    by (rule "2.IH" [OF v [symmetric] refl]) (use 2(2,3) seen' stack' in auto)
  then show ?case using v seen' by auto
qed simp

lemma reach_from_sound:
  assumes "seen \<subseteq> R" and "set stack \<subseteq> R" and "\<And>a. a \<in> R \<Longrightarrow> set (order a) \<subseteq> R"
  shows "reach_from order seen stack \<subseteq> R"
  using assms
proof (induction order seen stack rule: reach_from.induct)
  case (2 order seen s stack)
  obtain seen' stack' where v: "visit (order s) seen stack = (seen', stack')" by fastforce
  have seen': "seen' = seen \<union> set (order s)" and stack': "set stack' = set stack \<union> (set (order s) - seen)"
    using visit_seen [of "order s" seen stack] visit_stack [of "order s" seen stack] v by simp_all
  have "set (order s) \<subseteq> R" using 2(3,4) by simp
  then have "reach_from order seen' stack' \<subseteq> R"
    using 2(2,3) seen' stack' by (intro "2.IH" [OF v [symmetric] refl]) (auto intro: 2(4) [THEN subsetD])
  then show ?case using v by simp
qed simp

text \<open>
  C37. The computation of the reachable states terminates for every iteration order of the transition
  sets, and its result is exactly the states a walk along legal edges can reach.
\<close>

theorem reachable_exact:
  assumes "list_all (\<lambda>s. set (order s) = run_transitions s) all_run_states"
  shows "reachable order start = {s. (start, s) \<in> {(a, b). b \<in> run_transitions a}\<^sup>*}" (is "_ = ?R")
proof (rule antisym)
  have order: "set (order s) = run_transitions s" for s using assms in_all_run_states by (auto simp: list_all_iff)
  show "reachable order start \<subseteq> ?R"
    unfolding reachable_def by (rule reach_from_sound) (auto simp: order intro: rtrancl_into_rtrancl)
  have closed: "{start} \<subseteq> reachable order start" "a \<in> reachable order start \<Longrightarrow> set (order a) \<subseteq> reachable order start" for a
    using reach_from_closed [of "[start]" "{start}" order] by (auto simp: reachable_def)
  show "?R \<subseteq> reachable order start"
  proof
    fix s
    assume "s \<in> ?R"
    then have "(start, s) \<in> {(a, b). b \<in> run_transitions a}\<^sup>*" by simp
    then show "s \<in> reachable order start" using closed order by (induction rule: rtrancl_induct) auto
  qed
qed

definition run_order :: "run_state \<Rightarrow> run_state list" where
  "run_order s = filter (\<lambda>t. t \<in> run_transitions s) all_run_states"

theorem reachable_exact_witness:
  "reachable run_order Run_DORMANT = {s. (Run_DORMANT, s) \<in> {(a, b). b \<in> run_transitions a}\<^sup>*}"
  by (rule reachable_exact) (use in_all_run_states in \<open>auto simp: list_all_iff run_order_def\<close>)

end
