(* ===== verification/Durable_Store.thy ===== *)
theory Durable_Store
  imports Durable_Fsm Action_Store Safety
begin

section \<open>Durable jobs: leases, fences and intents\<close>

text \<open>
  Models \<^verbatim>\<open>persistence/durable_runs.py\<close> and the cancellation of \<^verbatim>\<open>agency/rendering/service.py\<close>
  that writes the same tables. The tables extend the database of the action plane, whose tenant
  registry they use; a JSON column holds its value, and the CHECK constraints of the schema are
  guards. A claim and a transition read in one transaction and write in another: the read and the
  write are separate definitions, so that other workers may run between them. Counting a metric
  never fails and is left out.
\<close>

datatype durable_error =
    StaleFence string
  | IllegalRun string
  | DurableValue string
  | DurableLookup string
  | DurableType string
  | DurableIntegrity
  | DurableTenancy amc_error
  | HandlerRaised string

definition assert_run_transition :: "run_state \<Rightarrow> run_state \<Rightarrow> durable_error + unit" where
  "assert_run_transition a b =
    (if b \<notin> run_transitions a
     then Inl (IllegalRun (run_state_value a @ '' -> '' @ run_state_value b @ '' is not a legal run transition'')) else Inr ())"

subsection \<open>Tables\<close>

record fail_note =
  fn_count :: int
  fn_env :: string
  fn_seen :: string

record durable_job =
  dj_id :: string
  dj_tenant :: string
  dj_project :: string
  dj_kind :: string
  dj_spec :: json
  dj_spec_hash :: string
  dj_requested_by :: string
  dj_state :: run_state
  dj_tick :: int
  dj_version :: int
  dj_owner :: "string option"
  dj_token :: int
  dj_expires :: "string option"
  dj_attempts :: int
  dj_max :: int
  dj_recurrence :: "int option"
  dj_due :: string
  dj_reasons :: "string list"
  dj_fingerprints :: "(string \<times> fail_note) list"
  dj_result :: "(string \<times> json) list"
  dj_created :: string
  dj_updated :: string

record durable_move =
  dt_job :: string
  dt_tenant :: string
  dt_project :: string
  dt_from :: run_state
  dt_to :: run_state
  dt_token :: int
  dt_tick :: int
  dt_reason :: string
  dt_trace :: "string option"
  dt_at :: string

datatype intent_status = Int_INTENT | Int_UNCONFIRMED | Int_COMMITTED | Int_FAILED | Int_ABANDONED

record durable_intent =
  di_key :: string
  di_job :: string
  di_tenant :: string
  di_project :: string
  di_tick :: int
  di_operation :: string
  di_target :: string
  di_input_hash :: string
  di_contract :: string
  di_retry_class :: string
  di_pre_image :: json
  di_status :: intent_status
  di_token :: int
  di_receipt :: json
  di_created :: string
  di_committed :: "string option"

record durable_tick =
  tk_trace :: string
  tk_job :: "string option"
  tk_tenant :: "string option"
  tk_project :: "string option"
  tk_worker :: string
  tk_tick :: "int option"
  tk_outcome :: string
  tk_started :: string
  tk_finished :: string

record durable_db = action_db +
  du_jobs :: "durable_job list"
  du_moves :: "durable_move list"
  du_intents :: "durable_intent list"
  du_ticks :: "durable_tick list"

type_synonym ('x, 'a) durable = "('x durable_db_scheme, durable_error, 'a) prog"

text \<open>The CHECK constraints of \<open>durable_jobs\<close> and \<open>durable_intents\<close>.\<close>

definition job_legal :: "durable_job \<Rightarrow> bool" where
  "job_legal j = (0 \<le> dj_tick j \<and> 1 \<le> dj_version j \<and> 0 \<le> dj_token j \<and> 0 \<le> dj_attempts j \<and> 1 \<le> dj_max j \<and> dj_max j \<le> 3)"

definition retry_classes :: "string list" where
  "retry_classes = [''RETRY_SAFE'', ''COMPENSATABLE'', ''NON_RETRYABLE'']"

subsection \<open>Jobs\<close>

definition get_job :: "string \<Rightarrow> ('x, durable_job option) durable" where
  "get_job jid = gets (\<lambda>db. row_by dj_id jid (du_jobs db))"

text \<open>\<open>row["..."]\<close> on a row that is not there.\<close>

definition present :: "'a option \<Rightarrow> ('x, 'a) durable" where
  "present x = (case x of None \<Rightarrow> raise (DurableType ''NoneType'') | Some a \<Rightarrow> ret a)"

definition log_move :: "durable_job \<Rightarrow> run_state \<Rightarrow> run_state \<Rightarrow> int \<Rightarrow> string \<Rightarrow> string option \<Rightarrow> string \<Rightarrow> ('x, unit) durable" where
  "log_move j src dst token reason trace stamp = modify (du_moves_update (\<lambda>ms. ms @
    [\<lparr>dt_job = dj_id j, dt_tenant = dj_tenant j, dt_project = dj_project j, dt_from = src, dt_to = dst, dt_token = token,
      dt_tick = dj_tick j, dt_reason = reason, dt_trace = trace, dt_at = stamp\<rparr>]))"

definition create_job :: "env \<Rightarrow> string \<Rightarrow> string \<Rightarrow> string \<Rightarrow> json \<Rightarrow> string \<Rightarrow> string \<Rightarrow> int \<Rightarrow> int \<Rightarrow> int option \<Rightarrow> string option
    \<Rightarrow> ('x, durable_job) durable" where
  "create_job V tenant project kind spec spec_hash requested_by due_at max_tries recurrence wanted =
    bnd (if some_or_empty wanted \<noteq> [] then ret (some_or_empty wanted) else bnd (uuid4_hex V) (\<lambda>u. ret (''djob-'' @ u))) (\<lambda>jid.
    bnd (utc_now V) (\<lambda>t. let now = iso t in
    atomic_db (
      bnd (mapE DurableTenancy (ensure_tenant_project tenant project)) (\<lambda>_.
      bnd (get_job jid) (\<lambda>existing.
      case existing of
        Some j \<Rightarrow>
          if dj_spec_hash j \<noteq> spec_hash \<or> dj_tenant j \<noteq> tenant \<or> dj_project j \<noteq> project
          then raise (DurableValue (''job '' @ jid @ '' already exists with a different spec or scope''))
          else ret j
      | None \<Rightarrow>
          let j = \<lparr>dj_id = jid, dj_tenant = tenant, dj_project = project, dj_kind = kind, dj_spec = spec, dj_spec_hash = spec_hash,
                   dj_requested_by = requested_by, dj_state = Run_SCHEDULED, dj_tick = 0, dj_version = 1, dj_owner = None, dj_token = 0,
                   dj_expires = None, dj_attempts = 0, dj_max = max_tries, dj_recurrence = recurrence, dj_due = iso due_at,
                   dj_reasons = [], dj_fingerprints = [], dj_result = [], dj_created = now, dj_updated = now\<rparr> in
          bnd (guard (job_legal j) DurableIntegrity) (\<lambda>_.
          bnd (modify (du_jobs_update (\<lambda>js. js @ [j]))) (\<lambda>_.
          bnd (log_move j Run_DORMANT Run_SCHEDULED 0 ''created'' None now) (\<lambda>_.
          bnd (get_job jid) present))))))))"

subsection \<open>Claiming\<close>

definition expired_by :: "string \<Rightarrow> durable_job \<Rightarrow> bool" where
  "expired_by stamp j = (case dj_expires j of None \<Rightarrow> False | Some e \<Rightarrow> e \<le> stamp)"

definition due_jobs :: "string \<Rightarrow> string option \<Rightarrow> string option \<Rightarrow> durable_job list \<Rightarrow> durable_job list" where
  "due_jobs stamp jid project js = take 5 (sort_key dj_due (sort_key dj_id (filter (\<lambda>j.
     (dj_state j \<in> claimable \<and> dj_due j \<le> stamp \<or> dj_state j \<in> in_flight \<and> expired_by stamp j) \<and>
     (some_or_empty jid \<noteq> [] \<longrightarrow> dj_id j = some_or_empty jid) \<and>
     (some_or_empty project \<noteq> [] \<longrightarrow> dj_project j = some_or_empty project)) js)))"

definition entered_state :: "durable_job \<Rightarrow> run_state" where
  "entered_state j = (if dj_state j \<in> in_flight then Run_RECONCILING else Run_LEASED)"

text \<open>The compare-and-set of a claim: \<open>None\<close> when another worker won.\<close>

definition claim_write :: "string \<Rightarrow> string \<Rightarrow> string \<Rightarrow> durable_job \<Rightarrow> ('x, durable_job option) durable" where
  "claim_write worker stamp expires j = atomic_db (
    let hit = (\<lambda>q. dj_id q = dj_id j \<and> dj_version q = dj_version j) in
    bnd (gets (\<lambda>db. count_rows hit (du_jobs db))) (\<lambda>n.
    bnd (modify (du_jobs_update (update_rows hit (\<lambda>q. q\<lparr>dj_state := entered_state j, dj_owner := Some worker,
           dj_token := dj_token q + 1, dj_expires := Some expires, dj_version := dj_version q + 1, dj_updated := stamp\<rparr>)))) (\<lambda>_.
    if n \<noteq> 1 then ret None
    else bnd (get_job (dj_id j)) (\<lambda>out. bnd (present out) (\<lambda>c.
      bnd (log_move c (dj_state j) (entered_state j) (dj_token c) (''claimed by '' @ worker) None stamp) (\<lambda>_. ret (Some c)))))))"

fun claim_first :: "string \<Rightarrow> string \<Rightarrow> string \<Rightarrow> durable_job list \<Rightarrow> ('x, (durable_job \<times> run_state) option) durable" where
  "claim_first worker stamp expires [] = ret None"
| "claim_first worker stamp expires (j # js) =
    bnd (of_sum (assert_run_transition (dj_state j) (entered_state j))) (\<lambda>_.
    bnd (claim_write worker stamp expires j) (\<lambda>out.
    case out of None \<Rightarrow> claim_first worker stamp expires js | Some c \<Rightarrow> ret (Some (c, entered_state j))))"

definition claim_due_job :: "string \<Rightarrow> int \<Rightarrow> int \<Rightarrow> string option \<Rightarrow> string option \<Rightarrow> ('x, (durable_job \<times> run_state) option) durable" where
  "claim_due_job worker now lease jid project =
    bnd (gets (\<lambda>db. due_jobs (iso now) jid project (du_jobs db))) (\<lambda>js.
    claim_first worker (iso now) (iso (now + seconds lease)) js)"

definition renew_lease :: "string \<Rightarrow> string \<Rightarrow> int \<Rightarrow> int \<Rightarrow> int \<Rightarrow> ('x, durable_job) durable" where
  "renew_lease jid worker token now lease =
    bnd (guard (\<not> (jid = [] \<or> worker = [] \<or> token \<le> 0 \<or> lease \<le> 0))
      (DurableValue ''job_id, worker_id, positive fence and lease_seconds required'')) (\<lambda>_.
    let stamp = iso now; expiry = iso (now + seconds lease) in
    atomic_db (
      bnd (get_job jid) (\<lambda>job.
      case job of
        None \<Rightarrow> raise (StaleFence (''job '' @ jid @ '': no active matching lease''))
      | Some j \<Rightarrow>
          bnd (guard (\<not> (dj_owner j \<noteq> Some worker \<or> dj_token j \<noteq> token \<or> dj_state j \<notin> in_flight \<or>
                 some_or_empty (dj_expires j) = [] \<or> some_or_empty (dj_expires j) \<le> stamp))
            (StaleFence (''job '' @ jid @ '': no active matching lease''))) (\<lambda>_.
          let hit = (\<lambda>q. dj_id q = jid \<and> dj_owner q = Some worker \<and> dj_token q = token \<and> dj_version q = dj_version j \<and>
                 (case dj_expires q of None \<Rightarrow> False | Some e \<Rightarrow> e > stamp) \<and> dj_state q = dj_state j) in
          bnd (gets (\<lambda>db. count_rows hit (du_jobs db))) (\<lambda>n.
          bnd (modify (du_jobs_update (update_rows hit (\<lambda>q. q\<lparr>dj_expires := Some expiry, dj_version := dj_version q + 1,
                 dj_updated := stamp\<rparr>)))) (\<lambda>_.
          bnd (guard (n = 1) (StaleFence (''job '' @ jid @ '': lease was superseded''))) (\<lambda>_.
          bnd (get_job jid) present)))))))"

subsection \<open>Fenced transitions\<close>

datatype job_update =
    J_owner "string option"
  | J_expires "string option"
  | J_attempts int
  | J_tick int
  | J_due string
  | J_reasons "string list"
  | J_fingerprints "(string \<times> fail_note) list"
  | J_result "(string \<times> json) list"
  | J_other string

fun known_field :: "job_update \<Rightarrow> bool" where
  "known_field (J_other _) = False"
| "known_field _ = True"

fun set_field :: "job_update \<Rightarrow> durable_job \<Rightarrow> durable_job" where
  "set_field (J_owner v) j = j\<lparr>dj_owner := v\<rparr>"
| "set_field (J_expires v) j = j\<lparr>dj_expires := v\<rparr>"
| "set_field (J_attempts v) j = j\<lparr>dj_attempts := v\<rparr>"
| "set_field (J_tick v) j = j\<lparr>dj_tick := v\<rparr>"
| "set_field (J_due v) j = j\<lparr>dj_due := v\<rparr>"
| "set_field (J_reasons v) j = j\<lparr>dj_reasons := v\<rparr>"
| "set_field (J_fingerprints v) j = j\<lparr>dj_fingerprints := v\<rparr>"
| "set_field (J_result v) j = j\<lparr>dj_result := v\<rparr>"
| "set_field (J_other c) j = j"

definition set_fields :: "job_update list \<Rightarrow> durable_job \<Rightarrow> durable_job" where
  "set_fields us j = fold set_field us j"

text \<open>The reads and checks before the write, on the row as it was read.\<close>

definition transition_check :: "string \<Rightarrow> durable_job option \<Rightarrow> run_state \<Rightarrow> int \<Rightarrow> string \<Rightarrow> job_update list
    \<Rightarrow> durable_error + durable_job" where
  "transition_check jid current dst token stamp us = (case current of
     None \<Rightarrow> Inl (StaleFence (''job '' @ jid @ '': fencing token '' @ str_int token @ '' superseded''))
   | Some c \<Rightarrow>
       if dj_token c \<noteq> token then Inl (StaleFence (''job '' @ jid @ '': fencing token '' @ str_int token @ '' superseded''))
       else if dj_state c \<in> in_flight \<and> dj_owner c \<noteq> None \<and> (some_or_empty (dj_expires c) = [] \<or> some_or_empty (dj_expires c) \<le> stamp)
       then Inl (StaleFence (''job '' @ jid @ '': worker lease expired before transition''))
       else (case assert_run_transition (dj_state c) dst of
           Inl e \<Rightarrow> Inl e
         | Inr _ \<Rightarrow> if \<exists>u\<in>set us. \<not> known_field u
             then Inl (DurableValue (''transition cannot set '' @
               repr_str_list (sort (remdups (map (\<lambda>u. case u of J_other f \<Rightarrow> f | _ \<Rightarrow> []) (filter (\<lambda>u. \<not> known_field u) us))))))
             else Inr c))"

definition stepped :: "job_update list \<Rightarrow> run_state \<Rightarrow> string \<Rightarrow> durable_job \<Rightarrow> durable_job" where
  "stepped us dst stamp j = (set_fields us j)\<lparr>dj_state := dst, dj_version := dj_version j + 1, dj_updated := stamp\<rparr>"

definition transition_write :: "durable_job \<Rightarrow> run_state \<Rightarrow> int \<Rightarrow> string \<Rightarrow> string \<Rightarrow> string option \<Rightarrow> job_update list
    \<Rightarrow> ('x, durable_job) durable" where
  "transition_write c dst token stamp reason trace us = atomic_db (
    let hit = (\<lambda>q. dj_id q = dj_id c \<and> dj_token q = token \<and> dj_state q = dj_state c) in
    bnd (gets (\<lambda>db. count_rows hit (du_jobs db))) (\<lambda>n.
    bnd (modify (du_jobs_update (update_rows hit (stepped us dst stamp)))) (\<lambda>_.
    bnd (gets (\<lambda>db. list_all job_legal (du_jobs db))) (\<lambda>legal.
    bnd (guard legal DurableIntegrity) (\<lambda>_.
    bnd (guard (n = 1) (StaleFence (''job '' @ dj_id c @ '': concurrent change lost the fence''))) (\<lambda>_.
    bnd (get_job (dj_id c)) (\<lambda>out. bnd (present out) (\<lambda>u.
    bnd (log_move u (dj_state c) dst token (take 500 reason) trace stamp) (\<lambda>_. ret u)))))))))"

definition job_transition :: "string \<Rightarrow> run_state \<Rightarrow> int \<Rightarrow> int \<Rightarrow> string \<Rightarrow> string option \<Rightarrow> job_update list
    \<Rightarrow> ('x, durable_job) durable" where
  "job_transition jid dst token now reason trace us =
    bnd (get_job jid) (\<lambda>current.
    bnd (of_sum (transition_check jid current dst token (iso now) us)) (\<lambda>c.
    transition_write c dst token (iso now) reason trace us))"

definition operator_move :: "env \<Rightarrow> string \<Rightarrow> run_state \<Rightarrow> string \<Rightarrow> string \<Rightarrow> int option \<Rightarrow> ('x, durable_job) durable" where
  "operator_move V jid dst actor reason now =
    bnd (case now of Some t \<Rightarrow> ret t | None \<Rightarrow> utc_now V) (\<lambda>moment.
    bnd (get_job jid) (\<lambda>job.
    case job of
      None \<Rightarrow> raise (DurableLookup jid)
    | Some j \<Rightarrow>
        bnd (guard (\<not> (dj_state j \<in> in_flight \<and> some_or_empty (dj_expires j) \<noteq> [] \<and> some_or_empty (dj_expires j) > iso moment))
          (StaleFence (''job '' @ jid @ '' is leased until '' @ some_or_empty (dj_expires j)))) (\<lambda>_.
        job_transition jid dst (dj_token j) moment (take 500 (''operator '' @ actor @ '': '' @ reason)) None
          (if dst = Run_SCHEDULED then [J_due (iso moment)] else []))))"

text \<open>
  The tables' part of \<open>cancel\<close>, after its authority checks and inside its transaction: a stopped
  job is left alone, any other loses its lease and its fence. The row count of the update is not
  looked at; the row lock makes the version match.
\<close>

definition cancel_job :: "env \<Rightarrow> string \<Rightarrow> string \<Rightarrow> ('x, unit) durable" where
  "cancel_job V project jid = atomic_db (
    bnd (get_job jid) (\<lambda>job.
    case job of
      None \<Rightarrow> raise (DurableLookup jid)
    | Some j \<Rightarrow>
        if dj_state j = Run_STOPPED then ret ()
        else
          bnd (of_sum (assert_run_transition (dj_state j) Run_STOPPED)) (\<lambda>_.
          bnd (utc_now V) (\<lambda>t1.
          bnd (modify (du_jobs_update (update_rows (\<lambda>q. dj_id q = jid \<and> dj_version q = dj_version j)
            (\<lambda>q. q\<lparr>dj_state := Run_STOPPED, dj_token := dj_token q + 1, dj_version := dj_version q + 1, dj_owner := None,
                   dj_expires := None, dj_updated := iso t1\<rparr>)))) (\<lambda>_.
          bnd (utc_now V) (\<lambda>t2.
          log_move (j\<lparr>dj_project := project\<rparr>) (dj_state j) Run_STOPPED (dj_token j + 1) ''authorized cancellation'' None (iso t2)))))))"

subsection \<open>Intents\<close>

definition get_intent :: "string \<Rightarrow> ('x, durable_intent option) durable" where
  "get_intent key = gets (\<lambda>db. row_by di_key key (du_intents db))"

text \<open>Whether a job holds a live lease under a token: the condition of every write to the journal.\<close>

definition live_fence :: "int \<Rightarrow> string \<Rightarrow> durable_job \<Rightarrow> bool" where
  "live_fence token stamp j = (dj_token j = token \<and> dj_state j \<in> in_flight \<and>
     some_or_empty (dj_expires j) \<noteq> [] \<and> some_or_empty (dj_expires j) > stamp)"

definition reserve_intent :: "string \<Rightarrow> durable_job \<Rightarrow> int \<Rightarrow> string \<Rightarrow> string \<Rightarrow> string \<Rightarrow> string \<Rightarrow> string \<Rightarrow> json \<Rightarrow> int \<Rightarrow> int
    \<Rightarrow> ('x, durable_intent \<times> bool) durable" where
  "reserve_intent key job tick operation target input_hash contract retry_class pre_image token now = atomic_db (
    bnd (gets (\<lambda>db. find (\<lambda>q. dj_id q = dj_id job \<and> dj_tenant q = dj_tenant job \<and> dj_project q = dj_project job) (du_jobs db))) (\<lambda>leased.
    bnd (guard (case leased of None \<Rightarrow> False | Some q \<Rightarrow> live_fence token (iso now) q)
      (StaleFence (''job '' @ dj_id job @ '': cannot reserve intent without live fence''))) (\<lambda>_.
    bnd (get_intent key) (\<lambda>row.
    case row of
      Some i \<Rightarrow> ret (i, False)
    | None \<Rightarrow>
        bnd (guard (retry_class \<in> set retry_classes) DurableIntegrity) (\<lambda>_.
        bnd (modify (du_intents_update (\<lambda>xs. xs @ [\<lparr>di_key = key, di_job = dj_id job, di_tenant = dj_tenant job, di_project = dj_project job,
               di_tick = tick, di_operation = operation, di_target = target, di_input_hash = input_hash, di_contract = contract,
               di_retry_class = retry_class, di_pre_image = pre_image, di_status = Int_INTENT, di_token = token,
               di_receipt = JDict [], di_created = iso now, di_committed = None\<rparr>]))) (\<lambda>_.
        bnd (get_intent key) (\<lambda>out. bnd (present out) (\<lambda>i. ret (i, True)))))))))"

definition active_fence :: "string \<Rightarrow> int \<Rightarrow> int \<Rightarrow> ('x, durable_job) durable" where
  "active_fence jid token now =
    bnd (get_job jid) (\<lambda>job.
    case job of
      None \<Rightarrow> raise (StaleFence (''job '' @ jid @ '': no live fenced lease''))
    | Some j \<Rightarrow> bnd (guard (live_fence token (iso now) j \<and> some_or_empty (dj_owner j) \<noteq> [])
        (StaleFence (''job '' @ jid @ '': no live fenced lease''))) (\<lambda>_. ret j))"

definition open_statuses :: "intent_status set" where
  "open_statuses = {Int_INTENT, Int_UNCONFIRMED}"

text \<open>An update of the intent of a job that is still open, with the error of no such row.\<close>

definition intent_hit :: "string \<Rightarrow> durable_job \<Rightarrow> durable_intent \<Rightarrow> bool" where
  "intent_hit key j i = (di_key i = key \<and> di_job i = dj_id j \<and> di_tenant i = dj_tenant j \<and> di_project i = dj_project j \<and>
     di_status i \<in> open_statuses)"

definition settle_intent :: "string \<Rightarrow> string \<Rightarrow> int \<Rightarrow> int \<Rightarrow> (durable_intent \<Rightarrow> durable_intent) \<Rightarrow> string \<Rightarrow> ('x, durable_intent) durable" where
  "settle_intent key jid token now upd lost = atomic_db (
    bnd (active_fence jid token now) (\<lambda>j.
    bnd (gets (\<lambda>db. count_rows (intent_hit key j) (du_intents db))) (\<lambda>n.
    bnd (modify (du_intents_update (update_rows (intent_hit key j) upd))) (\<lambda>_.
    bnd (guard (n = 1) (StaleFence lost)) (\<lambda>_.
    bnd (get_intent key) present)))))"

text \<open>\<open>str.isidentifier\<close> of a Latin-1 string.\<close>

definition ident_start :: "char \<Rightarrow> bool" where
  "ident_start c = (let n = of_char c :: nat in 65 \<le> n \<and> n \<le> 90 \<or> n = 95 \<or> 97 \<le> n \<and> n \<le> 122 \<or> n = 170 \<or> n = 181 \<or> n = 186 \<or>
     192 \<le> n \<and> n \<noteq> 215 \<and> n \<noteq> 247)"

definition ident_char :: "char \<Rightarrow> bool" where
  "ident_char c = (let n = of_char c :: nat in ident_start c \<or> 48 \<le> n \<and> n \<le> 57 \<or> n = 183)"

definition is_identifier :: "string \<Rightarrow> bool" where
  "is_identifier s = (s \<noteq> [] \<and> ident_start (hd s) \<and> list_all ident_char s)"

definition mark_intent_unconfirmed :: "string \<Rightarrow> string \<Rightarrow> int \<Rightarrow> int \<Rightarrow> string \<Rightarrow> ('x, durable_intent) durable" where
  "mark_intent_unconfirmed key jid token now error_class =
    (let reason = take 80 error_class in
     bnd (guard (is_identifier reason) (DurableValue ''error_class must be a sanitized identifier'')) (\<lambda>_.
     settle_intent key jid token now (\<lambda>i. i\<lparr>di_status := Int_UNCONFIRMED,
       di_receipt := JDict [(''uncertainty'', JStr reason), (''observed_at'', JStr (iso now))]\<rparr>) ''intent cannot be marked unconfirmed''))"

text \<open>\<open>observed.get("status")\<close> of a provider's answer.\<close>

definition receipt_status :: "json \<Rightarrow> json" where
  "receipt_status r = (case r of JDict d \<Rightarrow> json_get d ''status'' | _ \<Rightarrow> JNull)"

definition settle_intent_failed :: "(json \<Rightarrow> json) \<Rightarrow> string \<Rightarrow> string \<Rightarrow> int \<Rightarrow> int \<Rightarrow> json \<Rightarrow> ('x, durable_intent) durable" where
  "settle_intent_failed redact key jid token now receipt =
    bnd (guard (receipt_status receipt = JStr ''FAILED'') (DurableValue ''authoritative FAILED receipt required'')) (\<lambda>_.
    settle_intent key jid token now (\<lambda>i. i\<lparr>di_status := Int_FAILED, di_receipt := redact receipt, di_committed := Some (iso now)\<rparr>)
      ''intent was already settled or out of scope'')"

definition commit_intent :: "(json \<Rightarrow> json) \<Rightarrow> string \<Rightarrow> json \<Rightarrow> int \<Rightarrow> string \<Rightarrow> int \<Rightarrow> ('x, unit) durable" where
  "commit_intent redact key receipt token jid now =
    bnd (settle_intent key jid token now (\<lambda>i. i\<lparr>di_status := Int_COMMITTED, di_receipt := redact receipt, di_committed := Some (iso now)\<rparr>)
      (''intent '' @ take 12 key @ '' is already settled, invalid or out of scope'')) (\<lambda>_. ret ())"

text \<open>
  The probe of the provider runs outside the transactions; \<open>look\<close> is its outcome, an exception's
  class or an answer.
\<close>

definition reconcile_provider_intent :: "(json \<Rightarrow> json) \<Rightarrow> string \<Rightarrow> string \<Rightarrow> int \<Rightarrow> int \<Rightarrow> (string \<Rightarrow> ('x, string + json) durable)
    \<Rightarrow> ('x, durable_intent) durable" where
  "reconcile_provider_intent redact key jid token now look =
    bnd (active_fence jid token now) (\<lambda>j.
    bnd (gets (\<lambda>db. find (\<lambda>i. di_key i = key \<and> di_job i = jid \<and> di_tenant i = dj_tenant j \<and> di_project i = dj_project j) (du_intents db))) (\<lambda>row.
    case row of
      None \<Rightarrow> raise (DurableLookup ''intent missing from scoped journal'')
    | Some i \<Rightarrow>
        if di_status i \<notin> open_statuses then ret i
        else
          bnd (look key) (\<lambda>out.
          case out of
            Inl cls \<Rightarrow> mark_intent_unconfirmed key jid token now cls
          | Inr observed \<Rightarrow>
              if receipt_status observed = JStr ''COMMITTED'' then
                bnd (commit_intent redact key observed token jid now) (\<lambda>_. bnd (get_intent key) present)
              else if receipt_status observed = JStr ''FAILED'' then settle_intent_failed redact key jid token now observed
              else mark_intent_unconfirmed key jid token now ''ProviderStatusUnknown'')))"

text \<open>
  The \<^verbatim>\<open>UPDATE\<close> of a job's result that the render handler (\<^verbatim>\<open>agency/rendering/service.py\<close>) makes while its tick
  runs: under the token of the row it was given, without a new version.
\<close>

definition set_job_result :: "string \<Rightarrow> int \<Rightarrow> (string \<times> json) list \<Rightarrow> ('x, unit) durable" where
  "set_job_result jid token result =
    modify (du_jobs_update (update_rows (\<lambda>q. dj_id q = jid \<and> dj_token q = token) (\<lambda>q. q\<lparr>dj_result := result\<rparr>)))"

definition list_intents :: "string \<Rightarrow> ('x, durable_intent list) durable" where
  "list_intents jid = gets (\<lambda>db. sort_key di_tick (sort_key di_created (filter (\<lambda>i. di_job i = jid) (du_intents db))))"

definition list_moves :: "string \<Rightarrow> ('x, durable_move list) durable" where
  "list_moves jid = gets (\<lambda>db. filter (\<lambda>m. dt_job m = jid) (du_moves db))"

subsection \<open>Ticks\<close>

definition record_tick :: "string \<Rightarrow> durable_job option \<Rightarrow> string \<Rightarrow> string \<Rightarrow> int \<Rightarrow> int \<Rightarrow> ('x, unit) durable" where
  "record_tick trace job worker outcome started finished = atomic_db (
    bnd (gets (\<lambda>db. row_by tk_trace trace (du_ticks db))) (\<lambda>known.
    bnd (guard (known = None) DurableIntegrity) (\<lambda>_.
    modify (du_ticks_update (\<lambda>ts. ts @ [\<lparr>tk_trace = trace, tk_job = map_option dj_id job, tk_tenant = map_option dj_tenant job,
      tk_project = map_option dj_project job, tk_worker = worker, tk_tick = map_option dj_tick job, tk_outcome = outcome,
      tk_started = iso started, tk_finished = iso finished\<rparr>])))))"

definition list_ticks :: "string \<Rightarrow> ('x, durable_tick list) durable" where
  "list_ticks jid = gets (\<lambda>db. sort_key tk_started (filter (\<lambda>t. tk_job t = Some jid) (du_ticks db)))"

definition list_project_ticks :: "string \<Rightarrow> ('x, durable_tick list) durable" where
  "list_project_ticks project = gets (\<lambda>db. sort_key tk_started (filter (\<lambda>t. tk_project t = Some project) (du_ticks db)))"

definition jobs_for_project :: "string \<Rightarrow> run_state list \<Rightarrow> ('x, durable_job list) durable" where
  "jobs_for_project project states = gets (\<lambda>db. sort_key dj_created (filter (\<lambda>j. dj_project j = project \<and>
     (states = [] \<or> dj_state j \<in> set states)) (du_jobs db)))"

end
