(* ===== verification/Durable_Safety.thy ===== *)
theory Durable_Safety
  imports Durable_Store Action_History Frames
begin

section \<open>Durable jobs under interleaved workers\<close>

text \<open>
  Every write of the durable tables either leaves the jobs alone, appends a new one, or advances one
  row: its version grows by one unless only its result is written, its token does not shrink, and a
  change of state is logged with the state it left. \<open>durable_run\<close> interleaves the transactions of any number of workers; a worker acts on
  rows it read at any earlier time. The invariant holds at every point of every interleaving.
\<close>

subsection \<open>Changes of one row\<close>

definition put_job :: "durable_job \<Rightarrow> durable_job list \<Rightarrow> durable_job list" where
  "put_job j js = update_rows (\<lambda>q. dj_id q = dj_id j) (\<lambda>_. j) js"

lemma update_hit:
  assumes "distinct (map dj_id js)" "row_by dj_id k js = Some j" "\<And>q. hit q \<Longrightarrow> dj_id q = k" "hit j" "dj_id (f j) = k"
  shows "update_rows hit f js = put_job (f j) js"
proof -
  have k: "dj_id j = k" "j \<in> set js" using row_by_SomeD [OF assms(2)] by auto
  have only: "q = j" if "q \<in> set js" "dj_id q = k" for q
    using that k assms(1) by (auto simp: distinct_map dest: inj_onD)
  have "(if hit q then f q else q) = (if dj_id q = dj_id (f j) then f j else q)" if "q \<in> set js" for q
    using only [OF that] assms(3) [of q] assms(4,5) k(1) by (cases "dj_id q = k") auto
  then show ?thesis unfolding put_job_def update_rows_def by (intro map_cong refl)
qed

lemma update_miss:
  assumes "distinct (map dj_id js)" "\<And>q. hit q \<Longrightarrow> dj_id q = k" "\<And>j. row_by dj_id k js = Some j \<Longrightarrow> \<not> hit j"
  shows "update_rows hit f js = js"
proof (rule update_rows_id)
  fix r
  assume "r \<in> set js"
  then show "\<not> hit r" using assms row_by_distinct [of dj_id js r] by blast
qed

lemma row_by_put_job: "row_by dj_id (dj_id j) js \<noteq> None \<Longrightarrow> row_by dj_id k (put_job j js) = (if k = dj_id j then Some j else row_by dj_id k js)"
  unfolding put_job_def by (auto simp: row_by_replace split: option.splits)

lemma put_job_ids: "map dj_id (put_job j js) = map dj_id js"
  unfolding put_job_def by (rule map_key_replace)

lemma set_put_job: "q \<in> set (put_job j js) \<Longrightarrow> q = j \<or> q \<in> set js \<and> dj_id q \<noteq> dj_id j"
  unfolding put_job_def by (auto simp: set_update_rows split: if_splits)

lemma in_put_job: "q \<in> set js \<Longrightarrow> dj_id q \<noteq> dj_id j \<Longrightarrow> q \<in> set (put_job j js)"
  unfolding put_job_def by (auto simp: set_update_rows)

lemma put_job_mem: "q \<in> set js \<Longrightarrow> dj_id q = dj_id j \<Longrightarrow> j \<in> set (put_job j js)"
  unfolding put_job_def set_update_rows by (rule image_eqI [of _ _ q]) simp_all

text \<open>A row but for its result, and one row forward: \<open>quiet\<close> without a change of state, or with its logged move.\<close>

definition bare :: "durable_job \<Rightarrow> durable_job" where
  "bare j = j\<lparr>dj_result := []\<rparr>"

lemma bare_same:
  assumes "bare j = bare j'"
  shows "dj_id j = dj_id j'" "dj_tenant j = dj_tenant j'" "dj_project j = dj_project j'" "dj_state j = dj_state j'" "dj_token j = dj_token j'"
    "dj_version j = dj_version j'" "dj_owner j = dj_owner j'" "dj_expires j = dj_expires j'"
  using arg_cong [OF assms, of dj_id] arg_cong [OF assms, of dj_tenant] arg_cong [OF assms, of dj_project] arg_cong [OF assms, of dj_state]
    arg_cong [OF assms, of dj_token] arg_cong [OF assms, of dj_version] arg_cong [OF assms, of dj_owner] arg_cong [OF assms, of dj_expires]
  by (simp_all add: bare_def)

definition forward :: "durable_job \<Rightarrow> durable_job \<Rightarrow> bool" where
  "forward j j' = (dj_id j' = dj_id j \<and> dj_tenant j' = dj_tenant j \<and> dj_project j' = dj_project j \<and>
     (dj_version j' = dj_version j + 1 \<or> bare j' = bare j) \<and> dj_token j \<le> dj_token j')"

definition logs :: "durable_job \<Rightarrow> durable_job \<Rightarrow> durable_move \<Rightarrow> bool" where
  "logs j j' m = (dt_job m = dj_id j \<and> dt_from m = dj_state j \<and> dt_to m = dj_state j' \<and> dt_token m = dj_token j' \<and>
     dj_version j' = dj_version j + 1 \<and> dj_state j' \<in> run_transitions (dj_state j))"

definition first_move :: "durable_job \<Rightarrow> durable_move \<Rightarrow> bool" where
  "first_move j m = (dt_job m = dj_id j \<and> dt_from m = Run_DORMANT \<and> dt_to m = dj_state j \<and> dt_token m = dj_token j \<and>
     dj_state j = Run_SCHEDULED \<and> job_legal j)"

inductive jobs_change :: "'x durable_db_scheme \<Rightarrow> 'y durable_db_scheme \<Rightarrow> bool" where
  Same: "du_jobs v = du_jobs db \<Longrightarrow> du_moves v = du_moves db \<Longrightarrow> jobs_change db v"
| Quiet: "j \<in> set (du_jobs db) \<Longrightarrow> forward j j' \<Longrightarrow> job_legal j' \<Longrightarrow> dj_state j' = dj_state j \<Longrightarrow> dj_token j' = dj_token j \<Longrightarrow>
    du_jobs v = put_job j' (du_jobs db) \<Longrightarrow> du_moves v = du_moves db \<Longrightarrow> jobs_change db v"
| Logged: "j \<in> set (du_jobs db) \<Longrightarrow> forward j j' \<Longrightarrow> job_legal j' \<Longrightarrow> logs j j' m \<Longrightarrow>
    du_jobs v = put_job j' (du_jobs db) \<Longrightarrow> du_moves v = du_moves db @ [m] \<Longrightarrow> jobs_change db v"
| Fresh: "dj_id j \<notin> dj_id ` set (du_jobs db) \<Longrightarrow> first_move j m \<Longrightarrow>
    du_jobs v = du_jobs db @ [j] \<Longrightarrow> du_moves v = du_moves db @ [m] \<Longrightarrow> jobs_change db v"

definition same_intent :: "durable_intent \<Rightarrow> durable_intent \<Rightarrow> bool" where
  "same_intent i i' = (di_key i' = di_key i \<and> di_job i' = di_job i \<and> di_tenant i' = di_tenant i \<and> di_project i' = di_project i \<and>
     di_tick i' = di_tick i \<and> di_operation i' = di_operation i \<and> di_target i' = di_target i \<and> di_input_hash i' = di_input_hash i \<and>
     di_contract i' = di_contract i \<and> di_retry_class i' = di_retry_class i \<and> di_pre_image i' = di_pre_image i \<and> di_token i' = di_token i)"

definition owned_by :: "durable_job \<Rightarrow> durable_intent \<Rightarrow> bool" where
  "owned_by j i = (di_job i = dj_id j \<and> di_tenant i = dj_tenant j \<and> di_project i = dj_project j \<and> di_token i \<le> dj_token j)"

inductive intents_change :: "'x durable_db_scheme \<Rightarrow> 'y durable_db_scheme \<Rightarrow> bool" where
  Kept: "du_intents v = du_intents db \<Longrightarrow> intents_change db v"
| Reserved: "di_key i \<notin> di_key ` set (du_intents db) \<Longrightarrow> j \<in> set (du_jobs db) \<Longrightarrow> owned_by j i \<Longrightarrow>
    du_intents v = du_intents db @ [i] \<Longrightarrow> intents_change db v"
| Settled: "(\<And>i. hit i \<Longrightarrow> di_status i \<in> open_statuses \<and> same_intent i (f i)) \<Longrightarrow>
    du_intents v = update_rows hit f (du_intents db) \<Longrightarrow> intents_change db v"

definition change :: "'x durable_db_scheme \<Rightarrow> 'y durable_db_scheme \<Rightarrow> bool" where
  "change db v = (jobs_change db v \<and> intents_change db v)"

abbreviation changes :: "('x durable_db_scheme, durable_error, 'a) prog \<Rightarrow> 'x durable_db_scheme \<Rightarrow> bool" where
  "changes m db \<equiv> change db (snd (m db))"

subsection \<open>The writes as changes\<close>

lemma change_refl [simp]: "change db db"
  by (simp add: change_def jobs_change.Same intents_change.Kept)

lemma change_same: "du_jobs v = du_jobs db \<Longrightarrow> du_moves v = du_moves db \<Longrightarrow> du_intents v = du_intents db \<Longrightarrow> change db v"
  by (simp add: change_def jobs_change.Same intents_change.Kept)

definition tables_ok :: "'x durable_db_scheme \<Rightarrow> bool" where
  "tables_ok db = (distinct (map dj_id (du_jobs db)) \<and> list_all job_legal (du_jobs db) \<and> distinct (map di_key (du_intents db)))"

lemma set_fields_frame [simp]:
  "dj_id (set_fields us j) = dj_id j" "dj_tenant (set_fields us j) = dj_tenant j" "dj_project (set_fields us j) = dj_project j"
  "dj_token (set_fields us j) = dj_token j" "dj_version (set_fields us j) = dj_version j"
proof -
  have "dj_id (set_field u j) = dj_id j \<and> dj_tenant (set_field u j) = dj_tenant j \<and> dj_project (set_field u j) = dj_project j \<and>
    dj_token (set_field u j) = dj_token j \<and> dj_version (set_field u j) = dj_version j" for u j
    by (cases u) simp_all
  then have "dj_id (set_fields us j) = dj_id j \<and> dj_tenant (set_fields us j) = dj_tenant j \<and> dj_project (set_fields us j) = dj_project j \<and>
    dj_token (set_fields us j) = dj_token j \<and> dj_version (set_fields us j) = dj_version j"
    unfolding set_fields_def by (induction us arbitrary: j) simp_all
  then show "dj_id (set_fields us j) = dj_id j" "dj_tenant (set_fields us j) = dj_tenant j" "dj_project (set_fields us j) = dj_project j"
    "dj_token (set_fields us j) = dj_token j" "dj_version (set_fields us j) = dj_version j" by simp_all
qed

text \<open>What a compare-and-set on one job finds and leaves.\<close>

lemma cas_cases:
  assumes ok: "tables_ok db" and key: "\<And>q. hit q \<Longrightarrow> dj_id q = k"
  obtains (miss) "count_rows hit (du_jobs db) = 0" "update_rows hit f (du_jobs db) = du_jobs db"
      "\<And>j. row_by dj_id k (du_jobs db) = Some j \<Longrightarrow> \<not> hit j"
    | (hit) j where "j \<in> set (du_jobs db)" "dj_id j = k" "hit j" "job_legal j" "count_rows hit (du_jobs db) = 1" "row_by dj_id k (du_jobs db) = Some j"
      "dj_id (f j) = k \<Longrightarrow> update_rows hit f (du_jobs db) = put_job (f j) (du_jobs db)"
      "dj_id (f j) = k \<Longrightarrow> row_by dj_id k (put_job (f j) (du_jobs db)) = Some (f j)"
proof -
  have ids: "distinct (map dj_id (du_jobs db))" and legal: "list_all job_legal (du_jobs db)" using ok by (simp_all add: tables_ok_def)
  note n = count_rows_key [OF ids key]
  show thesis
  proof (cases "row_by dj_id k (du_jobs db)")
    case None
    then show thesis using n None update_miss [where hit = hit and f = f, OF ids key] by (intro miss) auto
  next
    case (Some j)
    show thesis
    proof (cases "hit j")
      case True
      have j: "j \<in> set (du_jobs db)" "dj_id j = k" using row_by_SomeD [OF Some] by auto
      then show thesis
        using True Some n legal update_hit [where hit = hit and f = f, OF ids Some key True] row_by_put_job [of "f j" "du_jobs db" k]
        by (intro hit) (auto simp: list_all_iff)
    next
      case False
      then show thesis using Some n update_miss [where hit = hit and f = f, OF ids key] by (intro miss) auto
    qed
  qed
qed

lemma legal_put_job: "list_all job_legal js \<Longrightarrow> j \<in> set js \<Longrightarrow> dj_id j = dj_id j' \<Longrightarrow> list_all job_legal (put_job j' js) \<longleftrightarrow> job_legal j'"
  using set_put_job [of _ j' js] put_job_mem [of j js j'] by (auto simp: list_all_iff)

lemma claim_write_change:
  fixes db :: "'x durable_db_scheme"
  assumes ok: "tables_ok db" and snap: "\<And>j. j \<in> set (du_jobs db) \<Longrightarrow> dj_id j = dj_id s \<Longrightarrow> dj_version j = dj_version s \<Longrightarrow> bare j = bare s"
    and edge: "assert_run_transition (dj_state s) (entered_state s) = Inr ()"
  shows "changes (claim_write worker stamp expires s) db"
proof -
  let ?hit = "\<lambda>q. dj_id q = dj_id s \<and> dj_version q = dj_version s"
  let ?f = "\<lambda>q. q\<lparr>dj_state := entered_state s, dj_owner := Some worker, dj_token := dj_token q + 1, dj_expires := Some expires,
     dj_version := dj_version q + 1, dj_updated := stamp\<rparr>"
  show ?thesis
  proof (rule cas_cases [OF ok, of ?hit "dj_id s" ?f])
    show "?hit q \<Longrightarrow> dj_id q = dj_id s" for q by simp
  next
    assume "count_rows ?hit (du_jobs db) = 0" "update_rows ?hit ?f (du_jobs db) = du_jobs db"
    then show ?thesis by (simp add: claim_write_def atomic_db_def prog_defs Let_def change_same)
  next
    fix j
    assume j: "j \<in> set (du_jobs db)" "dj_id j = dj_id s" "?hit j" "job_legal j" "count_rows ?hit (du_jobs db) = 1"
      "dj_id (?f j) = dj_id s \<Longrightarrow> update_rows ?hit ?f (du_jobs db) = put_job (?f j) (du_jobs db)"
      "dj_id (?f j) = dj_id s \<Longrightarrow> row_by dj_id (dj_id s) (put_job (?f j) (du_jobs db)) = Some (?f j)"
    have "bare j = bare s" using snap j by blast
    then have s: "dj_tenant s = dj_tenant j" "dj_project s = dj_project j" "dj_state s = dj_state j" "entered_state s = entered_state j"
      by (auto simp: entered_state_def dest: bare_same)
    have "jobs_change db (snd (claim_write worker stamp expires s db))"
      by (rule Logged [of j _ "?f j"])
         (use j s edge in \<open>simp_all add: claim_write_def atomic_db_def get_job_def present_def log_move_def prog_defs Let_def
            forward_def logs_def job_legal_def assert_run_transition_def split: if_splits\<close>)
    moreover have "intents_change db (snd (claim_write worker stamp expires s db))"
      by (rule Kept) (use j in \<open>simp add: claim_write_def atomic_db_def get_job_def present_def log_move_def prog_defs Let_def\<close>)
    ultimately show ?thesis by (simp add: change_def)
  qed
qed

lemma set_job_result_change:
  fixes db :: "'x durable_db_scheme"
  assumes ok: "tables_ok db"
  shows "changes (set_job_result jid token result) db"
proof -
  let ?hit = "\<lambda>q. dj_id q = jid \<and> dj_token q = token"
  let ?f = "\<lambda>q. q\<lparr>dj_result := result\<rparr>"
  show ?thesis
  proof (rule cas_cases [OF ok, of ?hit jid ?f])
    show "?hit q \<Longrightarrow> dj_id q = jid" for q by simp
  next
    assume "count_rows ?hit (du_jobs db) = 0" "update_rows ?hit ?f (du_jobs db) = du_jobs db"
    then show ?thesis by (simp add: set_job_result_def prog_defs change_same)
  next
    fix j
    assume j: "j \<in> set (du_jobs db)" "dj_id j = jid" "?hit j" "job_legal j"
      "dj_id (?f j) = jid \<Longrightarrow> update_rows ?hit ?f (du_jobs db) = put_job (?f j) (du_jobs db)"
    have "jobs_change db (snd (set_job_result jid token result db))"
      by (rule Quiet [of j _ "?f j"]) (use j in \<open>simp_all add: set_job_result_def prog_defs forward_def bare_def job_legal_def\<close>)
    then show ?thesis by (simp add: change_def Kept set_job_result_def prog_defs)
  qed
qed

lemma transition_write_change:
  fixes db :: "'x durable_db_scheme"
  assumes ok: "tables_ok db" and pre: "dj_token c = token" "dst \<in> run_transitions (dj_state c)"
  shows "changes (transition_write c dst token stamp reason trace us) db"
proof -
  let ?hit = "\<lambda>q. dj_id q = dj_id c \<and> dj_token q = token \<and> dj_state q = dj_state c"
  let ?f = "stepped us dst stamp"
  note run = transition_write_def atomic_db_def get_job_def present_def log_move_def prog_defs Let_def
  show ?thesis
  proof (rule cas_cases [OF ok, of ?hit "dj_id c" ?f])
    show "?hit q \<Longrightarrow> dj_id q = dj_id c" for q by simp
  next
    assume "count_rows ?hit (du_jobs db) = 0" "update_rows ?hit ?f (du_jobs db) = du_jobs db"
    then show ?thesis using ok by (simp add: run change_same tables_ok_def)
  next
    fix j
    assume j: "j \<in> set (du_jobs db)" "dj_id j = dj_id c" "?hit j" "count_rows ?hit (du_jobs db) = 1"
      "dj_id (?f j) = dj_id c \<Longrightarrow> update_rows ?hit ?f (du_jobs db) = put_job (?f j) (du_jobs db)"
      "dj_id (?f j) = dj_id c \<Longrightarrow> row_by dj_id (dj_id c) (put_job (?f j) (du_jobs db)) = Some (?f j)"
    have id: "dj_id (?f j) = dj_id c" using j(2) by (simp add: stepped_def)
    have legal: "list_all job_legal (put_job (?f j) (du_jobs db)) = job_legal (?f j)"
      using ok j(1,2) id by (intro legal_put_job [of _ j]) (simp_all add: tables_ok_def)
    show ?thesis
    proof (cases "job_legal (?f j)")
      case False
      then show ?thesis using j id legal by (simp add: run change_same)
    next
      case True
      have "jobs_change db (snd (transition_write c dst token stamp reason trace us db))"
        by (rule Logged [of j _ "?f j"])
           (use j id legal True pre in \<open>simp_all add: run forward_def logs_def\<close>, simp_all add: stepped_def)
      moreover have "intents_change db (snd (transition_write c dst token stamp reason trace us db))"
        by (rule Kept) (use j id legal True in \<open>simp add: run\<close>)
      ultimately show ?thesis by (simp add: change_def)
    qed
  qed
qed

lemma changes_bnd_reads: "m db = (Inr a, db) \<Longrightarrow> changes (f a) db \<Longrightarrow> changes (bnd m f) db"
  by (simp add: bnd_def)

lemma transition_check_ok:
  "transition_check jid current dst token stamp us = Inr c \<Longrightarrow> current = Some c \<and> dj_token c = token \<and> dst \<in> run_transitions (dj_state c)"
  by (auto simp: transition_check_def assert_run_transition_def split: option.splits if_splits sum.splits)

lemma renew_lease_change:
  fixes db :: "'x durable_db_scheme"
  assumes ok: "tables_ok db"
  shows "changes (renew_lease jid worker token now lease) db"
proof -
  let ?stamp = "iso now"
  let ?f = "\<lambda>q. q\<lparr>dj_expires := Some (iso (now + seconds lease)), dj_version := dj_version q + 1, dj_updated := ?stamp\<rparr>"
  note run = renew_lease_def atomic_db_def get_job_def present_def prog_defs Let_def
  show ?thesis
  proof (cases "row_by dj_id jid (du_jobs db)")
    case None
    then show ?thesis by (simp add: run)
  next
    case (Some j)
    let ?hit = "\<lambda>q. dj_id q = jid \<and> dj_owner q = Some worker \<and> dj_token q = token \<and> dj_version q = dj_version j \<and>
                 (case dj_expires q of None \<Rightarrow> False | Some e \<Rightarrow> e > ?stamp) \<and> dj_state q = dj_state j"
    show ?thesis
    proof (rule cas_cases [OF ok, of ?hit jid ?f])
      show "?hit q \<Longrightarrow> dj_id q = jid" for q by simp
    next
      assume "count_rows ?hit (du_jobs db) = 0" "update_rows ?hit ?f (du_jobs db) = du_jobs db"
      then show ?thesis using Some by (simp add: run change_same)
    next
      fix j'
      assume j': "j' \<in> set (du_jobs db)" "dj_id j' = jid" "job_legal j'" and row: "row_by dj_id jid (du_jobs db) = Some j'"
        and n: "count_rows ?hit (du_jobs db) = 1"
        and upd: "dj_id (?f j') = jid \<Longrightarrow> update_rows ?hit ?f (du_jobs db) = put_job (?f j') (du_jobs db)"
        and again: "dj_id (?f j') = jid \<Longrightarrow> row_by dj_id jid (put_job (?f j') (du_jobs db)) = Some (?f j')"
      have same: "j' = j" using row Some by simp
      note j = j' [unfolded same] and upd = upd [unfolded same] and again = again [unfolded same]
      let ?live = "\<not> (dj_owner j \<noteq> Some worker \<or> dj_token j \<noteq> token \<or> dj_state j \<notin> in_flight \<or>
                 some_or_empty (dj_expires j) = [] \<or> some_or_empty (dj_expires j) \<le> ?stamp)"
      have "snd (renew_lease jid worker token now lease db) = db \<or>
        snd (renew_lease jid worker token now lease db) = db\<lparr>du_jobs := put_job (?f j) (du_jobs db)\<rparr>"
      proof (cases "\<not> (jid = [] \<or> worker = [] \<or> token \<le> 0 \<or> lease \<le> 0) \<and> ?live")
        case False
        then show ?thesis using Some by (auto simp: renew_lease_def atomic_db_def get_job_def prog_defs Let_def simp del: de_Morgan_disj)
      next
        case True
        then have g: "guard (\<not> (jid = [] \<or> worker = [] \<or> token \<le> 0 \<or> lease \<le> 0)) e = ret ()" "guard ?live e' = ret ()" for e e' :: durable_error
          by (simp_all add: guard_def)
        show ?thesis
          unfolding renew_lease_def g using Some n upd again j
          by (simp add: atomic_db_def get_job_def present_def prog_defs Let_def)
      qed
      then consider "snd (renew_lease jid worker token now lease db) = db" |
        "snd (renew_lease jid worker token now lease db) = db\<lparr>du_jobs := put_job (?f j) (du_jobs db)\<rparr>" by blast
      then show ?thesis
      proof cases
        case 2
        have "jobs_change db (snd (renew_lease jid worker token now lease db))"
          by (rule Quiet [of j _ "?f j"]) (use j 2 in \<open>simp_all add: forward_def job_legal_def\<close>)
        then show ?thesis using 2 by (simp add: change_def Kept)
      qed simp
    qed
  qed
qed

lemma cancel_job_change:
  fixes db :: "'x durable_db_scheme"
  assumes ok: "tables_ok db"
  shows "changes (cancel_job V project jid) db"
proof (cases "row_by dj_id jid (du_jobs db)")
  case None
  then show ?thesis by (simp add: cancel_job_def atomic_db_def get_job_def prog_defs change_same)
next
  case (Some j)
  let ?hit = "\<lambda>q. dj_id q = jid \<and> dj_version q = dj_version j"
  let ?f = "\<lambda>q. q\<lparr>dj_state := Run_STOPPED, dj_token := dj_token q + 1, dj_version := dj_version q + 1, dj_owner := None,
                   dj_expires := None, dj_updated := iso (env_clock V (w_reads db))\<rparr>"
  have j: "j \<in> set (du_jobs db)" "dj_id j = jid" "job_legal j"
    using row_by_SomeD [OF Some] ok by (auto simp: tables_ok_def list_all_iff)
  have upd: "update_rows ?hit ?f (du_jobs db) = put_job (?f j) (du_jobs db)"
    using ok Some j by (intro update_hit [where k = jid]) (simp_all add: tables_ok_def)
  show ?thesis
  proof (cases "dj_state j = Run_STOPPED \<or> Run_STOPPED \<notin> run_transitions (dj_state j)")
    case True
    then show ?thesis
      using Some by (auto simp: cancel_job_def atomic_db_def get_job_def prog_defs assert_run_transition_def intro!: change_same)
  next
    case False
    let ?v = "snd (cancel_job V project jid db)"
    note run = cancel_job_def atomic_db_def get_job_def log_move_def utc_now_def assert_run_transition_def prog_defs
    have "jobs_change db ?v"
      by (rule Logged [of j _ "?f j"]) (use Some j upd False in \<open>simp_all add: run forward_def logs_def job_legal_def\<close>)
    moreover have "intents_change db ?v"
      by (rule Kept) (use Some False in \<open>simp add: run\<close>)
    ultimately show ?thesis by (simp add: change_def)
  qed
qed

lemma frame_snd: "frame f m \<Longrightarrow> f (snd (m s)) = f s" by (simp add: frame_def)

definition durable_part :: "'x durable_db_scheme \<Rightarrow> durable_job list \<times> durable_move list \<times> durable_intent list" where
  "durable_part db = (du_jobs db, du_moves db, du_intents db)"

lemma steady_durable_part: "steady durable_part" by (simp add: steady_def durable_part_def)

lemma change_part: "durable_part v = durable_part db \<Longrightarrow> change db v"
  by (rule change_same) (simp_all add: durable_part_def)

lemma change_from: "durable_part db = durable_part db' \<Longrightarrow> change db' v = change db v"
  by (auto simp: change_def durable_part_def jobs_change.simps intents_change.simps)

lemma ensure_part: "frame durable_part (ensure_tenant_project tenant project)"
  unfolding ensure_tenant_project_def register_tenant_def by (intro frame_rules) (simp_all add: durable_part_def)

lemma changes_bnd_frame:
  assumes "frame durable_part m" and "\<And>a v. m db = (Inr a, v) \<Longrightarrow> durable_part v = durable_part db \<Longrightarrow> changes (f a) v"
  shows "changes (bnd m f) db"
proof (cases "m db")
  case (Pair r v)
  then have part: "durable_part v = durable_part db" using assms(1) by (auto dest: frameD)
  show ?thesis
  proof (cases r)
    case (Inl e)
    then show ?thesis using Pair part by (simp add: bnd_def change_part)
  next
    case (Inr a)
    then have "change v (snd (f a v))" using assms(2) Pair part by blast
    then show ?thesis using Pair Inr by (simp add: bnd_def change_from [OF part])
  qed
qed

lemma changes_atomic: "changes m db \<Longrightarrow> changes (atomic_db m) db"
  by (cases "m db"; cases "fst (m db)") (auto simp: atomic_db_def intro!: change_same)

lemma changes_frame: "frame durable_part m \<Longrightarrow> changes m db"
  by (rule change_part) (rule frame_snd)

lemma tables_ok_part: "durable_part v = durable_part db \<Longrightarrow> tables_ok v = tables_ok db"
  by (simp add: tables_ok_def durable_part_def)

lemma insert_job_change:
  fixes db :: "'x durable_db_scheme"
  assumes "row_by dj_id jid (du_jobs db) = None" "dj_id j = jid" "dj_state j = Run_SCHEDULED" "dj_token j = 0"
  shows "changes (bnd (guard (job_legal j) DurableIntegrity) (\<lambda>_.
          bnd (modify (du_jobs_update (\<lambda>js. js @ [j]))) (\<lambda>_.
          bnd (log_move j Run_DORMANT Run_SCHEDULED 0 ''created'' None now) (\<lambda>_.
          bnd (get_job jid) present)))) db" (is "changes ?m db")
proof (cases "job_legal j")
  case True
  let ?m1 = "\<lparr>dt_job = dj_id j, dt_tenant = dj_tenant j, dt_project = dj_project j, dt_from = Run_DORMANT, dt_to = Run_SCHEDULED, dt_token = 0,
      dt_tick = dj_tick j, dt_reason = ''created'', dt_trace = None, dt_at = now\<rparr>"
  have v: "du_jobs (snd (?m db)) = du_jobs db @ [j]" "du_moves (snd (?m db)) = du_moves db @ [?m1]"
    "du_intents (snd (?m db)) = du_intents db"
    using assms True by (simp_all add: get_job_def present_def log_move_def prog_defs row_by_append)
  have "jobs_change db (snd (?m db))"
    by (rule Fresh [OF _ _ v(1,2)]) (use assms True in \<open>auto simp: first_move_def row_by_None\<close>)
  then show ?thesis using Kept [OF v(3)] by (simp add: change_def)
qed (simp add: prog_defs)

lemma get_job_part: "frame durable_part (get_job jid)"
  unfolding get_job_def by (intro frame_rules)

lemma create_job_change:
  fixes db :: "'x durable_db_scheme"
  shows "changes (create_job V tenant project kind spec spec_hash requested_by due_at max_tries recurrence wanted) db"
  unfolding create_job_def Let_def
proof (intro changes_bnd_frame changes_atomic, goal_cases)
  case (5 jid v1 t v2 u v3 existing v4)
  from 5(7) have e: "existing = row_by dj_id jid (du_jobs v4)" by (auto simp: get_job_def gets_def)
  show ?case
  proof (cases existing)
    case None
    then show ?thesis using e by (simp add: insert_job_change)
  qed (simp add: prog_defs)
qed (auto intro!: frame_rules steady_durable_part ensure_part get_job_part)

subsection \<open>The writes of the journal\<close>

lemma active_fence_reads:
  "active_fence jid token now db = (out, v) \<Longrightarrow> v = db \<and>
    (case out of Inl _ \<Rightarrow> True | Inr j \<Rightarrow> j \<in> set (du_jobs db) \<and> dj_id j = jid \<and> dj_token j = token)"
  by (auto simp: active_fence_def get_job_def live_fence_def prog_defs dest!: row_by_SomeD split: option.splits if_splits)

lemma settle_intent_change:
  assumes upd: "\<And>i. same_intent i (upd i)"
  shows "changes (settle_intent key jid token now upd lost) db"
  unfolding settle_intent_def
proof (intro changes_atomic)
  show "changes (bnd (active_fence jid token now) (\<lambda>j.
    bnd (gets (\<lambda>db. count_rows (intent_hit key j) (du_intents db))) (\<lambda>n.
    bnd (modify (du_intents_update (update_rows (intent_hit key j) upd))) (\<lambda>_.
    bnd (guard (n = 1) (StaleFence lost)) (\<lambda>_.
    bnd (get_intent key) present))))) db" (is "changes ?m db")
  proof (cases "active_fence jid token now db")
    case (Pair out v)
    then have v: "v = db" using active_fence_reads by blast
    show ?thesis
    proof (cases out)
      case (Inl e)
      then show ?thesis using Pair v by (simp add: bnd_def)
    next
      case (Inr j)
      let ?v = "snd (?m db)"
      have part: "du_jobs ?v = du_jobs db" "du_moves ?v = du_moves db" "du_intents ?v = update_rows (intent_hit key j) upd (du_intents db)"
        using Pair v Inr by (auto simp: prog_defs get_intent_def present_def split: option.splits)
      have "intents_change db ?v"
        by (rule Settled [OF _ part(3)]) (simp add: intent_hit_def upd)
      then show ?thesis using part by (simp add: change_def Same)
    qed
  qed
qed

lemma changes_bnd_ret: "changes m db \<Longrightarrow> changes (bnd m (\<lambda>a. ret (g a))) db"
  by (cases "m db"; cases "fst (m db)") (auto simp: bnd_def ret_def)

lemma changes_guard: "(b \<Longrightarrow> changes m db) \<Longrightarrow> changes (bnd (guard b e) (\<lambda>_. m)) db"
  by (simp add: bnd_def guard_def ret_def raise_def)

lemma journal_changes:
  "changes (mark_intent_unconfirmed key jid token now cls) db"
  "changes (settle_intent_failed redact key jid token now receipt) db"
  "changes (commit_intent redact key receipt token jid now) db"
  unfolding mark_intent_unconfirmed_def settle_intent_failed_def commit_intent_def Let_def
  by (intro changes_guard changes_bnd_ret settle_intent_change; simp add: same_intent_def)+

lemma reserve_intent_change:
  fixes db :: "'x durable_db_scheme"
  shows "changes (reserve_intent key job tick operation target input_hash contract retry_class pre_image token now) db"
proof -
  let ?i = "\<lparr>di_key = key, di_job = dj_id job, di_tenant = dj_tenant job, di_project = dj_project job,
               di_tick = tick, di_operation = operation, di_target = target, di_input_hash = input_hash, di_contract = contract,
               di_retry_class = retry_class, di_pre_image = pre_image, di_status = Int_INTENT, di_token = token,
               di_receipt = JDict [], di_created = iso now, di_committed = None\<rparr>"
  let ?row = "find (\<lambda>q. dj_id q = dj_id job \<and> dj_tenant q = dj_tenant job \<and> dj_project q = dj_project job) (du_jobs db)"
  let ?v = "snd (reserve_intent key job tick operation target input_hash contract retry_class pre_image token now db)"
  note run = reserve_intent_def atomic_db_def get_intent_def present_def prog_defs
  show ?thesis
  proof (cases "(case ?row of None \<Rightarrow> False | Some q \<Rightarrow> live_fence token (iso now) q) \<and> row_by di_key key (du_intents db) = None \<and>
      retry_class \<in> set retry_classes")
    case True
    then obtain q where q: "?row = Some q" "dj_token q = token" by (auto simp: live_fence_def split: option.splits)
    have mem: "q \<in> set (du_jobs db)" "dj_id q = dj_id job" "dj_tenant q = dj_tenant job" "dj_project q = dj_project job"
      using q(1) by (auto simp: find_Some_iff)
    have part: "du_jobs ?v = du_jobs db" "du_moves ?v = du_moves db" "du_intents ?v = du_intents db @ [?i]"
      using True q(1) by (simp_all add: run row_by_append)
    have "intents_change db ?v"
      by (rule Reserved [OF _ mem(1) _ part(3)]) (use True mem q in \<open>auto simp: row_by_None owned_by_def\<close>)
    then show ?thesis using part by (simp add: change_def Same)
  next
    case False
    have "durable_part ?v = durable_part db"
      using False by (auto simp: run durable_part_def split: option.splits)
    then show ?thesis by (rule change_part)
  qed
qed

lemma record_tick_part: "frame durable_part (record_tick trace job worker outcome started finished)"
  unfolding record_tick_def by (intro frame_rules steady_durable_part) (simp add: durable_part_def)

subsection \<open>The invariant\<close>

definition moves_of :: "string \<Rightarrow> durable_move list \<Rightarrow> durable_move list" where
  "moves_of jid ms = filter (\<lambda>m. dt_job m = jid) ms"

fun linked :: "run_state \<Rightarrow> durable_move list \<Rightarrow> bool" where
  "linked src [] = True"
| "linked src (m # ms) = (dt_from m = src \<and> dt_to m \<in> run_transitions src \<and> linked (dt_to m) ms)"

definition job_history :: "durable_move list \<Rightarrow> durable_job \<Rightarrow> bool" where
  "job_history ms j = (let es = moves_of (dj_id j) ms in es \<noteq> [] \<and> linked Run_DORMANT es \<and> dt_to (last es) = dj_state j \<and>
     dt_token (last es) = dj_token j \<and> sorted (map dt_token es) \<and> int (length es) \<le> dj_version j)"

definition durable_ok :: "'x durable_db_scheme \<Rightarrow> bool" where
  "durable_ok db = (tables_ok db \<and> list_all (job_history (du_moves db)) (du_jobs db) \<and>
     dt_job ` set (du_moves db) \<subseteq> dj_id ` set (du_jobs db) \<and>
     list_all (\<lambda>i. list_ex (\<lambda>j. owned_by j i) (du_jobs db)) (du_intents db))"

text \<open>A row read earlier: the job is still there, at this version or a later one.\<close>

definition seen_ok :: "'x durable_db_scheme \<Rightarrow> durable_job \<Rightarrow> bool" where
  "seen_ok db s = (\<exists>j\<in>set (du_jobs db). dj_id j = dj_id s \<and> dj_version s \<le> dj_version j \<and> (dj_version s = dj_version j \<longrightarrow> bare s = bare j))"

lemma linked_snoc: "linked s (ms @ [m]) \<longleftrightarrow> linked s ms \<and> dt_from m = (if ms = [] then s else dt_to (last ms)) \<and>
    dt_to m \<in> run_transitions (dt_from m)"
  by (induction s ms rule: linked.induct) auto

lemma moves_of_snoc: "moves_of jid (ms @ [m]) = moves_of jid ms @ (if dt_job m = jid then [m] else [])"
  by (simp add: moves_of_def)

lemma job_history_other: "dt_job m \<noteq> dj_id j \<Longrightarrow> job_history (ms @ [m]) j = job_history ms j"
  by (simp add: job_history_def moves_of_snoc)

lemma job_history_quiet: "job_history ms j \<Longrightarrow> forward j j' \<Longrightarrow> dj_state j' = dj_state j \<Longrightarrow> dj_token j' = dj_token j \<Longrightarrow> job_history ms j'"
  by (auto simp: job_history_def forward_def Let_def dest: bare_same)

lemma job_history_logged:
  assumes "job_history ms j" "forward j j'" "logs j j' m"
  shows "job_history (ms @ [m]) j'"
proof -
  let ?es = "moves_of (dj_id j) ms"
  have h: "?es \<noteq> []" "linked Run_DORMANT ?es" "dt_to (last ?es) = dj_state j" "dt_token (last ?es) = dj_token j" "sorted (map dt_token ?es)"
    "int (length ?es) \<le> dj_version j"
    using assms(1) by (simp_all add: job_history_def Let_def)
  have last: "dt_token e \<le> dt_token (last ?es)" if "e \<in> set ?es" for e
  proof -
    have es: "map dt_token ?es = map dt_token (butlast ?es) @ [dt_token (last ?es)]"
      using h(1) by (metis append_butlast_last_id list.simps(8,9) map_append)
    show ?thesis
    proof (cases "e = last ?es")
      case False
      then have "e \<in> set (butlast ?es)" using that h(1) by (metis Un_iff append_butlast_last_id empty_iff empty_set set_ConsD set_append)
      then show ?thesis using h(5) es by (auto simp: sorted_append)
    qed simp
  qed
  have "moves_of (dj_id j') (ms @ [m]) = ?es @ [m]" using assms(2,3) by (simp add: moves_of_snoc forward_def logs_def)
  moreover have "sorted (map dt_token (?es @ [m]))"
    using h(4,5) last assms(2,3) by (force simp: sorted_append forward_def logs_def)
  ultimately show ?thesis
    using h assms(2,3) by (simp add: job_history_def Let_def linked_snoc forward_def logs_def)
qed

lemma owned_by_forward: "owned_by j i \<Longrightarrow> forward j j' \<Longrightarrow> owned_by j' i"
  by (auto simp: owned_by_def forward_def)

lemma put_later:
  assumes "distinct (map dj_id js)" "j \<in> set js" "q \<in> set js" "forward j j'"
  shows "\<exists>q'\<in>set (put_job j' js). q' = q \<or> forward q q'"
proof (cases "q = j")
  case True
  have "j' \<in> set (put_job j' js)" using assms(2,4) by (intro put_job_mem [of j]) (simp_all add: forward_def)
  then show ?thesis using True assms(4) by blast
next
  case False
  then have "dj_id q \<noteq> dj_id j" using assms(1-3) by (auto simp: distinct_map dest: inj_onD)
  then show ?thesis using in_put_job [OF assms(3), of j'] assms(4) by (intro bexI [of _ q]) (simp_all add: forward_def)
qed

lemma jobs_change_later:
  assumes "jobs_change db v" "distinct (map dj_id (du_jobs db))" "q \<in> set (du_jobs db)"
  shows "\<exists>q'\<in>set (du_jobs v). q' = q \<or> forward q q'"
  using assms(1)
proof (cases rule: jobs_change.cases)
  case (Quiet j j')
  then show ?thesis using put_later [OF assms(2) _ assms(3)] by simp
next
  case (Logged j j' m)
  then show ?thesis using put_later [OF assms(2) _ assms(3)] by simp
qed (use assms(3) in auto)

lemma change_keeps_jobs:
  fixes db v :: "'x durable_db_scheme"
  assumes ok: "durable_ok db" and ch: "jobs_change db v"
  shows "distinct (map dj_id (du_jobs v)) \<and> list_all job_legal (du_jobs v) \<and> list_all (job_history (du_moves v)) (du_jobs v) \<and>
    dt_job ` set (du_moves v) \<subseteq> dj_id ` set (du_jobs v)"
proof -
  have h: "distinct (map dj_id (du_jobs db))" "list_all job_legal (du_jobs db)" "list_all (job_history (du_moves db)) (du_jobs db)"
    "dt_job ` set (du_moves db) \<subseteq> dj_id ` set (du_jobs db)"
    using ok by (simp_all add: durable_ok_def tables_ok_def)
  have put: "dj_id ` set (put_job j' (du_jobs db)) = dj_id ` set (du_jobs db)" for j'
    by (metis put_job_ids list.set_map)
  show ?thesis
    using ch
  proof (cases rule: jobs_change.cases)
    case Same
    then show ?thesis using h by simp
  next
    case (Quiet j j')
    then have id: "dj_id j' = dj_id j" by (simp add: forward_def)
    have "job_history (du_moves db) q" if "q \<in> set (put_job j' (du_jobs db))" for q
      using set_put_job [OF that] h(3) Quiet job_history_quiet [of "du_moves db" j j'] by (auto simp: list_all_iff)
    then show ?thesis
      using h Quiet put id legal_put_job [OF h(2), of j j'] by (simp add: put_job_ids list_all_iff)
  next
    case (Logged j j' m)
    then have id: "dj_id j' = dj_id j" "dt_job m = dj_id j" by (simp_all add: forward_def logs_def)
    have "job_history (du_moves db @ [m]) q" if "q \<in> set (put_job j' (du_jobs db))" for q
      using set_put_job [OF that] h(3) Logged job_history_logged [of "du_moves db" j j' m] id
      by (auto simp: list_all_iff job_history_other)
    then show ?thesis
      using h Logged put id legal_put_job [OF h(2), of j j'] by (auto simp: put_job_ids list_all_iff)
  next
    case (Fresh j m)
    have "dj_id j \<notin> dt_job ` set (du_moves db)" using Fresh(1) h(4) by blast
    then have none: "moves_of (dj_id j) (du_moves db) = []"
      unfolding moves_of_def filter_empty_conv by (metis image_eqI)
    have first: "job_history (du_moves db @ [m]) j"
      using Fresh none by (simp add: job_history_def first_move_def moves_of_snoc job_legal_def run_transitions_def)
    have "job_history (du_moves db @ [m]) q" if "q \<in> set (du_jobs db)" for q
      using that Fresh h(3) by (subst job_history_other) (auto simp: list_all_iff first_move_def)
    then show ?thesis
      using h Fresh first by (auto simp: list_all_iff first_move_def)
  qed
qed

lemma change_keeps_intents:
  fixes db v :: "'x durable_db_scheme"
  assumes ok: "durable_ok db" and ch: "change db v"
  shows "distinct (map di_key (du_intents v)) \<and> list_all (\<lambda>i. list_ex (\<lambda>j. owned_by j i) (du_jobs v)) (du_intents v)"
proof -
  have jobs: "jobs_change db v" and intents: "intents_change db v" using ch by (simp_all add: change_def)
  have h: "distinct (map dj_id (du_jobs db))" "distinct (map di_key (du_intents db))"
    "\<And>i. i \<in> set (du_intents db) \<Longrightarrow> \<exists>j\<in>set (du_jobs db). owned_by j i"
    using ok by (auto simp: durable_ok_def tables_ok_def list_all_iff list_ex_iff)
  have later: "\<exists>j\<in>set (du_jobs v). owned_by j i" if "j \<in> set (du_jobs db)" "owned_by j i" for i j
    using jobs_change_later [OF jobs h(1) that(1)] owned_by_forward that(2) by blast
  show ?thesis
    using intents
  proof (cases rule: intents_change.cases)
    case Kept
    then show ?thesis using h later by (fastforce simp: list_all_iff list_ex_iff)
  next
    case (Reserved i j)
    then show ?thesis using h later by (fastforce simp: list_all_iff list_ex_iff)
  next
    case (Settled hit f)
    have keys: "map di_key (du_intents v) = map di_key (du_intents db)"
      unfolding Settled(2) using Settled(1) by (intro map_update_rows) (auto simp: same_intent_def)
    have "\<exists>j\<in>set (du_jobs v). owned_by j i" if mem: "i \<in> set (du_intents v)" for i
    proof -
      obtain i0 where i0: "i0 \<in> set (du_intents db)" "i = (if hit i0 then f i0 else i0)"
        using mem unfolding Settled(2) set_update_rows by blast
      then have "owned_by j i = owned_by j i0" for j using Settled(1) [of i0] by (auto simp: same_intent_def owned_by_def)
      then show ?thesis using h(3) [OF i0(1)] later by blast
    qed
    then show ?thesis using keys h(2) by (simp add: list_all_iff list_ex_iff)
  qed
qed

lemma change_ok: "durable_ok db \<Longrightarrow> change db v \<Longrightarrow> durable_ok v" for db v :: "'x durable_db_scheme"
  using change_keeps_jobs [of db v] change_keeps_intents [of db v] by (simp add: change_def durable_ok_def tables_ok_def)

lemma change_seen:
  fixes db v :: "'x durable_db_scheme"
  assumes "durable_ok db" "change db v" "seen_ok db s"
  shows "seen_ok v s"
proof -
  obtain j where j: "j \<in> set (du_jobs db)" "dj_id j = dj_id s" "dj_version s \<le> dj_version j" "dj_version s = dj_version j \<longrightarrow> bare s = bare j"
    using assms(3) by (auto simp: seen_ok_def)
  have "distinct (map dj_id (du_jobs db))" "jobs_change db v" using assms(1,2) by (simp_all add: durable_ok_def tables_ok_def change_def)
  then obtain q' where q': "q' \<in> set (du_jobs v)" "q' = j \<or> forward j q'" using jobs_change_later j(1) by blast
  from q'(2) show ?thesis
  proof
    assume "q' = j"
    then show ?thesis using q'(1) j by (auto simp: seen_ok_def)
  next
    assume "forward j q'"
    then have "dj_id q' = dj_id s" "dj_version s < dj_version q' \<or> dj_version q' = dj_version j \<and> bare q' = bare j"
      using j by (auto simp: forward_def dest: bare_same)
    then show ?thesis using q'(1) j unfolding seen_ok_def by (intro bexI [of _ q']) auto
  qed
qed

subsection \<open>Interleaved workers\<close>

text \<open>
  The state of the system: the database, and the rows any worker has read so far. A claim writes what
  it decided on such a row (as \<open>claim_due_job\<close> does after its query), and so does a transition.
\<close>

inductive durable_step :: "env \<Rightarrow> (json \<Rightarrow> json) \<Rightarrow> 'x durable_db_scheme \<times> durable_job set \<Rightarrow> 'x durable_db_scheme \<times> durable_job set \<Rightarrow> bool"
  for V :: env and redact :: "json \<Rightarrow> json" where
  W_read: "durable_step V redact (db, S) (db, S \<union> set (du_jobs db))"
| W_clock: "durable_step V redact (db, S) (w_reads_update f (w_uuids_update g db), S)"
| W_create: "durable_step V redact (db, S)
    (snd (create_job V tenant project kind spec spec_hash requested_by due_at max_tries recurrence wanted db), S)"
| W_claim: "s \<in> S \<Longrightarrow> assert_run_transition (dj_state s) (entered_state s) = Inr () \<Longrightarrow>
    durable_step V redact (db, S) (snd (claim_write worker stamp expires s db), S)"
| W_renew: "durable_step V redact (db, S) (snd (renew_lease jid worker token now lease db), S)"
| W_write: "s \<in> S \<Longrightarrow> transition_check jid (Some s) dst token stamp us = Inr s \<Longrightarrow>
    durable_step V redact (db, S) (snd (transition_write s dst token stamp reason trace us db), S)"
| W_cancel: "durable_step V redact (db, S) (snd (cancel_job V project jid db), S)"
| W_reserve: "durable_step V redact (db, S)
    (snd (reserve_intent key job tick operation target input_hash contract retry_class pre_image token now db), S)"
| W_unconfirmed: "durable_step V redact (db, S) (snd (mark_intent_unconfirmed key jid token now cls db), S)"
| W_failed: "durable_step V redact (db, S) (snd (settle_intent_failed redact key jid token now receipt db), S)"
| W_commit: "durable_step V redact (db, S) (snd (commit_intent redact key receipt token jid now db), S)"
| W_result: "durable_step V redact (db, S) (snd (set_job_result jid token result db), S)"
| W_tick: "durable_step V redact (db, S) (snd (record_tick trace tjob worker outcome started finished db), S)"

abbreviation durable_run :: "env \<Rightarrow> (json \<Rightarrow> json) \<Rightarrow> 'x durable_db_scheme \<times> durable_job set \<Rightarrow> 'x durable_db_scheme \<times> durable_job set \<Rightarrow> bool" where
  "durable_run V redact \<equiv> (durable_step V redact)\<^sup>*\<^sup>*"

definition durable_start :: "'x durable_db_scheme \<times> durable_job set \<Rightarrow> bool" where
  "durable_start x = (du_jobs (fst x) = [] \<and> du_moves (fst x) = [] \<and> du_intents (fst x) = [] \<and> snd x = {})"

definition machine_ok :: "'x durable_db_scheme \<times> durable_job set \<Rightarrow> bool" where
  "machine_ok x = (durable_ok (fst x) \<and> (\<forall>s\<in>snd x. seen_ok (fst x) s))"

lemma same_job: "tables_ok db \<Longrightarrow> a \<in> set (du_jobs db) \<Longrightarrow> b \<in> set (du_jobs db) \<Longrightarrow> dj_id a = dj_id b \<Longrightarrow> a = b"
  unfolding tables_ok_def distinct_map by (metis inj_onD)

lemma durable_step_change:
  fixes x y :: "'x durable_db_scheme \<times> durable_job set"
  assumes step: "durable_step V redact x y" and ok: "machine_ok x"
  shows "change (fst x) (fst y) \<and> (\<forall>s\<in>snd y. s \<in> snd x \<or> s \<in> set (du_jobs (fst x)))"
proof -
  have tables: "tables_ok (fst x)" using ok by (simp add: machine_ok_def durable_ok_def)
  show ?thesis
    using step
  proof (cases rule: durable_step.cases)
    case (W_clock db S f g)
    then show ?thesis by (auto intro: change_same)
  next
    case (W_claim s S db worker stamp expires)
    have "bare j = bare s" if "j \<in> set (du_jobs db)" "dj_id j = dj_id s" "dj_version j = dj_version s" for j
    proof -
      obtain q where q: "q \<in> set (du_jobs db)" "dj_id q = dj_id s" "dj_version s = dj_version q \<longrightarrow> bare s = bare q"
        using ok W_claim by (auto simp: machine_ok_def seen_ok_def)
      then have "q = j" using that tables W_claim by (intro same_job [of db]) simp_all
      then show ?thesis using q that by simp
    qed
    then have "changes (claim_write worker stamp expires s) db"
      using W_claim tables by (intro claim_write_change) simp_all
    then show ?thesis using W_claim by simp
  next
    case (W_write s S jid dst token stamp us db reason trace)
    then have "changes (transition_write s dst token stamp reason trace us) db"
      using transition_check_ok [OF W_write(4)] tables by (intro transition_write_change) simp_all
    then show ?thesis using W_write by simp
  next
    case (W_tick db S trace tjob worker outcome started finished)
    then show ?thesis using changes_frame [OF record_tick_part] by simp
  qed (use tables in \<open>auto intro: create_job_change renew_lease_change cancel_job_change reserve_intent_change set_job_result_change journal_changes\<close>)
qed

lemma machine_ok_step:
  fixes x y :: "'x durable_db_scheme \<times> durable_job set"
  assumes "durable_step V redact x y" "machine_ok x"
  shows "machine_ok y"
proof -
  have ch: "change (fst x) (fst y)" and new: "\<forall>s\<in>snd y. s \<in> snd x \<or> s \<in> set (du_jobs (fst x))"
    using durable_step_change [OF assms] by simp_all
  have ok: "durable_ok (fst x)" "\<And>s. s \<in> snd x \<Longrightarrow> seen_ok (fst x) s" using assms(2) by (simp_all add: machine_ok_def)
  have "seen_ok (fst x) s" if "s \<in> set (du_jobs (fst x))" for s using that by (auto simp: seen_ok_def)
  then have "seen_ok (fst x) s" if "s \<in> snd y" for s using that new ok(2) by blast
  then show ?thesis
    using change_ok [OF ok(1) ch] change_seen [OF ok(1) ch] by (simp add: machine_ok_def)
qed

lemma machine_ok_run: "durable_run V redact x y \<Longrightarrow> machine_ok x \<Longrightarrow> machine_ok y"
  by (induction rule: rtranclp_induct) (auto intro: machine_ok_step)

lemma machine_ok_start: "durable_start x \<Longrightarrow> machine_ok x"
  by (simp add: durable_start_def machine_ok_def durable_ok_def tables_ok_def)

lemma run_later:
  fixes x y :: "'x durable_db_scheme \<times> durable_job set"
  assumes "durable_run V redact x y" "machine_ok x" "j \<in> set (du_jobs (fst x))"
  shows "\<exists>q\<in>set (du_jobs (fst y)). dj_id q = dj_id j \<and> dj_token j \<le> dj_token q"
  using assms
proof (induction rule: rtranclp_induct)
  case (step y z)
  then obtain q where q: "q \<in> set (du_jobs (fst y))" "dj_id q = dj_id j" "dj_token j \<le> dj_token q" by blast
  have ok: "machine_ok y" using machine_ok_run step by blast
  then have "jobs_change (fst y) (fst z)" "distinct (map dj_id (du_jobs (fst y)))"
    using durable_step_change [OF step(2)] by (simp_all add: change_def machine_ok_def durable_ok_def tables_ok_def)
  then obtain q' where q': "q' \<in> set (du_jobs (fst z))" "q' = q \<or> forward q q'" using jobs_change_later q(1) by blast
  then have "dj_id q' = dj_id j" "dj_token j \<le> dj_token q'" using q(2,3) by (auto simp: forward_def)
  then show ?case using q'(1) by blast
qed auto

lemma run_token:
  fixes x y :: "'x durable_db_scheme \<times> durable_job set"
  assumes "durable_run V redact x y" "machine_ok x" "row_by dj_id jid (du_jobs (fst x)) = Some j"
  obtains q where "row_by dj_id jid (du_jobs (fst y)) = Some q" "dj_token j \<le> dj_token q"
proof -
  obtain q where q: "q \<in> set (du_jobs (fst y))" "dj_id q = jid" "dj_token j \<le> dj_token q"
    using run_later [OF assms(1,2)] row_by_SomeD [OF assms(3)] by blast
  have "distinct (map dj_id (du_jobs (fst y)))"
    using machine_ok_run [OF assms(1,2)] by (simp add: machine_ok_def durable_ok_def tables_ok_def)
  then have "row_by dj_id (dj_id q) (du_jobs (fst y)) = Some q" using q(1) by (rule row_by_distinct)
  then show thesis using that q(2,3) by simp
qed

text \<open>
  C12. Whatever the workers do, in any interleaving, the log of every durable job is a walk from
  DORMANT to the state of its row: each entry leaves the state the one before entered, every step is
  one \<open>assert_transition\<close> allows, and the fencing tokens of the log never decrease and end with the
  token of the row. Claims and transitions decide on rows read in an earlier transaction.
\<close>

theorem durable_log_follows_fsm:
  assumes "durable_start x" and "durable_run V redact x (db, S)"
  shows "list_all (\<lambda>j. \<exists>es. list_moves (dj_id j) db = (Inr es, db) \<and> es \<noteq> [] \<and> dt_from (hd es) = Run_DORMANT \<and>
    dt_to (last es) = dj_state j \<and> dt_token (last es) = dj_token j \<and> sorted (map dt_token es) \<and>
    successively (\<lambda>a b. dt_from b = dt_to a) es \<and>
    list_all (\<lambda>m. assert_run_transition (dt_from m) (dt_to m) = Inr ()) es) (du_jobs db)"
proof -
  have "durable_ok db" using machine_ok_run [OF assms(2) machine_ok_start [OF assms(1)]] by (simp add: machine_ok_def)
  then have h: "list_all (job_history (du_moves db)) (du_jobs db)" by (simp add: durable_ok_def)
  have walk: "linked s es \<Longrightarrow> (es \<noteq> [] \<longrightarrow> dt_from (hd es) = s) \<and> successively (\<lambda>a b. dt_from b = dt_to a) es \<and>
      list_all (\<lambda>m. assert_run_transition (dt_from m) (dt_to m) = Inr ()) es" for s es
  proof (induction s es rule: linked.induct)
    case (2 s m ms)
    then show ?case by (cases ms) (auto simp: assert_run_transition_def)
  qed simp
  show ?thesis
    by (rule list.pred_mono_strong [OF h])
       (use walk in \<open>auto simp: job_history_def Let_def list_moves_def gets_def moves_of_def\<close>)
qed

subsection \<open>Fences\<close>

lemma stale_active_fence:
  "row_by dj_id jid (du_jobs db) = Some j \<Longrightarrow> dj_token j \<noteq> token \<Longrightarrow> \<exists>r. active_fence jid token now db = (Inl (StaleFence r), db)"
  by (simp add: active_fence_def get_job_def live_fence_def prog_defs)

lemma stale_settle:
  assumes "row_by dj_id jid (du_jobs db) = Some j" "dj_token j \<noteq> token"
  shows "\<exists>r. settle_intent key jid token now upd lost db = (Inl (StaleFence r), db)"
  using stale_active_fence [OF assms, of now] by (auto simp: settle_intent_def atomic_db_def bnd_def)

lemma stale_transition_write:
  assumes "tables_ok db" "row_by dj_id (dj_id s) (du_jobs db) = Some j" "dj_token j \<noteq> token"
  shows "\<exists>r. transition_write s dst token stamp reason trace us db = (Inl (StaleFence r), db)"
proof -
  let ?hit = "\<lambda>q. dj_id q = dj_id s \<and> dj_token q = token \<and> dj_state q = dj_state s"
  have "count_rows ?hit (du_jobs db) = 0 \<and> update_rows ?hit (stepped us dst stamp) (du_jobs db) = du_jobs db"
    by (rule cas_cases [OF assms(1), of ?hit "dj_id s" "stepped us dst stamp"]) (use assms(2,3) in auto)
  then show ?thesis
    using assms(1) by (simp add: transition_write_def atomic_db_def prog_defs Let_def tables_ok_def)
qed

lemma stale_reserve:
  assumes "tables_ok db" "row_by dj_id (dj_id job) (du_jobs db) = Some j" "dj_token j \<noteq> token"
  shows "\<exists>r. reserve_intent key job tick operation target input_hash contract retry_class pre_image token now db = (Inl (StaleFence r), db)"
proof -
  let ?own = "\<lambda>q. dj_id q = dj_id job \<and> dj_tenant q = dj_tenant job \<and> dj_project q = dj_project job"
  have "\<not> live_fence token (iso now) q" if "find ?own (du_jobs db) = Some q" for q
  proof -
    have "q \<in> set (du_jobs db)" "dj_id q = dj_id job" using that by (auto simp: find_Some_iff)
    then have "q = j" using row_by_SomeD [OF assms(2)] by (auto intro: same_job [OF assms(1)])
    then show ?thesis using assms(3) by (simp add: live_fence_def)
  qed
  then show ?thesis
    by (cases "find ?own (du_jobs db)") (simp_all add: reserve_intent_def atomic_db_def prog_defs)
qed

definition superseded :: "('x, 'a) durable \<Rightarrow> 'x durable_db_scheme \<Rightarrow> bool" where
  "superseded m db = (\<exists>text. m db = (Inl (StaleFence text), db))"

text \<open>
  C13. A worker whose lease was taken over can write nothing: once the row of a job carries a higher
  fencing token, then at any later moment, under the old token, every transition, every journal insert
  (\<open>reserve_intent\<close>), every commit and every reconciliation of an intent raises StaleFence and leaves
  the database as it was, and so does a transition the worker had already decided on a row it read
  before; so do settling an intent as failed or unconfirmed and renewing the lease, unless their own
  arguments are refused first; and a write of the job's result changes nothing.
\<close>

theorem stale_fence_excluded:
  fixes x :: "'x durable_db_scheme \<times> durable_job set"
  assumes "durable_start x" and "durable_run V redact x y" and "row_by dj_id jid (du_jobs (fst y)) = Some j" and "k < dj_token j"
    and "durable_run V redact y (db, S)"
  shows "superseded (job_transition jid dst k now reason trace us) db \<and>
    superseded (reserve_intent key (job\<lparr>dj_id := jid\<rparr>) tick operation target input_hash contract retry_class pre_image k now) db \<and>
    superseded (commit_intent redact key receipt k jid now) db \<and>
    superseded (reconcile_provider_intent redact key jid k now look) db \<and>
    superseded (transition_write (s\<lparr>dj_id := jid\<rparr>) dst k stamp reason trace us) db \<and>
    (\<exists>text. settle_intent_failed redact key jid k now receipt db = (Inl (if receipt_status receipt = JStr ''FAILED'' then StaleFence text
       else DurableValue ''authoritative FAILED receipt required''), db)) \<and>
    (\<exists>text. mark_intent_unconfirmed key jid k now error_class db = (Inl (if is_identifier (take 80 error_class) then StaleFence text
       else DurableValue ''error_class must be a sanitized identifier''), db)) \<and>
    (\<exists>text. renew_lease jid worker k now lease db = (Inl (if jid = [] \<or> worker = [] \<or> k \<le> 0 \<or> lease \<le> 0
       then DurableValue ''job_id, worker_id, positive fence and lease_seconds required'' else StaleFence text), db)) \<and>
    set_job_result jid k result db = (Inr (), db)"
proof -
  have ok: "machine_ok y" "machine_ok (db, S)"
    using machine_ok_run assms(2,5) machine_ok_start [OF assms(1)] by blast+
  obtain i where row: "row_by dj_id jid (du_jobs db) = Some i" "dj_token j \<le> dj_token i"
    using run_token [OF assms(5) ok(1) assms(3)] by auto
  then have old: "dj_token i \<noteq> k" using assms(4) by simp
  have tables: "tables_ok db" using ok(2) by (simp add: machine_ok_def durable_ok_def)
  have no_row: "\<not> (dj_id q = jid \<and> dj_token q = k)" if "q \<in> set (du_jobs db)" for q
    using same_job [OF tables that, of i] row_by_SomeD [OF row(1)] old by auto
  note settle = stale_settle [OF row(1) old]
  have "superseded (job_transition jid dst k now reason trace us) db"
    using row(1) old by (simp add: superseded_def job_transition_def get_job_def transition_check_def prog_defs)
  moreover have "superseded (reserve_intent key (job\<lparr>dj_id := jid\<rparr>) tick operation target input_hash contract retry_class pre_image k now) db"
    unfolding superseded_def by (rule stale_reserve [OF tables _ old]) (simp add: row)
  moreover have "superseded (commit_intent redact key receipt k jid now) db"
    using settle [of key now "\<lambda>i. i\<lparr>di_status := Int_COMMITTED, di_receipt := redact receipt, di_committed := Some (iso now)\<rparr>"
      "''intent '' @ take 12 key @ '' is already settled, invalid or out of scope''"]
    by (auto simp: superseded_def commit_intent_def bnd_def)
  moreover have "superseded (reconcile_provider_intent redact key jid k now look) db"
    using stale_active_fence [OF row(1) old, of now] by (auto simp: superseded_def reconcile_provider_intent_def bnd_def)
  moreover have "superseded (transition_write (s\<lparr>dj_id := jid\<rparr>) dst k stamp reason trace us) db"
    using row(1) old unfolding superseded_def by (intro stale_transition_write [OF tables, of _ i]) simp_all
  moreover have "\<exists>text. settle_intent_failed redact key jid k now receipt db = (Inl (if receipt_status receipt = JStr ''FAILED'' then StaleFence text
       else DurableValue ''authoritative FAILED receipt required''), db)"
    using settle by (simp add: settle_intent_failed_def bnd_def guard_def ret_def raise_def)
  moreover have "\<exists>text. mark_intent_unconfirmed key jid k now error_class db = (Inl (if is_identifier (take 80 error_class) then StaleFence text
       else DurableValue ''error_class must be a sanitized identifier''), db)"
    using settle by (simp add: mark_intent_unconfirmed_def Let_def bnd_def guard_def ret_def raise_def)
  moreover have "\<exists>text. renew_lease jid worker k now lease db = (Inl (if jid = [] \<or> worker = [] \<or> k \<le> 0 \<or> lease \<le> 0
       then DurableValue ''job_id, worker_id, positive fence and lease_seconds required'' else StaleFence text), db)"
    using row(1) old by (simp add: renew_lease_def atomic_db_def get_job_def prog_defs Let_def)
  moreover have "set_job_result jid k result db = (Inr (), db)"
    using update_rows_id [of "du_jobs db"] no_row by (simp add: set_job_result_def prog_defs)
  ultimately show ?thesis by (intro conjI)
qed

lemma claim_due_returns:
  assumes "tables_ok db" "claim_write worker stamp expires s db = (Inr (Some c), v)"
  shows "dj_id c = dj_id s \<and> row_by dj_id (dj_id c) (du_jobs v) = Some c \<and>
    (\<exists>j. row_by dj_id (dj_id s) (du_jobs db) = Some j \<and> dj_token c = dj_token j + 1)"
proof -
  let ?hit = "\<lambda>q. dj_id q = dj_id s \<and> dj_version q = dj_version s"
  let ?f = "\<lambda>q. q\<lparr>dj_state := entered_state s, dj_owner := Some worker, dj_token := dj_token q + 1, dj_expires := Some expires,
     dj_version := dj_version q + 1, dj_updated := stamp\<rparr>"
  show ?thesis
  proof (rule cas_cases [OF assms(1), of ?hit "dj_id s" ?f])
    show "?hit q \<Longrightarrow> dj_id q = dj_id s" for q by simp
  next
    assume "count_rows ?hit (du_jobs db) = 0" "update_rows ?hit ?f (du_jobs db) = du_jobs db"
    then show ?thesis using assms(2) by (simp add: claim_write_def atomic_db_def prog_defs Let_def)
  next
    fix j
    assume "dj_id j = dj_id s" "count_rows ?hit (du_jobs db) = 1" "row_by dj_id (dj_id s) (du_jobs db) = Some j"
      "dj_id (?f j) = dj_id s \<Longrightarrow> update_rows ?hit ?f (du_jobs db) = put_job (?f j) (du_jobs db)"
      "dj_id (?f j) = dj_id s \<Longrightarrow> row_by dj_id (dj_id s) (put_job (?f j) (du_jobs db)) = Some (?f j)"
    then show ?thesis
      using assms(2) by (auto simp: claim_write_def atomic_db_def get_job_def present_def log_move_def prog_defs Let_def)
  qed
qed

text \<open>
  No two claims of a job ever return the same fencing token: between two successful claims,
  whatever other workers did in between and however old the rows were that the claims decided on, the
  token has grown, so each lease of a job has a token of its own.
\<close>

theorem claims_never_share_token:
  fixes x :: "'x durable_db_scheme \<times> durable_job set"
  assumes "durable_start x" and "durable_run V redact x (db, S)"
    and "s \<in> S" and "assert_run_transition (dj_state s) (entered_state s) = Inr ()"
    and "claim_write worker stamp expires s db = (Inr (Some c), v)"
    and "durable_run V redact (v, S) (db', S')"
    and "claim_write worker' stamp' expires' s' db' = (Inr (Some c'), v')" and "dj_id s' = dj_id s"
  shows "dj_token c < dj_token c'"
proof -
  have ok: "machine_ok (db, S)" using machine_ok_run assms(1,2) machine_ok_start by blast
  have "durable_step V redact (db, S) (v, S)" using W_claim [OF assms(3,4), of V redact db worker stamp expires] assms(5) by simp
  then have ok1: "machine_ok (v, S)" using machine_ok_step ok by blast
  then have ok2: "machine_ok (db', S')" using machine_ok_run assms(6) by blast
  have tables: "tables_ok db" "tables_ok db'" using ok ok2 by (simp_all add: machine_ok_def durable_ok_def)
  note c = claim_due_returns [OF tables(1) assms(5)] and c' = claim_due_returns [OF tables(2) assms(7)]
  obtain q where "row_by dj_id (dj_id c) (du_jobs db') = Some q" "dj_token c \<le> dj_token q"
    by (rule run_token [OF assms(6) ok1, of "dj_id c" c]) (use c in auto)
  then show ?thesis using c c' assms(8) by auto
qed

lemma run_intent:
  fixes x y :: "'x durable_db_scheme \<times> durable_job set"
  assumes "durable_run V redact x y" "machine_ok x" "row_by di_key key (du_intents (fst x)) = Some i"
  shows "\<exists>i'. row_by di_key key (du_intents (fst y)) = Some i' \<and> same_intent i i' \<and> (di_status i \<notin> open_statuses \<longrightarrow> i' = i)"
  using assms
proof (induction rule: rtranclp_induct)
  case base
  then show ?case by (simp add: same_intent_def)
next
  case (step y z)
  then obtain i1 where i1: "row_by di_key key (du_intents (fst y)) = Some i1" "same_intent i i1" "di_status i \<notin> open_statuses \<longrightarrow> i1 = i"
    by blast
  have "machine_ok y" using machine_ok_run step by blast
  then have "intents_change (fst y) (fst z)" using durable_step_change [OF step(2)] by (simp add: change_def)
  then show ?case
  proof (cases rule: intents_change.cases)
    case (Settled hit f)
    have "row_by di_key key (du_intents (fst z)) = Some (if hit i1 then f i1 else i1)"
      unfolding Settled(2) using i1(1) Settled(1) by (subst row_by_update_rows) (auto simp: same_intent_def)
    moreover have "same_intent i (if hit i1 then f i1 else i1)"
      using i1(2) Settled(1) [of i1] by (auto simp: same_intent_def)
    ultimately show ?thesis using i1(3) Settled(1) [of i1] by auto
  qed (use i1 in \<open>auto simp: row_by_append\<close>)
qed

text \<open>
  C14. The intent of an effect is written once and settled once: its key keeps naming the same job,
  scope, tick, operation, target, input and contract whatever runs later, and an intent that is
  COMMITTED or FAILED is never changed again.
\<close>

theorem intent_settled_once:
  fixes x :: "'x durable_db_scheme \<times> durable_job set"
  assumes "durable_start x" and "durable_run V redact x y" and "row_by di_key key (du_intents (fst y)) = Some i"
    and "durable_run V redact y (db, S)"
  shows "\<exists>i'. get_intent key db = (Inr (Some i'), db) \<and> same_intent i i' \<and> (di_status i \<notin> open_statuses \<longrightarrow> i' = i)"
proof -
  have "machine_ok y" using machine_ok_run assms(1,2) machine_ok_start by blast
  from run_intent [OF assms(4) this assms(3)] show ?thesis by (simp add: get_intent_def gets_def)
qed

subsection \<open>A run of two workers\<close>

definition sample_durable :: durable_db where
  "sample_durable = \<lparr>w_reads = 0, w_uuids = 0, ad_tenants = [], ad_projects = [], ad_actions = [], ad_transitions = [],
     ad_policies = [], ad_reservations = [], ad_freezes = [], ad_autonomy = [], ad_effects = [], ad_clients = [], ad_links = [],
     du_jobs = [], du_moves = [], du_intents = [], du_ticks = []\<rparr>"

definition sample_job :: durable_job where
  "sample_job = \<lparr>dj_id = ''j'', dj_tenant = ''t'', dj_project = ''p'', dj_kind = ''render'', dj_spec = JNull, dj_spec_hash = ''h'',
     dj_requested_by = ''u'', dj_state = Run_SCHEDULED, dj_tick = 0, dj_version = 1, dj_owner = None, dj_token = 0,
     dj_expires = None, dj_attempts = 0, dj_max = 3, dj_recurrence = None, dj_due = ''2'', dj_reasons = [], dj_fingerprints = [],
     dj_result = [], dj_created = ''1'', dj_updated = ''1''\<rparr>"

definition sample_env2 :: env where
  "sample_env2 = \<lparr>env_hash = id, env_clock = int, env_uuid = str_nat, env_dt_json = iso\<rparr>"

definition job_created :: durable_job where
  "job_created = sample_job\<lparr>dj_due := iso 0, dj_created := iso 0, dj_updated := iso 0\<rparr>"

definition durable_created :: durable_db where
  "durable_created = snd (create_job sample_env2 ''t'' ''p'' ''render'' JNull ''h'' ''u'' 0 3 None (Some ''j'') sample_durable)"

definition job_claimed :: "string \<Rightarrow> durable_job \<Rightarrow> durable_job" where
  "job_claimed worker j = j\<lparr>dj_state := entered_state j, dj_owner := Some worker, dj_token := dj_token j + 1, dj_expires := Some ''9'',
     dj_version := dj_version j + 1, dj_updated := ''3''\<rparr>"

definition durable_claimed :: "string \<Rightarrow> durable_job \<Rightarrow> durable_db \<Rightarrow> durable_db" where
  "durable_claimed worker j db = snd (claim_write worker ''3'' ''9'' j db)"

lemma created_jobs: "du_jobs durable_created = [job_created]"
  by (simp add: durable_created_def create_job_def sample_durable_def job_created_def sample_job_def sample_env2_def some_or_empty_def
      ensure_tenant_project_def register_tenant_def get_job_def log_move_def present_def utc_now_def atomic_db_def prog_defs Let_def job_legal_def)

lemma claim_runs:
  assumes "du_jobs db = [j]"
  shows "claim_write worker ''3'' ''9'' j db = (Inr (Some (job_claimed worker j)), durable_claimed worker j db) \<and>
    du_jobs (durable_claimed worker j db) = [job_claimed worker j]"
  using assms
  by (simp add: durable_claimed_def job_claimed_def claim_write_def atomic_db_def get_job_def log_move_def present_def prog_defs Let_def count_rows_def)

definition first_claim :: durable_db where
  "first_claim = durable_claimed ''w1'' job_created durable_created"

definition second_claim :: durable_db where
  "second_claim = durable_claimed ''w2'' (job_claimed ''w1'' job_created) first_claim"

abbreviation "lease1 \<equiv> job_claimed ''w1'' job_created"
abbreviation "lease2 \<equiv> job_claimed ''w2'' lease1"

lemma claims:
  "claim_write ''w1'' ''3'' ''9'' job_created durable_created = (Inr (Some lease1), first_claim)"
  "claim_write ''w2'' ''3'' ''9'' lease1 first_claim = (Inr (Some lease2), second_claim)"
  "du_jobs first_claim = [lease1]" "du_jobs second_claim = [lease2]"
  using claim_runs [OF created_jobs, of "''w1''"] claim_runs [of first_claim lease1 "''w2''"]
  by (simp_all add: first_claim_def second_claim_def)

lemma sample_edges:
  "assert_run_transition (dj_state job_created) (entered_state job_created) = Inr ()"
  "assert_run_transition (dj_state lease1) (entered_state lease1) = Inr ()"
  by (simp_all add: job_created_def sample_job_def job_claimed_def entered_state_def assert_run_transition_def run_transitions_def run_sets)

lemma sample_start: "durable_start (sample_durable, {})"
  by (simp add: durable_start_def sample_durable_def)

lemma sample_runs:
  "durable_run sample_env2 id (sample_durable, {}) (durable_created, {job_created})"
  "durable_run sample_env2 id (first_claim, {job_created}) (first_claim, {job_created, lease1})"
  "durable_run sample_env2 id (sample_durable, {}) (first_claim, {job_created, lease1})"
  "durable_run sample_env2 id (sample_durable, {}) (second_claim, {job_created, lease1})"
proof -
  have "durable_step sample_env2 id (sample_durable, {}) (durable_created, {})"
    unfolding durable_created_def by (rule W_create)
  moreover have "durable_step sample_env2 id (durable_created, {}) (durable_created, {job_created})"
    using W_read [of sample_env2 id durable_created "{}"] by (simp add: created_jobs)
  ultimately show s1: "durable_run sample_env2 id (sample_durable, {}) (durable_created, {job_created})"
    by (intro rtranclp.rtrancl_into_rtrancl [OF rtranclp.rtrancl_into_rtrancl [OF rtranclp.rtrancl_refl]])
  have "durable_step sample_env2 id (durable_created, {job_created}) (first_claim, {job_created})"
    using W_claim [of job_created "{job_created}" sample_env2 id durable_created "''w1''" "''3''" "''9''"] claims(1) sample_edges(1) by simp
  then have s2: "durable_run sample_env2 id (sample_durable, {}) (first_claim, {job_created})"
    using s1 by (rule rtranclp.rtrancl_into_rtrancl [rotated])
  have "durable_step sample_env2 id (first_claim, {job_created}) (first_claim, {job_created, lease1})"
    using W_read [of sample_env2 id first_claim "{job_created}"] claims(3) by (simp add: insert_commute)
  then show r: "durable_run sample_env2 id (first_claim, {job_created}) (first_claim, {job_created, lease1})" by (rule r_into_rtranclp)
  show s3: "durable_run sample_env2 id (sample_durable, {}) (first_claim, {job_created, lease1})"
    using s2 r by (rule rtranclp_trans)
  have "durable_step sample_env2 id (first_claim, {job_created, lease1}) (second_claim, {job_created, lease1})"
    using W_claim [of lease1 "{job_created, lease1}" sample_env2 id first_claim "''w2''" "''3''" "''9''"] claims(2) sample_edges(2) by simp
  then show "durable_run sample_env2 id (sample_durable, {}) (second_claim, {job_created, lease1})"
    using s3 by (rule rtranclp.rtrancl_into_rtrancl [rotated])
qed

theorem durable_log_follows_fsm_witness:
  "\<exists>es. list_moves ''j'' second_claim = (Inr es, second_claim) \<and> es \<noteq> [] \<and> dt_to (last es) = Run_RECONCILING \<and> dt_token (last es) = 2"
proof -
  have "dj_id lease2 = ''j'' \<and> dj_state lease2 = Run_RECONCILING \<and> dj_token lease2 = 2"
    by (simp add: job_claimed_def job_created_def sample_job_def entered_state_def run_sets)
  then show ?thesis using durable_log_follows_fsm [OF sample_start sample_runs(4)] claims(4) by auto
qed

theorem claims_never_share_token_witness: "dj_token lease1 < dj_token lease2"
proof (rule claims_never_share_token [OF sample_start sample_runs(1) _ sample_edges(1) claims(1) sample_runs(2) claims(2)])
  show "job_created \<in> {job_created}" by simp
  show "dj_id lease1 = dj_id job_created" by (simp add: job_claimed_def)
qed

theorem stale_fence_excluded_witness:
  "(0::int) < dj_token lease2 - 1 \<and> superseded (commit_intent id ''key'' JNull 1 ''j'' 4) second_claim \<and>
   superseded (reserve_intent ''key'' (lease1\<lparr>dj_id := ''j''\<rparr>) 1 ''op'' ''target'' ''input'' ''v1'' ''RETRY_SAFE'' JNull 1 4) second_claim"
proof -
  have row: "row_by dj_id ''j'' (du_jobs (fst (second_claim, {job_created, lease1}))) = Some lease2" and token: "1 < dj_token lease2"
    by (simp_all add: claims(4)) (simp_all add: job_claimed_def job_created_def sample_job_def)
  show ?thesis
    using stale_fence_excluded [OF sample_start sample_runs(4) row token rtranclp.rtrancl_refl] token by simp
qed

definition intent_reserved :: durable_db where
  "intent_reserved = snd (reserve_intent ''key'' lease1 1 ''op'' ''target'' ''input'' ''v1'' ''RETRY_SAFE'' JNull 1 0 first_claim)"

definition intent_committed :: durable_db where
  "intent_committed = snd (commit_intent id ''key'' (JDict []) 1 ''j'' 0 intent_reserved)"

definition committed_intent :: durable_intent where
  "committed_intent = \<lparr>di_key = ''key'', di_job = ''j'', di_tenant = ''t'', di_project = ''p'', di_tick = 1, di_operation = ''op'',
     di_target = ''target'', di_input_hash = ''input'', di_contract = ''v1'', di_retry_class = ''RETRY_SAFE'', di_pre_image = JNull,
     di_status = Int_COMMITTED, di_token = 1, di_receipt = JDict [], di_created = iso 0, di_committed = Some (iso 0)\<rparr>"

lemma lease1_simps: "dj_id lease1 = ''j''" "dj_tenant lease1 = ''t''" "dj_project lease1 = ''p''" "dj_token lease1 = 1" "dj_state lease1 = Run_LEASED"
  "dj_expires lease1 = Some ''9''" "dj_owner lease1 = Some ''w1''"
  by (simp_all add: job_claimed_def job_created_def sample_job_def entered_state_def run_sets)

lemma lease1_live: "live_fence 1 (iso 0) lease1"
proof -
  have "iso 0 < ''9''" by (simp add: iso_epoch less_char_def)
  then show ?thesis by (simp add: live_fence_def lease1_simps some_or_empty_def in_flight_def)
qed

lemma first_claim_intents: "du_intents first_claim = []"
  by (simp add: first_claim_def durable_claimed_def claim_write_def durable_created_def create_job_def sample_durable_def sample_env2_def some_or_empty_def
      ensure_tenant_project_def register_tenant_def get_job_def log_move_def present_def utc_now_def atomic_db_def prog_defs Let_def job_legal_def
      job_created_def sample_job_def count_rows_def)

lemma reserved: "du_jobs intent_reserved = [lease1]"
  "du_intents intent_reserved = [committed_intent\<lparr>di_status := Int_INTENT, di_committed := None\<rparr>]"
  using lease1_live first_claim_intents claims(3)
  by (simp_all add: intent_reserved_def reserve_intent_def atomic_db_def get_intent_def present_def prog_defs lease1_simps retry_classes_def
      committed_intent_def)

lemma committed: "du_intents intent_committed = [committed_intent]"
  using lease1_live reserved
  by (simp add: intent_committed_def commit_intent_def settle_intent_def active_fence_def get_job_def get_intent_def present_def atomic_db_def
      prog_defs lease1_simps some_or_empty_def intent_hit_def open_statuses_def committed_intent_def count_rows_def)

theorem intent_settled_once_witness:
  "get_intent ''key'' (snd (cancel_job sample_env2 ''p'' ''j'' intent_committed)) =
    (Inr (Some committed_intent), snd (cancel_job sample_env2 ''p'' ''j'' intent_committed)) \<and> di_status committed_intent = Int_COMMITTED"
proof -
  have "durable_step sample_env2 id (first_claim, {job_created, lease1}) (intent_reserved, {job_created, lease1})"
    unfolding intent_reserved_def by (rule W_reserve)
  moreover have "durable_step sample_env2 id (intent_reserved, {job_created, lease1}) (intent_committed, {job_created, lease1})"
    unfolding intent_committed_def by (rule W_commit)
  ultimately have run: "durable_run sample_env2 id (sample_durable, {}) (intent_committed, {job_created, lease1})"
    by (intro rtranclp.rtrancl_into_rtrancl [OF rtranclp.rtrancl_into_rtrancl [OF sample_runs(3)]])
  have row: "row_by di_key ''key'' (du_intents (fst (intent_committed, {job_created, lease1}))) = Some committed_intent"
    by (simp add: committed) (simp add: committed_intent_def)
  have later: "durable_run sample_env2 id (intent_committed, {job_created, lease1})
      (snd (cancel_job sample_env2 ''p'' ''j'' intent_committed), {job_created, lease1})"
    by (rule r_into_rtranclp) (rule W_cancel)
  have "di_status committed_intent = Int_COMMITTED" by (simp add: committed_intent_def)
  then show ?thesis using intent_settled_once [OF sample_start run row later] by (auto simp: open_statuses_def)
qed

subsection \<open>Due work is claimed\<close>

definition is_due :: "string \<Rightarrow> durable_job \<Rightarrow> bool" where
  "is_due stamp j = (dj_state j \<in> claimable \<and> dj_due j \<le> stamp \<or> dj_state j \<in> in_flight \<and> expired_by stamp j)"

lemma due_edge: "is_due stamp j \<Longrightarrow> assert_run_transition (dj_state j) (entered_state j) = Inr ()"
  using claim_edges [of "dj_state j"] claimable_not_in_flight [of "dj_state j"]
  by (auto simp: is_due_def assert_run_transition_def entered_state_def)

lemma claim_write_hits:
  assumes "tables_ok db" "j \<in> set (du_jobs db)"
  shows "\<exists>c. fst (claim_write worker stamp expires j db) = Inr (Some c) \<and> dj_id c = dj_id j \<and> dj_owner c = Some worker \<and>
    dj_expires c = Some expires \<and> dj_state c = entered_state j \<and>
    row_by dj_id (dj_id j) (du_jobs (snd (claim_write worker stamp expires j db))) = Some c"
proof -
  let ?hit = "\<lambda>q. dj_id q = dj_id j \<and> dj_version q = dj_version j"
  let ?f = "\<lambda>q. q\<lparr>dj_state := entered_state j, dj_owner := Some worker, dj_token := dj_token q + 1, dj_expires := Some expires,
     dj_version := dj_version q + 1, dj_updated := stamp\<rparr>"
  have row: "row_by dj_id (dj_id j) (du_jobs db) = Some j" using assms by (intro row_by_distinct) (simp_all add: tables_ok_def)
  show ?thesis
  proof (rule cas_cases [OF assms(1), of ?hit "dj_id j" ?f])
    show "?hit q \<Longrightarrow> dj_id q = dj_id j" for q by simp
  next
    assume "\<And>q. row_by dj_id (dj_id j) (du_jobs db) = Some q \<Longrightarrow> \<not> ?hit q"
    then show ?thesis using row by simp
  next
    fix q
    assume "dj_id q = dj_id j" "count_rows ?hit (du_jobs db) = 1"
      "dj_id (?f q) = dj_id j \<Longrightarrow> update_rows ?hit ?f (du_jobs db) = put_job (?f q) (du_jobs db)"
      "dj_id (?f q) = dj_id j \<Longrightarrow> row_by dj_id (dj_id j) (put_job (?f q) (du_jobs db)) = Some (?f q)"
    then show ?thesis
      by (simp add: claim_write_def atomic_db_def get_job_def present_def log_move_def prog_defs Let_def)
  qed
qed

text \<open>
  C38. No due job waits for ever on a free worker: when any job is due or has a lapsed lease, one claim
  takes a job that is, in one call, and the database holds it leased to the claiming worker until the
  lease it asked for ends; an interrupted job enters RECONCILING, any other LEASED.
\<close>

theorem due_work_is_claimed:
  fixes db :: "'x durable_db_scheme"
  assumes "durable_ok db" and "list_ex (is_due (iso now)) (du_jobs db)"
  shows "\<exists>j c e v. j \<in> set (du_jobs db) \<and> is_due (iso now) j \<and> claim_due_job worker now lease None None db = (Inr (Some (c, e)), v) \<and>
    dj_id c = dj_id j \<and> e = (if dj_state j \<in> in_flight then Run_RECONCILING else Run_LEASED) \<and> dj_state c = e \<and>
    dj_owner c = Some worker \<and> dj_expires c = Some (iso (now + seconds lease)) \<and> row_by dj_id (dj_id c) (du_jobs v) = Some c"
proof -
  let ?js = "due_jobs (iso now) None None (du_jobs db)"
  have due: "?js = take 5 (sort_key dj_due (sort_key dj_id (filter (is_due (iso now)) (du_jobs db))))"
    by (simp add: due_jobs_def is_due_def [abs_def] some_or_empty_def)
  have "filter (is_due (iso now)) (du_jobs db) \<noteq> []" using assms(2) by (auto simp: list_ex_iff filter_empty_conv)
  then have "length (sort_key dj_due (sort_key dj_id (filter (is_due (iso now)) (du_jobs db)))) \<noteq> 0" by simp
  then have "?js \<noteq> []" unfolding due by (simp only: take_eq_Nil length_0_conv) simp
  then obtain j js where js: "?js = j # js" by (cases ?js) auto
  then have "j \<in> set ?js" by simp
  then have j: "j \<in> set (du_jobs db)" "is_due (iso now) j" unfolding due by (auto dest: in_set_takeD)
  have "tables_ok db" using assms(1) by (simp add: durable_ok_def)
  from claim_write_hits [OF this j(1), of worker "iso now" "iso (now + seconds lease)"]
  obtain c where c: "fst (claim_write worker (iso now) (iso (now + seconds lease)) j db) = Inr (Some c)" "dj_id c = dj_id j"
    "dj_owner c = Some worker" "dj_expires c = Some (iso (now + seconds lease))" "dj_state c = entered_state j"
    "row_by dj_id (dj_id j) (du_jobs (snd (claim_write worker (iso now) (iso (now + seconds lease)) j db))) = Some c" by blast
  have "claim_due_job worker now lease None None db =
     (Inr (Some (c, entered_state j)), snd (claim_write worker (iso now) (iso (now + seconds lease)) j db))"
    using c(1) due_edge [OF j(2)] js
    by (cases "claim_write worker (iso now) (iso (now + seconds lease)) j db") (simp add: claim_due_job_def prog_defs)
  then show ?thesis using c j by (intro exI [of _ j] exI [of _ c]) (auto simp: entered_state_def)
qed

theorem due_work_is_claimed_witness:
  "\<exists>c v. claim_due_job ''w1'' 0 60 None None durable_created = (Inr (Some (c, Run_LEASED)), v) \<and> dj_id c = ''j''"
proof -
  have "machine_ok (durable_created, {job_created})"
    using machine_ok_run [OF sample_runs(1)] machine_ok_start [OF sample_start] by blast
  then have ok: "durable_ok durable_created" by (simp add: machine_ok_def)
  have job: "dj_state job_created = Run_SCHEDULED" "dj_due job_created = iso 0" "dj_id job_created = ''j''"
    by (simp_all add: job_created_def sample_job_def)
  have "list_ex (is_due (iso 0)) (du_jobs durable_created)" by (simp add: created_jobs is_due_def job claimable_def)
  from due_work_is_claimed [OF ok this, of "''w1''" 60] show ?thesis
    by (auto simp: created_jobs job in_flight_def)
qed

end
