(* ===== verification/Durable_Ticks.thy ===== *)
theory Durable_Ticks
  imports Durable_Safety
begin

section \<open>One tick of the durable runtime\<close>

text \<open>
  Models \<^verbatim>\<open>agency/durable/ticks.py\<close>: \<open>run_tick\<close> with its nested functions. A job handler is a
  record of its methods, programs over the world outside the database that may raise, and so is the
  \<open>hook\<close> that tests use to interrupt a tick. A handler that writes the database is outside this model
  of a tick: the render handler updates the result of its job while its tick runs, which the
  interleavings of \<open>Durable_Safety\<close> have as the step \<open>W_result\<close>, and the status of the run, not modelled. A handler's \<open>dispatched\<close> dict is the record of the fields
  the tick reads and the dict itself. The telemetry document of a tick reports and decides nothing:
  its column and the tick's counters are left out, and the clock is read where the code reads it.
\<close>

subsection \<open>Handlers\<close>

record dispatched =
  dp_blocked :: string
  dp_failed :: bool
  dp_reasons :: "string list"
  dp_doc :: json

record verdict =
  ve_status :: string
  ve_findings :: "string list"
  ve_doc :: json

type_synonym ('w, 'a) outer = "('w, string, 'a) prog"

record 'w job_handler =
  jh_operation :: string
  jh_contract :: string
  jh_retry_class :: string
  jh_target :: "durable_job \<Rightarrow> ('w, string) outer"
  jh_input_hash :: "durable_job \<Rightarrow> ('w, string) outer"
  jh_precheck :: "durable_job \<Rightarrow> ('w, run_state option \<times> string list) outer"
  jh_environment :: "durable_job \<Rightarrow> ('w, string) outer"
  jh_pre_image :: "durable_job \<Rightarrow> ('w, json) outer"
  jh_dispatch :: "durable_job \<Rightarrow> ('w, dispatched) outer"
  jh_observe :: "durable_job \<Rightarrow> dispatched \<Rightarrow> ('w, json) outer"
  jh_verify :: "durable_job \<Rightarrow> json \<Rightarrow> ('w, verdict) outer"
  jh_reconcile :: "durable_job \<Rightarrow> durable_intent \<Rightarrow> ('w, string \<times> json option) outer"
  jh_on_commit :: "durable_job \<Rightarrow> json \<Rightarrow> verdict \<Rightarrow> ('w, run_state \<times> (string \<times> json) list) outer"

record 'w tick_db = durable_db + td_out :: 'w

type_synonym ('w, 'a) tick_prog = "('w tick_db, durable_error, 'a) prog"

text \<open>A call of a handler: it sees and changes the outside world only; its exception has a class name.\<close>

definition outside :: "('w, 'a) outer \<Rightarrow> ('w, 'a) tick_prog" where
  "outside m = (\<lambda>db. case m (td_out db) of (r, w) \<Rightarrow> (map_sum HandlerRaised id r, db\<lparr>td_out := w\<rparr>))"

text \<open>\<open>except Exception as exc\<close> around a handler call: the class name of what was raised.\<close>

definition caught :: "('w, 'a) outer \<Rightarrow> ('w, string + 'a) tick_prog" where
  "caught m = (\<lambda>db. case m (td_out db) of (r, w) \<Rightarrow> (Inr r, db\<lparr>td_out := w\<rparr>))"

subsection \<open>Reports, keys and fingerprints\<close>

record tick_report =
  tp_trace :: string
  tp_outcome :: string
  tp_job :: "string option"
  tp_final :: "string option"
  tp_key :: "string option"
  tp_dispatched :: bool
  tp_adopted :: bool
  tp_reasons :: "string list"

definition max_retries :: int where "max_retries = 3"

definition retry_backoff :: "int list" where "retry_backoff = [30, 120, 600]"

definition tick_key :: "(bytes \<Rightarrow> string) \<Rightarrow> durable_job \<Rightarrow> int \<Rightarrow> string \<Rightarrow> string \<Rightarrow> string \<Rightarrow> string \<Rightarrow> string" where
  "tick_key H j tick operation target input_hash contract = chash H (JDict [(''tenant'', JStr (dj_tenant j)),
     (''project'', JStr (dj_project j)), (''job'', JStr (dj_id j)), (''logical_tick'', JInt tick), (''operation'', JStr operation),
     (''target'', JStr target), (''input_hash'', JStr input_hash), (''contract_version'', JStr contract)])"

definition failure_code :: "string \<Rightarrow> string" where
  "failure_code reason = take 80 (hd (split_on (CHR '' '') (hd (split_on (CHR '':'') reason))))"

definition fail_fingerprint :: "(bytes \<Rightarrow> string) \<Rightarrow> string \<Rightarrow> string \<Rightarrow> string \<Rightarrow> string" where
  "fail_fingerprint H operation reason environment = take 24 (chash H (JDict [(''operation'', JStr operation),
     (''code'', JStr (failure_code reason)), (''env'', JStr environment)]))"

subsection \<open>The nested functions\<close>

text \<open>What the nested functions of \<open>run_tick\<close> close over.\<close>

record 'w tick =
  tc_env :: env
  tc_redact :: "json \<Rightarrow> json"
  tc_hook :: "string \<Rightarrow> ('w, unit) outer"
  tc_worker :: string
  tc_trace :: string
  tc_started :: int
  tc_token :: int
  tc_number :: int

definition tick_move :: "'w tick \<Rightarrow> durable_job \<Rightarrow> run_state \<Rightarrow> string \<Rightarrow> job_update list \<Rightarrow> ('w, durable_job) tick_prog" where
  "tick_move c j dst reason us =
    bnd (utc_now (tc_env c)) (\<lambda>t. job_transition (dj_id j) dst (tc_token c) t reason (Some (tc_trace c)) us)"

definition tick_finish :: "'w tick \<Rightarrow> durable_job \<Rightarrow> tick_report \<Rightarrow> ('w, tick_report) tick_prog" where
  "tick_finish c j rep =
    bnd (utc_now (tc_env c)) (\<lambda>_. bnd (utc_now (tc_env c)) (\<lambda>t.
    bnd (record_tick (tc_trace c) (Some j) (tc_worker c) (tp_outcome rep) (tc_started c) t) (\<lambda>_. ret rep)))"

definition tick_release :: "'w tick \<Rightarrow> durable_job \<Rightarrow> tick_report \<Rightarrow> run_state \<Rightarrow> string list \<Rightarrow> bool \<Rightarrow> job_update list
    \<Rightarrow> ('w, tick_report) tick_prog" where
  "tick_release c j rep dst reasons retry us =
    bnd (utc_now (tc_env c)) (\<lambda>t.
    let due = t + seconds (if retry then retry_backoff ! nat (min (dj_attempts j) 2) else 300) in
    bnd (tick_move c j dst (take 500 (join ''; '' reasons))
      ([J_owner None, J_expires None, J_reasons reasons, J_due (iso due)] @ us)) (\<lambda>j'.
    tick_finish c j' (rep\<lparr>tp_outcome := run_state_value dst, tp_final := Some (run_state_value dst), tp_reasons := reasons\<rparr>)))"

definition note_failure :: "string \<Rightarrow> string \<Rightarrow> string \<Rightarrow> (string \<times> fail_note) list \<Rightarrow> (string \<times> fail_note) list" where
  "note_failure fp environment stamp seen = upsert fst
    (fp, \<lparr>fn_count = (case map_of seen fp of None \<Rightarrow> 0 | Some n \<Rightarrow> fn_count n) + 1, fn_env = environment, fn_seen = stamp\<rparr>) seen"

definition tick_fail :: "'w tick \<Rightarrow> 'w job_handler \<Rightarrow> durable_job \<Rightarrow> tick_report \<Rightarrow> string \<Rightarrow> ('w, tick_report) tick_prog" where
  "tick_fail c H j rep reason =
    bnd (outside (jh_environment H j)) (\<lambda>environment.
    let fp = fail_fingerprint (env_hash (tc_env c)) (jh_operation H) reason environment;
        again = (map_of (dj_fingerprints j) fp \<noteq> None) in
    bnd (utc_now (tc_env c)) (\<lambda>t.
    let seen = note_failure fp environment (iso t) (dj_fingerprints j);
        tries = dj_attempts j + 1 in
    if jh_retry_class H = ''RETRY_SAFE'' \<and> tries < min max_retries (dj_max j) \<and> \<not> again
    then tick_release c j rep Run_RETRY_PENDING [reason] True [J_attempts tries, J_fingerprints seen]
    else tick_release c j rep Run_DEAD_LETTER
      (if again then [reason, ''NEGATIVE_KNOWLEDGE: identical failure under unchanged environment''] else [reason]) False
      [J_attempts tries, J_fingerprints seen]))"

subsection \<open>The phases of a tick\<close>

text \<open>A phase ends the tick with its report, or goes on: the job, the report and an observation to adopt.\<close>

type_synonym going = "durable_job \<times> tick_report \<times> json option"

definition ended :: "('w, tick_report) tick_prog \<Rightarrow> ('w, tick_report + 'a) tick_prog" where
  "ended m = bnd m (\<lambda>rep. ret (Inl rep))"

definition tick_reserve :: "'w tick \<Rightarrow> 'w job_handler \<Rightarrow> string \<Rightarrow> durable_job \<Rightarrow> ('w, durable_intent \<times> bool) tick_prog" where
  "tick_reserve c H key j =
    bnd (outside (jh_target H j)) (\<lambda>target.
    bnd (outside (jh_input_hash H j)) (\<lambda>input_hash.
    bnd (outside (jh_pre_image H j)) (\<lambda>pre_image.
    bnd (utc_now (tc_env c)) (\<lambda>t.
    reserve_intent key j (tc_number c) (jh_operation H) target input_hash (jh_contract H) (jh_retry_class H) pre_image (tc_token c) t))))"

text \<open>The job as claimed into LEASED: precheck and intent; \<open>True\<close> when the intent is new.\<close>

definition tick_precheck :: "'w tick \<Rightarrow> 'w job_handler \<Rightarrow> string \<Rightarrow> durable_job \<Rightarrow> tick_report
    \<Rightarrow> ('w, tick_report + durable_job \<times> bool) tick_prog" where
  "tick_precheck c H key j rep =
    bnd (tick_move c j Run_PRECHECK ''precheck'' []) (\<lambda>j1.
    bnd (outside (jh_precheck H j1)) (\<lambda>(blocked, reasons).
    case blocked of
      Some dst \<Rightarrow> ended (tick_release c j1 rep dst reasons False [])
    | None \<Rightarrow>
        bnd (tick_move c j1 Run_READY ''precheck passed'' []) (\<lambda>j2.
        bnd (tick_reserve c H key j2) (\<lambda>(i, created).
        if created then ret (Inr (j2, True))
        else bnd (tick_move c j2 Run_RECONCILING ''intent already exists for this tick'' []) (\<lambda>j3. ret (Inr (j3, False)))))))"

definition tick_unconfirmed :: "'w tick \<Rightarrow> string \<Rightarrow> durable_job \<Rightarrow> tick_report \<Rightarrow> string \<Rightarrow> string \<Rightarrow> ('w, tick_report) tick_prog" where
  "tick_unconfirmed c key j rep cls reason =
    bnd (utc_now (tc_env c)) (\<lambda>t.
    bnd (mark_intent_unconfirmed key (dj_id j) (tc_token c) t cls) (\<lambda>_.
    tick_finish c j (rep\<lparr>tp_outcome := ''UNCONFIRMED'', tp_final := Some (run_state_value Run_RECONCILING), tp_reasons := [reason]\<rparr>)))"

definition receipt_observation :: "json \<Rightarrow> json option" where
  "receipt_observation r = (case r of JDict d \<Rightarrow> (case json_get d ''observation'' of JNull \<Rightarrow> None | v \<Rightarrow> Some v) | _ \<Rightarrow> None)"

definition intent_status_value :: "intent_status \<Rightarrow> string" where
  "intent_status_value s = (case s of Int_INTENT \<Rightarrow> ''INTENT'' | Int_UNCONFIRMED \<Rightarrow> ''UNCONFIRMED'' | Int_COMMITTED \<Rightarrow> ''COMMITTED''
     | Int_FAILED \<Rightarrow> ''FAILED'' | Int_ABANDONED \<Rightarrow> ''ABANDONED'')"

text \<open>What the provider said about an open intent.\<close>

definition tick_probe :: "'w tick \<Rightarrow> 'w job_handler \<Rightarrow> string \<Rightarrow> durable_job \<Rightarrow> tick_report \<Rightarrow> durable_intent
    \<Rightarrow> ('w, tick_report + going) tick_prog" where
  "tick_probe c H key j rep i =
    bnd (caught (jh_reconcile H j i)) (\<lambda>out.
    case out of
      Inl cls \<Rightarrow> ended (tick_unconfirmed c key j rep cls ''PROVIDER_PROBE_UNAVAILABLE'')
    | Inr (decision, adopted) \<Rightarrow>
        if decision = ''ADOPT'' \<and> adopted \<noteq> None then
          bnd (tick_move c j Run_OBSERVING ''provider status verified; adopting remote effect'' []) (\<lambda>j'.
          ret (Inr (j', rep\<lparr>tp_adopted := True\<rparr>, adopted)))
        else if decision = ''REDO'' \<and> jh_retry_class H = ''RETRY_SAFE'' then
          bnd (tick_move c j Run_READY ''provider verified no effect; safe retry under same key'' []) (\<lambda>j'. ret (Inr (j', rep, None)))
        else if decision = ''FAILED'' then
          bnd (utc_now (tc_env c)) (\<lambda>t.
          bnd (settle_intent_failed (tc_redact c) key (dj_id j) (tc_token c) t
                 (JDict [(''status'', JStr ''FAILED''), (''source'', JStr ''provider_reconcile'')])) (\<lambda>_.
          ended (tick_release c j rep Run_DEAD_LETTER [''PROVIDER_CONFIRMED_FAILURE''] False [])))
        else ended (tick_unconfirmed c key j rep ''ProviderStatusUnknown'' ''PROVIDER_STATUS_UNCONFIRMED''))"

definition tick_reconcile :: "'w tick \<Rightarrow> 'w job_handler \<Rightarrow> string \<Rightarrow> durable_job \<Rightarrow> tick_report \<Rightarrow> ('w, tick_report + going) tick_prog" where
  "tick_reconcile c H key j rep =
    bnd (get_intent key) (\<lambda>found.
    case found of
      None \<Rightarrow>
        bnd (tick_move c j Run_READY ''no intent was written before the interruption'' []) (\<lambda>j1.
        bnd (tick_reserve c H key j1) (\<lambda>_. ret (Inr (j1, rep, None))))
    | Some i \<Rightarrow>
        if di_status i = Int_COMMITTED then
          (case receipt_observation (di_receipt i) of
             None \<Rightarrow> ended (tick_release c j rep Run_DEAD_LETTER [''COMMITTED_RECEIPT_MISSING_OBSERVATION''] False [])
           | Some seen \<Rightarrow>
               bnd (tick_move c j Run_OBSERVING ''adopting the committed receipt; nothing re-dispatched'' []) (\<lambda>j'.
               ret (Inr (j', rep\<lparr>tp_adopted := True\<rparr>, Some seen))))
        else if di_status i \<notin> open_statuses then
          ended (tick_release c j rep Run_DEAD_LETTER [''PROVIDER_INTENT_TERMINAL:'' @ intent_status_value (di_status i)] False [])
        else tick_probe c H key j rep i)"

text \<open>Everything before a dispatch.\<close>

definition tick_prepare :: "'w tick \<Rightarrow> 'w job_handler \<Rightarrow> string \<Rightarrow> durable_job \<Rightarrow> run_state \<Rightarrow> tick_report
    \<Rightarrow> ('w, tick_report + going) tick_prog" where
  "tick_prepare c H key j entered rep =
    (if entered = Run_LEASED then
       bnd (tick_precheck c H key j rep) (\<lambda>out.
       case out of
         Inl done \<Rightarrow> ret (Inl done)
       | Inr (j', fresh) \<Rightarrow> if fresh then ret (Inr (j', rep, None)) else tick_reconcile c H key j' rep)
     else if entered = Run_RECONCILING then tick_reconcile c H key j rep
     else ret (Inr (j, rep, None)))"

text \<open>After the call of \<open>handler.dispatch\<close>: the job, the report and what the read-back saw.\<close>

definition after_dispatch :: "'w tick \<Rightarrow> 'w job_handler \<Rightarrow> string \<Rightarrow> durable_job \<Rightarrow> tick_report \<Rightarrow> string + dispatched
    \<Rightarrow> ('w, tick_report + durable_job \<times> tick_report \<times> json) tick_prog" where
  "after_dispatch c H key j rep out = (case out of
     Inl cls \<Rightarrow>
       bnd (utc_now (tc_env c)) (\<lambda>t.
       bnd (mark_intent_unconfirmed key (dj_id j) (tc_token c) t cls) (\<lambda>_.
       bnd (tick_move c j Run_RECONCILING ''dispatch outcome unknown; provider probe required'' []) (\<lambda>j'.
       ended (tick_finish c j' (rep\<lparr>tp_outcome := ''UNCONFIRMED'', tp_final := Some (run_state_value Run_RECONCILING),
         tp_reasons := [''DISPATCH_OUTCOME_UNKNOWN:'' @ cls]\<rparr>)))))
   | Inr d \<Rightarrow>
       let rep1 = rep\<lparr>tp_dispatched := True\<rparr> in
       bnd (outside (tc_hook c ''after_dispatch'')) (\<lambda>_.
       if dp_blocked d \<noteq> [] then
         (case find (\<lambda>s. run_state_value s = dp_blocked d) all_run_states of
            None \<Rightarrow> raise (DurableValue (repr_str (dp_blocked d) @ '' is not a valid RunState''))
          | Some dst \<Rightarrow> ended (tick_release c j rep1 dst (if dp_reasons d = [] then [''BLOCKED''] else dp_reasons d) False []))
       else if dp_failed d then ended (tick_fail c H j rep1 (''RENDER_FAILED:'' @ take 300 (join ''; '' (dp_reasons d))))
       else
         bnd (tick_move c j Run_OBSERVING ''dispatch returned; reading back'' []) (\<lambda>j1.
         bnd (caught (jh_observe H j1 d)) (\<lambda>seen.
         case seen of
           Inl cls \<Rightarrow>
             bnd (tick_move c j1 Run_INCONCLUSIVE (''readback failed: '' @ cls) []) (\<lambda>j2.
             ended (tick_release c j2 rep1 Run_SCHEDULED [''READBACK_FAILED:'' @ cls] True []))
         | Inr observation \<Rightarrow> ret (Inr (j1, rep1, observation))))))"

definition tick_dispatch :: "'w tick \<Rightarrow> 'w job_handler \<Rightarrow> string \<Rightarrow> going \<Rightarrow> ('w, tick_report + durable_job \<times> tick_report \<times> json) tick_prog" where
  "tick_dispatch c H key = (\<lambda>(j, rep, observation). case observation of
     Some seen \<Rightarrow> ret (Inr (j, rep, seen))
   | None \<Rightarrow>
       bnd (tick_move c j Run_RUNNING ''dispatch'' []) (\<lambda>j1.
       bnd (outside (tc_hook c ''after_intent'')) (\<lambda>_.
       bnd (caught (jh_dispatch H j1)) (\<lambda>out.
       after_dispatch c H key j1 rep out))))"

definition tick_receipt :: "'w tick \<Rightarrow> json \<Rightarrow> verdict \<Rightarrow> int \<Rightarrow> json" where
  "tick_receipt c observation v t = JDict [(''observation'', observation), (''verification'', ve_doc v),
     (''trace_id'', JStr (tc_trace c)), (''logical_tick'', JInt (tc_number c)), (''wall_committed_at'', JStr (iso t))]"

definition tick_commit :: "'w tick \<Rightarrow> 'w job_handler \<Rightarrow> string \<Rightarrow> durable_job \<Rightarrow> tick_report \<Rightarrow> json \<Rightarrow> verdict
    \<Rightarrow> ('w, tick_report) tick_prog" where
  "tick_commit c H key j rep observation v =
    bnd (tick_move c j Run_COMMITTING ''verified; committing'' []) (\<lambda>j1.
    bnd (outside (tc_hook c ''before_commit'')) (\<lambda>_.
    bnd (utc_now (tc_env c)) (\<lambda>t.
    bnd (get_intent key) (\<lambda>current.
    bnd (if (case current of None \<Rightarrow> False | Some i \<Rightarrow> di_status i \<in> open_statuses)
         then bnd (utc_now (tc_env c)) (\<lambda>t1. commit_intent (tc_redact c) key (tick_receipt c observation v t) (tc_token c) (dj_id j1) t1)
         else ret ()) (\<lambda>_.
    bnd (outside (jh_on_commit H j1 observation v)) (\<lambda>(final, extra).
    bnd (utc_now (tc_env c)) (\<lambda>t2.
    let due = t2 + seconds (case dj_recurrence j1 of None \<Rightarrow> 0 | Some r \<Rightarrow> r) in
    bnd (tick_move c j1 final ''committed'' [J_tick (tc_number c), J_attempts 0, J_owner None, J_expires None, J_due (iso due),
           J_reasons [], J_result (dict_merge extra [(''idempotency_key'', JStr key)])]) (\<lambda>j2.
    tick_finish c j2 (rep\<lparr>tp_outcome := ''COMMITTED'', tp_final := Some (run_state_value final)\<rparr>)))))))))"

definition tick_verify :: "'w tick \<Rightarrow> 'w job_handler \<Rightarrow> string \<Rightarrow> durable_job \<Rightarrow> tick_report \<Rightarrow> json \<Rightarrow> ('w, tick_report) tick_prog" where
  "tick_verify c H key j rep observation =
    bnd (tick_move c j Run_VERIFYING ''independent verification'' []) (\<lambda>j1.
    bnd (outside (jh_verify H j1 observation)) (\<lambda>v.
    if ve_status v \<noteq> ''PASSED'' then
      if ve_status v = ''INCONCLUSIVE'' then
        bnd (tick_move c j1 Run_INCONCLUSIVE ''verifier inconclusive'' []) (\<lambda>j2.
        tick_release c j2 rep Run_SCHEDULED [''VERIFICATION_INCONCLUSIVE''] True [])
      else tick_fail c H j1 rep (''VERIFICATION_FAILED:'' @ take 300 (join '','' (ve_findings v)))
    else tick_commit c H key j1 rep observation v))"

text \<open>The tick of a claimed job whose kind has a handler.\<close>

definition tick_work :: "'w tick \<Rightarrow> 'w job_handler \<Rightarrow> durable_job \<Rightarrow> run_state \<Rightarrow> tick_report \<Rightarrow> ('w, tick_report) tick_prog" where
  "tick_work c H j entered rep0 =
    bnd (outside (jh_target H j)) (\<lambda>target.
    bnd (outside (jh_input_hash H j)) (\<lambda>input_hash.
    let key = tick_key (env_hash (tc_env c)) j (tc_number c) (jh_operation H) target input_hash (jh_contract H);
        rep = rep0\<lparr>tp_key := Some key\<rparr> in
    bnd (tick_prepare c H key j entered rep) (\<lambda>out. case out of
      Inl done \<Rightarrow> ret done
    | Inr going \<Rightarrow>
        bnd (tick_dispatch c H key going) (\<lambda>out. case out of
          Inl done \<Rightarrow> ret done
        | Inr (j', rep', observation) \<Rightarrow> tick_verify c H key j' rep' observation))))"

definition run_tick :: "env \<Rightarrow> (json \<Rightarrow> json) \<Rightarrow> (string \<Rightarrow> ('w, unit) outer) \<Rightarrow> string \<Rightarrow> (string \<Rightarrow> 'w job_handler option)
    \<Rightarrow> int option \<Rightarrow> int \<Rightarrow> string option \<Rightarrow> string option \<Rightarrow> ('w, tick_report) tick_prog" where
  "run_tick V redact hook worker handlers now lease jid project =
    bnd (case now of Some t \<Rightarrow> ret t | None \<Rightarrow> utc_now V) (\<lambda>started.
    bnd (uuid4_hex V) (\<lambda>trace.
    let rep0 = \<lparr>tp_trace = trace, tp_outcome = ''NO_WORK'', tp_job = None, tp_final = None, tp_key = None, tp_dispatched = False,
          tp_adopted = False, tp_reasons = []\<rparr> in
    bnd (claim_due_job worker started lease jid project) (\<lambda>claimed.
    case claimed of
      None \<Rightarrow>
        bnd (utc_now V) (\<lambda>t. bnd (record_tick trace None worker ''NO_WORK'' started t) (\<lambda>_. ret rep0))
    | Some (j, entered) \<Rightarrow>
        let c = \<lparr>tc_env = V, tc_redact = redact, tc_hook = hook, tc_worker = worker, tc_trace = trace, tc_started = started,
              tc_token = dj_token j, tc_number = dj_tick j + 1\<rparr>;
            rep = rep0\<lparr>tp_job := Some (dj_id j)\<rparr> in
        (case handlers (dj_kind j) of
           None \<Rightarrow> bnd (tick_move c j Run_PRECHECK ''precheck'' []) (\<lambda>j1.
             tick_release c j1 rep Run_BLOCKED_ENVIRONMENT [''NO_HANDLER_FOR_KIND:'' @ dj_kind j] False [])
         | Some H \<Rightarrow> tick_work c H j entered rep))))"

end
