(* ===== verification/Tick_Safety.thy ===== *)
theory Tick_Safety
  imports Durable_Ticks
begin

section \<open>What a tick guarantees\<close>

text \<open>
  The write-ahead rule of \<^verbatim>\<open>agency/durable/ticks.py\<close>: whatever the handler, the store and the outcome,
  a tick reaches the provider only through one call of the handler's \<open>dispatch\<close>, made when the
  intent of this tick is stored and open and the job is RUNNING under the worker's token.
\<close>

subsection \<open>What the store leaves to the outside\<close>

text \<open>The store never touches the world outside, and a handler touches nothing else.\<close>

lemma steady_out: "steady td_out"
  by (simp add: steady_def)

lemma frame_out: "frame td_out m \<Longrightarrow> frame (\<lambda>db. f (td_out db)) m"
  by (simp add: frame_def)

lemma frame_present [frame_rules]: "frame f (present x)"
  unfolding present_def by (intro frame_rules)

lemma out_store:
  "frame td_out (Durable_Store.get_job jid)" "frame td_out (get_intent key)" "frame td_out (claim_first worker stamp expires js)"
  "frame td_out (job_transition jid dst token now reason trace us)"
  "frame td_out (reserve_intent key job tick operation target input_hash contract retry_class pre_image token now)"
  "frame td_out (settle_intent key jid token now upd lost)"
  "frame td_out (record_tick tr job' worker outcome started finished)"
proof -
  show get: "frame td_out (Durable_Store.get_job k)" "frame td_out (get_intent key)" for k key
    unfolding get_job_def get_intent_def by (intro frame_rules)+
  have log: "frame td_out (log_move j src dst token reason trace stamp)" for j src dst token reason trace stamp
    unfolding log_move_def by (intro frame_rules) simp
  show "frame td_out (claim_first worker stamp expires js)"
    by (induction js) (auto simp: claim_write_def Let_def intro!: frame_rules get log steady_out)
  show "frame td_out (job_transition jid dst token now reason trace us)"
    unfolding job_transition_def transition_write_def Let_def by (intro frame_rules get log steady_out) simp_all
  show "frame td_out (reserve_intent key job tick operation target input_hash contract retry_class pre_image token now)"
    unfolding reserve_intent_def by (intro frame_rules get steady_out) simp_all
  show "frame td_out (settle_intent key jid token now upd lost)"
    unfolding settle_intent_def active_fence_def by (intro frame_rules get steady_out) simp_all
  show "frame td_out (record_tick tr job' worker outcome started finished)"
    unfolding record_tick_def by (intro frame_rules steady_out) simp_all
qed

lemma out_journal:
  "frame td_out (mark_intent_unconfirmed key jid token now cls)" "frame td_out (settle_intent_failed redact key jid token now receipt)"
  "frame td_out (commit_intent redact key receipt token jid now)" "frame td_out (claim_due_job worker now' lease jid' project)"
  unfolding mark_intent_unconfirmed_def settle_intent_failed_def commit_intent_def claim_due_job_def Let_def
  by (intro frame_rules out_store)+

lemma frame_outside: "frame f m \<Longrightarrow> frame (\<lambda>db. f (td_out db)) (outside m)"
  by (auto simp: frame_def outside_def split: prod.splits) (metis snd_conv)

lemma frame_caught: "frame f m \<Longrightarrow> frame (\<lambda>db. f (td_out db)) (caught m)"
  by (auto simp: frame_def caught_def split: prod.splits) (metis snd_conv)

text \<open>A handler that changes \<open>f\<close>, the provider's part of the world, in \<open>dispatch\<close> only.\<close>

definition dispatches_only :: "('w \<Rightarrow> 'b) \<Rightarrow> 'w job_handler \<Rightarrow> bool" where
  "dispatches_only f H \<longleftrightarrow> (\<forall>j. frame f (jh_target H j) \<and> frame f (jh_input_hash H j) \<and> frame f (jh_precheck H j) \<and>
     frame f (jh_environment H j) \<and> frame f (jh_pre_image H j) \<and> (\<forall>d. frame f (jh_observe H j d)) \<and>
     (\<forall>o'. frame f (jh_verify H j o')) \<and> (\<forall>i. frame f (jh_reconcile H j i)) \<and> (\<forall>o' v. frame f (jh_on_commit H j o' v)))"

lemma dispatches_onlyD:
  assumes "dispatches_only f H"
  shows "frame f (jh_target H j)" "frame f (jh_input_hash H j)" "frame f (jh_precheck H j)" "frame f (jh_environment H j)"
    "frame f (jh_pre_image H j)" "frame f (jh_observe H j d)" "frame f (jh_verify H j o')" "frame f (jh_reconcile H j i)"
    "frame f (jh_on_commit H j o' v)"
  using assms unfolding dispatches_only_def by blast+

lemma steady_view: "steady (\<lambda>db :: 'w tick_db. f (td_out db))"
  by (simp add: steady_def)

lemmas out_rules = frame_rules frame_out [OF out_store(1)] frame_out [OF out_store(2)] frame_out [OF out_store(4)]
  frame_out [OF out_store(5)] frame_out [OF out_store(7)] frame_out [OF out_journal(1)] frame_out [OF out_journal(2)]
  frame_out [OF out_journal(3)] frame_out [OF out_journal(4)] frame_outside frame_caught steady_view

text \<open>Every phase but the dispatch itself leaves the provider alone.\<close>

lemma quiet_moves:
  fixes f :: "'w \<Rightarrow> 'b"
  shows "frame (\<lambda>db. f (td_out db)) (tick_move c j dst reason us)"
    "frame (\<lambda>db. f (td_out db)) (tick_finish c j rep)"
    "frame (\<lambda>db. f (td_out db)) (tick_release c j rep dst reasons retry us)"
    "frame (\<lambda>db. f (td_out db)) (tick_unconfirmed c key j rep cls reason)"
proof -
  show move: "frame (\<lambda>db. f (td_out db)) (tick_move c j dst reason us)" for c :: "'w tick" and j dst reason us
    unfolding tick_move_def by (intro out_rules)
  show finish: "frame (\<lambda>db. f (td_out db)) (tick_finish c j rep)" for c :: "'w tick" and j rep
    unfolding tick_finish_def by (intro out_rules)
  show "frame (\<lambda>db. f (td_out db)) (tick_release c j rep dst reasons retry us)"
    unfolding tick_release_def Let_def by (intro out_rules move finish)
  show "frame (\<lambda>db. f (td_out db)) (tick_unconfirmed c key j rep cls reason)"
    unfolding tick_unconfirmed_def by (intro out_rules finish)
qed

lemma quiet_phases:
  fixes f :: "'w \<Rightarrow> 'b"
  assumes H: "dispatches_only f H" and hook: "\<And>p. frame f (tc_hook c p)"
  shows "frame (\<lambda>db. f (td_out db)) (tick_prepare c H key j entered rep)"
    "frame (\<lambda>db. f (td_out db)) (after_dispatch c H key j rep out)"
    "frame (\<lambda>db. f (td_out db)) (tick_verify c H key j rep observation)"
proof -
  note calls = dispatches_onlyD [OF H] hook quiet_moves
  have fail: "frame (\<lambda>db. f (td_out db)) (tick_fail c H j rep reason)" for j rep reason
    unfolding tick_fail_def Let_def by (intro out_rules calls)
  have ended: "frame (\<lambda>db. f (td_out db)) (ended m)" if "frame (\<lambda>db. f (td_out db)) m" for m :: "('w, tick_report) tick_prog"
    unfolding ended_def using that by (intro frame_rules)
  have reserve: "frame (\<lambda>db. f (td_out db)) (tick_reserve c H key j)" for j
    unfolding tick_reserve_def by (intro out_rules calls)
  have reconcile: "frame (\<lambda>db. f (td_out db)) (tick_reconcile c H key j rep)" for j rep
    unfolding tick_reconcile_def tick_probe_def by (intro out_rules calls reserve ended)
  show "frame (\<lambda>db. f (td_out db)) (tick_prepare c H key j entered rep)"
    unfolding tick_prepare_def tick_precheck_def by (intro out_rules calls reserve ended reconcile)
  show "frame (\<lambda>db. f (td_out db)) (after_dispatch c H key j rep out)"
    unfolding after_dispatch_def Let_def by (intro out_rules calls ended fail)
  show "frame (\<lambda>db. f (td_out db)) (tick_verify c H key j rep observation)"
    unfolding tick_verify_def tick_commit_def Let_def by (intro out_rules calls ended fail)
qed

subsection \<open>The intent on record\<close>

definition open_intent :: "string \<Rightarrow> 'x durable_db_scheme \<Rightarrow> bool" where
  "open_intent key db = (case row_by di_key key (du_intents db) of None \<Rightarrow> False | Some i \<Rightarrow> di_status i \<in> open_statuses)"

lemma wp_quiet: "frame g m \<Longrightarrow> (\<And>a t. g t = g s \<Longrightarrow> Q a t) \<Longrightarrow> wp m Q (\<lambda>_ _. True) s"
  by (rule wp_mono [OF iffD1 [OF frame_wp, rule_format]]) auto

lemma wp_any: "wp m (\<lambda>_ _. True) (\<lambda>_ _. True) s"
  by (simp add: wp_def split: prod.splits sum.splits)

lemma intents_quiet:
  "frame du_intents (utc_now V)" "frame du_intents (outside m)" "frame du_intents (caught m')" "frame du_intents (tick_move c j dst reason us)"
proof -
  show clock: "frame du_intents (utc_now V)" for V by (intro frame_rules) (simp add: steady_def)
  show "frame du_intents (outside m)" "frame du_intents (caught m')"
    by (auto simp: frame_def outside_def caught_def split: prod.splits)
  have "frame du_intents (job_transition jid dst token now reason trace us)" for jid token now trace
    unfolding job_transition_def transition_write_def get_job_def present_def log_move_def Let_def
    by (intro frame_rules) (simp_all add: steady_def)
  then show "frame du_intents (tick_move c j dst reason us)"
    unfolding tick_move_def by (intro frame_rules clock)
qed

lemma reserve_opens:
  assumes "du_intents s = ys"
  shows "wp (reserve_intent key job tick operation target input_hash contract retry_class pre_image token now)
    (\<lambda>(i, created) t. created \<or> row_by di_key key ys = None \<longrightarrow> open_intent key t) (\<lambda>_ _. True) s"
  using assms
  by (cases "row_by di_key key (du_intents s)")
    (auto simp: wp_def reserve_intent_def atomic_db_def get_intent_def present_def prog_defs open_intent_def open_statuses_def row_by_append
      split: option.splits)

lemma tick_reserve_opens:
  "wp (tick_reserve c H key j) (\<lambda>(i, created) t. created \<or> row_by di_key key (du_intents s) = None \<longrightarrow> open_intent key t) (\<lambda>_ _. True) s"
  unfolding tick_reserve_def wp_bnd
  by (intro wp_quiet [OF intents_quiet(2)] wp_quiet [OF intents_quiet(1)] reserve_opens) simp

text \<open>A tick that goes on to the dispatch left an open intent under its key.\<close>

definition goes_on :: "string \<Rightarrow> tick_report + going \<Rightarrow> 'w tick_db \<Rightarrow> bool" where
  "goes_on key out db = (case out of Inr (j, rep, None) \<Rightarrow> open_intent key db | _ \<Rightarrow> True)"

lemma goes_on_simps [simp]: "goes_on key (Inl rep) db" "goes_on key (Inr (j, rep, Some seen)) db"
  "goes_on key (Inr (j, rep, None)) db = open_intent key db"
  by (simp_all add: goes_on_def)

lemma wp_ended: "wp (ended m) (goes_on key) (\<lambda>_ _. True) s"
  unfolding ended_def wp_bnd by (rule wp_mono [OF wp_any]) (simp_all add: wp_ret)

lemma open_intent_same: "du_intents t = du_intents s \<Longrightarrow> open_intent key t = open_intent key s"
  by (simp add: open_intent_def)

lemma reconcile_opens: "wp (tick_reconcile c H key j rep) (goes_on key) (\<lambda>_ _. True) s"
proof (cases "row_by di_key key (du_intents s)")
  case None
  have "wp (tick_reserve c H key j1) (\<lambda>_. open_intent key) (\<lambda>_ _. True) t" if "du_intents t = du_intents s" for j1 t
    by (rule wp_mono [OF tick_reserve_opens]) (use that None in auto)
  then show ?thesis unfolding tick_reconcile_def
    by (simp add: hoare_rules get_intent_def None) (intro wp_quiet [OF intents_quiet(4)], simp)
next
  case (Some i)
  have open_i: "open_intent key t" if "di_status i \<in> open_statuses" "du_intents t = du_intents s" for t :: "'a tick_db"
    using that Some by (simp add: open_intent_def)
  have moved: "wp (bnd (tick_move c j dst reason []) (\<lambda>j'. ret (Inr (j', rep', seen)))) (goes_on key) (\<lambda>_ _. True) t"
    if "seen \<noteq> None \<or> di_status i \<in> open_statuses" "du_intents t = du_intents s" for dst reason rep' seen t
    unfolding wp_bnd wp_ret
    by (rule wp_quiet [OF intents_quiet(4)]) (use that open_i in \<open>cases seen; auto\<close>)
  have failed: "wp (bnd (utc_now V) (\<lambda>t. bnd (p t) (\<lambda>_. ended (q t)))) (goes_on key) (\<lambda>_ _. True) t" for V p q t
    unfolding wp_bnd by (intro wp_mono [OF wp_any] wp_ended) simp_all
  have probe: "wp (tick_probe c H key j rep i) (goes_on key) (\<lambda>_ _. True) s" if "di_status i \<in> open_statuses"
    unfolding tick_probe_def wp_bnd
    by (rule wp_quiet [OF intents_quiet(3)])
      (use that in \<open>auto simp: wp_sum wp_prod wp_if intro!: moved failed wp_ended split: sum.splits\<close>)
  show ?thesis unfolding tick_reconcile_def
    using probe by (simp add: hoare_rules get_intent_def Some) (auto intro!: moved wp_ended simp flip: wp_bnd wp_ret split: option.splits)
qed

lemma precheck_opens:
  "wp (tick_precheck c H key j rep) (\<lambda>out t. case out of Inr (j', True) \<Rightarrow> open_intent key t | _ \<Rightarrow> True) (\<lambda>_ _. True) s"
proof -
  have ended: "wp (ended m) (\<lambda>out t. case out of Inr (j', True) \<Rightarrow> open_intent key t | _ \<Rightarrow> True) (\<lambda>_ _. True) t"
    for m :: "('a, tick_report) tick_prog" and t
    unfolding ended_def wp_bnd by (rule wp_mono [OF wp_any]) (simp_all add: wp_ret)
  have reserve: "wp (tick_reserve c H key j2) (\<lambda>(i, created) t. created \<longrightarrow> open_intent key t) (\<lambda>_ _. True) t" for j2 t
    by (rule wp_mono [OF tick_reserve_opens]) auto
  show ?thesis unfolding tick_precheck_def wp_bnd
    by (rule wp_quiet [OF intents_quiet(4)], rule wp_quiet [OF intents_quiet(2)])
      (auto simp: wp_prod wp_option wp_bnd wp_if wp_ret ended split: option.splits
        intro!: wp_quiet [OF intents_quiet(4)] wp_mono [OF reserve])
qed

lemma prepare_opens:
  "entered = Run_LEASED \<or> entered = Run_RECONCILING \<Longrightarrow> wp (tick_prepare c H key j entered rep) (goes_on key) (\<lambda>_ _. True) s"
  unfolding tick_prepare_def
  by (auto simp: wp_if wp_bnd wp_sum wp_prod wp_ret reconcile_opens split: sum.splits bool.splits intro!: wp_mono [OF precheck_opens])

subsection \<open>The dispatch\<close>

lemma moved_row:
  assumes "tick_move c j dst reason us db = (Inr u, v)"
  shows "row_by dj_id (dj_id u) (du_jobs v) = Some u \<and> dj_id u = dj_id j \<and> dj_state u = dst \<and> dj_token u = tc_token c"
proof -
  obtain t0 db0 where tr: "job_transition (dj_id j) dst (tc_token c) t0 reason (Some (tc_trace c)) us db0 = (Inr u, v)"
    using assms by (auto simp: tick_move_def bnd_def split: prod.splits sum.splits)
  obtain q where q: "row_by dj_id (dj_id j) (du_jobs db0) = Some q"
    and w: "transition_write q dst (tc_token c) (iso t0) reason (Some (tc_trace c)) us db0 = (Inr u, v)" and token: "dj_token q = tc_token c"
    using tr by (cases "row_by dj_id (dj_id j) (du_jobs db0)")
      (auto simp: job_transition_def get_job_def bnd_def gets_def of_sum_def transition_check_def split: sum.splits if_splits)
  have id: "dj_id q = dj_id j" using row_by_SomeD [OF q] by simp
  let ?hit = "\<lambda>r. dj_id r = dj_id q \<and> dj_token r = tc_token c \<and> dj_state r = dj_state q"
  have "row_by dj_id (dj_id q) (update_rows ?hit (stepped us dst (iso t0)) (du_jobs db0)) = Some (stepped us dst (iso t0) q)"
    using q id token by (subst row_by_update_rows) (simp_all add: stepped_def)
  then have "u = stepped us dst (iso t0) q \<and> du_jobs v = update_rows ?hit (stepped us dst (iso t0)) (du_jobs db0)"
    using w by (auto simp: transition_write_def atomic_db_def get_job_def present_def log_move_def prog_defs Let_def split: if_splits)
  then show ?thesis
    using \<open>row_by dj_id (dj_id q) _ = _\<close> id token by (simp add: stepped_def)
qed

text \<open>A phase that goes on goes on with the job of this id.\<close>

definition keeps_job :: "string \<Rightarrow> ('w, 'a + durable_job \<times> 'b) tick_prog \<Rightarrow> bool" where
  "keeps_job k m = (\<forall>s. wp m (\<lambda>out _. case out of Inl _ \<Rightarrow> True | Inr x \<Rightarrow> dj_id (fst x) = k) (\<lambda>_ _. True) s)"

lemma keeps_job_any: "(\<And>a. keeps_job k (g a)) \<Longrightarrow> keeps_job k (bnd m g)"
  unfolding keeps_job_def wp_bnd by (auto intro: wp_mono [OF wp_any])

lemma keeps_job_move:
  assumes "dj_id j = k" and "\<And>u. dj_id u = k \<Longrightarrow> keeps_job k (g u)"
  shows "keeps_job k (bnd (tick_move c j dst reason us) g)"
  unfolding keeps_job_def wp_bnd
proof
  fix s
  have "wp (tick_move c j dst reason us) (\<lambda>u _. dj_id u = dj_id j) (\<lambda>_ _. True) s"
    using moved_row [of c j dst reason us s] by (auto simp: wp_def split: prod.splits sum.splits)
  then show "wp (tick_move c j dst reason us)
      (\<lambda>a. wp (g a) (\<lambda>out _. case out of Inl _ \<Rightarrow> True | Inr x \<Rightarrow> dj_id (fst x) = k) (\<lambda>_ _. True)) (\<lambda>_ _. True) s"
    by (rule wp_mono) (use assms in \<open>simp_all add: keeps_job_def\<close>)
qed

lemma keeps_job_end:
  "keeps_job k (ended m)" "dj_id j = k \<Longrightarrow> keeps_job k (ret (Inr (j, x)))"
  using keeps_job_any [of k "\<lambda>rep. ret (Inl rep)" m] by (simp_all add: ended_def keeps_job_def wp_ret)

lemma keeps_job_if: "(b \<Longrightarrow> keeps_job k m) \<Longrightarrow> (\<not> b \<Longrightarrow> keeps_job k n) \<Longrightarrow> keeps_job k (if b then m else n)"
  by simp

lemma keeps_job_case:
  "keeps_job k m \<Longrightarrow> (\<And>a. keeps_job k (f a)) \<Longrightarrow> keeps_job k (case x of None \<Rightarrow> m | Some a \<Rightarrow> f a)"
  "(\<And>a. keeps_job k (g a)) \<Longrightarrow> (\<And>a. keeps_job k (f a)) \<Longrightarrow> keeps_job k (case y of Inl a \<Rightarrow> g a | Inr a \<Rightarrow> f a)"
  "(\<And>a b. keeps_job k (h a b)) \<Longrightarrow> keeps_job k (case p of (a, b) \<Rightarrow> h a b)"
  by (simp_all split: option.splits sum.splits prod.splits)

lemma keeps_job_reconcile: "dj_id j = k \<Longrightarrow> keeps_job k (tick_reconcile c H key j rep)"
  unfolding tick_reconcile_def tick_probe_def
  by ((rule keeps_job_move, assumption) | rule keeps_job_if keeps_job_case keeps_job_end | (assumption | rule keeps_job_any))+

lemma keeps_job_precheck: "dj_id j = k \<Longrightarrow> keeps_job k (tick_precheck c H key j rep)"
  unfolding tick_precheck_def
  by ((rule keeps_job_move, assumption) | rule keeps_job_if keeps_job_case keeps_job_end | (assumption | rule keeps_job_any))+

lemma keeps_job_seq:
  assumes "keeps_job k m" and "\<And>j x. dj_id j = k \<Longrightarrow> keeps_job k (h j x)"
  shows "keeps_job k (bnd m (\<lambda>out. case out of Inl done \<Rightarrow> ret (Inl done) | Inr (j, x) \<Rightarrow> h j x))"
  unfolding keeps_job_def wp_bnd
proof
  fix s
  show "wp m (\<lambda>a. wp (case a of Inl done \<Rightarrow> ret (Inl done) | Inr (j, x) \<Rightarrow> h j x)
      (\<lambda>out _. case out of Inl _ \<Rightarrow> True | Inr x \<Rightarrow> dj_id (fst x) = k) (\<lambda>_ _. True)) (\<lambda>_ _. True) s"
    by (rule wp_mono [OF assms(1) [unfolded keeps_job_def, rule_format]])
      (use assms(2) in \<open>auto simp: keeps_job_def wp_ret split: sum.splits prod.splits\<close>)
qed

lemma keeps_job_prepare: "keeps_job (dj_id j) (tick_prepare c H key j entered rep)"
  unfolding tick_prepare_def
  by (intro keeps_job_if keeps_job_seq keeps_job_precheck keeps_job_reconcile keeps_job_end refl) simp_all

text \<open>What is left of a tick when \<open>dispatch\<close> is called.\<close>

definition dispatch_onwards :: "'w tick \<Rightarrow> 'w job_handler \<Rightarrow> string \<Rightarrow> durable_job \<Rightarrow> tick_report \<Rightarrow> ('w, tick_report) tick_prog" where
  "dispatch_onwards c H key j rep = bnd (caught (jh_dispatch H j)) (\<lambda>out.
    bnd (after_dispatch c H key j rep out) (\<lambda>out. case out of
      Inl done \<Rightarrow> ret done
    | Inr (j', rep', observation) \<Rightarrow> tick_verify c H key j' rep' observation))"

lemma dispatch_change:
  fixes f :: "'w \<Rightarrow> 'b" and db :: "'w tick_db"
  assumes H: "dispatches_only f H" and hook: "\<And>p. frame f (tc_hook c p)"
    and ch: "f (td_out (snd (tick_dispatch c H key (j, rep, seen) db))) \<noteq> f (td_out db)"
  obtains j1 and s :: "'w tick_db" where "seen = None" "row_by dj_id (dj_id j1) (du_jobs s) = Some j1" "dj_id j1 = dj_id j"
    "dj_state j1 = Run_RUNNING" "dj_token j1 = tc_token c" "du_intents s = du_intents db" "f (td_out s) = f (td_out db)"
    "f (td_out (snd (tick_dispatch c H key (j, rep, seen) db))) = f (snd (jh_dispatch H j1 (td_out s)))"
    "tick_dispatch c H key (j, rep, seen) db = bnd (caught (jh_dispatch H j1)) (after_dispatch c H key j1 rep) s"
proof (cases seen)
  case (Some x)
  then show ?thesis using ch by (simp add: tick_dispatch_def ret_def)
next
  case None
  let ?F = "\<lambda>db :: 'w tick_db. f (td_out db)"
  let ?rest = "\<lambda>j1. bnd (outside (tc_hook c ''after_intent'')) (\<lambda>_. bnd (caught (jh_dispatch H j1)) (\<lambda>out. after_dispatch c H key j1 rep out))"
  have run: "tick_dispatch c H key (j, rep, seen) = bnd (tick_move c j Run_RUNNING ''dispatch'' []) ?rest"
    using None by (simp add: tick_dispatch_def)
  have "?F (snd (bnd (tick_move c j Run_RUNNING ''dispatch'' []) ?rest db)) \<noteq> ?F db" using ch run by simp
  then show thesis
  proof (rule bnd_changes [where f = ?F, OF _ quiet_moves(1)])
    fix j1 s1
    assume m: "tick_move c j Run_RUNNING ''dispatch'' [] db = (Inr j1, s1)" and s1: "?F s1 = ?F db"
      and ch1: "?F (snd (?rest j1 s1)) \<noteq> ?F s1"
    have ints: "du_intents s1 = du_intents db" by (rule frameD [OF intents_quiet(4) m])
    from ch1 show thesis
    proof (rule bnd_changes [where f = ?F, OF _ frame_outside [OF hook]])
      fix u s
      assume h: "outside (tc_hook c ''after_intent'') s1 = (Inr u, s)" and s: "?F s = ?F s1"
      obtain r w where d: "jh_dispatch H j1 (td_out s) = (r, w)" by fastforce
      have jobs: "du_jobs s = du_jobs s1" "du_intents s = du_intents s1"
        using h by (auto simp: outside_def split: prod.splits)
      have "?F (snd (tick_dispatch c H key (j, rep, seen) db)) = ?F (snd (after_dispatch c H key j1 rep r (s\<lparr>td_out := w\<rparr>)))"
        using m h d by (simp add: run bnd_def caught_def)
      also have "\<dots> = f w" using frame_snd [OF quiet_phases(2) [OF H hook], of key j1 rep r "s\<lparr>td_out := w\<rparr>"] by simp
      finally show thesis
        by (intro that [of j1 s]) (use None moved_row [OF m] jobs ints s s1 d m h in \<open>auto simp: run [unfolded None] bnd_def\<close>)
    qed
  qed
qed

lemma claim_enters: "claim_first worker stamp expires js db = (Inr (Some (j, entered)), v) \<Longrightarrow> entered = Run_LEASED \<or> entered = Run_RECONCILING"
  by (induction js arbitrary: db)
    (auto simp: bnd_def ret_def entered_state_def split: prod.splits sum.splits option.splits if_splits)

lemma work_change:
  fixes f :: "'w \<Rightarrow> 'b" and db :: "'w tick_db"
  assumes H: "dispatches_only f H" and hook: "\<And>p. frame f (tc_hook c p)"
    and entered: "entered = Run_LEASED \<or> entered = Run_RECONCILING"
    and ch: "f (td_out (snd (tick_work c H j entered rep db))) \<noteq> f (td_out db)"
  obtains j1 key target input_hash rep' and s :: "'w tick_db" where
    "key = tick_key (env_hash (tc_env c)) j (tc_number c) (jh_operation H) target input_hash (jh_contract H)"
    "open_intent key s" "row_by dj_id (dj_id j1) (du_jobs s) = Some j1"
    "dj_state j1 = Run_RUNNING" "dj_token j1 = tc_token c" "dj_id j1 = dj_id j" "f (td_out s) = f (td_out db)"
    "f (td_out (snd (tick_work c H j entered rep db))) = f (snd (jh_dispatch H j1 (td_out s)))"
    "tick_work c H j entered rep db = dispatch_onwards c H key j1 rep' s"
proof -
  let ?F = "\<lambda>db :: 'w tick_db. f (td_out db)"
  note calls = dispatches_onlyD [OF H]
  define after where "after = (\<lambda>key out. case out of Inl rep \<Rightarrow> ret rep
    | Inr going \<Rightarrow> bnd (tick_dispatch c H key going) (\<lambda>out. case out of
        Inl rep \<Rightarrow> ret rep | Inr (j', rep', observation) \<Rightarrow> tick_verify c H key j' rep' observation))"
  define prep where "prep = (\<lambda>key. tick_prepare c H key j entered (rep\<lparr>tp_key := Some key\<rparr>))"
  let ?key = "\<lambda>target ih. tick_key (env_hash (tc_env c)) j (tc_number c) (jh_operation H) target ih (jh_contract H)"
  have run: "tick_work c H j entered rep = bnd (outside (jh_target H j)) (\<lambda>target. bnd (outside (jh_input_hash H j)) (\<lambda>ih.
      bnd (prep (?key target ih)) (after (?key target ih))))"
    by (simp add: tick_work_def after_def prep_def Let_def)
  have "?F (snd (bnd (outside (jh_target H j)) (\<lambda>target. bnd (outside (jh_input_hash H j)) (\<lambda>ih. bnd (prep (?key target ih)) (after (?key target ih)))) db))
      \<noteq> ?F db"
    using ch run by simp
  then obtain target ih db1 db2 where pre: "outside (jh_target H j) db = (Inr target, db1)" "outside (jh_input_hash H j) db1 = (Inr ih, db2)"
    and F2: "?F db2 = ?F db" and ch2: "?F (snd (bnd (prep (?key target ih)) (after (?key target ih)) db2)) \<noteq> ?F db2"
    by (elim bnd_changes [where f = ?F, OF _ frame_outside [OF calls(1)]] bnd_changes [where f = ?F, OF _ frame_outside [OF calls(2)]]) auto
  define key where "key = ?key target ih"
  have total: "?F (snd (tick_work c H j entered rep db)) = ?F (snd (bnd (prep key) (after key) db2))"
    using pre by (simp add: run bnd_def key_def)
  obtain out db3 where p3: "prep key db2 = (Inr out, db3)" and F3: "?F db3 = ?F db2" and ch3: "?F (snd (after key out db3)) \<noteq> ?F db3"
    using ch2 unfolding key_def [symmetric] prep_def by (rule bnd_changes [where f = ?F, OF _ quiet_phases(1) [OF H hook]])
  obtain j' rep' seen where out: "out = Inr (j', rep', seen)"
    using ch3 by (cases out) (auto simp: after_def ret_def)
  have end_quiet: "?F (snd (bnd (tick_dispatch c H key (j', rep', seen)) (\<lambda>out. case out of
        Inl rep \<Rightarrow> ret rep | Inr (j', rep', observation) \<Rightarrow> tick_verify c H key j' rep' observation) db3)) =
      ?F (snd (tick_dispatch c H key (j', rep', seen) db3))"
    using frame_snd [OF quiet_phases(3) [OF H hook]]
    by (cases "tick_dispatch c H key (j', rep', seen) db3") (auto simp: bnd_def ret_def split: sum.splits)
  then have ch4: "?F (snd (tick_dispatch c H key (j', rep', seen) db3)) \<noteq> ?F db3"
    using ch3 by (simp add: out after_def)
  obtain j1 s where s: "seen = None" "row_by dj_id (dj_id j1) (du_jobs s) = Some j1" "dj_state j1 = Run_RUNNING" "dj_token j1 = tc_token c"
    "du_intents s = du_intents db3" "?F s = ?F db3" "?F (snd (tick_dispatch c H key (j', rep', seen) db3)) = f (snd (jh_dispatch H j1 (td_out s)))"
    "tick_dispatch c H key (j', rep', seen) db3 = bnd (caught (jh_dispatch H j1)) (after_dispatch c H key j1 rep') s" "dj_id j1 = dj_id j'"
    by (rule dispatch_change [OF H hook ch4])
  have "goes_on key out db3"
    using wp_apply [OF prepare_opens [OF entered, of c H key j "rep\<lparr>tp_key := Some key\<rparr>" db2]] p3 by (simp add: prep_def)
  then have "open_intent key s" using s(1) by (simp add: out open_intent_same [OF s(5)])
  have "snd (bnd (prep key) (after key) db2) = snd (after key out db3)" using p3 by (simp add: bnd_def)
  then have "?F (snd (tick_work c H j entered rep db)) = f (snd (jh_dispatch H j1 (td_out s)))"
    using total end_quiet s(7) by (simp add: out after_def)
  moreover have "tick_work c H j entered rep db = dispatch_onwards c H key j1 rep' s"
    using pre p3 s(8) by (simp add: run key_def [symmetric] out after_def bnd_def dispatch_onwards_def split: prod.splits sum.splits)
  moreover have "dj_id j1 = dj_id j"
    using wp_apply [OF keeps_job_prepare [unfolded keeps_job_def, rule_format] p3 [unfolded prep_def]] s(9) by (simp add: out)
  ultimately show thesis
    using s F3 F2 \<open>open_intent key s\<close> by (intro that [of key target ih s j1 rep']) (simp_all add: key_def)
qed

text \<open>
  C15. The intent is on record before the effect: if a tick changed the provider's side of the world,
  which only \<open>dispatch\<close> can, then its run passed through a state in which that side was still as it
  began, the intent under the key of the claimed job and tick was stored and open, and the row of the
  claimed job was RUNNING under the fencing token of the claim; the rest of the run, database and all,
  is one call of \<open>dispatch\<close> on that row from that state and what follows it, and all of the
  change is that of the call.
\<close>

theorem tick_intent_before_dispatch:
  fixes f :: "'w \<Rightarrow> 'b" and db :: "'w tick_db"
  assumes "\<And>kind H. handlers kind = Some H \<Longrightarrow> dispatches_only f H" and hook: "\<And>p. frame f (hook p)"
    and "f (td_out (snd (run_tick V redact hook worker handlers now lease jid project db))) \<noteq> f (td_out db)"
  shows "\<exists>H claimed target input_hash key j c rep (s :: 'w tick_db). handlers (dj_kind claimed) = Some H \<and>
    key = tick_key (env_hash V) claimed (dj_tick claimed + 1) (jh_operation H) target input_hash (jh_contract H) \<and>
    open_intent key s \<and> row_by dj_id (dj_id claimed) (du_jobs s) = Some j \<and> dj_state j = Run_RUNNING \<and> dj_token j = dj_token claimed \<and>
    f (td_out s) = f (td_out db) \<and> tc_env c = V \<and> tc_token c = dj_token claimed \<and> tc_number c = dj_tick claimed + 1 \<and>
    run_tick V redact hook worker handlers now lease jid project db = dispatch_onwards c H key j rep s \<and>
    f (td_out (snd (run_tick V redact hook worker handlers now lease jid project db))) = f (snd (jh_dispatch H j (td_out s)))"
proof -
  let ?F = "\<lambda>db :: 'w tick_db. f (td_out db)"
  define rep0 where "rep0 = (\<lambda>trace. \<lparr>tp_trace = trace, tp_outcome = ''NO_WORK'', tp_job = None, tp_final = None, tp_key = None,
    tp_dispatched = False, tp_adopted = False, tp_reasons = []\<rparr>)"
  define closed_over where "closed_over = (\<lambda>started trace (j :: durable_job). \<lparr>tc_env = V, tc_redact = redact, tc_hook = hook, tc_worker = worker,
    tc_trace = trace, tc_started = started, tc_token = dj_token j, tc_number = dj_tick j + 1\<rparr>)"
  define body where "body = (\<lambda>started trace claimed. case claimed of
      None \<Rightarrow> bnd (utc_now V) (\<lambda>t. bnd (record_tick trace None worker ''NO_WORK'' started t) (\<lambda>_. ret (rep0 trace)))
    | Some (j, entered) \<Rightarrow> (case handlers (dj_kind j) of
        None \<Rightarrow> bnd (tick_move (closed_over started trace j) j Run_PRECHECK ''precheck'' []) (\<lambda>j1.
          tick_release (closed_over started trace j) j1 (rep0 trace\<lparr>tp_job := Some (dj_id j)\<rparr>) Run_BLOCKED_ENVIRONMENT
            [''NO_HANDLER_FOR_KIND:'' @ dj_kind j] False [])
      | Some H \<Rightarrow> tick_work (closed_over started trace j) H j entered (rep0 trace\<lparr>tp_job := Some (dj_id j)\<rparr>)))"
  let ?start = "(case now of Some t \<Rightarrow> ret t | None \<Rightarrow> utc_now V) :: ('w, int) tick_prog"
  let ?trace = "uuid4_hex V :: ('w, string) tick_prog"
  have run: "run_tick V redact hook worker handlers now lease jid project = bnd ?start (\<lambda>started. bnd (uuid4_hex V) (\<lambda>trace.
      bnd (claim_due_job worker started lease jid project) (body started trace)))"
    by (simp add: run_tick_def body_def rep0_def closed_over_def Let_def cong: option.case_cong)
  have quiet: "frame ?F ?start" "frame ?F ?trace" "frame ?F (claim_due_job worker started lease jid project)" for started
    by (intro out_rules | simp)+
  obtain started trace claimed db1 db2 db3 where pre: "?start db = (Inr started, db1)" "?trace db1 = (Inr trace, db2)"
    and cl: "claim_due_job worker started lease jid project db2 = (Inr claimed, db3)" and F3: "?F db3 = ?F db"
    and ch: "?F (snd (body started trace claimed db3)) \<noteq> ?F db3"
    using assms(3) unfolding run
    by (elim bnd_changes [where f = ?F, OF _ quiet(1)] bnd_changes [where f = ?F, OF _ quiet(2)] bnd_changes [where f = ?F, OF _ quiet(3)]) auto
  have total: "run_tick V redact hook worker handlers now lease jid project db = body started trace claimed db3"
    using pre cl by (simp add: run bnd_def)
  have idle: "frame ?F (body started trace None)"
    unfolding body_def option.case by (intro out_rules)
  obtain j entered where claimed: "claimed = Some (j, entered)"
    using ch frame_snd [OF idle, of db3] by (cases claimed) auto
  have no_handler: "frame ?F (body started trace (Some (j, entered)))" if "handlers (dj_kind j) = None"
    unfolding body_def option.case prod.case that by (intro frame_rules quiet_moves)
  obtain H where H: "handlers (dj_kind j) = Some H"
    using ch frame_snd [OF no_handler, of db3] claimed by (cases "handlers (dj_kind j)") auto
  let ?c = "closed_over started trace j"
  have e: "entered = Run_LEASED \<or> entered = Run_RECONCILING"
    using cl claimed by (auto simp: claim_due_job_def bnd_def gets_def dest: claim_enters)
  have hk: "frame f (tc_hook ?c p)" for p by (simp add: closed_over_def hook)
  have b: "body started trace claimed = tick_work ?c H j entered (rep0 trace\<lparr>tp_job := Some (dj_id j)\<rparr>)"
    by (simp add: body_def claimed H)
  obtain j1 key target ih rep s where w: "key = tick_key (env_hash (tc_env ?c)) j (tc_number ?c) (jh_operation H) target ih (jh_contract H)"
    "open_intent key s" "row_by dj_id (dj_id j1) (du_jobs s) = Some j1" "dj_state j1 = Run_RUNNING" "dj_token j1 = tc_token ?c" "dj_id j1 = dj_id j"
    "?F s = ?F db3" "?F (snd (body started trace claimed db3)) = f (snd (jh_dispatch H j1 (td_out s)))"
    "body started trace claimed db3 = dispatch_onwards ?c H key j1 rep s"
    using ch unfolding b by (rule work_change [OF assms(1) [OF H] hk e])
  then show ?thesis using F3 H total
    by (intro exI [of _ H] exI [of _ j] exI [of _ target] exI [of _ ih] exI [of _ key] exI [of _ j1] exI [of _ ?c] exI [of _ rep] exI [of _ s])
      (simp add: closed_over_def)
qed

subsection \<open>A tick whose dispatch times out\<close>

definition still_env :: env where
  "still_env = \<lparr>env_hash = id, env_clock = (\<lambda>_. 0), env_uuid = str_nat, env_dt_json = iso\<rparr>"

definition tick_start :: "nat tick_db" where
  "tick_start = \<lparr>w_reads = 0, w_uuids = 0, ad_tenants = [], ad_projects = [], ad_actions = [], ad_transitions = [],
     ad_policies = [], ad_reservations = [], ad_freezes = [], ad_autonomy = [], ad_effects = [], ad_clients = [], ad_links = [],
     du_jobs = [sample_job\<lparr>dj_due := iso 0\<rparr>], du_moves = [], du_intents = [], du_ticks = [], td_out = 0\<rparr>"

text \<open>The provider counts the calls it received; the answer never arrives.\<close>

definition lost_answer :: "nat job_handler" where
  "lost_answer = \<lparr>jh_operation = ''op'', jh_contract = ''v1'', jh_retry_class = ''RETRY_SAFE'', jh_target = (\<lambda>_. ret ''t''),
     jh_input_hash = (\<lambda>_. ret ''i''), jh_precheck = (\<lambda>_. ret (None, [])), jh_environment = (\<lambda>_. ret ''e''), jh_pre_image = (\<lambda>_. ret JNull),
     jh_dispatch = (\<lambda>_ n. (Inl ''Timeout'', Suc n)), jh_observe = (\<lambda>_ _. ret JNull), jh_verify = (\<lambda>_ _. raise ''E''),
     jh_reconcile = (\<lambda>_ _. raise ''E''), jh_on_commit = (\<lambda>_ _ _. raise ''E'')\<rparr>"

lemma lost_answer_only: "dispatches_only id lost_answer"
  by (simp add: dispatches_only_def lost_answer_def frame_ret frame_raise)

lemma lease_ahead: "iso 0 < iso (seconds 900)"
proof -
  have "iso (seconds 900) = ''1970-01-01T00:15:00.000000Z''" by code_simp
  then show ?thesis by (simp add: iso_epoch less_char_def)
qed

text \<open>A move of the only job under a live lease.\<close>

definition leased_job :: "'w tick \<Rightarrow> durable_job \<Rightarrow> bool" where
  "leased_job c q = (dj_token q = tc_token c \<and> dj_expires q = Some (iso (seconds 900)) \<and> dj_owner q = Some ''w'' \<and> job_legal q)"

lemma live_move:
  assumes "du_jobs db = [q]" "dj_id q = dj_id j" "leased_job c q" "tc_env c = still_env" "dst \<in> run_transitions (dj_state q)"
  shows "\<exists>v. tick_move c j dst reason [] db = (Inr (stepped [] dst (iso 0) q), v) \<and> du_jobs v = [stepped [] dst (iso 0) q] \<and>
    du_intents v = du_intents db \<and> td_out v = td_out db \<and> leased_job c (stepped [] dst (iso 0) q)"
proof -
  have "iso 0 \<noteq> []" "iso (seconds 900) \<noteq> []" "\<not> iso (seconds 900) \<le> iso 0" using lease_ahead by (auto simp: iso_epoch)
  moreover have "job_legal (stepped [] dst (iso 0) q)" using assms(3) by (simp add: leased_job_def job_legal_def stepped_def set_fields_def)
  ultimately show ?thesis using assms
    by (simp add: tick_move_def utc_now_def still_env_def job_transition_def transition_check_def transition_write_def get_job_def present_def
      log_move_def atomic_db_def prog_defs Let_def some_or_empty_def assert_run_transition_def count_rows_def leased_job_def)
      (simp add: stepped_def set_fields_def)
qed

lemma live_reserve:
  assumes "du_jobs db = [q]" "dj_id q = dj_id j" "dj_tenant q = dj_tenant j" "dj_project q = dj_project j" "leased_job c q" "tc_env c = still_env"
    "dj_state q \<in> in_flight" "du_intents db = []"
  shows "\<exists>i v. tick_reserve c lost_answer key j db = (Inr (i, True), v) \<and> du_jobs v = [q] \<and> td_out v = td_out db"
proof -
  have "iso (seconds 900) \<noteq> []" "iso 0 < iso (seconds 900)" using lease_ahead by (auto simp: iso_epoch)
  then show ?thesis using assms
    by (simp add: tick_reserve_def lost_answer_def outside_def utc_now_def still_env_def reserve_intent_def live_fence_def get_intent_def present_def
      atomic_db_def prog_defs some_or_empty_def retry_classes_def leased_job_def)
qed

lemma start_claim:
  assumes "du_jobs s = [sample_job\<lparr>dj_due := iso 0\<rparr>]"
  shows "\<exists>q v. claim_due_job ''w'' 0 900 None None s = (Inr (Some (q, Run_LEASED)), v) \<and> du_jobs v = [q] \<and> du_intents v = du_intents s \<and>
    td_out v = td_out s \<and> dj_state q = Run_LEASED \<and> dj_token q = 1 \<and> dj_expires q = Some (iso (seconds 900)) \<and> dj_owner q = Some ''w'' \<and> job_legal q"
  using assms
  by (simp add: claim_due_job_def due_jobs_def claim_write_def entered_state_def assert_run_transition_def get_job_def present_def log_move_def
      atomic_db_def prog_defs Let_def some_or_empty_def count_rows_def sample_job_def run_transitions_def run_sets job_legal_def)

lemma lost_answer_work:
  assumes "du_jobs db = [q]" "du_intents db = []" "dj_state q = Run_LEASED" "leased_job c q" "tc_env c = still_env" "\<And>p. tc_hook c p = ret ()"
  shows "td_out (snd (tick_work c lost_answer q Run_LEASED rep db)) = Suc (td_out db)"
proof -
  let ?step = "\<lambda>dst j. stepped [] dst (iso 0) j"
  define key where "key = tick_key (env_hash (tc_env c)) q (tc_number c) (jh_operation lost_answer) ''t'' ''i'' (jh_contract lost_answer)"
  define rep1 where "rep1 = rep\<lparr>tp_key := Some key\<rparr>"
  have edges: "Run_PRECHECK \<in> run_transitions Run_LEASED" "Run_READY \<in> run_transitions Run_PRECHECK" "Run_RUNNING \<in> run_transitions Run_READY"
    by (simp_all add: run_transitions_def)
  have same [simp]: "dj_id (?step dst j) = dj_id j" "dj_tenant (?step dst j) = dj_tenant j" "dj_project (?step dst j) = dj_project j"
    "dj_state (?step dst j) = dst" for dst j
    by (simp_all add: stepped_def)
  obtain v1 where v1: "tick_move c q Run_PRECHECK ''precheck'' [] db = (Inr (?step Run_PRECHECK q), v1)" "du_jobs v1 = [?step Run_PRECHECK q]"
    "du_intents v1 = []" "td_out v1 = td_out db" "leased_job c (?step Run_PRECHECK q)"
    using live_move [OF assms(1) refl assms(4,5), of Run_PRECHECK] edges(1) assms(2,3) by auto
  let ?q1 = "?step Run_PRECHECK q"
  obtain v2 where v2: "tick_move c ?q1 Run_READY ''precheck passed'' [] v1 = (Inr (?step Run_READY ?q1), v2)" "du_jobs v2 = [?step Run_READY ?q1]"
    "du_intents v2 = []" "td_out v2 = td_out v1" "leased_job c (?step Run_READY ?q1)"
    using live_move [OF v1(2) refl v1(5) assms(5), of Run_READY] edges(2) v1(3) by auto
  let ?q2 = "?step Run_READY ?q1"
  obtain i v3 where v3: "tick_reserve c lost_answer key ?q2 v2 = (Inr (i, True), v3)" "du_jobs v3 = [?q2]" "td_out v3 = td_out v2"
    using live_reserve [OF v2(2) refl refl refl v2(5) assms(5) _ v2(3), of key] by (auto simp: in_flight_def)
  obtain v4 where v4: "tick_move c ?q2 Run_RUNNING ''dispatch'' [] v3 = (Inr (?step Run_RUNNING ?q2), v4)" "td_out v4 = td_out v3"
    using live_move [OF v3(2) refl v2(5) assms(5), of Run_RUNNING] edges(3) by auto
  have calls: "outside (jh_target lost_answer j) s = (Inr ''t'', s)" "outside (jh_input_hash lost_answer j) s = (Inr ''i'', s)"
    "outside (jh_precheck lost_answer j) s = (Inr (None, []), s)" "outside (tc_hook c p) s = (Inr (), s)"
    "jh_dispatch lost_answer j n = (Inl ''Timeout'', Suc n)" for n j p s
    by (simp_all add: lost_answer_def assms(6) outside_def ret_def)
  have "tick_precheck c lost_answer key q rep1 db = (Inr (Inr (?q2, True)), v3)"
    by (simp add: tick_precheck_def bnd_def v1(1) v2(1) v3(1) calls ret_def)
  then have "tick_prepare c lost_answer key q Run_LEASED rep1 db = (Inr (Inr (?q2, rep1, None)), v3)"
    by (simp add: tick_prepare_def bnd_def ret_def)
  then have "snd (tick_work c lost_answer q Run_LEASED rep db) = snd (bnd (tick_dispatch c lost_answer key (?q2, rep1, None)) (\<lambda>out. case out of
      Inl rep \<Rightarrow> ret rep | Inr (j', rep', observation) \<Rightarrow> tick_verify c lost_answer key j' rep' observation) v3)"
    by (simp add: tick_work_def Let_def bnd_def calls key_def [symmetric] rep1_def [symmetric])
  moreover have "snd (tick_dispatch c lost_answer key (?q2, rep1, None) v3) =
      snd (after_dispatch c lost_answer key (?step Run_RUNNING ?q2) rep1 (Inl ''Timeout'') (v4\<lparr>td_out := Suc (td_out v4)\<rparr>))"
    using v4(1) by (simp add: tick_dispatch_def bnd_def caught_def calls)
  moreover have "frame id (tc_hook c p)" for p by (simp add: assms(6) frame_ret)
  note quiet = frame_snd [OF quiet_phases(2) [OF lost_answer_only this], simplified] frame_snd [OF quiet_phases(3) [OF lost_answer_only this], simplified]
  ultimately show ?thesis
    using v1(4) v2(4) v3(3) v4(2)
    by (cases "tick_dispatch c lost_answer key (?q2, rep1, None) v3") (auto simp: bnd_def ret_def quiet split: sum.splits)
qed

theorem tick_intent_before_dispatch_witness:
  "\<exists>j key (s :: nat tick_db). open_intent key s \<and> row_by dj_id (dj_id j) (du_jobs s) = Some j \<and> dj_state j = Run_RUNNING \<and> td_out s = 0 \<and>
    (\<exists>c rep. run_tick still_env id (\<lambda>_. ret ()) ''w'' (\<lambda>_. Some lost_answer) (Some 0) 900 None None tick_start =
      dispatch_onwards c lost_answer key j rep s)"
proof -
  let ?run = "run_tick still_env id (\<lambda>_. ret ()) ''w'' (\<lambda>_. Some lost_answer) (Some 0) 900 None None tick_start"
  let ?s = "tick_start\<lparr>w_uuids := 1\<rparr>"
  obtain q v where q: "claim_due_job ''w'' 0 900 None None ?s = (Inr (Some (q, Run_LEASED)), v)" "du_jobs v = [q]" "du_intents v = []" "td_out v = 0"
    "dj_state q = Run_LEASED" "dj_token q = 1" "dj_expires q = Some (iso (seconds 900))" "dj_owner q = Some ''w''" "job_legal q"
    using start_claim [of ?s] by (auto simp: tick_start_def)
  have "td_out (snd ?run) = Suc (td_out v)"
    using q(1) by (simp add: run_tick_def bnd_def ret_def uuid4_hex_def gets_def modify_def tick_start_def Let_def)
      (subst lost_answer_work, simp_all add: q leased_job_def ret_def)
  then have ch: "id (td_out (snd ?run)) \<noteq> id (td_out tick_start)" by (simp add: q tick_start_def)
  have "\<exists>H claimed target input_hash key j c rep (s :: nat tick_db). (\<lambda>_. Some lost_answer) (dj_kind claimed) = Some H \<and>
    key = tick_key (env_hash still_env) claimed (dj_tick claimed + 1) (jh_operation H) target input_hash (jh_contract H) \<and>
    open_intent key s \<and> row_by dj_id (dj_id claimed) (du_jobs s) = Some j \<and> dj_state j = Run_RUNNING \<and> dj_token j = dj_token claimed \<and>
    id (td_out s) = id (td_out tick_start) \<and> tc_env c = still_env \<and> tc_token c = dj_token claimed \<and> tc_number c = dj_tick claimed + 1 \<and>
    ?run = dispatch_onwards c H key j rep s \<and> id (td_out (snd ?run)) = id (snd (jh_dispatch H j (td_out s)))"
    by (rule tick_intent_before_dispatch [where f = id, OF _ _ ch]) (use lost_answer_only in \<open>auto simp: frame_ret\<close>)
  then obtain H key j c rep and claimed :: durable_job and s :: "nat tick_db" where "lost_answer = H" "open_intent key s"
    "row_by dj_id (dj_id claimed) (du_jobs s) = Some j" "dj_state j = Run_RUNNING" "id (td_out s) = id (td_out tick_start)"
    "?run = dispatch_onwards c H key j rep s"
    unfolding option.inject by (elim exE conjE) (rule that)
  moreover from this have "row_by dj_id (dj_id j) (du_jobs s) = Some j" using row_by_SomeD by fastforce
  moreover have "td_out tick_start = 0" by (simp add: tick_start_def)
  ultimately have "open_intent key s \<and> row_by dj_id (dj_id j) (du_jobs s) = Some j \<and> dj_state j = Run_RUNNING \<and> td_out s = 0 \<and>
    ?run = dispatch_onwards c lost_answer key j rep s" by simp
  then show ?thesis by blast
qed

end
