(* ===== verification/Build_Dag.thy ===== *)
theory Build_Dag
  imports Risk "HOL-Library.Product_Lexorder"
begin

section \<open>The build graph\<close>

text \<open>
  Models \<^verbatim>\<open>agency/durable/build_dag.py\<close>: the nodes of the build, Kahn's topological sort with its
  heap of ready names, the dependency closure, the critical path, the bounded waves, the status of a
  node and the three predicates over a build. A dict whose keys are node names is a list of pairs in
  insertion order; a heap of names is the sorted list of its elements, of which \<open>heappop\<close> takes the
  first.
\<close>

subsection \<open>Nodes\<close>

record build_node =
  bn_name :: string
  bn_deps :: "string list"
  bn_owner :: string
  bn_action :: string
  bn_inputs :: "string list"
  bn_outputs :: "string list"
  bn_caps :: "string list"
  bn_auth :: string
  bn_idempotency :: string
  bn_timeout :: int
  bn_retries :: int
  bn_budget :: string
  bn_acceptance :: "string list"
  bn_verification :: "string list"
  bn_rollback :: string
  bn_edges :: "(string \<times> string) list"

definition node_id :: "(bytes \<Rightarrow> string) \<Rightarrow> build_node \<Rightarrow> string" where
  "node_id H n = take 16 (chash H (JDict [(''name'', JStr (bn_name n)), (''deps'', str_list (bn_deps n)),
     (''action'', JStr (bn_action n))]))"

text \<open>The keyword arguments of \<open>_n\<close> that have defaults.\<close>

record node_options =
  no_timeout :: int
  no_caps :: "string list"
  no_auth :: string
  no_edges :: "(string \<times> string) list"
  no_idempotency :: "string option"
  no_retries :: "int option"
  no_budget :: "string option"
  no_acceptance :: "string list option"
  no_rollback :: "string option"

definition default_options :: node_options where
  "default_options = \<lparr>no_timeout = 1800, no_caps = [], no_auth = ''G1'', no_edges = [], no_idempotency = None, no_retries = None,
     no_budget = None, no_acceptance = None, no_rollback = None\<rparr>"

definition or_else :: "'a option \<Rightarrow> 'a \<Rightarrow> 'a" where
  "or_else x d = (case x of None \<Rightarrow> d | Some v \<Rightarrow> v)"

definition make_node :: "string \<Rightarrow> string list \<Rightarrow> string \<Rightarrow> string \<Rightarrow> string list \<Rightarrow> string list \<Rightarrow> node_options \<Rightarrow> build_node" where
  "make_node name deps owner action outputs verification kw =
    \<lparr>bn_name = name, bn_deps = deps, bn_owner = owner, bn_action = action, bn_inputs = map (\<lambda>d. d @ ''.outputs'') deps,
     bn_outputs = outputs, bn_caps = no_caps kw, bn_auth = no_auth kw,
     bn_idempotency = or_else (no_idempotency kw) ''deterministic re-run; outputs content-addressed'',
     bn_timeout = no_timeout kw, bn_retries = min 3 (or_else (no_retries kw) 2),
     bn_budget = or_else (no_budget kw) (str_int (no_timeout kw) @ ''s wall, 4 CPU''),
     bn_acceptance = or_else (no_acceptance kw) [name @ ''.verified''], bn_verification = verification,
     bn_rollback = or_else (no_rollback kw) ''git revert of the producing commit'',
     bn_edges = (if no_edges kw \<noteq> [] then no_edges kw else dict_merge [] (map (\<lambda>d. (d, ''artifact'')) deps))\<rparr>"

definition build_dag :: "build_node list" where
  "build_dag =
    [make_node ''A00_DISCOVER'' [] ''PrincipalSystemsArchitect'' ''inspect repository and environment; snapshot baseline''
       [''environment snapshot''] [''cmd:environment_snapshot''] (default_options\<lparr>no_auth := ''G0'', no_timeout := 300\<rparr>),
     make_node ''A01_MAP'' [''A00_DISCOVER''] ''PrincipalSystemsArchitect'' ''trace requirements to implementations''
       [''docs/abc-v6-traceability.md''] [''file:docs/abc-v6-traceability.md''] (default_options\<lparr>no_auth := ''G0'', no_timeout := 600\<rparr>),
     make_node ''A02_SPECIFY'' [''A01_MAP''] ''RuntimeCompiler'' ''mission genome, contracts, schemas, governance''
       [''agency/durable/genome.py'', ''runtime/abc/governance-matrix.yaml''] [''cmd:pytest_abc''] (default_options\<lparr>no_timeout := 900\<rparr>),
     make_node ''A03_INTEGRATE'' [''A02_SPECIFY''] ''RuntimeCompiler'' ''extend control plane: shared release gate, durable runtime''
       [''agency/intake/release.py'', ''persistence/durable_runs.py''] [''cmd:pytest_abc'', ''cmd:pytest_intake'']
       (default_options\<lparr>no_timeout := 900\<rparr>),
     make_node ''A04_VISUAL'' [''A03_INTEGRATE''] ''CreativeEngineEngineer'' ''local image and scene generation (Blender Cycles)''
       [''agency/visual''] [''cmd:pytest_abc''] (default_options\<lparr>no_caps := [''R1_BLENDER_CYCLES''], no_timeout := 1800\<rparr>),
     make_node ''A05_PRODUCE'' [''A03_INTEGRATE'', ''A04_VISUAL''] ''CreativeEngineEngineer'' ''connect SVG, video and render routes''
       [''runtime/abc/samples''] [''file:runtime/abc/samples/provenance.json'']
       (default_options\<lparr>no_caps := [''R1_BLENDER_CYCLES'', ''R5_LOCAL_VIDEO''], no_timeout := 3600\<rparr>),
     make_node ''A06_VERIFY'' [''A04_VISUAL'', ''A05_PRODUCE''] ''SecurityReviewer'' ''independent artifact readback verification''
       [''agency/visual/verify.py''] [''cmd:pytest_abc''] (default_options\<lparr>no_timeout := 900\<rparr>),
     make_node ''A07_OPERATE'' [''A03_INTEGRATE'', ''A06_VERIFY''] ''RuntimeCompiler'' ''durable scheduling and reconciliation''
       [''agency/durable/ticks.py'', ''supabase/migrations/20261009_amc_durable_runtime_v1.sql''] [''cmd:pytest_abc'']
       (default_options\<lparr>no_timeout := 900\<rparr>),
     make_node ''A08_OBSERVE'' [''A07_OPERATE''] ''RuntimeCompiler'' ''tick telemetry and transition log''
       [''durable_ticks'', ''durable_transitions''] [''cmd:pytest_abc''] (default_options\<lparr>no_timeout := 600\<rparr>),
     make_node ''A09_TEST'' [''A06_VERIFY'', ''A07_OPERATE'', ''A08_OBSERVE''] ''SecurityReviewer'' ''unit, integration, fault and regression''
       [''test results''] [''cmd:pytest_full'', ''cmd:ruff'', ''cmd:compileall''] (default_options\<lparr>no_timeout := 1800\<rparr>),
     make_node ''A10_PACKAGE'' [''A09_TEST''] ''PrincipalSystemsArchitect'' ''manifests, docs, runbook, evidence''
       [''runtime/abc/*.yaml'', ''docs/abc-v6-runbook.md''] [''cmd:abc_manifests_check'', ''cmd:gates''] (default_options\<lparr>no_timeout := 600\<rparr>),
     make_node ''A11_SEAL'' [''A10_PACKAGE''] ''SecurityReviewer'' ''seal BuildState=DELIVERABLE_EXISTS only if predicates pass''
       [''runtime/abc/verification-seal.json''] [''self:seal_composed'']
       (default_options\<lparr>no_timeout := 300, no_rollback := Some ''discard the seal; it is regenerated from command results''\<rparr>)]"

datatype dag_error = Dag_Error string | Dag_Key string | Dag_Value string

text \<open>\<open>by_name\<close>: the dict of nodes; its values are the list.\<close>

definition by_name :: "build_node list \<Rightarrow> build_node list" where
  "by_name nodes = fold (upsert bn_name) nodes []"

subsection \<open>Topological sort\<close>

definition edges_of :: "build_node list \<Rightarrow> (string \<times> string) list" where
  "edges_of index = concat (map (\<lambda>n. map (\<lambda>d. (bn_name n, d)) (bn_deps n)) index)"

definition add_degree :: "int \<Rightarrow> string \<Rightarrow> (string \<times> int) list \<Rightarrow> (string \<times> int) list" where
  "add_degree i c deg = update_rows (\<lambda>p. fst p = c) (\<lambda>p. (fst p, snd p + i)) deg"

definition add_child :: "string \<Rightarrow> string \<Rightarrow> (string \<times> string list) list \<Rightarrow> (string \<times> string list) list" where
  "add_child d c ch = update_rows (\<lambda>p. fst p = d) (\<lambda>p. (fst p, snd p @ [c])) ch"

fun note_edges :: "build_node list \<Rightarrow> (string \<times> string) list \<Rightarrow> (string \<times> int) list \<Rightarrow> (string \<times> string list) list
    \<Rightarrow> dag_error + (string \<times> int) list \<times> (string \<times> string list) list" where
  "note_edges index [] deg ch = Inr (deg, ch)"
| "note_edges index ((c, d) # es) deg ch =
    (if row_by bn_name d index = None then Inl (Dag_Error (c @ '' depends on missing node '' @ d))
     else note_edges index es (add_degree 1 c deg) (add_child d c ch))"

fun release_children :: "string list \<Rightarrow> (string \<times> int) list \<Rightarrow> string list \<Rightarrow> (string \<times> int) list \<times> string list" where
  "release_children [] deg ready = (deg, ready)"
| "release_children (c # cs) deg ready = (let deg' = add_degree (- 1) c deg in
    release_children cs deg' (if map_of deg' c = Some 0 then insort c ready else ready))"

definition children_of :: "(string \<times> string list) list \<Rightarrow> string \<Rightarrow> string list" where
  "children_of ch x = (case map_of ch x of None \<Rightarrow> [] | Some cs \<Rightarrow> cs)"

definition positives :: "(string \<times> int) list \<Rightarrow> nat" where
  "positives deg = length (filter (\<lambda>p. 0 < snd p) deg)"

lemma positives_add_degree: "positives (add_degree (- 1) c deg) + (if map_of (add_degree (- 1) c deg) c = Some 0 then 1 else 0) \<le> positives deg"
  by (induction deg) (auto simp: positives_def add_degree_def)

lemma positives_release: "release_children cs deg ready = (deg', ready') \<Longrightarrow> positives deg' + length ready' \<le> positives deg + length ready"
proof (induction cs deg ready rule: release_children.induct)
  case (2 c cs deg ready)
  then show ?case using positives_add_degree [of c deg] by (fastforce simp: Let_def split: if_splits)
qed simp

text \<open>The loop over the ready heap ends: a name is pushed when its degree falls from one to nought.\<close>

function kahn :: "(string \<times> string list) list \<Rightarrow> (string \<times> int) list \<Rightarrow> string list \<Rightarrow> string list \<Rightarrow> string list" where
  "kahn ch deg [] order = order"
| "kahn ch deg (x # ready) order = (case release_children (sort (children_of ch x)) deg ready of
    (deg', ready') \<Rightarrow> kahn ch deg' ready' (order @ [x]))"
  by pat_completeness auto
termination
  by (relation "measure (\<lambda>(ch, deg, ready, order). positives deg + length ready)") (auto dest!: sym [THEN positives_release])

definition toposort :: "build_node list \<Rightarrow> dag_error + string list" where
  "toposort nodes = (let index = by_name nodes in
    case note_edges index (edges_of index) (map (\<lambda>n. (bn_name n, 0)) index) (map (\<lambda>n. (bn_name n, [])) index) of
      Inl e \<Rightarrow> Inl e
    | Inr (deg, ch) \<Rightarrow>
        let order = kahn ch deg (sort (map fst (filter (\<lambda>p. snd p = 0) deg))) [] in
        if length order \<noteq> length index
        then Inl (Dag_Error (''cycle among '' @ repr_str_list (sort (filter (\<lambda>n. n \<notin> set order) (map bn_name index)))))
        else Inr order)"

subsection \<open>Closure, critical path and waves\<close>

text \<open>One node's dependencies: what is new is seen and goes on the stack, whose top is the head.\<close>

fun discover :: "string list \<Rightarrow> string list \<Rightarrow> string list \<Rightarrow> string list \<times> string list" where
  "discover [] seen stack = (seen, stack)"
| "discover (d # ds) seen stack =
    (if d \<in> set seen then discover ds seen stack else discover ds (seen @ [d]) (d # stack))"

definition all_deps :: "build_node list \<Rightarrow> string set" where
  "all_deps index = set (concat (map bn_deps index))"

lemma discover_measure:
  "discover ds seen stack = (seen', stack') \<Longrightarrow> finite A \<Longrightarrow> set ds \<subseteq> A \<Longrightarrow>
    length stack' + card (A - set seen') = length stack + card (A - set seen)"
proof (induction ds seen stack rule: discover.induct)
  case (2 d ds seen stack)
  show ?case
  proof (cases "d \<in> set seen")
    case False
    then have "card (A - set seen) = Suc (card (A - set (seen @ [d])))"
      using "2.prems" card_Suc_Diff1 [of "A - set seen" d] by (simp add: Diff_insert2 [symmetric] insert_Diff_if)
    then show ?thesis using 2 False by simp
  qed (use 2 in simp)
qed simp

function closure_from :: "build_node list \<Rightarrow> string list \<Rightarrow> string list \<Rightarrow> dag_error + string list" where
  "closure_from index seen [] = Inr seen"
| "closure_from index seen (x # stack) = (case row_by bn_name x index of
     None \<Rightarrow> Inl (Dag_Key x)
   | Some n \<Rightarrow> (case discover (bn_deps n) seen stack of (seen', stack') \<Rightarrow> closure_from index seen' stack'))"
  by pat_completeness auto
termination
proof (relation "measure (\<lambda>(index, seen, stack). length stack + card (all_deps index - set seen))", goal_cases)
  case prems: (2 index seen x stack n p seen')
  obtain seen2 stack2 where d: "discover (bn_deps n) seen stack = (seen2, stack2)" by (cases "discover (bn_deps n) seen stack") auto
  have "set (bn_deps n) \<subseteq> all_deps index" using prems row_by_SomeD [of bn_name x index n] by (auto simp: all_deps_def)
  moreover have "finite (all_deps index)" by (simp add: all_deps_def)
  ultimately have "length stack2 + card (all_deps index - set seen2) = length stack + card (all_deps index - set seen)"
    using discover_measure [OF d] by blast
  then show ?case using prems d by simp
qed simp

definition dependency_closure :: "string \<Rightarrow> build_node list \<Rightarrow> dag_error + string list" where
  "dependency_closure name nodes = closure_from (by_name nodes) [] [name]"

definition max_best :: "(int \<times> string list) list \<Rightarrow> int \<times> string list" where
  "max_best xs = (case xs of [] \<Rightarrow> (0, []) | x # r \<Rightarrow> fold max r x)"

text \<open>\<open>best[d] for d in n.deps\<close> and its like: a missing key raises.\<close>

fun looked_up :: "(string \<times> 'v) list \<Rightarrow> string list \<Rightarrow> dag_error + 'v list" where
  "looked_up m [] = Inr []"
| "looked_up m (d # ds) = (case map_of m d of
     None \<Rightarrow> Inl (Dag_Key d)
   | Some v \<Rightarrow> (case looked_up m ds of Inl e \<Rightarrow> Inl e | Inr vs \<Rightarrow> Inr (v # vs)))"

text \<open>A loop \<open>for name in order: best[name] = ...\<close> over the values of the node's dependencies.\<close>

fun along :: "build_node list \<Rightarrow> (build_node \<Rightarrow> 'v list \<Rightarrow> 'v) \<Rightarrow> string list \<Rightarrow> (string \<times> 'v) list \<Rightarrow> dag_error + (string \<times> 'v) list" where
  "along index f [] m = Inr m"
| "along index f (x # xs) m = (case row_by bn_name x index of
     None \<Rightarrow> Inl (Dag_Key x)
   | Some n \<Rightarrow> (case looked_up m (bn_deps n) of
       Inl e \<Rightarrow> Inl e
     | Inr vs \<Rightarrow> along index f xs (upsert fst (x, f n vs) m)))"

definition extend_best :: "build_node \<Rightarrow> (int \<times> string list) list \<Rightarrow> int \<times> string list" where
  "extend_best n bests = (let prev = max_best bests in (fst prev + bn_timeout n, snd prev @ [bn_name n]))"

definition critical_path :: "build_node list \<Rightarrow> dag_error + string list \<times> int" where
  "critical_path nodes = (let index = by_name nodes in
    case toposort index of
      Inl e \<Rightarrow> Inl e
    | Inr order \<Rightarrow> (case along index extend_best order [] of
        Inl e \<Rightarrow> Inl e
      | Inr best \<Rightarrow>
          if best = [] then Inl (Dag_Value ''max() iterable argument is empty'')
          else Inr (snd (max_best (map snd best)), fst (max_best (map snd best)))))"

definition next_level :: "build_node \<Rightarrow> int list \<Rightarrow> int" where
  "next_level n levels = 1 + (case levels of [] \<Rightarrow> - 1 | l # ls \<Rightarrow> fold max ls l)"

text \<open>\<open>members[i:i + k] for i in range(0, len(members), k)\<close> for a positive \<open>k\<close>.\<close>

function chunks :: "nat \<Rightarrow> 'a list \<Rightarrow> 'a list list" where
  "chunks k xs = (if xs = [] \<or> k = 0 then [] else take k xs # chunks k (drop k xs))"
  by auto
termination by (relation "measure (\<lambda>(k, xs). length xs)") auto

declare chunks.simps [simp del]

definition waves :: "build_node list \<Rightarrow> int \<Rightarrow> dag_error + string list list" where
  "waves nodes max_parallel = (let index = by_name nodes in
    case toposort index of
      Inl e \<Rightarrow> Inl e
    | Inr order \<Rightarrow> (case along index next_level order [] of
        Inl e \<Rightarrow> Inl e
      | Inr level \<Rightarrow>
          if level \<noteq> [] \<and> max_parallel = 0 then Inl (Dag_Value ''range() arg 3 must not be zero'')
          else Inr (concat (map (\<lambda>lvl. chunks (nat max_parallel) (sort (map fst (filter (\<lambda>p. snd p = lvl) level))))
                 (sort (remdups (map snd level)))))))"

subsection \<open>Status and predicates\<close>

definition node_status :: "build_node \<Rightarrow> (string \<Rightarrow> string option) \<Rightarrow> string" where
  "node_status n evidence = (let states = map (\<lambda>v. or_else (evidence v) ''NOT_RUN'') (bn_verification n) in
    if list_all (\<lambda>s. s = ''PASSED'') states then ''PASSED''
    else if list_ex (\<lambda>s. s = ''FAILED'') states then ''FAILED''
    else ''NOT_RUN'')"

definition build_complete :: "bool \<Rightarrow> bool \<Rightarrow> bool \<Rightarrow> int \<Rightarrow> bool" where
  "build_complete artifacts_exist hashes_match checks_pass critical_unresolved =
    (artifacts_exist \<and> hashes_match \<and> checks_pass \<and> critical_unresolved = 0)"

definition release_eligible :: "bool \<Rightarrow> bool \<Rightarrow> bool \<Rightarrow> bool \<Rightarrow> bool \<Rightarrow> bool" where
  "release_eligible build_ok review_passed authorization_valid approval_current simulation_free =
    (build_ok \<and> review_passed \<and> authorization_valid \<and> approval_current \<and> simulation_free)"

definition runtime_active :: "bool \<Rightarrow> bool \<Rightarrow> bool \<Rightarrow> bool \<Rightarrow> bool" where
  "runtime_active scheduler_configured worker_operational durable_state activation_authorized =
    (scheduler_configured \<and> worker_operational \<and> durable_state \<and> activation_authorized)"

definition node_json :: "(bytes \<Rightarrow> string) \<Rightarrow> build_node \<Rightarrow> json" where
  "node_json H n = JDict [(''id'', JStr (node_id H n)), (''name'', JStr (bn_name n)), (''deps'', str_list (bn_deps n)),
     (''owner'', JStr (bn_owner n)), (''action'', JStr (bn_action n)), (''inputs'', str_list (bn_inputs n)),
     (''outputs'', str_list (bn_outputs n)), (''capabilities'', str_list (bn_caps n)), (''authorization'', JStr (bn_auth n)),
     (''idempotency'', JStr (bn_idempotency n)), (''timeout_s'', JInt (bn_timeout n)), (''retries'', JInt (bn_retries n)),
     (''resource_budget'', JStr (bn_budget n)), (''acceptance'', str_list (bn_acceptance n)),
     (''verification'', str_list (bn_verification n)), (''rollback'', JStr (bn_rollback n)),
     (''edge_types'', JDict (map (\<lambda>(k, v). (k, JStr v)) (bn_edges n)))]"

definition dag_document :: "(bytes \<Rightarrow> string) \<Rightarrow> build_node list \<Rightarrow> dag_error + json" where
  "dag_document H nodes = (case critical_path nodes of
     Inl e \<Rightarrow> Inl e
   | Inr (path, budget) \<Rightarrow> (case toposort nodes of
       Inl e \<Rightarrow> Inl e
     | Inr order \<Rightarrow> (case waves nodes 2 of
         Inl e \<Rightarrow> Inl e
       | Inr ws \<Rightarrow> Inr (JDict [(''schema_version'', JStr ''amc-build-dag/v1''), (''acyclic'', JBool True),
           (''topological_order'', str_list order),
           (''critical_path'', JDict [(''nodes'', str_list path), (''budget_s'', JInt budget)]),
           (''waves_max_parallel_2'', JList (map str_list ws)),
           (''node_status_source'', JStr ''runtime/abc/verification-seal.json (computed from command evidence, never self-reported)''),
           (''nodes'', JList (map (node_json H) nodes))]))))"

end
