(* ===== verification/Build_Order.thy ===== *)
theory Build_Order
  imports Build_Dag
begin

section \<open>Correctness of the build order\<close>

text \<open>
  What the functions of \<^verbatim>\<open>agency/durable/build_dag.py\<close> promise: the sort succeeds exactly on graphs
  without cycle or dangling dependency and puts every dependency first, the closure is exactly what a
  node needs, the critical path is the longest chain, and the waves respect the order and the bound.
\<close>

subsection \<open>The graph\<close>

definition names_of :: "build_node list \<Rightarrow> string list" where
  "names_of index = map bn_name index"

definition deps_in :: "build_node list \<Rightarrow> string \<Rightarrow> string list" where
  "deps_in index k = (case row_by bn_name k index of None \<Rightarrow> [] | Some n \<Rightarrow> bn_deps n)"

text \<open>The dependency relation: from what is needed to what needs it.\<close>

definition needs :: "build_node list \<Rightarrow> (string \<times> string) set" where
  "needs index = {(d, k). d \<in> set (deps_in index k)}"

definition closed_deps :: "build_node list \<Rightarrow> bool" where
  "closed_deps index = list_all (\<lambda>n. list_all (\<lambda>d. d \<in> set (names_of index)) (bn_deps n)) index"

lemma by_name_distinct: "distinct (names_of (by_name nodes))"
proof -
  have "distinct (map bn_name (fold (upsert bn_name) nodes acc))" if "distinct (map bn_name acc)" for acc
    using that by (induction nodes arbitrary: acc) (auto simp: distinct_upsert)
  then show ?thesis by (simp add: by_name_def names_of_def)
qed

lemma upsert_fresh: "key v \<notin> key ` set rows \<Longrightarrow> upsert key v rows = rows @ [v]"
  using row_by_None [of key "key v" rows] by (simp add: upsert_def)

lemma by_name_same: "distinct (names_of index) \<Longrightarrow> by_name index = index"
proof -
  have "fold (upsert bn_name) xs acc = acc @ xs" if "distinct (map bn_name (acc @ xs))" for acc xs
    using that by (induction xs arbitrary: acc) (auto simp: upsert_fresh)
  from this [of "[]" index] show "distinct (names_of index) \<Longrightarrow> by_name index = index" by (simp add: by_name_def names_of_def)
qed

lemma deps_in_mem: "distinct (names_of index) \<Longrightarrow> n \<in> set index \<Longrightarrow> deps_in index (bn_name n) = bn_deps n"
  by (simp add: deps_in_def names_of_def row_by_distinct)

lemma deps_in_row: "d \<in> set (deps_in index k) \<Longrightarrow> \<exists>n\<in>set index. bn_name n = k \<and> d \<in> set (bn_deps n)"
  by (cases "row_by bn_name k index") (auto simp: deps_in_def dest!: row_by_SomeD)

lemma deps_in_named: "d \<in> set (deps_in index k) \<Longrightarrow> k \<in> set (names_of index)"
  by (auto simp: names_of_def dest!: deps_in_row)

lemma closed_deps_in: "closed_deps index \<Longrightarrow> d \<in> set (deps_in index k) \<Longrightarrow> d \<in> set (names_of index)"
  by (auto simp: closed_deps_def list_all_iff dest!: deps_in_row)

lemma sum_over_names:
  assumes "distinct (names_of index)"
  shows "sum_list (map (\<lambda>n. if bn_name n = k then f (bn_deps n) else 0) index) =
    (if k \<in> set (names_of index) then f (deps_in index k) else (0 :: nat))"
  using assms
proof (induction index)
  case (Cons n index)
  show ?case
  proof (cases "bn_name n = k")
    case True
    then have "sum_list (map (\<lambda>n. if bn_name n = k then f (bn_deps n) else 0) index) = 0"
      using Cons.prems by (simp add: names_of_def sum_list_eq_0_iff image_iff) blast
    with True show ?thesis by (simp add: deps_in_def names_of_def)
  next
    case False
    with Cons show ?thesis by (simp add: deps_in_def names_of_def)
  qed
qed (simp add: names_of_def)

lemma deps_in_unnamed: "k \<notin> set (names_of index) \<Longrightarrow> deps_in index k = []"
  using deps_in_named [of "hd (deps_in index k)" index k] by (cases "deps_in index k") auto

subsection \<open>Degrees and children\<close>

lemma count_list_filter: "count_list xs x = length (filter (\<lambda>y. y = x) xs)"
  by (induction xs) auto

lemma map_of_add_degree:
  "map_of (add_degree i c deg) k = map_option (\<lambda>v. if k = c then v + i else v) (map_of deg k)"
  by (induction deg) (auto simp: add_degree_def)

lemma fst_add_degree [simp]: "map fst (add_degree i c deg) = map fst deg"
  by (induction deg) (auto simp: add_degree_def)

lemma map_of_add_child:
  "map_of (add_child d c ch) k = map_option (\<lambda>v. if k = d then v @ [c] else v) (map_of ch k)"
  by (induction ch) (auto simp: add_child_def)

lemma note_edges_Inl: "note_edges index es deg ch = Inl e \<Longrightarrow> \<exists>p\<in>set es. snd p \<notin> set (names_of index)"
  by (induction index es deg ch rule: note_edges.induct) (auto simp: row_by_None names_of_def split: if_splits)

lemma note_edges_Inr:
  "note_edges index es deg ch = Inr (deg', ch') \<Longrightarrow>
    (\<forall>p\<in>set es. snd p \<in> set (names_of index)) \<and> map fst deg' = map fst deg \<and>
    (\<forall>k. map_of deg' k = map_option (\<lambda>v. v + int (count_list (map fst es) k)) (map_of deg k)) \<and>
    (\<forall>k. map_of ch' k = map_option (\<lambda>v. v @ map fst (filter (\<lambda>p. snd p = k) es)) (map_of ch k))"
proof (induction index es deg ch rule: note_edges.induct)
  case (1 index deg ch)
  then show ?case by (auto simp: option.map_ident)
next
  case (2 index c d es deg ch)
  then show ?case
    by (auto simp: map_of_add_degree map_of_add_child row_by_None names_of_def option.map_comp comp_def split: if_splits
        intro!: option.map_cong)
qed

lemma edges_count:
  assumes "distinct (names_of index)"
  shows "count_list (map fst (edges_of index)) k = length (deps_in index k)"
proof -
  have "count_list (map fst (edges_of index)) k = sum_list (map (\<lambda>n. if bn_name n = k then length (bn_deps n) else 0) index)"
    by (induction index) (auto simp: edges_of_def count_list_filter comp_def)
  also have "\<dots> = length (deps_in index k)"
    using sum_over_names [OF assms, of k length] by (auto simp: deps_in_unnamed)
  finally show ?thesis .
qed

lemma edges_children:
  assumes "distinct (names_of index)"
  shows "count_list (map fst (filter (\<lambda>p. snd p = x) (edges_of index))) k = count_list (deps_in index k) x"
proof -
  have one: "count_list (map fst (filter (\<lambda>p. snd p = x) (map (\<lambda>d. (c, d)) ds))) k = (if c = k then count_list ds x else 0)" for c ds
    by (induction ds) auto
  have app: "count_list (a @ b) k = count_list a k + count_list b k" for a b :: "string list"
    by (simp add: count_list_filter)
  have "count_list (map fst (filter (\<lambda>p. snd p = x) (edges_of index))) k =
      sum_list (map (\<lambda>n. if bn_name n = k then count_list (bn_deps n) x else 0) index)"
    by (induction index) (simp_all add: edges_of_def one app)
  also have "\<dots> = count_list (deps_in index k) x"
    using sum_over_names [OF assms, of k "\<lambda>ds. count_list ds x"] by (auto simp: deps_in_unnamed)
  finally show ?thesis .
qed

subsection \<open>The loop over the ready heap\<close>

text \<open>How many of a node's dependencies are not done yet, and that an order puts dependencies first.\<close>

definition pending :: "build_node list \<Rightarrow> string set \<Rightarrow> string \<Rightarrow> nat" where
  "pending index done k = length (filter (\<lambda>d. d \<notin> done) (deps_in index k))"

fun supported :: "build_node list \<Rightarrow> string set \<Rightarrow> string list \<Rightarrow> bool" where
  "supported index done [] = True"
| "supported index done (x # xs) = (set (deps_in index x) \<subseteq> done \<and> supported index (insert x done) xs)"

lemma supported_snoc:
  "supported index done (xs @ [x]) = (supported index done xs \<and> set (deps_in index x) \<subseteq> done \<union> set xs)"
  by (induction index "done" xs rule: supported.induct) auto

lemma pending_0: "pending index done k = 0 \<longleftrightarrow> set (deps_in index k) \<subseteq> done"
  by (auto simp: pending_def filter_empty_conv)

lemma pending_insert: "x \<notin> done \<Longrightarrow> pending index done k = pending index (insert x done) k + count_list (deps_in index k) x"
proof -
  assume "x \<notin> done"
  then have "length (filter (\<lambda>d. d \<notin> done) ds) = length (filter (\<lambda>d. d \<notin> insert x done) ds) + count_list ds x" for ds
    by (induction ds) auto
  then show ?thesis by (simp add: pending_def)
qed

lemma release_children_spec:
  assumes "release_children cs deg ready = (deg', ready')" and "distinct ready"
    and "\<forall>k\<in>set ready. \<exists>v. map_of deg k = Some v \<and> v \<le> 0"
  shows "map fst deg' = map fst deg \<and> distinct ready' \<and>
    (\<forall>k. map_of deg' k = map_option (\<lambda>v. v - int (count_list cs k)) (map_of deg k)) \<and>
    set ready' = set ready \<union> {k. \<exists>v. map_of deg k = Some v \<and> 0 < v \<and> v \<le> int (count_list cs k)}"
  using assms
proof (induction cs deg ready rule: release_children.induct)
  case (1 deg ready)
  then show ?case by (auto simp: option.map_ident)
next
  case (2 c cs deg ready)
  define deg1 where "deg1 = add_degree (- 1) c deg"
  define ready1 where "ready1 = (if map_of deg1 c = Some 0 then insort c ready else ready)"
  have at: "map_of deg1 k = map_option (\<lambda>v. if k = c then v - 1 else v) (map_of deg k)" for k
    by (auto simp: deg1_def map_of_add_degree intro!: option.map_cong)
  have low: "\<forall>k\<in>set ready. \<exists>v. map_of deg1 k = Some v \<and> v \<le> 0" and fresh: "map_of deg1 c = Some 0 \<Longrightarrow> c \<notin> set ready"
    using "2.prems"(3) by (fastforce simp: at)+
  have "distinct ready1" and "\<forall>k\<in>set ready1. \<exists>v. map_of deg1 k = Some v \<and> v \<le> 0"
    using low fresh "2.prems"(2) by (auto simp: ready1_def distinct_insort set_insort_key)
  then have IH: "map fst deg' = map fst deg1" "distinct ready'"
    "\<forall>k. map_of deg' k = map_option (\<lambda>v. v - int (count_list cs k)) (map_of deg1 k)"
    "set ready' = set ready1 \<union> {k. \<exists>v. map_of deg1 k = Some v \<and> 0 < v \<and> v \<le> int (count_list cs k)}"
    using "2.IH" [of deg1] "2.prems"(1) by (auto simp: deg1_def ready1_def Let_def)
  have "map_of deg' k = map_option (\<lambda>v. v - int (count_list (c # cs) k)) (map_of deg k)" for k
    using IH(3) by (cases "map_of deg k") (auto simp: at)
  moreover have "k \<in> set ready' \<longleftrightarrow> k \<in> set ready \<or> (\<exists>v. map_of deg k = Some v \<and> 0 < v \<and> v \<le> int (count_list (c # cs) k))" for k
    by (cases "map_of deg k"; cases "k = c") (auto simp: IH(4) ready1_def at set_insort_key)
  moreover have "map fst deg' = map fst deg" using IH(1) by (simp add: deg1_def)
  ultimately show ?case using IH(2) by blast
qed

text \<open>What the loop keeps: the degrees count what is pending, and a name is ready or done when nothing is.\<close>

definition kahn_ok :: "build_node list \<Rightarrow> (string \<times> string list) list \<Rightarrow> (string \<times> int) list \<Rightarrow> string list \<Rightarrow> string list \<Rightarrow> bool" where
  "kahn_ok index ch deg ready order = (distinct (order @ ready) \<and>
    (\<forall>x. \<forall>k. x \<in> set (names_of index) \<longrightarrow> count_list (children_of ch x) k = count_list (deps_in index k) x) \<and>
    (\<forall>k. map_of deg k = (if k \<in> set (names_of index) then Some (int (pending index (set order) k)) else None)) \<and>
    set order \<union> set ready = {k. k \<in> set (names_of index) \<and> pending index (set order) k = 0} \<and>
    supported index {} order)"

lemma kahn_ok_step:
  assumes "kahn_ok index ch deg (x # ready) order"
    and r: "release_children (sort (children_of ch x)) deg ready = (deg', ready')"
  shows "kahn_ok index ch deg' ready' (order @ [x])"
proof -
  have dist: "distinct (order @ x # ready)"
    and ch: "x \<in> set (names_of index) \<Longrightarrow> count_list (children_of ch x) k = count_list (deps_in index k) x"
    and deg: "map_of deg k = (if k \<in> set (names_of index) then Some (int (pending index (set order) k)) else None)"
    and sets: "set order \<union> set (x # ready) = {k. k \<in> set (names_of index) \<and> pending index (set order) k = 0}"
    and sup: "supported index {} order" for k
    using assms(1) by (simp_all add: kahn_ok_def)
  have x: "x \<in> set (names_of index)" "pending index (set order) x = 0" "x \<notin> set order" using sets dist by auto
  have count: "count_list (sort (children_of ch x)) k = count_list (deps_in index k) x" for k
    using ch [OF x(1)] by (metis count_mset mset_sort)
  have split: "pending index (set order) k = pending index (insert x (set order)) k + count_list (deps_in index k) x" for k
    by (rule pending_insert [OF x(3)])
  have "\<forall>k\<in>set ready. \<exists>v. map_of deg k = Some v \<and> v \<le> 0" using sets by (auto simp: deg)
  from release_children_spec [OF r _ this] have R: "distinct ready'"
    "\<And>k. map_of deg' k = map_option (\<lambda>v. v - int (count_list (deps_in index k) x)) (map_of deg k)"
    "set ready' = set ready \<union> {k. \<exists>v. map_of deg k = Some v \<and> 0 < v \<and> v \<le> int (count_list (deps_in index k) x)}"
    using dist by (auto simp: count)
  have new: "k \<in> set ready' \<longleftrightarrow> k \<in> set ready \<or> (k \<in> set (names_of index) \<and> 0 < pending index (set order) k \<and>
      pending index (insert x (set order)) k = 0)" for k
    using split [of k] by (auto simp: R(3) deg split: if_splits)
  have old: "k \<in> set ready \<longleftrightarrow> k \<noteq> x \<and> k \<notin> set order \<and> k \<in> set (names_of index) \<and> pending index (set order) k = 0" for k
    using sets dist by auto
  have "set (order @ [x]) \<union> set ready' = {k. k \<in> set (names_of index) \<and> pending index (set (order @ [x])) k = 0}"
  proof (intro set_eqI)
    fix k
    have "k \<in> set order \<Longrightarrow> k \<in> set (names_of index) \<and> pending index (set order) k = 0" using sets by auto
    then show "k \<in> set (order @ [x]) \<union> set ready' \<longleftrightarrow> k \<in> {k. k \<in> set (names_of index) \<and> pending index (set (order @ [x])) k = 0}"
      using split [of k] x new [of k] old [of k] by auto
  qed
  moreover have "distinct ((order @ [x]) @ ready')"
  proof -
    have "k \<notin> set ready'" if "k \<in> set (order @ [x])" for k using that sets x new [of k] old [of k] by auto
    then show ?thesis using dist R(1) by auto
  qed
  moreover have "map_of deg' k = (if k \<in> set (names_of index) then Some (int (pending index (set (order @ [x])) k)) else None)" for k
    using split [of k] by (simp add: R(2) deg)
  moreover have "supported index {} (order @ [x])" using sup x(2) by (simp add: supported_snoc pending_0)
  ultimately show ?thesis using ch by (simp add: kahn_ok_def assms(1) [unfolded kahn_ok_def])
qed

lemma kahn_result: "kahn_ok index ch deg ready order \<Longrightarrow> \<exists>deg'. kahn_ok index ch deg' [] (kahn ch deg ready order)"
proof (induction ch deg ready order rule: kahn.induct)
  case (2 ch deg x ready order)
  obtain d r where e: "release_children (sort (children_of ch x)) deg ready = (d, r)" by fastforce
  then show ?case using "2.IH" [OF e [symmetric]] kahn_ok_step [OF "2.prems" e] by simp
qed auto

subsection \<open>The sort\<close>

lemma map_of_const: "map_of (map (\<lambda>n. (bn_name n, c)) index) k = (if k \<in> set (names_of index) then Some c else None)"
  by (induction index) (auto simp: names_of_def)

lemma kahn_ok_start:
  assumes "distinct (names_of index)"
    and e: "note_edges index (edges_of index) (map (\<lambda>n. (bn_name n, 0)) index) (map (\<lambda>n. (bn_name n, [])) index) = Inr (deg, ch)"
  shows "kahn_ok index ch deg (sort (map fst (filter (\<lambda>p. snd p = 0) deg))) []"
proof -
  have keys: "map fst deg = names_of index"
    and deg: "map_of deg k = (if k \<in> set (names_of index) then Some (int (pending index {} k)) else None)"
    and ch: "map_of ch k = (if k \<in> set (names_of index) then Some (map fst (filter (\<lambda>p. snd p = k) (edges_of index))) else None)" for k
    using note_edges_Inr [OF e] edges_count [OF assms(1), of k]
    by (auto simp: map_of_const names_of_def comp_def pending_def)
  have dist: "distinct (map fst deg)" using keys assms(1) by simp
  define ready where "ready = sort (map fst (filter (\<lambda>p. snd p = 0) deg))"
  have "k \<in> set ready \<longleftrightarrow> map_of deg k = Some 0" for k
    using dist by (force simp: ready_def map_of_eq_Some_iff)
  then have "set ready = {k. k \<in> set (names_of index) \<and> pending index {} k = 0}"
    by (simp add: set_eq_iff deg)
  moreover have "distinct ready" using dist by (simp add: ready_def distinct_map_filter)
  ultimately show ?thesis
    unfolding ready_def [symmetric] by (simp add: kahn_ok_def deg children_of_def ch edges_children [OF assms(1)])
qed

lemma supported_before:
  "supported index done xs \<Longrightarrow> k \<in> set xs \<Longrightarrow> d \<in> set (deps_in index k) \<Longrightarrow>
    d \<in> done \<or> d \<in> set xs \<and> length (takeWhile (\<lambda>y. y \<noteq> d) xs) < length (takeWhile (\<lambda>y. y \<noteq> k) xs)"
  by (induction index "done" xs rule: supported.induct) auto

lemma supported_acyclic:
  assumes "supported index {} order" and "set (names_of index) \<subseteq> set order"
  shows "acyclic (needs index)"
proof -
  have "needs index \<subseteq> measure (\<lambda>k. length (takeWhile (\<lambda>y. y \<noteq> k) order))"
    using supported_before [OF assms(1)] deps_in_named assms(2) by (fastforce simp: needs_def)
  then show ?thesis by (rule acyclic_subset [OF wf_acyclic [OF wf_measure]])
qed

lemma finite_needs: "finite (needs index)"
proof (rule finite_subset)
  show "needs index \<subseteq> set (concat (map bn_deps index)) \<times> set (names_of index)"
    by (auto simp: needs_def names_of_def dest!: deps_in_row)
qed simp

lemma edges_closed: "closed_deps index \<longleftrightarrow> (\<forall>p\<in>set (edges_of index). snd p \<in> set (names_of index))"
  by (auto simp: closed_deps_def edges_of_def list_all_iff)

lemma kahn_all:
  assumes ok: "kahn_ok index ch deg [] order" and "closed_deps index" and "acyclic (needs index)"
  shows "set order = set (names_of index)"
proof (rule ccontr)
  assume "set order \<noteq> set (names_of index)"
  then obtain r where "r \<in> set (names_of index) - set order" using ok by (auto simp: kahn_ok_def)
  moreover have "wf (needs index)" using finite_needs assms(3) by (rule finite_acyclic_wf)
  ultimately obtain z where z: "z \<in> set (names_of index) - set order"
    and least: "\<And>y. (y, z) \<in> needs index \<Longrightarrow> y \<notin> set (names_of index) - set order"
    by (metis wfE_min)
  then have "pending index (set order) z \<noteq> 0" using ok by (auto simp: kahn_ok_def)
  then obtain d where "d \<in> set (deps_in index z)" "d \<notin> set order" by (auto simp: pending_0)
  then show False using least [of d] closed_deps_in [OF assms(2)] by (auto simp: needs_def)
qed

lemma toposort_cases:
  fixes nodes :: "build_node list"
  defines "index \<equiv> by_name nodes"
  shows "(case toposort nodes of
      Inr order \<Rightarrow> distinct order \<and> set order = set (names_of index) \<and> supported index {} order \<and> closed_deps index
    | Inl _ \<Rightarrow> \<not> (closed_deps index \<and> acyclic (needs index)))"
proof -
  have dist: "distinct (names_of index)" by (simp add: index_def by_name_distinct)
  show ?thesis
  proof (cases "note_edges index (edges_of index) (map (\<lambda>n. (bn_name n, 0)) index) (map (\<lambda>n. (bn_name n, [])) index)")
    case (Inl e)
    then have "\<not> closed_deps index" by (auto simp: edges_closed dest!: note_edges_Inl)
    with Inl show ?thesis by (simp add: toposort_def index_def Let_def)
  next
    case (Inr p)
    then obtain deg ch where e: "note_edges index (edges_of index) (map (\<lambda>n. (bn_name n, 0)) index) (map (\<lambda>n. (bn_name n, [])) index) = Inr (deg, ch)"
      by (cases p) auto
    define order where "order = kahn ch deg (sort (map fst (filter (\<lambda>p. snd p = 0) deg))) []"
    from kahn_result [OF kahn_ok_start [OF dist e]] obtain deg' where ok: "kahn_ok index ch deg' [] order" by (auto simp: order_def)
    have closed: "closed_deps index" using note_edges_Inr [OF e] by (auto simp: edges_closed)
    have sub: "set order \<subseteq> set (names_of index)" "distinct order" "supported index {} order" using ok by (auto simp: kahn_ok_def)
    have len: "length order = length index \<longleftrightarrow> set order = set (names_of index)"
      using sub dist distinct_card [of order] distinct_card [of "names_of index"] card_subset_eq [of "set (names_of index)" "set order"]
      by (auto simp: names_of_def)
    have "toposort nodes = (if length order \<noteq> length index
        then Inl (Dag_Error (''cycle among '' @ repr_str_list (sort (filter (\<lambda>n. n \<notin> set order) (map bn_name index))))) else Inr order)"
      using e by (simp add: toposort_def index_def [symmetric] Let_def order_def)
    then show ?thesis using len sub closed kahn_all [OF ok closed] by auto
  qed
qed

text \<open>
  C23. The sort of a build graph ends, and returns an order exactly when no dependency is missing and
  the graph has no cycle. The order then lists every node once, each after all it depends on.
\<close>

theorem toposort_correct:
  "(toposort nodes = Inr order \<longrightarrow> distinct order \<and> set order = set (names_of (by_name nodes)) \<and> supported (by_name nodes) {} order) \<and>
   ((\<exists>order. toposort nodes = Inr order) \<longleftrightarrow> closed_deps (by_name nodes) \<and> acyclic (needs (by_name nodes)))"
proof (cases "toposort nodes")
  case (Inl e)
  then show ?thesis using toposort_cases [of nodes] by simp
next
  case (Inr xs)
  then show ?thesis using toposort_cases [of nodes] supported_acyclic [of "by_name nodes" xs] by auto
qed

subsection \<open>The closure\<close>

lemma discover_spec:
  "discover ds seen stack = (seen', stack') \<Longrightarrow>
    set seen' = set seen \<union> set ds \<and> set stack' = set stack \<union> (set ds - set seen) \<and> (distinct seen \<longrightarrow> distinct seen')"
  by (induction ds seen stack rule: discover.induct) (auto split: if_splits)

lemma closure_from_spec:
  "closed_deps index \<Longrightarrow> set stack \<subseteq> set (names_of index) \<Longrightarrow> \<exists>S. closure_from index seen stack = Inr S \<and>
    (distinct seen \<longrightarrow> distinct S) \<and> set seen \<subseteq> set S \<and> (\<forall>x\<in>set stack. set (deps_in index x) \<subseteq> set S) \<and>
    (\<forall>y\<in>set S. y \<in> set seen - set stack \<or> set (deps_in index y) \<subseteq> set S) \<and>
    set S \<subseteq> set seen \<union> {d. \<exists>x\<in>set stack. (d, x) \<in> (needs index)\<^sup>+}"
proof (induction index seen stack rule: closure_from.induct)
  case (2 index seen x stack)
  obtain n where n: "row_by bn_name x index = Some n"
    using "2.prems"(2) row_by_None [of bn_name x index] by (cases "row_by bn_name x index") (auto simp: names_of_def)
  then have deps: "deps_in index x = bn_deps n" by (simp add: deps_in_def)
  obtain seen' stack' where d: "discover (bn_deps n) seen stack = (seen', stack')" by fastforce
  note sp = discover_spec [OF d]
  have "set stack' \<subseteq> set (names_of index)" using sp "2.prems" closed_deps_in [OF "2.prems"(1), of _ x] by (auto simp: deps)
  from "2.IH" [OF n d [symmetric] "2.prems"(1) this] obtain S where S: "closure_from index seen' stack' = Inr S"
    "distinct seen' \<longrightarrow> distinct S" "set seen' \<subseteq> set S" "\<forall>x\<in>set stack'. set (deps_in index x) \<subseteq> set S"
    "\<forall>y\<in>set S. y \<in> set seen' - set stack' \<or> set (deps_in index y) \<subseteq> set S"
    "set S \<subseteq> set seen' \<union> {d. \<exists>x\<in>set stack'. (d, x) \<in> (needs index)\<^sup>+}" by blast
  have edge: "(d, x) \<in> needs index" if "d \<in> set (bn_deps n)" for d using that by (simp add: needs_def deps)
  have "set S \<subseteq> set seen \<union> {d. \<exists>y\<in>set (x # stack). (d, y) \<in> (needs index)\<^sup>+}"
  proof
    fix d assume "d \<in> set S"
    then consider "d \<in> set seen" | "d \<in> set (bn_deps n)" | z where "z \<in> set stack \<union> set (bn_deps n)" "(d, z) \<in> (needs index)\<^sup>+"
      using S(6) sp by blast
    then show "d \<in> set seen \<union> {d. \<exists>y\<in>set (x # stack). (d, y) \<in> (needs index)\<^sup>+}"
      by cases (auto dest: edge intro: trancl_into_trancl)
  qed
  moreover have "\<forall>y\<in>set S. y \<in> set seen - set (x # stack) \<or> set (deps_in index y) \<subseteq> set S"
    using S(3-5) sp deps by (metis (no_types, lifting) Diff_iff Un_iff le_supE set_ConsD)
  moreover have "\<forall>y\<in>set (x # stack). set (deps_in index y) \<subseteq> set S" using S(3,4) sp deps by auto
  ultimately show ?case using S(1-3) sp n d by auto
qed auto

lemma dependency_closure_exact:
  assumes "closed_deps (by_name nodes)" and "name \<in> set (names_of (by_name nodes))"
  shows "\<exists>S. dependency_closure name nodes = Inr S \<and> distinct S \<and> set S = {d. (d, name) \<in> (needs (by_name nodes))\<^sup>+}"
proof -
  let ?E = "needs (by_name nodes)"
  obtain S where S: "dependency_closure name nodes = Inr S" "distinct S" "set (deps_in (by_name nodes) name) \<subseteq> set S"
    "\<forall>y\<in>set S. set (deps_in (by_name nodes) y) \<subseteq> set S" "set S \<subseteq> {d. (d, name) \<in> ?E\<^sup>+}"
    using closure_from_spec [OF assms(1), of "[name]" "[]"] assms(2) by (auto simp: dependency_closure_def)
  have "d \<in> set S" if "(d, name) \<in> ?E\<^sup>+" for d
    using that by (induction rule: converse_trancl_induct) (use S(3,4) in \<open>auto simp: needs_def\<close>)
  with S show ?thesis by blast
qed

subsection \<open>Loops along the order\<close>

lemma supported_induct:
  assumes "supported index done xs" and "\<And>x. x \<in> done \<Longrightarrow> P x"
    and "\<And>x. x \<in> set xs \<Longrightarrow> (\<And>d. d \<in> set (deps_in index x) \<Longrightarrow> P d) \<Longrightarrow> P x"
  shows "x \<in> set xs \<Longrightarrow> P x"
  using assms
proof (induction index "done" xs arbitrary: x rule: supported.induct)
  case (2 index "done" y ys)
  have sup: "set (deps_in index y) \<subseteq> done" "supported index (insert y done) ys" using "2.prems"(2) by simp_all
  have y: "P y"
  proof (rule "2.prems"(4))
    show "P d" if "d \<in> set (deps_in index y)" for d using sup(1) that "2.prems"(3) by blast
  qed simp
  show ?case
  proof (cases "x = y")
    case False
    show ?thesis
    proof (rule "2.IH" [OF _ sup(2)])
      show "x \<in> set ys" using "2.prems"(1) False by simp
      show "P z" if "z \<in> insert y done" for z using that y "2.prems"(3) by blast
      show "P z" if "z \<in> set ys" and "\<And>d. d \<in> set (deps_in index z) \<Longrightarrow> P d" for z
        by (rule "2.prems"(4) [OF _ that(2)]) (use that(1) in simp_all)
    qed
  qed (use y in simp)
qed simp

lemma looked_up_keys: "set ds \<subseteq> fst ` set m \<Longrightarrow> looked_up m ds = Inr (map (\<lambda>d. the (map_of m d)) ds)"
proof (induction ds)
  case (Cons d ds)
  then have "map_of m d \<noteq> None" by (auto simp: map_of_eq_None_iff)
  with Cons show ?case by auto
qed simp

text \<open>Along a supported order no key is missing, and each value is computed from the final values of the dependencies.\<close>

lemma along_spec:
  assumes "supported index (fst ` set m) xs" and "distinct xs" and "set xs \<inter> fst ` set m = {}" and "set xs \<subseteq> set (names_of index)"
  shows "\<exists>m'. along index f xs m = Inr (m @ m') \<and> map fst m' = xs \<and>
    (\<forall>x\<in>set xs. \<exists>n. row_by bn_name x index = Some n \<and>
      map_of (m @ m') x = Some (f n (map (\<lambda>d. the (map_of (m @ m') d)) (bn_deps n))))"
  using assms
proof (induction xs arbitrary: m)
  case (Cons x xs)
  obtain n where n: "row_by bn_name x index = Some n"
    using Cons.prems(4) row_by_None [of bn_name x index] by (cases "row_by bn_name x index") (auto simp: names_of_def)
  then have deps: "set (bn_deps n) \<subseteq> fst ` set m" using Cons.prems(1) by (simp add: deps_in_def)
  define v where "v = f n (map (\<lambda>d. the (map_of m d)) (bn_deps n))"
  have fresh: "upsert fst (x, v) m = m @ [(x, v)]" using Cons.prems(3) upsert_fresh [of fst "(x, v)" m] by auto
  have "\<exists>m'. along index f xs (m @ [(x, v)]) = Inr ((m @ [(x, v)]) @ m') \<and> map fst m' = xs \<and>
    (\<forall>y\<in>set xs. \<exists>n. row_by bn_name y index = Some n \<and>
      map_of ((m @ [(x, v)]) @ m') y = Some (f n (map (\<lambda>d. the (map_of ((m @ [(x, v)]) @ m') d)) (bn_deps n))))"
    using Cons.prems by (intro Cons.IH) auto
  then obtain m' where m': "along index f xs (m @ [(x, v)]) = Inr (m @ (x, v) # m')" "map fst m' = xs"
    "\<forall>y\<in>set xs. \<exists>n. row_by bn_name y index = Some n \<and>
      map_of (m @ (x, v) # m') y = Some (f n (map (\<lambda>d. the (map_of (m @ (x, v) # m') d)) (bn_deps n)))"
    by auto
  have "map_of (m @ (x, v) # m') d = map_of m d" if "d \<in> set (bn_deps n)" for d
    using deps that by (cases "map_of m d") (auto simp: map_of_eq_None_iff map_add_def)
  then have vals: "map (\<lambda>d. the (map_of (m @ (x, v) # m') d)) (bn_deps n) = map (\<lambda>d. the (map_of m d)) (bn_deps n)" by simp
  have here: "map_of (m @ (x, v) # m') x = Some v"
    using Cons.prems(3) by (auto simp: map_add_def map_of_eq_None_iff split: option.splits dest!: map_of_SomeD intro: rev_image_eqI)
  have "map_of (m @ (x, v) # m') x = Some (f n (map (\<lambda>d. the (map_of (m @ (x, v) # m') d)) (bn_deps n)))"
    unfolding vals here by (simp add: v_def)
  with m'(3) n have all: "\<forall>y\<in>set (x # xs). \<exists>n. row_by bn_name y index = Some n \<and>
      map_of (m @ (x, v) # m') y = Some (f n (map (\<lambda>d. the (map_of (m @ (x, v) # m') d)) (bn_deps n)))"
    by (simp del: map_of_append)
  have "along index f (x # xs) m = Inr (m @ (x, v) # m')"
    using m'(1) n looked_up_keys [OF deps] fresh by (simp add: v_def)
  with all m'(2) show ?case by (intro exI [of _ "(x, v) # m'"]) (simp del: map_of_append)
qed auto

text \<open>The two loops of the module, after a successful sort.\<close>

lemma sorted_index: "by_name (by_name nodes) = by_name nodes"
  by (rule by_name_same [OF by_name_distinct])

lemma along_order:
  fixes f :: "build_node \<Rightarrow> 'v list \<Rightarrow> 'v"
  assumes "toposort nodes = Inr order" and "index = by_name nodes"
  obtains m where "along index f order [] = Inr m" and "map fst m = order" and "supported index {} order"
    and "distinct order" and "set order = set (names_of index)"
    and "\<And>n. n \<in> set index \<Longrightarrow> map_of m (bn_name n) = Some (f n (map (\<lambda>d. the (map_of m d)) (bn_deps n)))"
proof -
  have dist: "distinct (names_of index)" by (simp add: assms(2) by_name_distinct)
  have o: "distinct order" "set order = set (names_of index)" "supported index {} order"
    using toposort_cases [of nodes] assms by auto
  obtain m where m: "along index f order [] = Inr m" "map fst m = order"
    "\<forall>x\<in>set order. \<exists>n. row_by bn_name x index = Some n \<and> map_of m x = Some (f n (map (\<lambda>d. the (map_of m d)) (bn_deps n)))"
    using along_spec [of index "[]" order f] o by auto
  have "map_of m (bn_name n) = Some (f n (map (\<lambda>d. the (map_of m d)) (bn_deps n)))" if "n \<in> set index" for n
    using m(3) o(2) that row_by_distinct [of bn_name index n] dist by (fastforce simp: names_of_def)
  with m o show thesis by (intro that) auto
qed

subsection \<open>The critical path\<close>

inductive chain_to :: "build_node list \<Rightarrow> string \<Rightarrow> string list \<Rightarrow> bool" for index where
  Chain_root: "n \<in> set index \<Longrightarrow> bn_deps n = [] \<Longrightarrow> chain_to index (bn_name n) [bn_name n]"
| Chain_step: "n \<in> set index \<Longrightarrow> d \<in> set (bn_deps n) \<Longrightarrow> chain_to index d p \<Longrightarrow> chain_to index (bn_name n) (p @ [bn_name n])"

definition chain_cost :: "build_node list \<Rightarrow> string list \<Rightarrow> int" where
  "chain_cost index p = sum_list (map (\<lambda>k. case row_by bn_name k index of None \<Rightarrow> 0 | Some n \<Rightarrow> bn_timeout n) p)"

lemma fold_max: "fold max xs (x :: 'a :: linorder) = Max (set (x # xs))"
  by (rule Max.set_eq_fold [symmetric])

lemma max_best_in: "xs \<noteq> [] \<Longrightarrow> max_best xs = Max (set xs)"
  by (cases xs) (simp_all add: max_best_def fold_max)

lemma max_best_upper: "x \<in> set xs \<Longrightarrow> x \<le> max_best xs"
  by (cases "xs = []") (auto simp: max_best_in)

lemma max_best_mem: "xs \<noteq> [] \<Longrightarrow> max_best xs \<in> set xs"
  using Max_in [of "set xs"] by (simp add: max_best_in)

lemma chain_cost_snoc [simp]:
  "distinct (names_of index) \<Longrightarrow> n \<in> set index \<Longrightarrow> chain_cost index (p @ [bn_name n]) = chain_cost index p + bn_timeout n"
  by (simp add: chain_cost_def names_of_def row_by_distinct)

text \<open>The best entry of a name is a chain to it, and no chain to it is longer.\<close>

definition best_entry :: "build_node list \<Rightarrow> (string \<times> int \<times> string list) list \<Rightarrow> string \<Rightarrow> bool" where
  "best_entry index m k = (\<exists>c p. map_of m k = Some (c, p) \<and> chain_to index k p \<and> c = chain_cost index p \<and>
     (\<forall>q. chain_to index k q \<longrightarrow> chain_cost index q \<le> c))"

lemma chain_to_iff:
  assumes "distinct (names_of index)" and "n \<in> set index"
  shows "chain_to index (bn_name n) q \<longleftrightarrow>
    (bn_deps n = [] \<and> q = [bn_name n] \<or> (\<exists>d\<in>set (bn_deps n). \<exists>p. chain_to index d p \<and> q = p @ [bn_name n]))"
proof -
  have "n' = n" if "n' \<in> set index" "bn_name n' = bn_name n" for n'
    using that assms row_by_distinct [of bn_name index n] row_by_distinct [of bn_name index n'] by (simp add: names_of_def)
  then show ?thesis by (subst chain_to.simps) (use assms(2) in \<open>auto; metis\<close>)
qed

lemma best_entry_step:
  assumes "distinct (names_of index)" and n: "n \<in> set index"
    and m: "map_of m (bn_name n) = Some (extend_best n (map (\<lambda>d. the (map_of m d)) (bn_deps n)))"
    and deps: "\<And>d. d \<in> set (bn_deps n) \<Longrightarrow> best_entry index m d"
  shows "best_entry index m (bn_name n)"
proof (cases "bn_deps n = []")
  case True
  then show ?thesis using m assms(1,2)
    by (auto simp: best_entry_def extend_best_def max_best_def chain_to_iff chain_cost_def names_of_def row_by_distinct)
next
  case False
  let ?xs = "map (\<lambda>d. the (map_of m d)) (bn_deps n)"
  obtain d where d: "d \<in> set (bn_deps n)" "max_best ?xs = the (map_of m d)"
    using max_best_mem [of ?xs] False by auto
  obtain c p where b: "map_of m d = Some (c, p)" "chain_to index d p" "c = chain_cost index p"
    using deps [OF d(1)] by (auto simp: best_entry_def)
  have max: "max_best ?xs = (c, p)" using d(2) b(1) by simp
  have entry: "map_of m (bn_name n) = Some (c + bn_timeout n, p @ [bn_name n])" by (simp add: m extend_best_def max)
  have upper: "chain_cost index q \<le> c" if d': "d' \<in> set (bn_deps n)" and q: "chain_to index d' q" for d' q
  proof -
    obtain c' p' where e: "map_of m d' = Some (c', p')" and le: "chain_cost index q \<le> c'"
      using deps [OF d'] q by (auto simp: best_entry_def)
    have "(c', p') \<in> set ?xs" using d' e by (force intro: rev_image_eqI)
    then have "(c', p') \<le> (c, p)" using max_best_upper [of "(c', p')" ?xs] by (simp add: max)
    with le show ?thesis by (auto simp: less_eq_prod_def)
  qed
  show ?thesis unfolding best_entry_def
  proof (intro exI conjI allI impI)
    show "chain_to index (bn_name n) (p @ [bn_name n])" using n d(1) b(2) by (rule Chain_step)
    show "c + bn_timeout n = chain_cost index (p @ [bn_name n])" using assms(1) n b(3) by simp
    show "chain_cost index q \<le> c + bn_timeout n" if "chain_to index (bn_name n) q" for q
      using that upper False assms(1) n by (auto simp: chain_to_iff)
  qed (rule entry)
qed

text \<open>
  The critical path of a build is a chain of dependencies from a node without any, its budget is
  the sum of the timeouts along it, and no such chain has a larger one.
\<close>

theorem critical_path_longest:
  assumes "critical_path nodes = Inr (p, c)"
  shows "(\<exists>k. chain_to (by_name nodes) k p) \<and> c = chain_cost (by_name nodes) p \<and>
    (\<forall>k q. chain_to (by_name nodes) k q \<longrightarrow> chain_cost (by_name nodes) q \<le> c)"
proof -
  define index where "index = by_name nodes"
  have dist: "distinct (names_of index)" by (simp add: index_def by_name_distinct)
  obtain order where "toposort index = Inr order"
    using assms by (auto simp: critical_path_def index_def Let_def split: sum.splits)
  from along_order [OF this, of index extend_best] obtain m where m: "along index extend_best order [] = Inr m"
    "map fst m = order" "supported index {} order" "distinct order" "set order = set (names_of index)"
    "\<And>n. n \<in> set index \<Longrightarrow> map_of m (bn_name n) = Some (extend_best n (map (\<lambda>d. the (map_of m d)) (bn_deps n)))"
    by (auto simp: index_def sorted_index)
  have best: "best_entry index m k" if "k \<in> set order" for k
  proof (rule supported_induct [OF m(3) _ _ that])
    fix x assume "x \<in> set order" and ds: "\<And>d. d \<in> set (deps_in index x) \<Longrightarrow> best_entry index m d"
    then obtain n where n: "n \<in> set index" "x = bn_name n" using m(5) by (auto simp: names_of_def)
    then show "best_entry index m x"
      using best_entry_step [OF dist n(1) m(6) [OF n(1)]] ds deps_in_mem [OF dist n(1)] by auto
  qed simp
  have top: "m \<noteq> []" "max_best (map snd m) = (c, p)"
    using assms m(1) \<open>toposort index = Inr order\<close> by (auto simp: critical_path_def index_def Let_def split: if_splits)
  then obtain k where k: "(k, c, p) \<in> set m" using max_best_mem [of "map snd m"] by auto
  then have "map_of m k = Some (c, p)" using m(2,4) by (simp add: map_of_eq_Some_iff)
  moreover have "k \<in> set order" using k m(2) by force
  ultimately have "chain_to index k p" "c = chain_cost index p" using best by (fastforce simp: best_entry_def)+
  moreover have "chain_cost index q \<le> c" if q: "chain_to index k' q" for k' q
  proof -
    have "k' \<in> set order" using q m(5) by (cases rule: chain_to.cases) (auto simp: names_of_def)
    then obtain c' p' where e: "map_of m k' = Some (c', p')" "chain_cost index q \<le> c'"
      using best q by (fastforce simp: best_entry_def)
    then have "(c', p') \<in> set (map snd m)" by (force dest: map_of_SomeD intro: rev_image_eqI)
    then show ?thesis using max_best_upper [of "(c', p')" "map snd m"] e(2) top(2) by (auto simp: less_eq_prod_def)
  qed
  ultimately show ?thesis by (auto simp: index_def)
qed

subsection \<open>Waves\<close>

text \<open>A wave starts only when everything its members depend on is done.\<close>

fun staged :: "build_node list \<Rightarrow> string set \<Rightarrow> string list list \<Rightarrow> bool" where
  "staged index done [] = True"
| "staged index done (w # ws) = (list_all (\<lambda>x. set (deps_in index x) \<subseteq> done) w \<and> staged index (done \<union> set w) ws)"

lemma concat_chunks: "0 < k \<Longrightarrow> concat (chunks k xs) = xs"
  by (induction k xs rule: chunks.induct) (subst chunks.simps, auto)

lemma chunk_size: "w \<in> set (chunks k xs) \<Longrightarrow> w \<noteq> [] \<and> length w \<le> k"
  by (induction k xs rule: chunks.induct) (subst (asm) (2) chunks.simps, auto split: if_splits)

lemma staged_append: "staged index done (as @ bs) = (staged index done as \<and> staged index (done \<union> set (concat as)) bs)"
  by (induction index "done" as rule: staged.induct) (auto simp: Un_assoc)

lemma staged_free: "\<forall>x\<in>set (concat ws). set (deps_in index x) \<subseteq> done \<Longrightarrow> staged index done ws"
  by (induction index "done" ws rule: staged.induct) (auto simp: list_all_iff)

lemma staged_levels:
  assumes "sorted_wrt (<) ls" and "0 < k"
    and "\<And>l x. l \<in> set ls \<Longrightarrow> x \<in> set (g l) \<Longrightarrow> set (deps_in index x) \<subseteq> done \<union> (\<Union>l'\<in>{l' \<in> set ls. l' < (l :: int)}. set (g l'))"
  shows "staged index done (concat (map (\<lambda>l. chunks k (g l)) ls))"
  using assms
proof (induction ls arbitrary: "done")
  case (Cons l ls)
  have "{l' \<in> set (l # ls). l' < l} = {}" using Cons.prems(1) by auto
  then have "set (deps_in index x) \<subseteq> done" if "x \<in> set (g l)" for x using Cons.prems(3) [of l x] that by auto
  then have first: "staged index done (chunks k (g l))"
    by (intro staged_free) (simp add: concat_chunks Cons.prems(2))
  have "staged index (done \<union> set (g l)) (concat (map (\<lambda>l. chunks k (g l)) ls))"
  proof (rule Cons.IH)
    fix l2 x assume l2: "l2 \<in> set ls" "x \<in> set (g l2)"
    then have "set (deps_in index x) \<subseteq> done \<union> (\<Union>l'\<in>{l' \<in> set (l # ls). l' < l2}. set (g l'))" by (intro Cons.prems(3)) auto
    then show "set (deps_in index x) \<subseteq> done \<union> set (g l) \<union> (\<Union>l'\<in>{l' \<in> set ls. l' < l2}. set (g l'))" by auto
  qed (use Cons.prems in auto)
  with first show ?case by (simp add: staged_append concat_chunks Cons.prems(2))
qed simp

lemma distinct_concat_map:
  "distinct ls \<Longrightarrow> (\<And>l. l \<in> set ls \<Longrightarrow> distinct (g l)) \<Longrightarrow>
    (\<And>l l'. l \<in> set ls \<Longrightarrow> l' \<in> set ls \<Longrightarrow> l \<noteq> l' \<Longrightarrow> set (g l) \<inter> set (g l') = {}) \<Longrightarrow> distinct (concat (map g ls))"
  by (induction ls) auto

lemma next_level_above: "l \<in> set ls \<Longrightarrow> l < next_level n ls"
proof -
  assume l: "l \<in> set ls"
  then have "l \<le> Max (set ls)" by simp
  moreover have "next_level n ls = 1 + Max (set ls)" using l by (cases ls) (simp_all add: next_level_def fold_max)
  ultimately show ?thesis by simp
qed

text \<open>
  C39. The waves of a build run every node exactly once, none holds more nodes than may run in
  parallel, and every node comes in a later wave than all it depends on.
\<close>

theorem waves_correct:
  assumes "waves nodes k = Inr ws" and "0 < k"
  shows "distinct (concat ws) \<and> set (concat ws) = set (names_of (by_name nodes)) \<and>
    list_all (\<lambda>w. w \<noteq> [] \<and> length w \<le> nat k) ws \<and> staged (by_name nodes) {} ws"
proof -
  define index where "index = by_name nodes"
  have dist: "distinct (names_of index)" by (simp add: index_def by_name_distinct)
  obtain order where "toposort index = Inr order"
    using assms(1) by (auto simp: waves_def index_def Let_def split: sum.splits)
  from along_order [OF this, of index next_level] obtain m where m: "along index next_level order [] = Inr m"
    "map fst m = order" "supported index {} order" "distinct order" "set order = set (names_of index)"
    "\<And>n. n \<in> set index \<Longrightarrow> map_of m (bn_name n) = Some (next_level n (map (\<lambda>d. the (map_of m d)) (bn_deps n)))"
    by (auto simp: index_def sorted_index)
  define g where "g = (\<lambda>l. sort (map fst (filter (\<lambda>p. snd p = l) m)))"
  define ls where "ls = sort (remdups (map snd m))"
  have ws: "ws = concat (map (\<lambda>l. chunks (nat k) (g l)) ls)"
    using assms m(1) \<open>toposort index = Inr order\<close> by (auto simp: waves_def index_def Let_def g_def ls_def split: if_splits)
  have in_g: "x \<in> set (g l) \<longleftrightarrow> map_of m x = Some l" for x l using m(2,4) by (force simp: g_def map_of_eq_Some_iff)
  have lsp: "sorted_wrt (<) ls" "distinct ls" by (simp_all add: ls_def strict_sorted_iff)
  have in_ls: "map_of m x = Some l \<Longrightarrow> l \<in> set ls" for x l by (force simp: ls_def dest: map_of_SomeD)
  have all: "concat ws = concat (map g ls)"
  proof -
    have "concat (concat (map (\<lambda>l. chunks (nat k) (g l)) xs)) = concat (map g xs)" for xs
      using assms(2) by (induction xs) (simp_all add: concat_chunks)
    then show ?thesis by (simp add: ws)
  qed
  have "distinct (concat ws)" unfolding all
    using lsp(2) m(2,4) by (intro distinct_concat_map) (auto simp: in_g, auto simp: g_def distinct_map_filter)
  moreover have "set (concat ws) = set (names_of index)"
  proof -
    have "x \<in> set (concat ws) \<longleftrightarrow> map_of m x \<noteq> None" for x by (auto simp: all in_g dest: in_ls)
    then show ?thesis using m(2,5) by (metis (no_types, lifting) list.set_map map_of_eq_None_iff subsetI subset_antisym)
  qed
  moreover have "list_all (\<lambda>w. w \<noteq> [] \<and> length w \<le> nat k) ws" by (auto simp: ws list_all_iff dest: chunk_size)
  moreover have "staged index {} ws" unfolding ws
  proof (rule staged_levels [OF lsp(1)])
    fix l x assume l: "l \<in> set ls" "x \<in> set (g l)"
    then have "x \<in> set order" using m(2) by (force simp: in_g dest: map_of_SomeD)
    then obtain n where n: "n \<in> set index" "x = bn_name n" using m(5) by (auto simp: names_of_def)
    show "set (deps_in index x) \<subseteq> {} \<union> (\<Union>l'\<in>{l' \<in> set ls. l' < l}. set (g l'))"
    proof
      fix d assume "d \<in> set (deps_in index x)"
      then have d: "d \<in> set (bn_deps n)" using deps_in_mem [OF dist n(1)] n(2) by simp
      then have "d \<in> set order" using supported_before [OF m(3) \<open>x \<in> set order\<close> \<open>d \<in> set (deps_in index x)\<close>] by simp
      then obtain l' where l': "map_of m d = Some l'" using m(2) by (metis list.set_map map_of_eq_None_iff not_None_eq)
      have "l' < l" using next_level_above [of l' "map (\<lambda>d. the (map_of m d)) (bn_deps n)" n] d l' m(6) [OF n(1)] l(2) n(2)
        by (force simp: in_g)
      then show "d \<in> {} \<union> (\<Union>l'\<in>{l' \<in> set ls. l' < l}. set (g l'))" using l' in_ls in_g by blast
    qed
  qed (use assms(2) in simp)
  ultimately show ?thesis by (simp add: index_def)
qed

subsection \<open>A small build\<close>

definition small_build :: "build_node list" where
  "small_build =
    [make_node ''d'' [''b'', ''c''] [] [] [] [] default_options, make_node ''c'' [''a''] [] [] [] [] (default_options\<lparr>no_timeout := 9\<rparr>),
     make_node ''b'' [''a''] [] [] [] [] (default_options\<lparr>no_timeout := 7\<rparr>), make_node ''a'' [] [] [] [] [] default_options]"

theorem toposort_correct_witness: "supported (by_name small_build) {} [''a'', ''b'', ''c'', ''d'']"
proof -
  have "toposort small_build = Inr [''a'', ''b'', ''c'', ''d'']" by code_simp
  then show ?thesis using toposort_correct [of small_build "[''a'', ''b'', ''c'', ''d'']"] by blast
qed

theorem critical_path_longest_witness:
  "(\<exists>k. chain_to (by_name small_build) k [''a'', ''c'', ''d'']) \<and> chain_cost (by_name small_build) [''a'', ''c'', ''d''] = 3609"
proof -
  have "critical_path small_build = Inr ([''a'', ''c'', ''d''], 3609)" by code_simp
  from critical_path_longest [OF this] show ?thesis by simp
qed

theorem waves_correct_witness: "staged (by_name small_build) {} [[''a''], [''b'', ''c''], [''d'']]"
proof -
  have "waves small_build 2 = Inr [[''a''], [''b'', ''c''], [''d'']]" by code_simp
  from waves_correct [OF this] show ?thesis by simp
qed

end
