(* ===== verification/Lifecycle.thy ===== *)
theory Lifecycle
  imports Risk Action_Fsm
begin

section \<open>The lifecycle of engagements, workstreams and artifacts\<close>

text \<open>
  Models \<^verbatim>\<open>agency/kernel/lifecycle.py\<close> with the status enums of \<^verbatim>\<open>agency/kernel/models.py\<close> it moves
  between: the three transition matrices, the guards of a release, the failures of a move and the
  check that raises. A status is passed as its string value, as the string enums allow. The matrix
  self-check and the snapshot for the other language print the tables and are left out.
\<close>

subsection \<open>Statuses\<close>

datatype engagement_status =
    Eng_intake
  | Eng_discovery
  | Eng_research
  | Eng_strategy
  | Eng_brand
  | Eng_product
  | Eng_build
  | Eng_launch_ready
  | Eng_launched
  | Eng_growth
  | Eng_optimizing
  | Eng_complete
  | Eng_blocked
  | Eng_degraded
  | Eng_review_required
  | Eng_paused
  | Eng_failed
  | Eng_cancelled

datatype workstream_status =
    Ws_blocked
  | Ws_ready
  | Ws_executing
  | Ws_validating
  | Ws_review
  | Ws_approved
  | Ws_released
  | Ws_degraded
  | Ws_failed
  | Ws_rejected
  | Ws_cancelled

datatype artifact_status =
    Art_draft
  | Art_validating
  | Art_approved
  | Art_release_eligible
  | Art_released
  | Art_review_required
  | Art_invalidated
  | Art_archived

fun engagement_value :: "engagement_status \<Rightarrow> string" where
  "engagement_value Eng_intake = ''intake''"
| "engagement_value Eng_discovery = ''discovery''"
| "engagement_value Eng_research = ''research''"
| "engagement_value Eng_strategy = ''strategy''"
| "engagement_value Eng_brand = ''brand''"
| "engagement_value Eng_product = ''product''"
| "engagement_value Eng_build = ''build''"
| "engagement_value Eng_launch_ready = ''launch_ready''"
| "engagement_value Eng_launched = ''launched''"
| "engagement_value Eng_growth = ''growth''"
| "engagement_value Eng_optimizing = ''optimizing''"
| "engagement_value Eng_complete = ''complete''"
| "engagement_value Eng_blocked = ''blocked''"
| "engagement_value Eng_degraded = ''degraded''"
| "engagement_value Eng_review_required = ''review_required''"
| "engagement_value Eng_paused = ''paused''"
| "engagement_value Eng_failed = ''failed''"
| "engagement_value Eng_cancelled = ''cancelled''"

fun workstream_value :: "workstream_status \<Rightarrow> string" where
  "workstream_value Ws_blocked = ''blocked''"
| "workstream_value Ws_ready = ''ready''"
| "workstream_value Ws_executing = ''executing''"
| "workstream_value Ws_validating = ''validating''"
| "workstream_value Ws_review = ''review''"
| "workstream_value Ws_approved = ''approved''"
| "workstream_value Ws_released = ''released''"
| "workstream_value Ws_degraded = ''degraded''"
| "workstream_value Ws_failed = ''failed''"
| "workstream_value Ws_rejected = ''rejected''"
| "workstream_value Ws_cancelled = ''cancelled''"

fun artifact_value :: "artifact_status \<Rightarrow> string" where
  "artifact_value Art_draft = ''draft''"
| "artifact_value Art_validating = ''validating''"
| "artifact_value Art_approved = ''approved''"
| "artifact_value Art_release_eligible = ''release_eligible''"
| "artifact_value Art_released = ''released''"
| "artifact_value Art_review_required = ''review_required''"
| "artifact_value Art_invalidated = ''invalidated''"
| "artifact_value Art_archived = ''archived''"

definition all_engagement :: "engagement_status list" where
  "all_engagement = [Eng_intake, Eng_discovery, Eng_research, Eng_strategy, Eng_brand, Eng_product, Eng_build, Eng_launch_ready, Eng_launched, Eng_growth, Eng_optimizing, Eng_complete, Eng_blocked, Eng_degraded, Eng_review_required, Eng_paused, Eng_failed, Eng_cancelled]"

definition all_workstream :: "workstream_status list" where
  "all_workstream = [Ws_blocked, Ws_ready, Ws_executing, Ws_validating, Ws_review, Ws_approved, Ws_released, Ws_degraded, Ws_failed, Ws_rejected, Ws_cancelled]"

definition all_artifact :: "artifact_status list" where
  "all_artifact = [Art_draft, Art_validating, Art_approved, Art_release_eligible, Art_released, Art_review_required, Art_invalidated, Art_archived]"

subsection \<open>Transition matrices\<close>

definition engagement_interrupts :: "engagement_status set" where
  "engagement_interrupts = {Eng_blocked, Eng_degraded, Eng_review_required, Eng_paused, Eng_failed, Eng_cancelled}"

fun engagement_moves :: "engagement_status \<Rightarrow> engagement_status set" where
  "engagement_moves Eng_intake = {Eng_discovery} \<union> engagement_interrupts"
| "engagement_moves Eng_discovery = {Eng_research} \<union> engagement_interrupts"
| "engagement_moves Eng_research = {Eng_strategy} \<union> engagement_interrupts"
| "engagement_moves Eng_strategy = {Eng_brand, Eng_product} \<union> engagement_interrupts"
| "engagement_moves Eng_brand = {Eng_product, Eng_build} \<union> engagement_interrupts"
| "engagement_moves Eng_product = {Eng_build} \<union> engagement_interrupts"
| "engagement_moves Eng_build = {Eng_launch_ready} \<union> engagement_interrupts"
| "engagement_moves Eng_launch_ready = {Eng_launched} \<union> engagement_interrupts"
| "engagement_moves Eng_launched = {Eng_growth} \<union> engagement_interrupts"
| "engagement_moves Eng_growth = {Eng_optimizing, Eng_complete} \<union> engagement_interrupts"
| "engagement_moves Eng_optimizing = {Eng_growth, Eng_complete} \<union> engagement_interrupts"
| "engagement_moves Eng_blocked = {Eng_discovery, Eng_research, Eng_strategy, Eng_brand, Eng_product, Eng_build, Eng_cancelled, Eng_failed}"
| "engagement_moves Eng_degraded = {Eng_research, Eng_strategy, Eng_brand, Eng_product, Eng_build, Eng_review_required, Eng_failed, Eng_cancelled}"
| "engagement_moves Eng_review_required = {Eng_strategy, Eng_brand, Eng_product, Eng_build, Eng_launch_ready, Eng_blocked, Eng_failed, Eng_cancelled}"
| "engagement_moves Eng_paused = {Eng_discovery, Eng_research, Eng_strategy, Eng_brand, Eng_product, Eng_build, Eng_growth, Eng_cancelled}"
| "engagement_moves Eng_complete = {}"
| "engagement_moves Eng_failed = {}"
| "engagement_moves Eng_cancelled = {}"

fun workstream_moves :: "workstream_status \<Rightarrow> workstream_status set" where
  "workstream_moves Ws_blocked = {Ws_ready, Ws_cancelled, Ws_failed}"
| "workstream_moves Ws_ready = {Ws_executing, Ws_blocked, Ws_cancelled}"
| "workstream_moves Ws_executing = {Ws_validating, Ws_degraded, Ws_failed, Ws_blocked, Ws_cancelled}"
| "workstream_moves Ws_validating = {Ws_review, Ws_executing, Ws_degraded, Ws_failed, Ws_cancelled}"
| "workstream_moves Ws_review = {Ws_approved, Ws_rejected, Ws_executing, Ws_cancelled}"
| "workstream_moves Ws_approved = {Ws_released, Ws_rejected, Ws_cancelled}"
| "workstream_moves Ws_degraded = {Ws_executing, Ws_failed, Ws_cancelled}"
| "workstream_moves Ws_released = {}"
| "workstream_moves Ws_failed = {}"
| "workstream_moves Ws_rejected = {}"
| "workstream_moves Ws_cancelled = {}"

fun artifact_moves :: "artifact_status \<Rightarrow> artifact_status set" where
  "artifact_moves Art_draft = {Art_validating, Art_invalidated, Art_archived}"
| "artifact_moves Art_validating = {Art_approved, Art_review_required, Art_draft, Art_invalidated}"
| "artifact_moves Art_approved = {Art_release_eligible, Art_review_required, Art_invalidated}"
| "artifact_moves Art_release_eligible = {Art_released, Art_review_required, Art_invalidated}"
| "artifact_moves Art_released = {Art_review_required, Art_invalidated, Art_archived}"
| "artifact_moves Art_review_required = {Art_validating, Art_draft, Art_invalidated, Art_archived}"
| "artifact_moves Art_invalidated = {Art_draft, Art_archived}"
| "artifact_moves Art_archived = {}"

text \<open>The enum member of any of the three entities, and the tables indexed by the entity.\<close>

datatype lifecycle_state = Engagement engagement_status | Workstream workstream_status | Artifact artifact_status

fun lifecycle_value :: "lifecycle_state \<Rightarrow> string" where
  "lifecycle_value (Engagement s) = engagement_value s"
| "lifecycle_value (Workstream s) = workstream_value s"
| "lifecycle_value (Artifact s) = artifact_value s"

fun entity_of :: "lifecycle_state \<Rightarrow> string" where
  "entity_of (Engagement s) = ''engagement''"
| "entity_of (Workstream s) = ''workstream''"
| "entity_of (Artifact s) = ''artifact''"

fun lifecycle_moves :: "lifecycle_state \<Rightarrow> lifecycle_state set" where
  "lifecycle_moves (Engagement s) = Engagement ` engagement_moves s"
| "lifecycle_moves (Workstream s) = Workstream ` workstream_moves s"
| "lifecycle_moves (Artifact s) = Artifact ` artifact_moves s"

definition client_visible :: "lifecycle_state set" where
  "client_visible = {Engagement Eng_launched, Workstream Ws_released, Artifact Art_release_eligible, Artifact Art_released}"

definition dependency_gated :: "lifecycle_state set" where
  "dependency_gated = {Engagement Eng_build, Engagement Eng_launch_ready, Workstream Ws_executing, Artifact Art_release_eligible}"

definition entity_states :: "string \<Rightarrow> lifecycle_state list option" where
  "entity_states entity = (if entity = ''engagement'' then Some (map Engagement all_engagement)
     else if entity = ''workstream'' then Some (map Workstream all_workstream)
     else if entity = ''artifact'' then Some (map Artifact all_artifact)
     else None)"

datatype lifecycle_error = TransitionError string | MissingKey string

definition resolve_status :: "string \<Rightarrow> string \<Rightarrow> lifecycle_error + lifecycle_state" where
  "resolve_status entity value = (case entity_states entity of
     None \<Rightarrow> Inl (TransitionError (''Unknown lifecycle entity '' @ [CHR 39] @ entity @ [CHR 39]))
   | Some ss \<Rightarrow> (case find (\<lambda>s. lifecycle_value s = value) ss of
       None \<Rightarrow> Inl (TransitionError (''Unknown '' @ entity @ '' status '' @ [CHR 39] @ value @ [CHR 39]))
     | Some s \<Rightarrow> Inr s))"

subsection \<open>Guards\<close>

record transition_context =
  tx_mode :: "string option"
  tx_exists :: bool
  tx_decision :: "string option"
  tx_resolved :: bool
  tx_brand :: "bool option"
  tx_effect :: bool
  tx_spend :: bool
  tx_unmet :: "string list"
  tx_advisory :: bool

definition default_context :: transition_context where
  "default_context = \<lparr>tx_mode = None, tx_exists = False, tx_decision = None, tx_resolved = False, tx_brand = None,
     tx_effect = False, tx_spend = False, tx_unmet = [], tx_advisory = False\<rparr>"

definition degraded_modes :: "string list" where
  "degraded_modes = [''FALLBACK_DEGRADED'']"

definition is_degraded :: "transition_context \<Rightarrow> bool" where
  "is_degraded c = ((case tx_mode c of None \<Rightarrow> [] | Some m \<Rightarrow> m) \<in> set degraded_modes)"

definition human_approved :: "transition_context \<Rightarrow> bool" where
  "human_approved c = (tx_exists c \<and> tx_resolved c \<and> tx_decision c = Some ''approve'')"

definition guard_not_degraded :: "transition_context \<Rightarrow> string option" where
  "guard_not_degraded c = (if is_degraded c
     then Some ''generation provenance is FALLBACK_DEGRADED; degraded output cannot reach a client-visible state'' else None)"

definition guard_approval_exists :: "transition_context \<Rightarrow> string option" where
  "guard_approval_exists c = (if \<not> tx_exists c then Some ''no human approval exists for this run'' else None)"

definition guard_approval_resolved :: "transition_context \<Rightarrow> string option" where
  "guard_approval_resolved c = (if tx_exists c \<and> \<not> tx_resolved c then Some ''human approval is unresolved'' else None)"

definition guard_approval_decision :: "transition_context \<Rightarrow> string option" where
  "guard_approval_decision c = (if tx_exists c \<and> tx_resolved c \<and> tx_decision c \<noteq> Some ''approve''
     then Some (''human approval decision is '' @ [CHR 39] @ (case tx_decision c of None \<Rightarrow> ''None'' | Some d \<Rightarrow> d) @ [CHR 39] @
       '', not '' @ [CHR 39] @ ''approve'' @ [CHR 39]) else None)"

definition guard_brand_safety :: "transition_context \<Rightarrow> string option" where
  "guard_brand_safety c = (if tx_brand c = Some True then None
     else if tx_advisory c \<and> human_approved c then None
     else Some ''brand safety review has not passed'')"

definition guard_dependencies_met :: "transition_context \<Rightarrow> string option" where
  "guard_dependencies_met c = (if tx_unmet c \<noteq> [] then Some (''unmet hard dependencies: '' @ join '', '' (sort (tx_unmet c))) else None)"

definition guard_spend_authorized :: "transition_context \<Rightarrow> string option" where
  "guard_spend_authorized c = (if tx_effect c \<and> \<not> tx_spend c
     then Some ''external side effect requires an explicit spend/publication authorization'' else None)"

definition release_guards :: "(string \<times> (transition_context \<Rightarrow> string option)) list" where
  "release_guards = [(''degraded_release_block'', guard_not_degraded), (''approval_missing'', guard_approval_exists),
     (''approval_pending'', guard_approval_resolved), (''approval_not_approved'', guard_approval_decision),
     (''brand_safety_failed'', guard_brand_safety), (''spend_unauthorized'', guard_spend_authorized)]"

record guard_failure =
  gf_code :: string
  gf_message :: string

fun run_guards :: "(string \<times> (transition_context \<Rightarrow> string option)) list \<Rightarrow> transition_context \<Rightarrow> guard_failure list" where
  "run_guards [] c = []"
| "run_guards ((code, guard) # gs) c = (case guard c of
     None \<Rightarrow> run_guards gs c
   | Some m \<Rightarrow> (if m = [] then run_guards gs c else \<lparr>gf_code = code, gf_message = m\<rparr> # run_guards gs c))"

definition release_guard_failures :: "transition_context \<Rightarrow> guard_failure list" where
  "release_guard_failures c = run_guards release_guards c"

subsection \<open>Moves\<close>

text \<open>The matrix is looked up before the status is resolved: an unknown entity is a missing key here.\<close>

definition allowed_transitions :: "string \<Rightarrow> string \<Rightarrow> lifecycle_error + lifecycle_state set" where
  "allowed_transitions entity current = (if entity_states entity = None then Inl (MissingKey entity)
     else case resolve_status entity current of Inl e \<Rightarrow> Inl e | Inr s \<Rightarrow> Inr (lifecycle_moves s))"

definition move_failures :: "lifecycle_state \<Rightarrow> lifecycle_state \<Rightarrow> transition_context \<Rightarrow> guard_failure list" where
  "move_failures s t c = (if t \<notin> lifecycle_moves s
     then [\<lparr>gf_code = ''illegal_transition'', gf_message = entity_of s @ '' cannot move from '' @ [CHR 39] @ lifecycle_value s @ [CHR 39] @
       '' to '' @ [CHR 39] @ lifecycle_value t @ [CHR 39]\<rparr>]
     else (if t \<in> client_visible then release_guard_failures c else []) @
       (if t \<in> dependency_gated then (case guard_dependencies_met c of
          None \<Rightarrow> [] | Some m \<Rightarrow> [\<lparr>gf_code = ''unmet_hard_dependencies'', gf_message = m\<rparr>]) else []))"

definition transition_failures :: "string \<Rightarrow> string \<Rightarrow> string \<Rightarrow> transition_context option \<Rightarrow> lifecycle_error + guard_failure list" where
  "transition_failures entity current target context = (case resolve_status entity current of
     Inl e \<Rightarrow> Inl e
   | Inr s \<Rightarrow> (case resolve_status entity target of
       Inl e \<Rightarrow> Inl e
     | Inr t \<Rightarrow> Inr (move_failures s t (case context of None \<Rightarrow> default_context | Some c \<Rightarrow> c))))"

definition transition_blockers :: "string \<Rightarrow> string \<Rightarrow> string \<Rightarrow> transition_context option \<Rightarrow> lifecycle_error + string list" where
  "transition_blockers entity current target context = map_sum id (map gf_message) (transition_failures entity current target context)"

definition can_transition :: "string \<Rightarrow> string \<Rightarrow> string \<Rightarrow> transition_context option \<Rightarrow> lifecycle_error + bool" where
  "can_transition entity current target context = map_sum id (\<lambda>bs. bs = []) (transition_blockers entity current target context)"

definition assert_lifecycle :: "string \<Rightarrow> string \<Rightarrow> string \<Rightarrow> transition_context option \<Rightarrow> lifecycle_error + unit" where
  "assert_lifecycle entity current target context = (case transition_blockers entity current target context of
     Inl e \<Rightarrow> Inl e
   | Inr bs \<Rightarrow> if bs \<noteq> [] then Inl (TransitionError (''Illegal '' @ entity @ '' transition '' @ current @ '' -> '' @ target @ '': '' @ join ''; '' bs)) else Inr ())"

definition terminal_statuses :: "string \<Rightarrow> lifecycle_state list option" where
  "terminal_statuses entity = map_option (filter (\<lambda>s. lifecycle_moves s = {})) (entity_states entity)"

subsection \<open>The tables\<close>

lemma in_all_engagement: "s \<in> set all_engagement" by (cases s) (simp_all add: all_engagement_def)

lemma in_all_workstream: "s \<in> set all_workstream" by (cases s) (simp_all add: all_workstream_def)

lemma in_all_artifact: "s \<in> set all_artifact" by (cases s) (simp_all add: all_artifact_def)

lemma find_distinct: "x \<in> set xs \<Longrightarrow> distinct (map f xs) \<Longrightarrow> find (\<lambda>y. f y = f x) xs = Some x"
  by (induction xs) auto

lemma distinct_values:
  "distinct (map engagement_value all_engagement)" "distinct (map workstream_value all_workstream)" "distinct (map artifact_value all_artifact)"
  by (simp_all add: all_engagement_def all_workstream_def all_artifact_def)

lemma find_status:
  "find (\<lambda>y. lifecycle_value y = engagement_value a) (map Engagement all_engagement) = Some (Engagement a)"
  "find (\<lambda>y. lifecycle_value y = workstream_value b) (map Workstream all_workstream) = Some (Workstream b)"
  "find (\<lambda>y. lifecycle_value y = artifact_value c) (map Artifact all_artifact) = Some (Artifact c)"
  using find_distinct [of "Engagement a" "map Engagement all_engagement" lifecycle_value]
    find_distinct [of "Workstream b" "map Workstream all_workstream" lifecycle_value]
    find_distinct [of "Artifact c" "map Artifact all_artifact" lifecycle_value]
    distinct_values in_all_engagement in_all_workstream in_all_artifact
  by (simp_all add: comp_def)

lemma resolve_value [simp]: "resolve_status (entity_of s) (lifecycle_value s) = Inr s"
  by (cases s) (simp_all add: resolve_status_def entity_states_def find_status)

lemma resolve_entity: "resolve_status entity value = Inr s \<Longrightarrow> entity_of s = entity \<and> lifecycle_value s = value"
  by (auto simp: resolve_status_def entity_states_def find_Some_iff split: option.splits if_splits)

interpretation engagement_matrix: transition_matrix engagement_moves "\<lambda>s. s \<in> {Eng_complete, Eng_failed, Eng_cancelled}"
proof
  show "(s \<in> {Eng_complete, Eng_failed, Eng_cancelled}) = (engagement_moves s = {})" for s by (cases s) simp_all
qed

interpretation workstream_matrix: transition_matrix workstream_moves "\<lambda>s. s \<in> {Ws_released, Ws_failed, Ws_rejected, Ws_cancelled}"
proof
  show "(s \<in> {Ws_released, Ws_failed, Ws_rejected, Ws_cancelled}) = (workstream_moves s = {})" for s by (cases s) simp_all
qed

interpretation artifact_matrix: transition_matrix artifact_moves "\<lambda>s. s \<in> {Art_archived}"
proof
  show "(s \<in> {Art_archived}) = (artifact_moves s = {})" for s by (cases s) simp_all
qed

subsection \<open>What the guards ask\<close>

text \<open>The conditions under which work may reach a client.\<close>

definition release_cleared :: "transition_context \<Rightarrow> bool" where
  "release_cleared c = (\<not> is_degraded c \<and> human_approved c \<and> (tx_brand c = Some True \<or> tx_advisory c) \<and> (tx_effect c \<longrightarrow> tx_spend c))"

lemma run_guards_Nil: "run_guards gs c = [] \<longleftrightarrow> (\<forall>(code, guard)\<in>set gs. guard c = None \<or> guard c = Some [])"
  by (induction gs c rule: run_guards.induct) (auto split: option.splits)

lemma release_guards_exact: "release_guard_failures c = [] \<longleftrightarrow> release_cleared c"
  by (auto simp: release_guard_failures_def run_guards_Nil release_guards_def release_cleared_def human_approved_def guard_not_degraded_def
    guard_approval_exists_def guard_approval_resolved_def guard_approval_decision_def guard_brand_safety_def guard_spend_authorized_def
    split: if_splits)

lemma move_failures_Nil:
  "move_failures s t c = [] \<longleftrightarrow> t \<in> lifecycle_moves s \<and> (t \<in> client_visible \<longrightarrow> release_cleared c) \<and>
    (t \<in> dependency_gated \<longrightarrow> tx_unmet c = [])"
  by (auto simp: move_failures_def release_guards_exact guard_dependencies_met_def split: option.splits if_splits)

lemma assert_lifecycle_iff:
  "assert_lifecycle (entity_of s) (lifecycle_value s) (lifecycle_value t) (Some c) = Inr () \<and> entity_of t = entity_of s \<longleftrightarrow>
    move_failures s t c = []"
proof (cases "entity_of t = entity_of s")
  case True
  then have "resolve_status (entity_of s) (lifecycle_value t) = Inr t" by (metis resolve_value)
  with True show ?thesis
    by (auto simp: assert_lifecycle_def transition_blockers_def transition_failures_def)
next
  case False
  then have "t \<notin> lifecycle_moves s" by (cases s) auto
  with False show ?thesis by (simp add: move_failures_Nil)
qed

subsection \<open>Walks through the lifecycle\<close>

text \<open>A history of moves the check let through, each with the facts it was given.\<close>

inductive lifecycle_walk :: "lifecycle_state \<Rightarrow> (lifecycle_state \<times> transition_context) list \<Rightarrow> lifecycle_state \<Rightarrow> bool" where
  Walk_stay: "lifecycle_walk s [] s"
| Walk_move: "lifecycle_walk s tr t \<Longrightarrow>
    assert_lifecycle (entity_of t) (lifecycle_value t) (lifecycle_value u) (Some c) = Inr () \<Longrightarrow> entity_of u = entity_of t \<Longrightarrow>
    lifecycle_walk s (tr @ [(u, c)]) u"

inductive_simps lifecycle_walk_Nil: "lifecycle_walk s [] t"

lemma lifecycle_walk_move: "lifecycle_walk s tr t \<Longrightarrow> move_failures t u c = [] \<Longrightarrow> lifecycle_walk s (tr @ [(u, c)]) u"
  using assert_lifecycle_iff [of t u c] by (intro Walk_move) auto

lemma lifecycle_walk_cleared:
  "lifecycle_walk s tr t \<Longrightarrow> list_all (\<lambda>(u, c). (u \<in> client_visible \<longrightarrow> release_cleared c) \<and> (u \<in> dependency_gated \<longrightarrow> tx_unmet c = [])) tr \<and>
    (tr = [] \<and> t = s \<or> t \<in> fst ` set tr)"
proof (induction rule: lifecycle_walk.induct)
  case (Walk_move s tr t u c)
  then have "move_failures t u c = []" using assert_lifecycle_iff [of t u c] by simp
  with Walk_move show ?case by (auto simp: move_failures_Nil)
qed simp

text \<open>
  C24. However an engagement, a workstream or an artifact moves through its lifecycle, it is in a state
  a client sees only if the move into that state met \<open>release_cleared\<close>, as did every earlier move
  into such a state: the output was not degraded; an approval existed, was resolved and said
  approve; brand safety had passed, or the policy was advisory, where this approval stands in for
  it; and spend was authorized where the move has an external effect (no spend is asked for
  otherwise). No move that needs the hard dependencies was made while one was unmet.
\<close>

theorem lifecycle_release_guarded:
  assumes "lifecycle_walk s tr t" and "s \<notin> client_visible"
  shows "(t \<in> client_visible \<longrightarrow> list_ex (\<lambda>(u, c). u = t \<and> release_cleared c) tr) \<and>
    list_all (\<lambda>(u, c). (u \<in> client_visible \<longrightarrow> release_cleared c) \<and> (u \<in> dependency_gated \<longrightarrow> tx_unmet c = [])) tr"
  using lifecycle_walk_cleared [OF assms(1)] assms(2) by (fastforce simp: list_all_iff list_ex_iff)

text \<open>
  The other direction has a gap: a paused engagement may resume in the growth phase, so an engagement
  reaches completion with no guard run and without ever being launched.
\<close>

lemma engagement_completes_unlaunched:
  "lifecycle_walk (Engagement Eng_intake) [(Engagement Eng_paused, default_context), (Engagement Eng_growth, default_context),
     (Engagement Eng_complete, default_context)] (Engagement Eng_complete)"
proof -
  let ?a = "(Engagement Eng_paused, default_context)" and ?b = "(Engagement Eng_growth, default_context)"
  have edges: "move_failures (Engagement Eng_intake) (Engagement Eng_paused) default_context = []"
    "move_failures (Engagement Eng_paused) (Engagement Eng_growth) default_context = []"
    "move_failures (Engagement Eng_growth) (Engagement Eng_complete) default_context = []"
    by (simp_all add: move_failures_Nil engagement_interrupts_def client_visible_def dependency_gated_def)
  have "lifecycle_walk (Engagement Eng_intake) (([] @ [?a]) @ [?b]) (Engagement Eng_growth)"
    by (rule lifecycle_walk_move [OF lifecycle_walk_move [OF Walk_stay edges(1)] edges(2)])
  from lifecycle_walk_move [OF this edges(3)] show ?thesis by simp
qed

definition cleared_context :: transition_context where
  "cleared_context = default_context\<lparr>tx_exists := True, tx_resolved := True, tx_decision := Some ''approve'', tx_brand := Some True\<rparr>"

theorem lifecycle_release_guarded_witness:
  "list_ex (\<lambda>(u, c). u = Workstream Ws_released \<and> release_cleared c) [(Workstream Ws_released, cleared_context)]"
proof -
  have "lifecycle_walk (Workstream Ws_approved) ([] @ [(Workstream Ws_released, cleared_context)]) (Workstream Ws_released)"
    by (rule lifecycle_walk_move [OF Walk_stay])
      (simp add: move_failures_Nil release_cleared_def cleared_context_def default_context_def is_degraded_def degraded_modes_def
        human_approved_def dependency_gated_def)
  from lifecycle_release_guarded [OF this] show ?thesis by (simp add: client_visible_def)
qed

end
