(* ===== verification/Execution_Bounds.thy ===== *)
theory Execution_Bounds
  imports Complex_Main Regex Prog_Monad
begin

section \<open>Bounds on the tool calls of a session\<close>

text \<open>
  Models \<^verbatim>\<open>agency/reliability/execution_bounds.py\<close>: the guard that admits or refuses each tool call
  of a session, its circuit breakers and anomaly strikes, the halt only a named owner lifts, and the
  registry of guards. A session guard is an object other objects refer to, so the registry holds its
  address in a heap. Each method holds the guard's lock, so it is one step. The clock is a function of
  how often the guard read it; its readings are rational seconds, without the rounding of floats. A
  refusal is its code; the detail text is left out.
\<close>

datatype bound_error = Bound_violation string | Bad_value string | Unknown_session

record limits =
  lm_max_depth :: int
  lm_retry_limit :: int
  lm_session_timeout :: rat
  lm_max_calls :: int
  lm_failure_threshold :: int
  lm_cooldown :: rat
  lm_max_strikes :: int
  lm_window :: rat
  lm_max_calls_per_window :: int
  lm_max_novel_tools :: int
  lm_drift_window :: int
  lm_max_consecutive_refusals :: int
  lm_max_session_spawns :: int

definition default_limits :: limits where
  "default_limits = \<lparr>lm_max_depth = 12, lm_retry_limit = 3, lm_session_timeout = 300, lm_max_calls = 60, lm_failure_threshold = 3,
     lm_cooldown = 60, lm_max_strikes = 3, lm_window = 10, lm_max_calls_per_window = 20, lm_max_novel_tools = 8, lm_drift_window = 3,
     lm_max_consecutive_refusals = 5, lm_max_session_spawns = 2\<rparr>"

definition min_drift_terms :: nat where "min_drift_terms = 3"

text \<open>\<open>Limits.__post_init__\<close>.\<close>

definition limits_check :: "limits \<Rightarrow> bound_error + unit" where
  "limits_check L =
    (if \<not> (1 \<le> lm_max_depth L \<and> lm_max_depth L \<le> 12) then Inl (Bad_value ''max_depth must be between 1 and 12'')
     else if \<not> (0 \<le> lm_retry_limit L \<and> lm_retry_limit L \<le> 3) then Inl (Bad_value ''retry_limit must be between 0 and 3'')
     else if lm_session_timeout L \<le> 0 \<or> lm_max_calls L < 1 \<or> lm_failure_threshold L < 1 \<or> lm_cooldown L \<le> 0
       then Inl (Bad_value ''limits must be positive'')
     else if lm_max_strikes L < 1 \<or> lm_window L \<le> 0 \<or> lm_max_calls_per_window L < 1 \<or> lm_max_novel_tools L < 1
       then Inl (Bad_value ''anomaly limits must be positive'')
     else if lm_drift_window L < 1 \<or> lm_max_consecutive_refusals L < 1 \<or> lm_max_session_spawns L < 0
       then Inl (Bad_value ''anomaly limits must be positive'')
     else Inr ())"

definition max_identical :: "limits \<Rightarrow> int" where
  "max_identical L = lm_retry_limit L + 1"

datatype circuit = Circuit_CLOSED | Circuit_OPEN | Circuit_HALF_OPEN

record breaker =
  bk_state :: circuit
  bk_failures :: int
  bk_opened :: rat
  bk_probing :: bool

definition new_breaker :: breaker where
  "new_breaker = \<lparr>bk_state = Circuit_CLOSED, bk_failures = 0, bk_opened = 0, bk_probing = False\<rparr>"

record halt_clear =
  hc_owner :: string
  hc_note :: string
  hc_reason :: string
  hc_strikes :: "string list"

record session_guard =
  sg_limits :: limits
  sg_clock :: "nat \<Rightarrow> rat"
  sg_reads :: nat
  sg_started :: rat
  sg_calls :: int
  sg_identical :: "string \<times> string \<Rightarrow> int"
  sg_breakers :: "string \<rightharpoonup> breaker"
  sg_seen :: "string set"
  sg_window :: "rat list"
  sg_drift_run :: int
  sg_refusal_run :: int
  sg_spawns :: int
  sg_strikes :: "string list"
  sg_halted :: bool
  sg_halt_reason :: string
  sg_clears :: "halt_clear list"

definition new_guard :: "limits \<Rightarrow> (nat \<Rightarrow> rat) \<Rightarrow> session_guard" where
  "new_guard L clock = \<lparr>sg_limits = L, sg_clock = clock, sg_reads = 1, sg_started = clock 0, sg_calls = 0, sg_identical = (\<lambda>_. 0),
     sg_breakers = Map.empty, sg_seen = {}, sg_window = [], sg_drift_run = 0, sg_refusal_run = 0, sg_spawns = 0, sg_strikes = [],
     sg_halted = False, sg_halt_reason = [], sg_clears = []\<rparr>"

type_synonym 'a guarded = "(session_guard, bound_error, 'a) prog"

definition read_clock :: "rat guarded" where
  "read_clock = bnd (gets (\<lambda>g. sg_clock g (sg_reads g))) (\<lambda>t. bnd (modify (sg_reads_update Suc)) (\<lambda>_. ret t))"

definition refuse :: "string \<Rightarrow> 'a guarded" where
  "refuse code = raise (Bound_violation code)"

definition breaker_at :: "session_guard \<Rightarrow> string \<Rightarrow> breaker" where
  "breaker_at g node = (case sg_breakers g node of Some b \<Rightarrow> b | None \<Rightarrow> new_breaker)"

definition breaker_state :: "session_guard \<Rightarrow> string \<Rightarrow> circuit" where
  "breaker_state g node = bk_state (breaker_at g node)"

subsection \<open>Admission\<close>

definition term_rx :: rx where
  "term_rx = at_least 4 (Cls (chr_range (CHR ''a'') (CHR ''z'')))"

definition stop_words :: "string set" where
  "stop_words = {''that'', ''this'', ''with'', ''from'', ''into'', ''have'', ''will'', ''should'', ''about'', ''their'', ''there'',
     ''which'', ''where'', ''when'', ''what'', ''them'', ''they'', ''then'', ''than'', ''also'', ''make'', ''need''}"

definition objective_terms :: "string \<Rightarrow> string set" where
  "objective_terms txt = {t \<in> set (re_findall term_rx (lower txt)). t \<notin> stop_words}"

text \<open>\<open>_check_bounds\<close>: the session's and the tool's own limits, then the breaker of the tool.\<close>

definition pass_breaker :: "limits \<Rightarrow> rat \<Rightarrow> breaker \<Rightarrow> breaker guarded" where
  "pass_breaker L now b =
    bnd (if bk_state b = Circuit_OPEN then
           if now - bk_opened b < lm_cooldown L then refuse ''CIRCUIT_OPEN''
           else ret (b\<lparr>bk_state := Circuit_HALF_OPEN, bk_probing := False\<rparr>)
         else ret b) (\<lambda>b.
    if bk_state b = Circuit_HALF_OPEN \<and> bk_probing b then refuse ''CIRCUIT_OPEN'' else ret b)"

definition check_bounds :: "string \<Rightarrow> string \<Rightarrow> int \<Rightarrow> unit guarded" where
  "check_bounds node args depth =
    bnd read_clock (\<lambda>now. bnd (gets id) (\<lambda>g.
    let L = sg_limits g in
    if now - sg_started g > lm_session_timeout L then refuse ''SESSION_TIMEOUT''
    else if depth > lm_max_depth L then refuse ''DEPTH_EXCEEDED''
    else if sg_calls g \<ge> lm_max_calls L then refuse ''CALL_BUDGET_EXHAUSTED''
    else if sg_identical g (node, args) + 1 > max_identical L then refuse ''LOOP_DETECTED''
    else bnd (pass_breaker L now (breaker_at g node)) (\<lambda>b.
      modify (sg_breakers_update (\<lambda>m. m(node \<mapsto> b))))))"

text \<open>\<open>_check_anomalies\<close> returns the length of the run of calls that share no term with the objective.\<close>

definition check_anomalies :: "string \<Rightarrow> string set \<Rightarrow> string \<Rightarrow> bool \<Rightarrow> int guarded" where
  "check_anomalies node objective txt spawns =
    bnd read_clock (\<lambda>now. bnd (gets id) (\<lambda>g.
    let L = sg_limits g; recent = filter (\<lambda>t. now - t \<le> lm_window L) (sg_window g); terms = objective_terms txt in
    if int (length recent) \<ge> lm_max_calls_per_window L then refuse ''VELOCITY_EXCEEDED''
    else if node \<notin> sg_seen g \<and> int (card (sg_seen g)) \<ge> lm_max_novel_tools L then refuse ''TOOL_SPRAWL''
    else if spawns \<and> sg_spawns g \<ge> lm_max_session_spawns L then refuse ''REPLICATION_DETECTED''
    else if objective \<noteq> {} \<and> card terms \<ge> min_drift_terms then
      let drift = (if terms \<inter> objective \<noteq> {} then 0 else sg_drift_run g + 1) in
      if drift \<ge> lm_drift_window L then refuse ''GOAL_DRIFT'' else ret drift
    else ret (sg_drift_run g)))"

definition strike :: "string \<Rightarrow> session_guard \<Rightarrow> session_guard" where
  "strike code g =
    (let g' = g\<lparr>sg_strikes := sg_strikes g @ [code]\<rparr> in
     if \<not> sg_halted g' \<and> int (length (sg_strikes g')) \<ge> lm_max_strikes (sg_limits g')
     then g'\<lparr>sg_halted := True, sg_halt_reason := join '', '' (sg_strikes g')\<rparr> else g')"

definition strike_codes :: "string set" where
  "strike_codes = {''VELOCITY_EXCEEDED'', ''TOOL_SPRAWL'', ''GOAL_DRIFT'', ''REFUSAL_STREAK'', ''REPLICATION_DETECTED''}"

definition note_refusal :: "string \<Rightarrow> session_guard \<Rightarrow> session_guard" where
  "note_refusal code g =
    (let g' = g\<lparr>sg_refusal_run := sg_refusal_run g + 1\<rparr> in
     if code \<in> strike_codes then strike code g'
     else if sg_refusal_run g' \<ge> lm_max_consecutive_refusals (sg_limits g') then strike ''REFUSAL_STREAK'' g' else g')"

text \<open>The commit of an admitted call; the window forgets what is older than its length.\<close>

definition commit_call :: "string \<Rightarrow> string \<Rightarrow> bool \<Rightarrow> int \<Rightarrow> rat \<Rightarrow> session_guard \<Rightarrow> session_guard" where
  "commit_call node args spawns drift now g =
    (let b = breaker_at g node in
     g\<lparr>sg_window := dropWhile (\<lambda>t. now - t > lm_window (sg_limits g)) (sg_window g @ [now]),
       sg_seen := insert node (sg_seen g), sg_drift_run := drift, sg_spawns := sg_spawns g + (if spawns then 1 else 0), sg_refusal_run := 0,
       sg_breakers := (sg_breakers g)(node \<mapsto> if bk_state b = Circuit_HALF_OPEN then b\<lparr>bk_probing := True\<rparr> else b),
       sg_identical := (sg_identical g)((node, args) := sg_identical g (node, args) + 1), sg_calls := sg_calls g + 1\<rparr>)"

definition admit :: "string \<Rightarrow> string \<Rightarrow> int \<Rightarrow> string set \<Rightarrow> string \<Rightarrow> bool \<Rightarrow> unit guarded" where
  "admit node args depth objective txt spawns =
    bnd (gets sg_halted) (\<lambda>halted.
    if halted then refuse ''SESSION_HALTED''
    else
      bnd (catch (bnd (check_bounds node args depth) (\<lambda>_. check_anomalies node objective txt spawns))
        (\<lambda>e. bnd (case e of Bound_violation code \<Rightarrow> modify (note_refusal code) | _ \<Rightarrow> ret ()) (\<lambda>_. raise e))) (\<lambda>drift.
      bnd read_clock (\<lambda>now. modify (commit_call node args spawns drift now))))"

subsection \<open>Outcomes and halts\<close>

definition record_outcome :: "string \<Rightarrow> bool \<Rightarrow> unit guarded" where
  "record_outcome node good =
    bnd (gets (\<lambda>g. breaker_at g node)) (\<lambda>b.
    if good then modify (sg_breakers_update (\<lambda>m. m(node \<mapsto> b\<lparr>bk_state := Circuit_CLOSED, bk_failures := 0, bk_probing := False\<rparr>)))
    else bnd (gets (\<lambda>g. lm_failure_threshold (sg_limits g))) (\<lambda>threshold.
      let b1 = b\<lparr>bk_failures := bk_failures b + 1, bk_probing := False\<rparr> in
      if bk_state b1 = Circuit_HALF_OPEN \<or> bk_failures b1 \<ge> threshold
      then bnd read_clock (\<lambda>now. modify (sg_breakers_update (\<lambda>m. m(node \<mapsto> b1\<lparr>bk_state := Circuit_OPEN, bk_opened := now\<rparr>))))
      else modify (sg_breakers_update (\<lambda>m. m(node \<mapsto> b1)))))"

definition machine_owners :: "string set" where
  "machine_owners = {''service'', ''system'', ''agent''}"

definition clear_halt :: "string \<Rightarrow> string \<Rightarrow> halt_clear guarded" where
  "clear_halt owner note =
    bnd (guard (strip owner \<noteq> [] \<and> lower (strip owner) \<notin> machine_owners) (Bad_value ''clear_halt needs a named human owner'')) (\<lambda>_.
    bnd (guard (note \<noteq> [] \<and> strip note \<noteq> []) (Bad_value ''clear_halt needs a note explaining the decision'')) (\<lambda>_.
    bnd (gets (\<lambda>g. \<lparr>hc_owner = strip owner, hc_note = take 300 (strip note), hc_reason = sg_halt_reason g, hc_strikes = sg_strikes g\<rparr>)) (\<lambda>r.
    bnd (modify (\<lambda>g. g\<lparr>sg_clears := sg_clears g @ [r], sg_halted := False, sg_halt_reason := [], sg_strikes := [], sg_refusal_run := 0,
      sg_drift_run := 0\<rparr>)) (\<lambda>_. ret r))))"

record anomaly_view =
  av_halted :: bool
  av_reason :: string
  av_strikes :: "string list"
  av_clears :: "halt_clear list"

definition anomaly_state :: "session_guard \<Rightarrow> anomaly_view" where
  "anomaly_state g = \<lparr>av_halted = sg_halted g, av_reason = sg_halt_reason g, av_strikes = sg_strikes g, av_clears = sg_clears g\<rparr>"

subsection \<open>The registry\<close>

text \<open>
  \<open>_REGISTRY\<close> maps a session key to its guard, least recently used first. A guard lives on after its
  eviction, for the caller that holds it.
\<close>

record 'k registry =
  rg_heap :: "session_guard list"
  rg_sessions :: "('k \<times> nat) list"

definition max_sessions :: nat where "max_sessions = 4096"

text \<open>The eviction loop: whether there is room in the end, and the slots left.\<close>

function make_room :: "nat \<Rightarrow> session_guard list \<Rightarrow> ('k \<times> nat) list \<Rightarrow> bool \<times> ('k \<times> nat) list" where
  "make_room cap heap slots =
    (if length slots < cap then (True, slots)
     else case find (\<lambda>(k, r). \<not> sg_halted (heap ! r)) slots of
       None \<Rightarrow> (False, slots)
     | Some x \<Rightarrow> make_room cap heap (remove1 x slots))"
  by pat_completeness auto

termination
proof (relation "measure (\<lambda>(cap, heap, slots). length slots)")
  fix cap heap and slots :: "('k \<times> nat) list" and x
  assume "find (\<lambda>(k, r). \<not> sg_halted (heap ! r)) slots = Some x"
  then have "x \<in> set slots" by (metis find_Some_iff nth_mem)
  then show "((cap, heap, remove1 x slots), (cap, heap, slots)) \<in> measure (\<lambda>(cap, heap, slots). length slots)"
    using length_pos_if_in_set [of x slots] by (simp add: length_remove1)
qed simp

declare make_room.simps [simp del]

definition guard_for :: "nat \<Rightarrow> 'k \<Rightarrow> limits option \<Rightarrow> (nat \<Rightarrow> rat) \<Rightarrow> ('k registry, bound_error, nat) prog" where
  "guard_for cap key L clock =
    bnd (gets (\<lambda>R. map_of (rg_sessions R) key)) (\<lambda>found. case found of
      Some r \<Rightarrow> bnd (modify (rg_sessions_update (\<lambda>slots. filter (\<lambda>(k, _). k \<noteq> key) slots @ [(key, r)]))) (\<lambda>_. ret r)
    | None \<Rightarrow>
        bnd (gets (\<lambda>R. make_room cap (rg_heap R) (rg_sessions R))) (\<lambda>(room, slots).
        bnd (modify (rg_sessions_update (\<lambda>_. slots))) (\<lambda>_.
        bnd (guard room (Bound_violation ''SESSION_REGISTRY_FULL'')) (\<lambda>_.
        bnd (gets (\<lambda>R. length (rg_heap R))) (\<lambda>r.
        bnd (modify (rg_heap_update (\<lambda>h. h @ [new_guard (case L of Some l \<Rightarrow> l | None \<Rightarrow> default_limits) clock]))) (\<lambda>_.
        bnd (modify (rg_sessions_update (\<lambda>slots. slots @ [(key, r)]))) (\<lambda>_. ret r)))))))"

text \<open>A method of the guard at an address.\<close>

definition on_guard :: "nat \<Rightarrow> 'a guarded \<Rightarrow> ('k registry, bound_error, 'a) prog" where
  "on_guard r m = (\<lambda>R. case m (rg_heap R ! r) of (out, g) \<Rightarrow> (out, R\<lparr>rg_heap := (rg_heap R)[r := g]\<rparr>))"

definition clear_session_halt :: "'k \<Rightarrow> string \<Rightarrow> string \<Rightarrow> ('k registry, bound_error, halt_clear) prog" where
  "clear_session_halt key owner note =
    bnd (gets (\<lambda>R. map_of (rg_sessions R) key)) (\<lambda>found. case found of
      None \<Rightarrow> raise Unknown_session
    | Some r \<Rightarrow> on_guard r (clear_halt owner note))"

definition reset_registry :: "('k registry, bound_error, unit) prog" where
  "reset_registry = modify (rg_sessions_update (\<lambda>_. []))"

subsection \<open>Histories of a session\<close>

text \<open>
  What callers do to a guard, in any order and from any thread. \<open>session g0\<close> logs each event with
  whether it was accepted and the guard's latest reading of the clock, which is the instant of an
  admitted call.
\<close>

datatype session_event =
    is_Admit: Admit (ev_tool: string) (ev_args: string) (ev_depth: int) (ev_objective: "string set") (ev_text: string) (ev_spawns: bool)
  | is_Outcome: Outcome (ev_tool: string) (ev_good: bool)
  | is_Clear: Clear (ev_owner: string) (ev_note: string)

type_synonym entry = "session_event \<times> bool \<times> rat"

fun perform :: "session_event \<Rightarrow> unit guarded" where
  "perform (Admit node args depth objective txt spawns) = admit node args depth objective txt spawns"
| "perform (Outcome node good) = record_outcome node good"
| "perform (Clear owner note) = bnd (clear_halt owner note) (\<lambda>_. ret ())"

definition accepted :: "'e + 'a \<Rightarrow> bool" where
  "accepted out = (case out of Inl _ \<Rightarrow> False | Inr _ \<Rightarrow> True)"

definition latest :: "session_guard \<Rightarrow> rat" where
  "latest g = sg_clock g (sg_reads g - 1)"

inductive session :: "session_guard \<Rightarrow> entry list \<Rightarrow> session_guard \<Rightarrow> bool" for g0 where
  start: "session g0 [] g0"
| event: "session g0 tr g \<Longrightarrow> perform e g = (out, g') \<Longrightarrow> session g0 (tr @ [(e, accepted out, latest g')]) g'"

text \<open>The admitted calls of a history, with their instants.\<close>

definition calls_of :: "entry list \<Rightarrow> (session_event \<times> rat) list" where
  "calls_of tr = map (\<lambda>(e, _, t). (e, t)) (filter (\<lambda>(e, ok, _). ok \<and> is_Admit e) tr)"

end
