(* ===== verification/Bounds_Safety.thy ===== *)
theory Bounds_Safety
  imports Execution_Bounds
begin

section \<open>What the bounds of a session promise\<close>

text \<open>
  Over every history of a guard: the admitted calls stay within each limit, however calls, outcomes and
  clears interleave; within any stretch as long as the window no more calls are admitted than the
  window allows; an open breaker lets nothing through before its cooldown and then one probe; a halt
  ends only by a named owner, and no eviction loses it.
\<close>

subsection \<open>One event\<close>

lemma read_clock_run: "read_clock g = (Inr (sg_clock g (sg_reads g)), g\<lparr>sg_reads := Suc (sg_reads g)\<rparr>)"
  by (simp add: read_clock_def prog_defs)

definition let_through :: "limits \<Rightarrow> rat \<Rightarrow> breaker \<Rightarrow> breaker option" where
  "let_through L now b =
    (if bk_state b = Circuit_OPEN then
       if now - bk_opened b < lm_cooldown L then None else Some (b\<lparr>bk_state := Circuit_HALF_OPEN, bk_probing := False\<rparr>)
     else if bk_state b = Circuit_HALF_OPEN \<and> bk_probing b then None else Some b)"

lemma pass_breaker_run:
  "pass_breaker L now b g = (case let_through L now b of None \<Rightarrow> (Inl (Bound_violation ''CIRCUIT_OPEN''), g) | Some b' \<Rightarrow> (Inr b', g))"
  by (simp add: pass_breaker_def let_through_def refuse_def prog_defs)

lemma check_bounds_cases:
  assumes "check_bounds node args depth g = (out, g')"
  obtains (refused) code where "out = Inl (Bound_violation code)" "g' = g\<lparr>sg_reads := Suc (sg_reads g)\<rparr>"
  | (passed) b where "out = Inr ()" "g' = g\<lparr>sg_reads := Suc (sg_reads g), sg_breakers := (sg_breakers g)(node \<mapsto> b)\<rparr>"
      "let_through (sg_limits g) (sg_clock g (sg_reads g)) (breaker_at g node) = Some b" "depth \<le> lm_max_depth (sg_limits g)"
      "sg_calls g < lm_max_calls (sg_limits g)" "sg_identical g (node, args) + 1 \<le> max_identical (sg_limits g)"
      "sg_clock g (sg_reads g) - sg_started g \<le> lm_session_timeout (sg_limits g)"
  using assms
  by (auto simp: check_bounds_def bnd_def read_clock_run gets_def Let_def refuse_def raise_def pass_breaker_run modify_def breaker_at_def
      split: if_splits option.splits)

text \<open>The run of calls off the objective after a call: the call counts when both it and the objective have terms.\<close>

definition next_drift :: "string set \<Rightarrow> string \<Rightarrow> int \<Rightarrow> int" where
  "next_drift objective txt d = (if objective = {} \<or> card (objective_terms txt) < min_drift_terms then d
     else if objective_terms txt \<inter> objective \<noteq> {} then 0 else d + 1)"

lemma check_anomalies_run:
  "check_anomalies node objective txt spawns g =
    (let L = sg_limits g; now = sg_clock g (sg_reads g); g' = g\<lparr>sg_reads := Suc (sg_reads g)\<rparr>; d = next_drift objective txt (sg_drift_run g) in
     if int (length (filter (\<lambda>t. now - t \<le> lm_window L) (sg_window g))) \<ge> lm_max_calls_per_window L then (Inl (Bound_violation ''VELOCITY_EXCEEDED''), g')
     else if node \<notin> sg_seen g \<and> int (card (sg_seen g)) \<ge> lm_max_novel_tools L then (Inl (Bound_violation ''TOOL_SPRAWL''), g')
     else if spawns \<and> sg_spawns g \<ge> lm_max_session_spawns L then (Inl (Bound_violation ''REPLICATION_DETECTED''), g')
     else if objective \<noteq> {} \<and> card (objective_terms txt) \<ge> min_drift_terms \<and> d \<ge> lm_drift_window L
       then (Inl (Bound_violation ''GOAL_DRIFT''), g')
     else (Inr d, g'))"
  unfolding check_anomalies_def next_drift_def Let_def
  by (simp add: bnd_def read_clock_run gets_def refuse_def raise_def ret_def)

lemma check_anomalies_cases:
  assumes "check_anomalies node objective txt spawns g = (out, g')"
  obtains (refused) code where "out = Inl (Bound_violation code)" "g' = g\<lparr>sg_reads := Suc (sg_reads g)\<rparr>"
  | (passed) drift where "out = Inr drift" "g' = g\<lparr>sg_reads := Suc (sg_reads g)\<rparr>"
      "int (length (filter (\<lambda>t. sg_clock g (sg_reads g) - t \<le> lm_window (sg_limits g)) (sg_window g))) < lm_max_calls_per_window (sg_limits g)"
      "node \<in> sg_seen g \<or> int (card (sg_seen g)) < lm_max_novel_tools (sg_limits g)"
      "spawns \<Longrightarrow> sg_spawns g < lm_max_session_spawns (sg_limits g)"
      "drift = next_drift objective txt (sg_drift_run g)" "drift < lm_drift_window (sg_limits g) \<or> drift = sg_drift_run g"
proof -
  have idle: "next_drift objective txt (sg_drift_run g) = sg_drift_run g"
    if "\<not> (objective \<noteq> {} \<and> card (objective_terms txt) \<ge> min_drift_terms)"
    using that by (auto simp: next_drift_def)
  show thesis
    using assms that idle unfolding check_anomalies_run Let_def by (auto simp: not_le split: if_splits)
qed

text \<open>
  A call: refused by the halt, refused by a check (the breaker may have moved on to its probe, the
  refusal is noted), or admitted.
\<close>

lemma admit_cases:
  assumes "admit node args depth objective txt spawns g = (out, g')"
  obtains (halted) "sg_halted g" "out = Inl (Bound_violation ''SESSION_HALTED'')" "g' = g"
  | (refused) code k B where "\<not> sg_halted g" "out = Inl (Bound_violation code)" "g' = note_refusal code (g\<lparr>sg_breakers := B, sg_reads := sg_reads g + k\<rparr>)"
      "B = sg_breakers g \<or> (\<exists>b. let_through (sg_limits g) (sg_clock g (sg_reads g)) (breaker_at g node) = Some b \<and> B = (sg_breakers g)(node \<mapsto> b))"
      "k > 0"
  | (admitted) b drift where "\<not> sg_halted g" "out = Inr ()"
      "g' = commit_call node args spawns drift (sg_clock g (sg_reads g + 2)) (g\<lparr>sg_breakers := (sg_breakers g)(node \<mapsto> b), sg_reads := sg_reads g + 3\<rparr>)"
      "let_through (sg_limits g) (sg_clock g (sg_reads g)) (breaker_at g node) = Some b" "depth \<le> lm_max_depth (sg_limits g)"
      "sg_calls g < lm_max_calls (sg_limits g)" "sg_identical g (node, args) + 1 \<le> max_identical (sg_limits g)"
      "int (length (filter (\<lambda>t. sg_clock g (sg_reads g + 1) - t \<le> lm_window (sg_limits g)) (sg_window g))) < lm_max_calls_per_window (sg_limits g)"
      "node \<in> sg_seen g \<or> int (card (sg_seen g)) < lm_max_novel_tools (sg_limits g)"
      "spawns \<Longrightarrow> sg_spawns g < lm_max_session_spawns (sg_limits g)" "sg_clock g (sg_reads g) - sg_started g \<le> lm_session_timeout (sg_limits g)"
      "drift = next_drift objective txt (sg_drift_run g)" "drift < lm_drift_window (sg_limits g) \<or> drift = sg_drift_run g"
proof (cases "sg_halted g")
  case True
  with assms show thesis by (intro halted) (simp_all add: admit_def prog_defs refuse_def)
next
  case False
  obtain o1 g1 where c: "check_bounds node args depth g = (o1, g1)" by (rule prod.exhaust)
  from c show thesis
  proof (cases rule: check_bounds_cases)
    case (refused code)
    with False c assms show thesis
      by (intro that(2) [where code = code and k = 1 and B = "sg_breakers g"]) (simp_all add: admit_def prog_defs)
  next
    case (passed b)
    obtain o2 g2 where d: "check_anomalies node objective txt spawns g1 = (o2, g2)" by (rule prod.exhaust)
    from d show thesis
    proof (cases rule: check_anomalies_cases)
      case (refused code)
      with False c d passed assms show thesis
        by (intro that(2) [where code = code and k = 2 and B = "(sg_breakers g)(node \<mapsto> b)"]) (simp_all add: admit_def prog_defs)
    next
      case p: (passed drift)
      with False c d passed assms show thesis
        by (intro that(3) [where b = b and drift = drift]) (simp_all add: admit_def prog_defs read_clock_run numeral_eq_Suc)
    qed
  qed
qed

lemma strike_simps [simp]:
  "sg_limits (strike code g) = sg_limits g" "sg_clock (strike code g) = sg_clock g" "sg_reads (strike code g) = sg_reads g"
  "sg_calls (strike code g) = sg_calls g" "sg_identical (strike code g) = sg_identical g" "sg_breakers (strike code g) = sg_breakers g"
  "sg_seen (strike code g) = sg_seen g" "sg_window (strike code g) = sg_window g" "sg_spawns (strike code g) = sg_spawns g"
  "sg_clears (strike code g) = sg_clears g" "sg_strikes (strike code g) = sg_strikes g @ [code]" "sg_drift_run (strike code g) = sg_drift_run g" "sg_started (strike code g) = sg_started g"
  by (simp_all add: strike_def Let_def)

lemma note_refusal_simps [simp]:
  "sg_limits (note_refusal code g) = sg_limits g" "sg_clock (note_refusal code g) = sg_clock g" "sg_reads (note_refusal code g) = sg_reads g"
  "sg_calls (note_refusal code g) = sg_calls g" "sg_identical (note_refusal code g) = sg_identical g" "sg_breakers (note_refusal code g) = sg_breakers g"
  "sg_seen (note_refusal code g) = sg_seen g" "sg_window (note_refusal code g) = sg_window g" "sg_spawns (note_refusal code g) = sg_spawns g"
  "sg_clears (note_refusal code g) = sg_clears g" "sg_drift_run (note_refusal code g) = sg_drift_run g" "sg_started (note_refusal code g) = sg_started g"
  by (simp_all add: note_refusal_def Let_def)

lemma commit_call_simps [simp]:
  "sg_limits (commit_call node args spawns drift now g) = sg_limits g" "sg_clock (commit_call node args spawns drift now g) = sg_clock g"
  "sg_reads (commit_call node args spawns drift now g) = sg_reads g" "sg_calls (commit_call node args spawns drift now g) = sg_calls g + 1"
  "sg_identical (commit_call node args spawns drift now g) = (sg_identical g)((node, args) := sg_identical g (node, args) + 1)"
  "sg_seen (commit_call node args spawns drift now g) = insert node (sg_seen g)"
  "sg_spawns (commit_call node args spawns drift now g) = sg_spawns g + (if spawns then 1 else 0)"
  "sg_window (commit_call node args spawns drift now g) = dropWhile (\<lambda>t. now - t > lm_window (sg_limits g)) (sg_window g @ [now])"
  "sg_halted (commit_call node args spawns drift now g) = sg_halted g" "sg_strikes (commit_call node args spawns drift now g) = sg_strikes g"
  "sg_drift_run (commit_call node args spawns drift now g) = drift" "sg_started (commit_call node args spawns drift now g) = sg_started g"
  "sg_clears (commit_call node args spawns drift now g) = sg_clears g"
  by (simp_all add: commit_call_def Let_def)

text \<open>An outcome touches the breaker of its tool; a clear the halt, its strikes and the runs.\<close>

lemma outcome_run:
  assumes "record_outcome node good g = (out, g')"
  shows "\<exists>b k. out = Inr () \<and> g' = g\<lparr>sg_breakers := (sg_breakers g)(node \<mapsto> b), sg_reads := sg_reads g + k\<rparr>"
  by (intro exI [of _ "the (sg_breakers g' node)"] exI [of _ "sg_reads g' - sg_reads g"])
    (use assms in \<open>auto simp: record_outcome_def prog_defs read_clock_run Let_def split: if_splits intro!: session_guard.equality\<close>)

lemma clear_run:
  assumes "perform (Clear owner note) g = (out, g')"
  shows "out \<noteq> Inr () \<and> g' = g \<or>
    out = Inr () \<and> strip owner \<noteq> [] \<and> lower (strip owner) \<notin> machine_owners \<and> strip note \<noteq> [] \<and>
    g' = g\<lparr>sg_clears := sg_clears g @ [\<lparr>hc_owner = strip owner, hc_note = take 300 (strip note), hc_reason = sg_halt_reason g, hc_strikes = sg_strikes g\<rparr>],
      sg_halted := False, sg_halt_reason := [], sg_strikes := [], sg_refusal_run := 0, sg_drift_run := 0\<rparr>"
  using assms by (auto simp: clear_halt_def prog_defs split: if_splits)

subsection \<open>The limits\<close>

lemma calls_of_snoc [simp]:
  "calls_of [] = []" "calls_of (tr @ [(e, ok, t)]) = (if ok \<and> is_Admit e then calls_of tr @ [(e, t)] else calls_of tr)"
  by (simp_all add: calls_of_def)

lemma accepted_simps [simp]: "accepted (Inr a)" "\<not> accepted (Inl e)"
  by (simp_all add: accepted_def)

text \<open>How many admitted calls in a row were off the objective at the end of a history.\<close>

fun drift_after :: "int \<Rightarrow> entry \<Rightarrow> int" where
  "drift_after d (Admit node args depth objective txt spawns, ok, t) = (if ok then next_drift objective txt d else d)"
| "drift_after d (Outcome node good, ok, t) = d"
| "drift_after d (Clear owner why, ok, t) = (if ok then 0 else d)"

definition drift_run :: "entry list \<Rightarrow> int" where
  "drift_run tr = foldl drift_after 0 tr"

lemma drift_run_snoc [simp]: "drift_run [] = 0" "drift_run (tr @ [x]) = drift_after (drift_run tr) x"
  by (simp_all add: drift_run_def)

text \<open>The counters of the guard count the admitted calls, within the limits.\<close>

definition counts_calls :: "limits \<Rightarrow> entry list \<Rightarrow> session_guard \<Rightarrow> bool" where
  "counts_calls L tr g \<longleftrightarrow> sg_limits g = L \<and>
    sg_drift_run g = drift_run tr \<and> drift_run tr < lm_drift_window L \<and>
    sg_calls g = int (length (calls_of tr)) \<and> sg_calls g \<le> lm_max_calls L \<and>
    (\<forall>node args. sg_identical g (node, args) = int (length (filter (\<lambda>(e, _). ev_tool e = node \<and> ev_args e = args) (calls_of tr))) \<and>
      sg_identical g (node, args) \<le> lm_retry_limit L + 1) \<and>
    sg_seen g = (\<lambda>(e, _). ev_tool e) ` set (calls_of tr) \<and> int (card (sg_seen g)) \<le> lm_max_novel_tools L \<and>
    sg_spawns g = int (length (filter (\<lambda>(e, _). ev_spawns e) (calls_of tr))) \<and> sg_spawns g \<le> lm_max_session_spawns L \<and>
    (\<forall>(e, _)\<in>set (calls_of tr). ev_depth e \<le> lm_max_depth L)"

lemma counts_start: "limits_check L = Inr () \<Longrightarrow> counts_calls L [] (new_guard L clock)"
  by (auto simp: counts_calls_def new_guard_def limits_check_def split: if_splits)

lemma counts_same:
  assumes "counts_calls L tr g" "sg_limits g' = sg_limits g" "sg_calls g' = sg_calls g" "sg_identical g' = sg_identical g"
    "sg_seen g' = sg_seen g" "sg_spawns g' = sg_spawns g" "sg_drift_run g' = drift_run tr'" "drift_run tr' < lm_drift_window L"
    "calls_of tr' = calls_of tr"
  shows "counts_calls L tr' g'"
  using assms(1,8) unfolding counts_calls_def assms(2-7,9) by blast

lemma counts_event:
  assumes "counts_calls L tr g" "perform e g = (out, g')" "1 \<le> lm_drift_window L"
  shows "counts_calls L (tr @ [(e, accepted out, latest g')]) g'"
proof -
  have drift: "sg_drift_run g = drift_run tr" "drift_run tr < lm_drift_window L"
    using assms(1) unfolding counts_calls_def by blast+
  show ?thesis
  proof (cases e)
    case (Admit node args depth objective words spawns)
    have "admit node args depth objective words spawns g = (out, g')" using assms(2) Admit by simp
    then show ?thesis
    proof (cases rule: admit_cases)
      case (admitted b drift)
      have "finite (sg_seen g)" using assms(1) by (simp add: counts_calls_def)
      then have "int (card (insert node (sg_seen g))) \<le> lm_max_novel_tools L"
        using admitted(9) assms(1) by (auto simp: counts_calls_def card_insert_if)
      moreover have lim: "sg_limits g = L" and old: "sg_identical g (n, a) \<le> lm_retry_limit L + 1" "sg_spawns g \<le> lm_max_session_spawns L" for n a
        using assms(1) unfolding counts_calls_def by blast+
      moreover note drift
      moreover have "sg_drift_run g' = drift" "drift < lm_drift_window L" "drift = next_drift objective words (drift_run tr)"
        using admitted(12,13) drift by (auto simp: admitted(3) lim)
      moreover have "sg_calls g' \<le> lm_max_calls L" "sg_identical g' (n, a) \<le> lm_retry_limit L + 1" "sg_spawns g' \<le> lm_max_session_spawns L" for n a
        using old(1) [of n a] old(2) admitted(6,7,10) by (auto simp: admitted(3) lim max_identical_def)
      moreover have "sg_identical g (node, args) \<le> lm_retry_limit L" using admitted(7) by (simp add: max_identical_def lim)
      ultimately show ?thesis using assms(1) admitted(2,3,5) Admit
        by (simp add: counts_calls_def split_beta)
    qed (rule counts_same [OF assms(1)], use drift Admit in auto)+
  next
    case (Outcome node good)
    then show ?thesis using assms(2) drift outcome_run [of node good g out g'] by (intro counts_same [OF assms(1)]) auto
  next
    case (Clear owner why)
    then show ?thesis
      using assms(2,3) drift clear_run [of owner why g out g']
      by (intro counts_same [OF assms(1)]) (auto simp: accepted_def split: sum.splits)
  qed
qed

lemma session_counts:
  "session (new_guard L clock) tr g \<Longrightarrow> limits_check L = Inr () \<Longrightarrow> counts_calls L tr g"
  by (induction rule: session.induct) (auto intro!: counts_start counts_event simp: limits_check_def split: if_splits)

lemma session_started: "session g tr g' \<Longrightarrow> sg_clock g' = sg_clock g \<and> sg_started g' = sg_started g"
proof (induction rule: session.induct)
  case (event tr h e out h')
  show ?case
  proof (cases e)
    case (Admit node args depth objective words spawns)
    then have "admit node args depth objective words spawns h = (out, h')" using event.hyps(2) by simp
    then show ?thesis by (cases rule: admit_cases) (use event.IH in simp_all)
  next
    case (Outcome node good)
    then show ?thesis using event outcome_run [of node good h out h'] by auto
  next
    case (Clear owner why)
    then show ?thesis using event clear_run [of owner why h out h'] by auto
  qed
qed simp

lemma admitted_in_time:
  assumes "accepted (fst (admit node args depth objective txt spawns g))"
  shows "sg_clock g (sg_reads g) - sg_started g \<le> lm_session_timeout (sg_limits g)"
proof -
  obtain out g' where run: "admit node args depth objective txt spawns g = (out, g')" by fastforce
  with assms have "accepted out" by simp
  from run show ?thesis by (cases rule: admit_cases) (use \<open>accepted out\<close> in simp_all)
qed

text \<open>
  C17. In every history of a session the admitted calls stay within these limits: their number, the calls of
  one tool with the same arguments, the distinct tools, the calls that spawn sessions, the depth of each,
  and the calls off the objective in a row; and a call is admitted only when the session is not past its
  timeout, at the clock reading the check makes. The calls per window and the breakers are separate properties.
\<close>

theorem session_bounds:
  assumes "limits_check L = Inr ()" and "session (new_guard L clock) tr g"
  shows "int (length (calls_of tr)) \<le> lm_max_calls L \<and>
    (\<forall>node args. int (length (filter (\<lambda>(e, _). ev_tool e = node \<and> ev_args e = args) (calls_of tr))) \<le> lm_retry_limit L + 1) \<and>
    int (card ((\<lambda>(e, _). ev_tool e) ` set (calls_of tr))) \<le> lm_max_novel_tools L \<and>
    int (length (filter (\<lambda>(e, _). ev_spawns e) (calls_of tr))) \<le> lm_max_session_spawns L \<and>
    list_all (\<lambda>(e, _). ev_depth e \<le> lm_max_depth L) (calls_of tr) \<and>
    drift_run tr < lm_drift_window L \<and>
    (\<forall>node args depth objective txt spawns. accepted (fst (admit node args depth objective txt spawns g)) \<longrightarrow>
       clock (sg_reads g) - clock 0 \<le> lm_session_timeout L)"
proof -
  have c: "counts_calls L tr g" using assms(2,1) by (rule session_counts)
  have "sg_clock g = clock" "sg_started g = clock 0" "sg_limits g = L"
    using c session_started [OF assms(2)] by (simp_all add: new_guard_def counts_calls_def)
  then have timely: "clock (sg_reads g) - clock 0 \<le> lm_session_timeout L"
    if "accepted (fst (admit node args depth objective words spawns g))" for node args depth objective words spawns
    using admitted_in_time [OF that] by simp
  have "int (length (calls_of tr)) \<le> lm_max_calls L"
    "int (card ((\<lambda>(e, _). ev_tool e) ` set (calls_of tr))) \<le> lm_max_novel_tools L"
    "int (length (filter (\<lambda>(e, _). ev_spawns e) (calls_of tr))) \<le> lm_max_session_spawns L"
    "list_all (\<lambda>(e, _). ev_depth e \<le> lm_max_depth L) (calls_of tr)" "drift_run tr < lm_drift_window L"
    using c unfolding counts_calls_def list_all_iff by metis+
  moreover have "int (length (filter (\<lambda>(e, _). ev_tool e = node \<and> ev_args e = args) (calls_of tr))) \<le> lm_retry_limit L + 1" for node args
    using c unfolding counts_calls_def by metis
  ultimately show ?thesis using timely by (intro conjI allI impI)
qed

subsection \<open>Halts\<close>

text \<open>A session is halted exactly when its strikes since the last clear reach the limit.\<close>

definition halts_at_limit :: "session_guard \<Rightarrow> bool" where
  "halts_at_limit g \<longleftrightarrow> 1 \<le> lm_max_strikes (sg_limits g) \<and> int (length (sg_strikes g)) \<le> lm_max_strikes (sg_limits g) \<and>
    (sg_halted g \<longleftrightarrow> int (length (sg_strikes g)) = lm_max_strikes (sg_limits g))"

lemma strike_halts: "halts_at_limit g \<Longrightarrow> \<not> sg_halted g \<Longrightarrow> halts_at_limit (strike code g)"
  by (auto simp: halts_at_limit_def strike_def Let_def)

lemma note_refusal_halts: "halts_at_limit g \<Longrightarrow> \<not> sg_halted g \<Longrightarrow> halts_at_limit (note_refusal code g)"
  by (auto simp: note_refusal_def Let_def intro!: strike_halts) (simp_all add: halts_at_limit_def)

lemma halts_same:
  "halts_at_limit g \<Longrightarrow> sg_limits g' = sg_limits g \<Longrightarrow> sg_halted g' = sg_halted g \<Longrightarrow> sg_strikes g' = sg_strikes g \<Longrightarrow> halts_at_limit g'"
  by (simp add: halts_at_limit_def)

lemma halts_event:
  assumes "halts_at_limit g" "perform e g = (out, g')"
  shows "halts_at_limit g'"
proof (cases e)
  case (Admit node args depth objective words spawns)
  have "admit node args depth objective words spawns g = (out, g')" using assms(2) Admit by simp
  then show ?thesis
  proof (cases rule: admit_cases)
    case (refused code k B)
    have "halts_at_limit (g\<lparr>sg_breakers := B, sg_reads := sg_reads g + k\<rparr>)" by (rule halts_same [OF assms(1)]) simp_all
    then show ?thesis using refused(1,3) by (auto intro: note_refusal_halts)
  qed (rule halts_same [OF assms(1)], auto)+
next
  case (Outcome node good)
  then show ?thesis using assms(2) outcome_run [of node good g out g'] by (intro halts_same [OF assms(1)]) auto
next
  case (Clear owner why)
  then show ?thesis using assms clear_run [of owner why g out g'] by (auto simp: halts_at_limit_def)
qed

lemma session_halts:
  "session (new_guard L clock) tr g \<Longrightarrow> limits_check L = Inr () \<Longrightarrow> halts_at_limit g"
proof (induction rule: session.induct)
  case start
  then show ?case by (auto simp: halts_at_limit_def new_guard_def limits_check_def split: if_splits)
qed (rule halts_event)

text \<open>A clear that was accepted: whose, and what it left on record.\<close>

definition cleared_by_owner :: "session_guard \<Rightarrow> entry list \<Rightarrow> session_guard \<Rightarrow> bool" where
  "cleared_by_owner g tr g' = list_ex (\<lambda>(e, ok, _). ok \<and> is_Clear e \<and> strip (ev_owner e) \<noteq> [] \<and> lower (strip (ev_owner e)) \<notin> machine_owners \<and>
     list_ex (\<lambda>r. hc_owner r = strip (ev_owner e) \<and> hc_reason r = sg_halt_reason g \<and> hc_strikes r = sg_strikes g) (sg_clears g')) tr"

lemma clears_grow: "perform e g = (out, g') \<Longrightarrow> set (sg_clears g) \<subseteq> set (sg_clears g')"
proof (cases e)
  case (Admit node args depth objective words spawns)
  assume "perform e g = (out, g')"
  then have "admit node args depth objective words spawns g = (out, g')" using Admit by simp
  then show ?thesis by (cases rule: admit_cases) simp_all
next
  case (Outcome node good)
  assume "perform e g = (out, g')"
  then show ?thesis using Outcome outcome_run [of node good g out g'] by auto
next
  case (Clear owner why)
  assume "perform e g = (out, g')"
  then show ?thesis using Clear clear_run [of owner why g out g'] by auto
qed

lemma halted_or_cleared:
  assumes "session g tr g'" "sg_halted g"
  shows "sg_halted g' \<and> sg_halt_reason g' = sg_halt_reason g \<and> sg_strikes g' = sg_strikes g \<and> calls_of tr = [] \<or> cleared_by_owner g tr g'"
  using assms(1)
proof (induction rule: session.induct)
  case (event tr h e out h')
  note grow = clears_grow [OF event.hyps(2)]
  show ?case
  proof (cases "cleared_by_owner g tr h")
    case True
    then show ?thesis using grow by (fastforce simp: cleared_by_owner_def list_ex_iff)
  next
    case False
    then have h: "sg_halted h" "sg_halt_reason h = sg_halt_reason g" "sg_strikes h = sg_strikes g" "calls_of tr = []" using event.IH by auto
    show ?thesis
    proof (cases e)
      case (Admit node args depth objective words spawns)
      then have "admit node args depth objective words spawns h = (out, h')" using event.hyps(2) by simp
      then show ?thesis by (cases rule: admit_cases) (use h in auto)
    next
      case (Outcome node good)
      then show ?thesis using h event.hyps(2) outcome_run [of node good h out h'] by auto
    next
      case (Clear owner why)
      then show ?thesis using h event.hyps(2) clear_run [of owner why h out h'] by (auto simp: cleared_by_owner_def)
    qed
  qed
qed (use assms(2) in auto)

text \<open>
  C18. Once its strikes reach the limit a session admits nothing and stays halted, until a clear by a named
  owner, not a machine account, which is left on record with the strikes and the reason of the halt.
\<close>

theorem halt_needs_owner:
  assumes "limits_check L = Inr ()" and "session (new_guard L clock) tr0 g" and "int (length (sg_strikes g)) = lm_max_strikes L"
    and "session g tr g'" and "calls_of tr \<noteq> [] \<or> \<not> sg_halted g'"
  shows "cleared_by_owner g tr g'"
proof -
  have "halts_at_limit g" using assms(2,1) by (rule session_halts)
  moreover have "sg_limits g = L" using session_counts [OF assms(2,1)] by (simp add: counts_calls_def)
  ultimately have "sg_halted g" using assms(3) by (simp add: halts_at_limit_def)
  then show ?thesis using halted_or_cleared [OF assms(4)] assms(5) by auto
qed

subsection \<open>The circuit breaker\<close>

lemma commit_call_breakers:
  "sg_breakers (commit_call node args spawns drift now g) =
    (sg_breakers g)(node \<mapsto> if bk_state (breaker_at g node) = Circuit_HALF_OPEN then (breaker_at g node)\<lparr>bk_probing := True\<rparr> else breaker_at g node)"
  by (simp add: commit_call_def Let_def)

definition tool_instants :: "string \<Rightarrow> entry list \<Rightarrow> rat list" where
  "tool_instants node tr = map snd (filter (\<lambda>(e, _). ev_tool e = node) (calls_of tr))"

lemma tool_instants_snoc [simp]:
  "tool_instants node [] = []"
  "tool_instants node (tr @ [(e, ok, t)]) = (if ok \<and> is_Admit e \<and> ev_tool e = node then tool_instants node tr @ [t] else tool_instants node tr)"
  by (simp_all add: tool_instants_def)

lemma clock_same: "perform e g = (out, g') \<Longrightarrow> sg_clock g' = sg_clock g \<and> sg_limits g' = sg_limits g \<and> sg_reads g \<le> sg_reads g'"
proof (cases e)
  case (Admit node args depth objective words spawns)
  assume "perform e g = (out, g')"
  then have "admit node args depth objective words spawns g = (out, g')" using Admit by simp
  then show ?thesis by (cases rule: admit_cases) simp_all
next
  case (Outcome node good)
  assume "perform e g = (out, g')"
  then show ?thesis using Outcome outcome_run [of node good g out g'] by auto
next
  case (Clear owner why)
  assume "perform e g = (out, g')"
  then show ?thesis using Clear clear_run [of owner why g out g'] by auto
qed

lemma session_clock: "session g tr g' \<Longrightarrow> sg_clock g' = sg_clock g \<and> sg_limits g' = sg_limits g \<and> sg_reads g \<le> sg_reads g'"
  by (induction rule: session.induct) (auto dest!: clock_same)

text \<open>
  From an open breaker, with no outcome of its tool reported: still open; on its probe with the cooldown
  over and no call yet; or the probe has been let through.
\<close>

definition probe_phase :: "string \<Rightarrow> breaker \<Rightarrow> rat \<Rightarrow> entry list \<Rightarrow> session_guard \<Rightarrow> bool" where
  "probe_phase node b due tr h \<longleftrightarrow>
    tool_instants node tr = [] \<and> sg_breakers h node = Some b \<or>
    tool_instants node tr = [] \<and> sg_breakers h node = Some (b\<lparr>bk_state := Circuit_HALF_OPEN, bk_probing := False\<rparr>) \<and> due \<le> sg_clock h (sg_reads h) \<or>
    (\<exists>t\<ge>due. tool_instants node tr = [t]) \<and> sg_breakers h node = Some (b\<lparr>bk_state := Circuit_HALF_OPEN, bk_probing := True\<rparr>)"

lemma probe_same:
  assumes "probe_phase node b due tr h" "mono (sg_clock h)" "sg_clock h' = sg_clock h" "sg_reads h \<le> sg_reads h'"
    "sg_breakers h' node = sg_breakers h node" "tool_instants node tr' = tool_instants node tr"
  shows "probe_phase node b due tr' h'"
proof -
  have "sg_clock h (sg_reads h) \<le> sg_clock h (sg_reads h')" using assms(2,4) by (rule monoD)
  then show ?thesis using assms(1,3,5,6) by (auto simp: probe_phase_def)
qed

lemma probe_event:
  assumes phase: "probe_phase node b due tr h" and mono: "mono (sg_clock h)" and run: "perform e h = (out, h')"
    and b: "bk_state b = Circuit_OPEN" "due = bk_opened b + lm_cooldown (sg_limits h)" and none: "\<not> (is_Outcome e \<and> ev_tool e = node)"
  shows "probe_phase node b due (tr @ [(e, accepted out, latest h')]) h'"
proof (cases e)
  case (Admit n args depth objective words spawns)
  have run': "admit n args depth objective words spawns h = (out, h')" using run Admit by simp
  have later: "sg_clock h (sg_reads h) \<le> sg_clock h (sg_reads h + k)" for k using mono by (rule monoD) simp
  from run' show ?thesis
  proof (cases rule: admit_cases)
    case halted
    then show ?thesis by (intro probe_same [OF phase mono]) simp_all
  next
    case (refused code k B)
    show ?thesis
    proof (cases "B node = sg_breakers h node")
      case True
      then show ?thesis using refused by (intro probe_same [OF phase mono]) simp_all
    next
      case False
      then obtain c where "n = node" "B node = Some c" "let_through (sg_limits h) (sg_clock h (sg_reads h)) (breaker_at h node) = Some c"
        using refused(4) by (auto split: if_splits)
      then show ?thesis using False phase refused(2,3) b later [of k]
        by (auto simp: probe_phase_def let_through_def breaker_at_def split: if_splits)
    qed
  next
    case (admitted c drift)
    have "latest h' = sg_clock h (sg_reads h + 2)" using admitted(3) by (simp add: latest_def)
    moreover have "probe_phase node b due (tr @ [(e, accepted out, latest h')]) h'" if "n \<noteq> node"
      using that Admit by (intro probe_same [OF phase mono]) (simp_all add: admitted(2,3) commit_call_breakers)
    ultimately show ?thesis
      using phase admitted(2,3,4) b later [of 2] Admit
      by (cases "n = node") (auto simp: probe_phase_def let_through_def breaker_at_def commit_call_breakers split: if_splits)
  qed
next
  case (Outcome n good)
  then show ?thesis using none run outcome_run [of n good h out h'] by (intro probe_same [OF phase mono]) auto
next
  case (Clear owner why)
  then show ?thesis using run clear_run [of owner why h out h'] by (intro probe_same [OF phase mono]) auto
qed

text \<open>
  C19. From an open breaker on, until an outcome of its tool is reported, at most one call of the tool is
  admitted, and not before the cooldown is over.
\<close>

theorem open_breaker_holds:
  assumes "sg_breakers g node = Some b" and "bk_state b = Circuit_OPEN" and "mono (sg_clock g)" and "session g tr g'"
    and "list_all (\<lambda>(e, _). \<not> (is_Outcome e \<and> ev_tool e = node)) tr"
  shows "length (tool_instants node tr) \<le> 1 \<and> list_all (\<lambda>t. bk_opened b + lm_cooldown (sg_limits g) \<le> t) (tool_instants node tr)"
proof -
  let ?due = "bk_opened b + lm_cooldown (sg_limits g)"
  have "probe_phase node b ?due tr g'"
    using assms(4,5)
  proof (induction rule: session.induct)
    case start
    then show ?case using assms(1) by (simp add: probe_phase_def)
  next
    case (event tr h e out h')
    note clock = session_clock [OF event.hyps(1)]
    show ?case
      using event assms(2,3) clock by (intro probe_event [OF _ _ event.hyps(2)]) auto
  qed
  then show ?thesis by (auto simp: probe_phase_def)
qed

subsection \<open>The velocity of a session\<close>

definition paced :: "limits \<Rightarrow> entry list \<Rightarrow> session_guard \<Rightarrow> bool" where
  "paced L tr g \<longleftrightarrow> sg_limits g = L \<and>
    (\<exists>old. map snd (calls_of tr) = old @ sg_window g \<and> (\<forall>t\<in>set old. lm_window L < sg_clock g (sg_reads g) - t)) \<and>
    sorted (map snd (calls_of tr)) \<and> (\<forall>t\<in>set (map snd (calls_of tr)). t \<le> sg_clock g (sg_reads g)) \<and>
    (\<forall>i. i + nat (lm_max_calls_per_window L) < length (calls_of tr) \<longrightarrow>
      lm_window L < map snd (calls_of tr) ! (i + nat (lm_max_calls_per_window L)) - map snd (calls_of tr) ! i)"

lemma paced_same:
  assumes "paced L tr g" "mono (sg_clock g)" "sg_limits g' = sg_limits g" "sg_clock g' = sg_clock g" "sg_reads g \<le> sg_reads g'"
    "sg_window g' = sg_window g" "calls_of tr' = calls_of tr"
  shows "paced L tr' g'"
proof -
  have "sg_clock g (sg_reads g) \<le> sg_clock g (sg_reads g')" using assms(2,5) by (rule monoD)
  then show ?thesis using assms(1) unfolding paced_def assms(3,4,6,7) by (fastforce intro: order_trans)
qed

lemma window_holds:
  fixes ts :: "rat list"
  assumes "ts = old @ win" "sorted ts" "\<forall>t\<in>set old. w < now - t" "length (filter (\<lambda>t. seen - t \<le> w) win) < n" "seen \<le> now" "n \<le> length ts"
  shows "w < now - ts ! (length ts - n)"
proof (rule ccontr)
  assume "\<not> w < now - ts ! (length ts - n)"
  let ?i = "length ts - n"
  have n: "n > 0" using assms(4) by simp
  have i: "?i \<ge> length old"
  proof (rule ccontr)
    assume "\<not> ?i \<ge> length old"
    then have "ts ! ?i \<in> set old" using assms(1) by (auto simp: nth_append)
    then show False using assms(3) \<open>\<not> w < now - ts ! ?i\<close> by auto
  qed
  have "\<forall>t\<in>set (drop ?i ts). seen - t \<le> w"
  proof
    fix t
    assume "t \<in> set (drop ?i ts)"
    then obtain j where "t = ts ! (?i + j)" "?i + j < length ts" by (auto simp: in_set_conv_nth)
    then have "ts ! ?i \<le> t" using assms(2) by (auto intro: sorted_nth_mono)
    then show "seen - t \<le> w" using assms(5) \<open>\<not> w < now - ts ! ?i\<close> by linarith
  qed
  then have "filter (\<lambda>t. seen - t \<le> w) (drop ?i ts) = drop ?i ts" by (simp add: filter_id_conv)
  moreover have "drop ?i ts = drop (?i - length old) win" using i assms(1) by simp
  moreover have "length (filter p (drop k win)) \<le> length (filter p win)" for p k
    by (metis append_take_drop_id filter_append le_add2 length_append)
  ultimately have "length (drop ?i ts) \<le> length (filter (\<lambda>t. seen - t \<le> w) win)" by metis
  then show False using assms(4,6) by simp
qed

lemma paced_event:
  assumes paced: "paced L tr g" and mono: "mono (sg_clock g)" and run: "perform e g = (out, g')" and L: "1 \<le> lm_max_calls_per_window L"
  shows "paced L (tr @ [(e, accepted out, latest g')]) g'"
proof (cases e)
  case (Admit node args depth objective words spawns)
  have "admit node args depth objective words spawns g = (out, g')" using run Admit by simp
  then show ?thesis
  proof (cases rule: admit_cases)
    case (admitted b drift)
    define ts where "ts = map snd (calls_of tr)"
    define N where "N = nat (lm_max_calls_per_window L)"
    define now where "now = sg_clock g (sg_reads g + 2)"
    have lim: "sg_limits g = L" using paced by (simp add: paced_def)
    have now: "latest g' = now" using admitted(3) by (simp add: latest_def now_def)
    obtain old where old: "ts = old @ sg_window g" "\<forall>t\<in>set old. lm_window L < sg_clock g (sg_reads g) - t"
      using paced by (auto simp: paced_def ts_def)
    have up: "sg_clock g (sg_reads g) \<le> now" "sg_clock g (sg_reads g + 1) \<le> now" "now \<le> sg_clock g (sg_reads g + 3)"
      unfolding now_def by (simp_all add: monoD [OF mono])
    have below: "\<forall>t\<in>set ts. t \<le> now" and sorted: "sorted ts" using paced up(1) by (auto simp: paced_def ts_def)
    have calls: "map snd (calls_of (tr @ [(e, accepted out, latest g')])) = ts @ [now]" using admitted(2) Admit by (simp add: ts_def now)
    have gap: "lm_window L < now - ts ! i" if "i + N = length ts" for i
    proof -
      have "lm_window L < now - ts ! (length ts - N)"
        using old up sorted admitted(8) that L by (intro window_holds [where win = "sg_window g" and seen = "sg_clock g (sg_reads g + 1)"])
          (auto simp: lim N_def)
      then show ?thesis using that by (metis add_diff_cancel_right')
    qed
    let ?P = "\<lambda>t. now - t > lm_window L"
    have win: "sg_window g' = dropWhile ?P (sg_window g @ [now])" by (simp add: admitted(3) lim now_def)
    have parts: "ts @ [now] = (old @ takeWhile ?P (sg_window g @ [now])) @ sg_window g'" by (simp add: win old(1))
    have far: "lm_window L < sg_clock g' (sg_reads g') - t" if "t \<in> set (old @ takeWhile ?P (sg_window g @ [now]))" for t
      using that up old(2) by (fastforce simp: admitted(3) dest: set_takeWhileD)
    have gaps: "lm_window L < (ts @ [now]) ! (i + N) - (ts @ [now]) ! i" if "i + N < length (ts @ [now])" for i
    proof (cases "i + N = length ts")
      case True
      then have "i < length ts" using L by (simp add: N_def)
      then show ?thesis using gap [OF True] True by (simp add: nth_append)
    next
      case False
      then show ?thesis using that paced by (simp add: nth_append paced_def ts_def N_def)
    qed
    have len: "length (calls_of (tr @ [(e, accepted out, latest g')])) = length (ts @ [now])" using arg_cong [OF calls, of length] by simp
    show ?thesis
      unfolding paced_def calls len N_def [symmetric]
    proof (intro conjI exI [of _ "old @ takeWhile ?P (sg_window g @ [now])"])
      show "sg_limits g' = L" by (simp add: admitted(3) lim)
      show "sorted (ts @ [now])" using sorted below by (simp add: sorted_append)
      show "\<forall>t\<in>set (ts @ [now]). t \<le> sg_clock g' (sg_reads g')" using below up(3) by (auto simp: admitted(3))
    qed (use parts far gaps in simp_all)
  qed (rule paced_same [OF paced mono], auto)+
next
  case (Outcome node good)
  then show ?thesis using run outcome_run [of node good g out g'] by (intro paced_same [OF paced mono]) auto
next
  case (Clear owner why)
  then show ?thesis using run clear_run [of owner why g out g'] by (intro paced_same [OF paced mono]) auto
qed

text \<open>
  C40. Under a clock that does not run backwards, a call and the one admitted as many calls later as a window
  allows lie more than the window apart.
\<close>

theorem velocity_bounded:
  assumes "limits_check L = Inr ()" and "mono clock" and "session (new_guard L clock) tr g"
    and "i + nat (lm_max_calls_per_window L) < length (calls_of tr)"
  shows "lm_window L < map snd (calls_of tr) ! (i + nat (lm_max_calls_per_window L)) - map snd (calls_of tr) ! i"
proof -
  have L: "1 \<le> lm_max_calls_per_window L" using assms(1) by (auto simp: limits_check_def split: if_splits)
  have "paced L tr g"
    using assms(3)
  proof (induction rule: session.induct)
    case start
    then show ?case by (simp add: paced_def new_guard_def)
  next
    case (event tr h e out h')
    then show ?case using assms(2) L session_clock [OF event.hyps(1)] by (intro paced_event) (simp_all add: new_guard_def)
  qed
  then show ?thesis using assms(4) by (simp add: paced_def)
qed

subsection \<open>The registry\<close>

lemma make_room_keeps:
  assumes "make_room cap heap slots = (ok, slots')" "x \<in> set slots" "sg_halted (heap ! snd x)"
  shows "x \<in> set slots'"
  using assms
proof (induction cap heap slots rule: make_room.induct)
  case (1 cap heap slots)
  show ?case
  proof (cases "length slots < cap")
    case False
    show ?thesis
    proof (cases "find (\<lambda>(k, r). \<not> sg_halted (heap ! r)) slots")
      case (Some y)
      then have "y \<noteq> x" using "1.prems"(3) by (auto simp: find_Some_iff)
      then show ?thesis using 1 False Some by (simp add: make_room.simps [of cap heap slots])
    qed (use 1 False in \<open>simp add: make_room.simps [of cap heap slots]\<close>)
  qed (use 1 in \<open>simp add: make_room.simps [of cap heap slots]\<close>)
qed

lemma make_room_fits:
  "make_room cap heap slots = (ok, slots') \<Longrightarrow> distinct (map fst slots) \<Longrightarrow>
    (ok \<longrightarrow> length slots' < cap) \<and> distinct (map fst slots') \<and> set slots' \<subseteq> set slots"
proof (induction cap heap slots rule: make_room.induct)
  case (1 cap heap slots)
  have "distinct (map fst (remove1 x slots))" for x
    using "1.prems"(2) by (metis distinct_map distinct_remove1 inj_on_subset set_remove1_subset)
  moreover have "set (remove1 x slots) \<subseteq> set slots" for x by (rule set_remove1_subset)
  ultimately show ?case using 1 by (force simp: make_room.simps [of cap heap slots] split: if_splits option.splits)
qed

lemma map_of_without: "map_of (filter (\<lambda>(j, _). j \<noteq> k) xs) key = (if key = k then None else map_of xs key)"
  by (induction xs) auto

text \<open>
  The key of a halted session keeps its guard: asking for any session evicts another, or is refused,
  and asking for the halted one gives the same guard back.
\<close>

theorem halted_guard_kept:
  assumes "distinct (map fst (rg_sessions R))" and "map_of (rg_sessions R) key = Some r" and "r < length (rg_heap R)"
    and "sg_halted (rg_heap R ! r)" and "guard_for cap k L clock R = (out, R')"
  shows "map_of (rg_sessions R') key = Some r \<and> rg_heap R' ! r = rg_heap R ! r \<and> (k = key \<longrightarrow> out = Inr r) \<and>
    distinct (map fst (rg_sessions R'))"
proof (cases "map_of (rg_sessions R) k")
  case (Some q)
  have "distinct (map fst (filter p (rg_sessions R)))" for p using assms(1) by (rule distinct_map_filter)
  then show ?thesis using assms(2,5) Some
    by (auto simp: guard_for_def prog_defs map_add_def map_of_without split: if_splits)
next
  case None
  obtain ok slots where m: "make_room cap (rg_heap R) (rg_sessions R) = (ok, slots)" by (rule prod.exhaust)
  have "(key, r) \<in> set slots" using make_room_keeps [OF m] assms(2,4) by (simp add: map_of_SomeD)
  moreover have slots: "distinct (map fst slots)" "set slots \<subseteq> set (rg_sessions R)" using make_room_fits [OF m assms(1)] by simp_all
  ultimately have "map_of slots key = Some r" by simp
  moreover have "k \<notin> fst ` set slots" using None slots(2) by (auto simp: map_of_eq_None_iff)
  moreover have "k \<noteq> key" using None assms(2) by auto
  ultimately show ?thesis using assms(3,5) None m slots(1)
    by (cases ok) (auto simp: guard_for_def prog_defs nth_append map_add_def)
qed

subsection \<open>Sessions run\<close>

primrec run_session :: "session_event list \<Rightarrow> session_guard \<Rightarrow> entry list \<times> session_guard" where
  "run_session [] g = ([], g)"
| "run_session (e # es) g =
    (let (out, g1) = perform e g; (tr, g2) = run_session es g1 in ((e, accepted out, latest g1) # tr, g2))"

lemma session_run: "session g0 tr g \<Longrightarrow> session g0 (tr @ fst (run_session es g)) (snd (run_session es g))"
proof (induction es arbitrary: tr g)
  case (Cons e es)
  obtain out g1 where "perform e g = (out, g1)" by (rule prod.exhaust)
  then show ?case using Cons.IH [OF session.event [OF Cons.prems]] by (simp add: split_beta)
qed simp

lemmas session_of = session_run [OF session.start, simplified]

definition web_call :: session_event where
  "web_call = Admit ''web'' ''h'' 1 {} '''' False"

definition tight :: limits where
  "tight = default_limits\<lparr>lm_max_strikes := 1, lm_max_calls_per_window := 1\<rparr>"

text \<open>A clock on which every reading is ten seconds, or a hundredth of one, after the last.\<close>

definition slow_clock :: "nat \<Rightarrow> rat" where "slow_clock n = 10 * of_nat n"
definition fast_clock :: "nat \<Rightarrow> rat" where "fast_clock n = of_nat n / 100"

lemma slow_mono: "mono slow_clock"
  by (simp add: mono_def slow_clock_def)

theorem session_bounds_witness:
  "(let tr = fst (run_session [web_call, web_call] (new_guard tight fast_clock)) in
    map (fst \<circ> snd) tr = [True, False] \<and> int (length (calls_of tr)) \<le> 60)"
proof -
  let ?tr = "fst (run_session [web_call, web_call] (new_guard tight fast_clock))"
  have "map (fst \<circ> snd) ?tr = [True, False]" by code_simp
  moreover have "limits_check tight = Inr ()" by code_simp
  from session_bounds [OF this session_of] have "int (length (calls_of ?tr)) \<le> lm_max_calls tight" by blast
  ultimately show ?thesis by (simp add: tight_def default_limits_def Let_def)
qed

theorem halt_needs_owner_witness:
  "(let g = snd (run_session [web_call, web_call] (new_guard tight fast_clock));
        (tr, g') = run_session [web_call, Clear '' Ada'' ''checked''] g
    in sg_halted g \<and> cleared_by_owner g tr g')"
proof -
  let ?g = "snd (run_session [web_call, web_call] (new_guard tight fast_clock))"
  let ?run = "run_session [web_call, Clear '' Ada'' ''checked''] ?g"
  have "limits_check tight = Inr ()" "int (length (sg_strikes ?g)) = lm_max_strikes tight" "sg_halted ?g" "\<not> sg_halted (snd ?run)" by code_simp+
  note facts = this
  have "cleared_by_owner ?g (fst ?run) (snd ?run)"
    using facts by (intro halt_needs_owner [OF _ session_of _ session_of]) simp_all
  then show ?thesis using facts(3) by (simp add: split_beta Let_def del: run_session.simps)
qed

definition open_guard :: session_guard where
  "open_guard = (new_guard tight slow_clock)\<lparr>sg_breakers := [''web'' \<mapsto> \<lparr>bk_state = Circuit_OPEN, bk_failures = 3, bk_opened = - 50, bk_probing = False\<rparr>]\<rparr>"

theorem open_breaker_holds_witness:
  "(let ts = tool_instants ''web'' (fst (run_session [web_call, web_call] open_guard)) in length ts = 1 \<and> list_all (\<lambda>t. 10 \<le> t) ts)"
proof -
  let ?tr = "fst (run_session [web_call, web_call] open_guard)"
  have "length (tool_instants ''web'' ?tr) = 1" by code_simp
  moreover have "list_all (\<lambda>(e, _). \<not> (is_Outcome e \<and> ev_tool e = ''web'')) ?tr" by code_simp
  from open_breaker_holds [OF _ _ _ session_of this]
  have "list_all (\<lambda>t. 10 \<le> t) (tool_instants ''web'' ?tr)"
    by (simp add: open_guard_def new_guard_def tight_def default_limits_def slow_mono)
  ultimately show ?thesis by (simp add: Let_def)
qed

theorem velocity_bounded_witness:
  "(let tr = fst (run_session [web_call, web_call] (new_guard tight slow_clock)) in
    length (calls_of tr) = 2 \<and> 10 < map snd (calls_of tr) ! 1 - map snd (calls_of tr) ! 0)"
proof -
  let ?tr = "fst (run_session [web_call, web_call] (new_guard tight slow_clock))"
  have "length (calls_of ?tr) = 2" "limits_check tight = Inr ()" by code_simp+
  then show ?thesis using velocity_bounded [OF _ slow_mono session_of, of tight 0 "[web_call, web_call]"]
    by (simp add: tight_def default_limits_def Let_def)
qed

definition one_halted :: "string registry" where
  "one_halted = \<lparr>rg_heap = [(new_guard tight slow_clock)\<lparr>sg_halted := True\<rparr>], rg_sessions = [(''s'', 0)]\<rparr>"

theorem halted_guard_kept_witness:
  "(let (out, R') = guard_for 1 ''t'' None slow_clock one_halted in
    out = Inl (Bound_violation ''SESSION_REGISTRY_FULL'') \<and> map_of (rg_sessions R') ''s'' = Some 0)"
proof -
  let ?run = "guard_for 1 ''t'' None slow_clock one_halted"
  have "fst ?run = Inl (Bound_violation ''SESSION_REGISTRY_FULL'')" by code_simp
  moreover have "map_of (rg_sessions (snd ?run)) ''s'' = Some 0"
    using halted_guard_kept [of one_halted "''s''" 0 1 "''t''" None slow_clock "fst ?run" "snd ?run"] by (simp add: one_halted_def)
  ultimately show ?thesis by (simp add: split_beta)
qed

end
