(* ===== verification/Job_Queue.thy ===== *)
theory Job_Queue
  imports Action_Fsm Adapters Frames
begin

section \<open>The job queue\<close>

text \<open>
  Models \<^verbatim>\<open>persistence/jobs.py\<close>: jobs are enqueued, claimed by workers under a lease with a fresh
  fencing token, renewed, completed, failed within their retry budget, cancelled, and released when
  their lease runs out. Each operation is one transaction. A token is another read of the identifier
  source; a stamp is the text of \<open>datetime.isoformat\<close>. \<open>int\<close> of a setting's text is the parameter of
  the two settings.
\<close>

datatype job_status = Job_queued | Job_running | Job_completed | Job_failed | Job_dead_letter | Job_cancelled

fun job_status_value :: "job_status \<Rightarrow> string" where
  "job_status_value Job_queued = ''queued''"
| "job_status_value Job_running = ''running''"
| "job_status_value Job_completed = ''completed''"
| "job_status_value Job_failed = ''failed''"
| "job_status_value Job_dead_letter = ''dead_letter''"
| "job_status_value Job_cancelled = ''cancelled''"

definition valid_job_kinds :: "string set" where
  "valid_job_kinds = {''agency.create'', ''agency.resume''}"

definition terminal_jobs :: "job_status set" where
  "terminal_jobs = {Job_completed, Job_failed, Job_dead_letter, Job_cancelled}"

definition setting :: "(string \<Rightarrow> int option) \<Rightarrow> string \<Rightarrow> int \<Rightarrow> int \<Rightarrow> int \<Rightarrow> string option \<Rightarrow> int" where
  "setting py_int fallback lo hi dflt raw =
    (let txt = (case raw of None \<Rightarrow> fallback | Some s \<Rightarrow> if s = [] then fallback else s) in
     case py_int (strip txt) of None \<Rightarrow> dflt | Some v \<Rightarrow> max lo (min v hi))"

definition default_max_attempts :: "(string \<Rightarrow> int option) \<Rightarrow> string option \<Rightarrow> int" where
  "default_max_attempts py_int raw = setting py_int ''3'' 1 20 3 raw"

definition default_lease_seconds :: "(string \<Rightarrow> int option) \<Rightarrow> string option \<Rightarrow> int" where
  "default_lease_seconds py_int raw = setting py_int ''900'' 30 (24 * 60 * 60) 900 raw"

record job =
  jb_id :: string
  jb_kind :: string
  jb_tenant :: string
  jb_project :: string
  jb_run :: "string option"
  jb_status :: job_status
  jb_attempts :: int
  jb_max :: int
  jb_payload :: json
  jb_result :: "json option"
  jb_error :: "string option"
  jb_token :: "string option"
  jb_expires :: "string option"
  jb_queued :: string
  jb_claimed :: "string option"
  jb_updated :: string

record queue_db = world +
  jq_jobs :: "job list"

text \<open>The two settings the code reads from its environment.\<close>

record queue_config =
  qc_max_attempts :: int
  qc_lease :: int

datatype queue_error = Queue_value string | Queue_integrity

type_synonym ('x, 'a) queued = "('x queue_db_scheme, queue_error, 'a) prog"

definition now_text :: "env \<Rightarrow> ('a world_scheme, 'e, string) prog" where
  "now_text V = bnd (utc_now V) (\<lambda>t. ret (isoformat t))"

text \<open>\<open>value or default\<close> of an integer.\<close>

definition given_or :: "int option \<Rightarrow> int \<Rightarrow> int" where
  "given_or v d = (case v of None \<Rightarrow> d | Some n \<Rightarrow> if n = 0 then d else n)"

definition job_by_id :: "string \<Rightarrow> ('x, job option) queued" where
  "job_by_id jid = gets (\<lambda>db. row_by jb_id jid (jq_jobs db))"

definition enqueue_job :: "env \<Rightarrow> queue_config \<Rightarrow> string \<Rightarrow> string \<Rightarrow> string \<Rightarrow> json \<Rightarrow> string option \<Rightarrow> int option \<Rightarrow> ('x, job option) queued" where
  "enqueue_job V C kind tenant project payload run attempts =
    bnd (guard (kind \<in> valid_job_kinds) (Queue_value (''Unsupported job kind: '' @ kind))) (\<lambda>_.
    bnd (uuid4_hex V) (\<lambda>hex.
    let jid = ''job_'' @ hex; budget = given_or attempts (qc_max_attempts C) in
    bnd (now_text V) (\<lambda>now.
    bnd (gets (\<lambda>db. row_by jb_id jid (jq_jobs db))) (\<lambda>known.
    bnd (guard (known = None) Queue_integrity) (\<lambda>_.
    bnd (modify (jq_jobs_update (\<lambda>js. js @ [\<lparr>jb_id = jid, jb_kind = kind, jb_tenant = tenant, jb_project = project, jb_run = run,
      jb_status = Job_queued, jb_attempts = 0, jb_max = budget, jb_payload = payload, jb_result = None, jb_error = None, jb_token = None,
      jb_expires = None, jb_queued = now, jb_claimed = None, jb_updated = now\<rparr>]))) (\<lambda>_.
    job_by_id jid))))))"

definition list_jobs :: "string option \<Rightarrow> string option \<Rightarrow> int \<Rightarrow> ('x, job list) queued" where
  "list_jobs tenant status limit = gets (\<lambda>db. take (nat (max 1 (min limit 1000))) (sort_key jb_queued (filter (\<lambda>j.
     (some_or_empty tenant \<noteq> [] \<longrightarrow> jb_tenant j = some_or_empty tenant) \<and>
     (some_or_empty status \<noteq> [] \<longrightarrow> job_status_value (jb_status j) = some_or_empty status)) (jq_jobs db))))"

definition stale_lease :: "string \<Rightarrow> job \<Rightarrow> bool" where
  "stale_lease now j = (jb_status j = Job_running \<and> (case jb_expires j of None \<Rightarrow> False | Some e \<Rightarrow> e < now))"

definition expire_stale_leases :: "env \<Rightarrow> ('x, string list) queued" where
  "expire_stale_leases V =
    bnd (now_text V) (\<lambda>now.
    bnd (gets (\<lambda>db. map jb_id (filter (stale_lease now) (jq_jobs db)))) (\<lambda>ids.
    if ids = [] then ret []
    else bnd (modify (jq_jobs_update (update_rows (\<lambda>j. jb_id j \<in> set ids)
      (\<lambda>j. j\<lparr>jb_status := Job_queued, jb_token := None, jb_expires := None, jb_updated := now\<rparr>)))) (\<lambda>_. ret ids)))"

definition oldest_queued :: "string option \<Rightarrow> job list \<Rightarrow> job option" where
  "oldest_queued kind js = (case sort_key jb_queued (filter (\<lambda>j. jb_status j = Job_queued \<and>
     (case kind of None \<Rightarrow> True | Some k \<Rightarrow> jb_kind j = k)) js) of [] \<Rightarrow> None | j # _ \<Rightarrow> Some j)"

definition queued_row :: "string \<Rightarrow> job \<Rightarrow> bool" where
  "queued_row jid j = (jb_id j = jid \<and> jb_status j = Job_queued)"

definition leased_row :: "string \<Rightarrow> string \<Rightarrow> string \<Rightarrow> job \<Rightarrow> job" where
  "leased_row token expires stamp j = j\<lparr>jb_status := Job_running, jb_token := Some token, jb_expires := Some expires,
     jb_attempts := jb_attempts j + 1, jb_claimed := Some stamp, jb_updated := stamp\<rparr>"

definition claim_job :: "env \<Rightarrow> queue_config \<Rightarrow> string option \<Rightarrow> int option \<Rightarrow> ('x, job option) queued" where
  "claim_job V C kind lease_seconds =
    bnd (guard (case kind of None \<Rightarrow> True | Some k \<Rightarrow> k \<in> valid_job_kinds)
      (Queue_value (''Unsupported job kind: '' @ some_or_empty kind))) (\<lambda>_.
    let lease = given_or lease_seconds (qc_lease C) in
    bnd (utc_now V) (\<lambda>now.
    bnd (uuid4_hex V) (\<lambda>hex.
    let token = ''lease_'' @ hex; stamp = isoformat now in
    bnd (gets (\<lambda>db. oldest_queued kind (jq_jobs db))) (\<lambda>candidate. case candidate of
      None \<Rightarrow> ret None
    | Some c \<Rightarrow>
        bnd (gets (\<lambda>db. count_rows (queued_row (jb_id c)) (jq_jobs db))) (\<lambda>n.
        bnd (modify (jq_jobs_update (update_rows (queued_row (jb_id c)) (leased_row token (isoformat (now + seconds lease)) stamp)))) (\<lambda>_.
        if n \<noteq> 1 then ret None else job_by_id (jb_id c)))))))"

text \<open>\<open>WHERE job_id = ? AND claim_token = ? AND status = 'running'\<close>.\<close>

definition fenced :: "string \<Rightarrow> string \<Rightarrow> job \<Rightarrow> bool" where
  "fenced jid token j = (jb_id j = jid \<and> jb_token j = Some token \<and> jb_status j = Job_running)"

definition renew_job_lease :: "env \<Rightarrow> queue_config \<Rightarrow> string \<Rightarrow> string \<Rightarrow> int option \<Rightarrow> ('x, bool) queued" where
  "renew_job_lease V C jid token lease_seconds =
    (let lease = given_or lease_seconds (qc_lease C) in
     bnd (utc_now V) (\<lambda>t.
     bnd (now_text V) (\<lambda>now.
     bnd (gets (\<lambda>db. count_rows (fenced jid token) (jq_jobs db))) (\<lambda>n.
     bnd (modify (jq_jobs_update (update_rows (fenced jid token) (\<lambda>j. j\<lparr>jb_expires := Some (isoformat (t + seconds lease)), jb_updated := now\<rparr>)))) (\<lambda>_.
     ret (n = 1))))))"

definition fenced_update :: "env \<Rightarrow> string \<Rightarrow> string \<Rightarrow> (job \<Rightarrow> job) \<Rightarrow> ('x, nat) queued" where
  "fenced_update V jid token f =
    bnd (now_text V) (\<lambda>now.
    bnd (gets (\<lambda>db. count_rows (fenced jid token) (jq_jobs db))) (\<lambda>n.
    bnd (modify (jq_jobs_update (update_rows (fenced jid token) (\<lambda>j. (f j)\<lparr>jb_updated := now\<rparr>)))) (\<lambda>_. ret n)))"

definition complete_job :: "env \<Rightarrow> string \<Rightarrow> string \<Rightarrow> json \<Rightarrow> ('x, bool) queued" where
  "complete_job V jid token result =
    bnd (fenced_update V jid token (\<lambda>j. j\<lparr>jb_status := Job_completed, jb_expires := None, jb_result := Some result, jb_error := None\<rparr>))
      (\<lambda>n. ret (n = 1))"

definition fail_job :: "env \<Rightarrow> string \<Rightarrow> string \<Rightarrow> string \<Rightarrow> ('x, string) queued" where
  "fail_job V jid token err =
    (let txt = take 500 (if err = [] then ''unknown'' else err) in
     bnd (gets (\<lambda>db. find (fenced jid token) (jq_jobs db))) (\<lambda>row. case row of
       None \<Rightarrow> ret ''not_fenced''
     | Some j \<Rightarrow>
         if jb_attempts j \<ge> jb_max j then
           bnd (fenced_update V jid token (\<lambda>j. j\<lparr>jb_status := Job_dead_letter, jb_expires := None, jb_error := Some txt\<rparr>)) (\<lambda>_. ret ''dead_letter'')
         else
           bnd (fenced_update V jid token (\<lambda>j. j\<lparr>jb_status := Job_queued, jb_expires := None, jb_error := Some txt\<rparr>)) (\<lambda>_. ret ''queued'')))"

definition request_job_cancellation :: "env \<Rightarrow> string \<Rightarrow> ('x, bool) queued" where
  "request_job_cancellation V jid =
    (let hit = (\<lambda>j. jb_id j = jid \<and> jb_status j \<in> {Job_queued, Job_running}) in
     bnd (now_text V) (\<lambda>now.
     bnd (gets (\<lambda>db. count_rows hit (jq_jobs db))) (\<lambda>n.
     bnd (modify (jq_jobs_update (update_rows hit (\<lambda>j. j\<lparr>jb_status := Job_cancelled, jb_expires := None, jb_updated := now\<rparr>)))) (\<lambda>_.
     ret (n = 1)))))"

end
