(* ===== verification/Queue_Safety.thy ===== *)
theory Queue_Safety
  imports Job_Queue
begin

section \<open>What the job queue promises\<close>

text \<open>
  Over every history of the queue, workers and clients interleaved: a row moves along the table of
  statuses and a terminal row never changes again; a claim's token settles its job at most once, and
  nothing after the claim was released, cancelled or superseded.
\<close>

subsection \<open>Statuses\<close>

fun job_moves :: "job_status \<Rightarrow> job_status set" where
  "job_moves Job_queued = {Job_running, Job_cancelled}"
| "job_moves Job_running = {Job_queued, Job_completed, Job_dead_letter, Job_cancelled}"
| "job_moves _ = {}"

interpretation job_matrix: transition_matrix job_moves "\<lambda>s. s \<in> terminal_jobs"
proof
  show "(s \<in> terminal_jobs) = (job_moves s = {})" for s
    by (cases s) (auto simp: terminal_jobs_def)
qed

subsection \<open>Histories\<close>

datatype queue_event =
    Q_enqueue string string string json "string option" "int option"
  | Q_claim "string option" "int option"
  | Q_renew string string "int option"
  | Q_complete string string json
  | Q_fail string string string
  | Q_cancel string
  | Q_expire

datatype queue_reply = R_error queue_error | R_job "job option" | R_bool bool | R_text string | R_ids "string list"

definition reply_with :: "('a \<Rightarrow> queue_reply) \<Rightarrow> (queue_error + 'a) \<times> 's \<Rightarrow> queue_reply \<times> 's" where
  "reply_with f out = (case out of (Inl e, s) \<Rightarrow> (R_error e, s) | (Inr a, s) \<Rightarrow> (f a, s))"

fun queue_perform :: "env \<Rightarrow> queue_config \<Rightarrow> queue_event \<Rightarrow> 'x queue_db_scheme \<Rightarrow> queue_reply \<times> 'x queue_db_scheme" where
  "queue_perform V C (Q_enqueue kind tenant project payload run attempts) db =
     reply_with R_job (enqueue_job V C kind tenant project payload run attempts db)"
| "queue_perform V C (Q_claim kind lease) db = reply_with R_job (claim_job V C kind lease db)"
| "queue_perform V C (Q_renew jid token lease) db = reply_with R_bool (renew_job_lease V C jid token lease db)"
| "queue_perform V C (Q_complete jid token result) db = reply_with R_bool (complete_job V jid token result db)"
| "queue_perform V C (Q_fail jid token err) db = reply_with R_text (fail_job V jid token err db)"
| "queue_perform V C (Q_cancel jid) db = reply_with R_bool (request_job_cancellation V jid db)"
| "queue_perform V C Q_expire db = reply_with R_ids (expire_stale_leases V db)"

type_synonym queue_log = "(queue_event \<times> queue_reply) list"

inductive queue_run :: "env \<Rightarrow> queue_config \<Rightarrow> 'x queue_db_scheme \<Rightarrow> queue_log \<Rightarrow> 'x queue_db_scheme \<Rightarrow> bool" for V C db0 where
  start: "queue_run V C db0 [] db0"
| event: "queue_run V C db0 tr db \<Longrightarrow> queue_perform V C e db = (r, db') \<Longrightarrow> queue_run V C db0 (tr @ [(e, r)]) db'"

inductive_cases queue_run_emptyE: "queue_run V C db0 [] db"

lemma queue_run_append:
  "queue_run V C db0 tr db \<Longrightarrow> tr = a @ b \<Longrightarrow> \<exists>m. queue_run V C db0 a m \<and> queue_run V C m b db"
proof (induction arbitrary: b rule: queue_run.induct)
  case (event tr db e r db')
  show ?case
  proof (cases b rule: rev_cases)
    case Nil
    then show ?thesis using event.hyps event.prems by (metis append_Nil2 queue_run.start queue_run.event)
  next
    case (snoc b' x)
    then have "tr = a @ b'" "x = (e, r)" using event.prems by simp_all
    then show ?thesis using event.IH event.hyps(2) snoc by (metis queue_run.event)
  qed
qed (auto intro: queue_run.start)

subsection \<open>One operation\<close>

definition lease_token :: "env \<Rightarrow> nat \<Rightarrow> string" where
  "lease_token V k = ''lease_'' @ env_uuid V k"

definition issued :: "env \<Rightarrow> string \<Rightarrow> 'x world_scheme \<Rightarrow> bool" where
  "issued V t db = (\<exists>k<w_uuids db. t = lease_token V k)"

text \<open>How a row may move while the tokens numbered from \<open>m\<close> below \<open>n\<close> are issued.\<close>

definition row_moves :: "env \<Rightarrow> nat \<Rightarrow> nat \<Rightarrow> job \<Rightarrow> job \<Rightarrow> bool" where
  "row_moves V m n j j' \<longleftrightarrow> jb_id j' = jb_id j \<and>
    (j' = j \<or> jb_status j' \<in> job_moves (jb_status j) \<or> jb_status j = Job_running \<and> jb_status j' = Job_running) \<and>
    (jb_token j' = jb_token j \<and> (jb_status j' = Job_running \<longrightarrow> jb_status j = Job_running) \<or>
     jb_token j' = None \<and> jb_status j' \<noteq> Job_running \<or>
     jb_status j = Job_queued \<and> jb_status j' = Job_running \<and> (\<exists>k. m \<le> k \<and> k < n \<and> jb_token j' = Some (lease_token V k)))"

definition queue_change :: "env \<Rightarrow> 'x queue_db_scheme \<Rightarrow> 'x queue_db_scheme \<Rightarrow> bool" where
  "queue_change V db db' \<longleftrightarrow> w_uuids db \<le> w_uuids db' \<and>
    (\<exists>js. list_all2 (row_moves V (w_uuids db) (w_uuids db')) (jq_jobs db) js \<and>
      (jq_jobs db' = js \<or> (\<exists>j. jq_jobs db' = js @ [j] \<and> jb_token j = None \<and> jb_status j = Job_queued \<and> jb_id j \<notin> jb_id ` set (jq_jobs db))))"

lemma row_moves_refl [simp]: "row_moves V m n j j"
  by (simp add: row_moves_def)

lemma same_id: "distinct (map jb_id js) \<Longrightarrow> j \<in> set js \<Longrightarrow> q \<in> set js \<Longrightarrow> jb_id j = jb_id q \<Longrightarrow> j = q"
  by (auto simp: distinct_map dest: inj_onD)

lemma list_all2_update:
  "(\<And>j. R j j) \<Longrightarrow> (\<And>j. j \<in> set js \<Longrightarrow> p j \<Longrightarrow> R j (f j)) \<Longrightarrow> list_all2 R js (update_rows p f js)"
  by (induction js) simp_all

lemma queue_change_update:
  assumes "jq_jobs db' = update_rows p f (jq_jobs db)" "w_uuids db \<le> w_uuids db'"
    "\<And>j. j \<in> set (jq_jobs db) \<Longrightarrow> p j \<Longrightarrow> row_moves V (w_uuids db) (w_uuids db') j (f j)"
  shows "queue_change V db db'"
  unfolding queue_change_def assms(1) using assms(2,3) by (blast intro: list_all2_update row_moves_refl)

lemma queue_change_written:
  "w_uuids db \<le> w_uuids s \<Longrightarrow> jq_jobs s = jq_jobs db \<Longrightarrow> (\<And>j. j \<in> set (jq_jobs db) \<Longrightarrow> p j \<Longrightarrow> row_moves V (w_uuids db) (w_uuids s) j (f j)) \<Longrightarrow>
    queue_change V db (jq_jobs_update (update_rows p f) s)"
  by (rule queue_change_update [where p = p and f = f]) simp_all

lemma queue_change_same: "jq_jobs db' = jq_jobs db \<Longrightarrow> w_uuids db \<le> w_uuids db' \<Longrightarrow> queue_change V db db'"
  by (auto simp: queue_change_def intro!: exI [of _ "jq_jobs db"] list_all2_refl)

lemma queue_change_append:
  assumes "jq_jobs db' \<noteq> []" "butlast (jq_jobs db') = jq_jobs db" "w_uuids db \<le> w_uuids db'" "jb_token (last (jq_jobs db')) = None"
    "jb_status (last (jq_jobs db')) = Job_queued" "jb_id (last (jq_jobs db')) \<notin> jb_id ` set (jq_jobs db)"
  shows "queue_change V db db'"
  unfolding queue_change_def
  by (intro conjI exI [of _ "jq_jobs db"] disjI2 exI [of _ "last (jq_jobs db')"])
    (use assms append_butlast_last_id [OF assms(1)] in \<open>auto intro: list_all2_refl\<close>)

lemma fenced_update_run:
  "fenced_update V jid token f db = (Inr (count_rows (fenced jid token) (jq_jobs db)),
    jq_jobs_update (update_rows (fenced jid token) (\<lambda>j. (f j)\<lparr>jb_updated := isoformat (env_clock V (w_reads db))\<rparr>)) (w_reads_update Suc db))"
  by (simp add: fenced_update_def now_text_def utc_now_def prog_defs)

lemma queue_perform_change:
  assumes "queue_perform V C e db = (r, db')" and ids: "distinct (map jb_id (jq_jobs db))"
  shows "queue_change V db db'"
proof (cases e)
  case (Q_enqueue kind tenant project payload run attempts)
  then show ?thesis using assms(1)
    by (auto simp: enqueue_job_def reply_with_def prog_defs uuid4_hex_def now_text_def utc_now_def Let_def job_by_id_def row_by_None
        split: if_splits option.splits)
      ((rule queue_change_same; simp; fail) | (rule queue_change_append; simp; fail))+
next
  case (Q_claim kind lease)
  then show ?thesis using assms(1)
    by (auto simp: claim_job_def reply_with_def prog_defs uuid4_hex_def utc_now_def Let_def job_by_id_def row_moves_def lease_token_def leased_row_def queued_row_def
        intro!: queue_change_written intro: queue_change_same split: if_splits option.splits)
next
  case (Q_renew jid token lease)
  then show ?thesis using assms(1)
    by (auto simp: renew_job_lease_def reply_with_def prog_defs now_text_def utc_now_def Let_def row_moves_def fenced_def
        intro!: queue_change_written)
next
  case (Q_complete jid token result)
  then show ?thesis using assms(1)
    by (auto simp: complete_job_def reply_with_def bnd_def ret_def fenced_update_run row_moves_def fenced_def intro!: queue_change_written)
next
  case (Q_fail jid token err)
  then show ?thesis using assms(1)
    by (auto simp: fail_job_def reply_with_def bnd_def ret_def gets_def fenced_update_run row_moves_def fenced_def Let_def
        intro!: queue_change_written intro: queue_change_same split: option.splits if_splits)
next
  case (Q_cancel jid)
  then show ?thesis using assms(1)
    by (auto simp: request_job_cancellation_def reply_with_def prog_defs now_text_def utc_now_def Let_def row_moves_def
        intro!: queue_change_written)
next
  case Q_expire
  then show ?thesis using assms(1)
    by (auto simp: expire_stale_leases_def reply_with_def prog_defs now_text_def utc_now_def Let_def row_moves_def stale_lease_def
        intro!: queue_change_written intro: queue_change_same split: if_splits)
      (drule (2) same_id [OF ids], simp)
qed

subsection \<open>Tokens\<close>

text \<open>A claim in the log, and the entries that end it: settled, cancelled, released or superseded.\<close>

fun grants :: "string \<Rightarrow> string \<Rightarrow> queue_event \<times> queue_reply \<Rightarrow> bool" where
  "grants t jid (Q_claim _ _, R_job (Some j)) = (jb_id j = jid \<and> jb_token j = Some t)"
| "grants _ _ _ = False"

fun settles :: "string \<Rightarrow> string \<Rightarrow> queue_event \<times> queue_reply \<Rightarrow> bool" where
  "settles t jid (Q_complete k tok _, R_bool b) = (k = jid \<and> tok = t \<and> b)"
| "settles t jid (Q_fail k tok _, R_text s) = (k = jid \<and> tok = t \<and> s \<noteq> ''not_fenced'')"
| "settles _ _ _ = False"

fun renews :: "string \<Rightarrow> string \<Rightarrow> queue_event \<times> queue_reply \<Rightarrow> bool" where
  "renews t jid (Q_renew k tok _, R_bool b) = (k = jid \<and> tok = t \<and> b)"
| "renews _ _ _ = False"

fun withdraws :: "string \<Rightarrow> queue_event \<times> queue_reply \<Rightarrow> bool" where
  "withdraws jid (Q_cancel k, R_bool b) = (k = jid \<and> b)"
| "withdraws jid (Q_expire, R_ids ids) = (jid \<in> set ids)"
| "withdraws _ _ = False"

definition holds_token :: "string \<Rightarrow> job \<Rightarrow> bool" where
  "holds_token t j = (jb_status j = Job_running \<and> jb_token j = Some t)"

text \<open>
  Ids are distinct, every token in a row was issued, and a token granted for a job is in no other row.
\<close>

definition queue_ok :: "env \<Rightarrow> queue_log \<Rightarrow> 'x queue_db_scheme \<Rightarrow> bool" where
  "queue_ok V tr db \<longleftrightarrow> distinct (map jb_id (jq_jobs db)) \<and>
    (\<forall>j\<in>set (jq_jobs db). \<forall>t. jb_token j = Some t \<longrightarrow> issued V t db) \<and>
    (\<forall>x\<in>set tr. \<forall>t jid. grants t jid x \<longrightarrow> issued V t db \<and> (\<forall>j\<in>set (jq_jobs db). jb_token j = Some t \<longrightarrow> jb_id j = jid))"

lemma lease_token_inj: "inj (env_uuid V) \<Longrightarrow> lease_token V i = lease_token V k \<longleftrightarrow> i = k"
  by (auto simp: lease_token_def inj_eq)

lemma queue_change_ids:
  assumes "queue_change V db db'" "distinct (map jb_id (jq_jobs db))"
  shows "distinct (map jb_id (jq_jobs db'))"
proof -
  obtain js where js: "list_all2 (row_moves V (w_uuids db) (w_uuids db')) (jq_jobs db) js"
    "jq_jobs db' = js \<or> (\<exists>j. jq_jobs db' = js @ [j] \<and> jb_token j = None \<and> jb_status j = Job_queued \<and> jb_id j \<notin> jb_id ` set (jq_jobs db))"
    using assms(1) by (auto simp: queue_change_def)
  have "map jb_id js = map jb_id (jq_jobs db)"
    using js(1) by (induction rule: list_all2_induct) (simp_all add: row_moves_def)
  moreover from this have "jb_id ` set js = jb_id ` set (jq_jobs db)" by (metis list.set_map)
  ultimately show ?thesis using js(2) assms(2) by auto
qed

text \<open>Every row with a token comes from a row with that token, or was claimed with a new one.\<close>

lemma queue_change_row:
  assumes "queue_change V db db'" "j' \<in> set (jq_jobs db')"
  obtains (moved) j where "j \<in> set (jq_jobs db)" "row_moves V (w_uuids db) (w_uuids db') j j'"
  | (new) "jb_token j' = None" "jb_status j' = Job_queued"
proof -
  obtain js where js: "list_all2 (row_moves V (w_uuids db) (w_uuids db')) (jq_jobs db) js"
    "jq_jobs db' = js \<or> (\<exists>j. jq_jobs db' = js @ [j] \<and> jb_token j = None \<and> jb_status j = Job_queued \<and> jb_id j \<notin> jb_id ` set (jq_jobs db))"
    using assms(1) by (auto simp: queue_change_def)
  have "(j' \<in> set js) \<or> jb_token j' = None \<and> jb_status j' = Job_queued" using js(2) assms(2) by auto
  then show thesis
  proof
    assume "j' \<in> set js"
    then obtain i where "i < length js" "j' = js ! i" by (auto simp: in_set_conv_nth)
    then show thesis using js(1) by (intro moved [of "jq_jobs db ! i"]) (auto simp: list_all2_conv_all_nth)
  qed (auto intro: new)
qed

lemma token_origin:
  assumes "queue_change V db db'" "j' \<in> set (jq_jobs db')" "jb_token j' = Some t"
  shows "(\<exists>j\<in>set (jq_jobs db). jb_id j = jb_id j' \<and> jb_token j = Some t \<and> (jb_status j' = Job_running \<longrightarrow> jb_status j = Job_running)) \<or>
    (\<exists>j\<in>set (jq_jobs db). jb_id j = jb_id j' \<and> jb_status j = Job_queued) \<and> (\<exists>k. w_uuids db \<le> k \<and> k < w_uuids db' \<and> t = lease_token V k)"
  using assms(1,2)
proof (cases rule: queue_change_row)
  case (moved j)
  then show ?thesis using assms(3) unfolding row_moves_def by auto
qed (use assms(3) in simp)

lemma issued_mono: "issued V t db \<Longrightarrow> w_uuids db \<le> w_uuids db' \<Longrightarrow> issued V t db'"
  unfolding issued_def by (metis order_less_le_trans)

lemma new_token: "inj (env_uuid V) \<Longrightarrow> w_uuids db \<le> k \<Longrightarrow> \<not> issued V (lease_token V k) db"
  by (auto simp: issued_def lease_token_inj)

text \<open>A token once issued is only ever held by a row that held it before.\<close>

lemma issued_token_back:
  assumes "inj (env_uuid V)" "queue_change V db db'" "issued V t db" "j' \<in> set (jq_jobs db')" "jb_token j' = Some t"
  shows "\<exists>j\<in>set (jq_jobs db). jb_id j = jb_id j' \<and> jb_token j = Some t \<and> (jb_status j' = Job_running \<longrightarrow> jb_status j = Job_running)"
  using token_origin [OF assms(2,4,5)] new_token [OF assms(1)] assms(3) by blast

lemma claim_run:
  assumes "claim_job V C kind lease db = (Inr (Some j), db')"
  obtains cid expires stamp where "w_uuids db' = Suc (w_uuids db)" "row_by jb_id cid (jq_jobs db') = Some j"
    "jq_jobs db' = update_rows (queued_row cid) (leased_row (lease_token V (w_uuids db)) expires stamp) (jq_jobs db)"
    "count_rows (queued_row cid) (jq_jobs db) = 1"
proof -
  note defs = claim_job_def prog_defs uuid4_hex_def utc_now_def Let_def job_by_id_def lease_token_def
  obtain c where c: "oldest_queued kind (jq_jobs db) = Some c"
    using assms by (auto simp: defs split: if_splits option.splits)
  show thesis
    using assms c by (intro that [of "jb_id c" "isoformat (env_clock V (w_reads db) + seconds (given_or lease (qc_lease C)))" "isoformat (env_clock V (w_reads db))"])
      (auto simp: defs split: if_splits option.splits)
qed

lemma leased_row_simps [simp]:
  "jb_id (leased_row t e s j) = jb_id j" "jb_token (leased_row t e s j) = Some t" "jb_status (leased_row t e s j) = Job_running"
  by (simp_all add: leased_row_def)

text \<open>A granted token is new, and held by the row of its job alone.\<close>

lemma claim_new_token:
  assumes "inj (env_uuid V)" "queue_perform V C e db = (r, db')" "grants t jid (e, r)" "queue_ok V tr db"
  shows "\<not> issued V t db \<and> issued V t db' \<and> (\<forall>j\<in>set (jq_jobs db'). jb_token j = Some t \<longleftrightarrow> jb_id j = jid)"
proof -
  obtain kind lease j where e: "e = Q_claim kind lease" "r = R_job (Some j)" and j: "jb_id j = jid" "jb_token j = Some t"
    using assms(3) by (cases "(t, jid, e, r)" rule: grants.cases) auto
  let ?t = "lease_token V (w_uuids db)"
  have old: "\<not> issued V ?t db" by (rule new_token [OF assms(1)]) simp
  have rows: "jb_token q \<noteq> Some ?t" if "q \<in> set (jq_jobs db)" for q
    using assms(4) that old by (auto simp: queue_ok_def)
  have ids: "distinct (map jb_id (jq_jobs db))" using assms(4) by (simp add: queue_ok_def)
  have "claim_job V C kind lease db = (Inr (Some j), db')"
    using assms(2) e by (auto simp: reply_with_def split: prod.splits sum.splits)
  then obtain cid expires stamp where c: "w_uuids db' = Suc (w_uuids db)" "row_by jb_id cid (jq_jobs db') = Some j"
    "jq_jobs db' = update_rows (queued_row cid) (leased_row ?t expires stamp) (jq_jobs db)"
    "count_rows (queued_row cid) (jq_jobs db) = 1"
    by (rule claim_run)
  have id: "cid = jid" using row_by_SomeD [OF c(2)] j(1) by simp
  have "\<exists>q\<in>set (jq_jobs db). queued_row jid q" using c(4) by (metis count_rows_0 id zero_neq_one)
  then have hit: "queued_row jid q \<longleftrightarrow> jb_id q = jid" if "q \<in> set (jq_jobs db)" for q
    using that same_id [OF ids] by (auto simp: queued_row_def)
  have all: "jb_token q = Some ?t \<longleftrightarrow> jb_id q = jid" if "q \<in> set (jq_jobs db')" for q
    using that hit rows by (auto simp: c(3) id set_update_rows queued_row_def split: if_splits)
  then have "jb_token j = Some ?t" using row_by_SomeD [OF c(2)] j(1) by auto
  then have "t = ?t" using j(2) by simp
  then show ?thesis using all old c(1) by (auto simp: issued_def)
qed

lemma queue_ok_event:
  assumes "inj (env_uuid V)" "queue_ok V tr db" "queue_perform V C e db = (r, db')"
  shows "queue_ok V (tr @ [(e, r)]) db'"
proof -
  have ids: "distinct (map jb_id (jq_jobs db))" using assms(2) by (simp add: queue_ok_def)
  note ch = queue_perform_change [OF assms(3) ids]
  have le: "w_uuids db \<le> w_uuids db'" using ch by (simp add: queue_change_def)
  have tokens: "issued V t db'" if "j \<in> set (jq_jobs db')" "jb_token j = Some t" for j t
    using token_origin [OF ch that] assms(2) issued_mono [OF _ le] unfolding queue_ok_def issued_def by blast
  have held: "jb_id j = jid" if j: "j \<in> set (jq_jobs db')" "jb_token j = Some t" and x: "x \<in> set tr" "grants t jid x" for j t jid x
  proof -
    have "issued V t db" using assms(2) x by (auto simp: queue_ok_def)
    then obtain q where "q \<in> set (jq_jobs db)" "jb_id q = jb_id j" "jb_token q = Some t"
      using issued_token_back [OF assms(1) ch _ j] by auto
    then show ?thesis using assms(2) x unfolding queue_ok_def by metis
  qed
  show ?thesis
    using queue_change_ids [OF ch ids] tokens held claim_new_token [OF assms(1,3) _ assms(2)] assms(2) issued_mono [OF _ le]
    unfolding queue_ok_def by (simp only: set_append list.set Un_iff insert_iff empty_iff) blast
qed

definition queue_start :: "'x queue_db_scheme \<Rightarrow> bool" where
  "queue_start db = (jq_jobs db = [])"

lemma queue_run_ok: "queue_run V C db0 tr db \<Longrightarrow> inj (env_uuid V) \<Longrightarrow> queue_start db0 \<Longrightarrow> queue_ok V tr db"
proof (induction rule: queue_run.induct)
  case start
  then show ?case by (simp add: queue_ok_def queue_start_def)
qed (rule queue_ok_event)

subsection \<open>Stale tokens\<close>

text \<open>A token once issued that no running row holds; it never comes back.\<close>

definition spent :: "env \<Rightarrow> string \<Rightarrow> 'x queue_db_scheme \<Rightarrow> bool" where
  "spent V t db = (issued V t db \<and> (\<forall>j\<in>set (jq_jobs db). \<not> holds_token t j))"

lemma spent_event:
  assumes "inj (env_uuid V)" "queue_change V db db'" "spent V t db"
  shows "spent V t db'"
proof -
  have "issued V t db'" using assms(2,3) issued_mono by (auto simp: spent_def queue_change_def)
  moreover have "\<not> holds_token t j" if "j \<in> set (jq_jobs db')" for j
    using issued_token_back [OF assms(1,2) _ that] assms(3) by (auto simp: spent_def holds_token_def)
  ultimately show ?thesis by (simp add: spent_def)
qed

lemma count_fenced: "count_rows (fenced jid t) js = Suc 0 \<Longrightarrow> \<exists>j\<in>set js. holds_token t j"
  using count_rows_0 [of "fenced jid t" js] by (auto simp: fenced_def holds_token_def)

lemma fail_run:
  "fail_job V jid token err db = (case find (fenced jid token) (jq_jobs db) of
     None \<Rightarrow> (Inr ''not_fenced'', db)
   | Some j \<Rightarrow>
       (Inr (if jb_attempts j \<ge> jb_max j then ''dead_letter'' else ''queued''),
        jq_jobs_update (update_rows (fenced jid token) (\<lambda>q. q\<lparr>jb_status := if jb_attempts j \<ge> jb_max j then Job_dead_letter else Job_queued,
          jb_expires := None, jb_error := Some (take 500 (if err = [] then ''unknown'' else err)),
          jb_updated := isoformat (env_clock V (w_reads db))\<rparr>)) (w_reads_update Suc db)))"
  by (simp add: fail_job_def bnd_def ret_def gets_def Let_def fenced_update_run split: option.splits)

lemma fenced_rows:
  assumes "j \<in> set (update_rows (fenced jid t) f js)" "jb_id j = jid" "\<And>q. jb_status (f q) \<noteq> Job_running"
  shows "\<not> holds_token t j"
proof -
  obtain q where "j = (if fenced jid t q then f q else q)" using assms(1) unfolding set_update_rows by blast
  then show ?thesis using assms(2,3) by (cases "fenced jid t q") (auto simp: fenced_def holds_token_def)
qed

lemma settle_needs_token:
  assumes "queue_perform V C e db = (r, db')" "settles t jid (e, r) \<or> renews t jid (e, r)"
  shows "\<exists>j\<in>set (jq_jobs db). holds_token t j"
  using assms
proof (cases e)
  case (Q_renew k tok lease)
  then show ?thesis using assms
    by (auto simp: renew_job_lease_def reply_with_def prog_defs utc_now_def now_text_def Let_def dest!: count_fenced)
next
  case (Q_complete k tok result)
  then show ?thesis using assms
    by (auto simp: complete_job_def reply_with_def bnd_def ret_def fenced_update_run dest!: count_fenced)
next
  case (Q_fail k tok err)
  then show ?thesis using assms
    by (auto simp: fail_run reply_with_def find_Some_iff fenced_def holds_token_def split: option.splits intro: nth_mem bexI)
qed auto

lemma settled_row:
  assumes "queue_perform V C e db = (r, db')" "settles t jid (e, r) \<or> withdraws jid (e, r)" "j \<in> set (jq_jobs db')" "jb_id j = jid"
  shows "\<not> holds_token t j"
proof (cases e)
  case (Q_complete k tok result)
  then show ?thesis using assms
    by (auto simp: complete_job_def reply_with_def bnd_def ret_def fenced_update_run) (drule fenced_rows; simp)
next
  case (Q_fail k tok err)
  have run: "reply_with R_text (fail_job V k tok err db) = (r, db')" using assms(1) Q_fail by simp
  show ?thesis
  proof (cases "find (fenced k tok) (jq_jobs db)")
    case None
    then show ?thesis using assms(2) run Q_fail by (auto simp: fail_run reply_with_def)
  next
    case (Some q)
    have kt: "k = jid" "tok = t" using assms(2) Q_fail by (cases r; auto)+
    have db': "db' = snd (fail_job V jid t err db)" using run by (auto simp: kt reply_with_def split: prod.splits sum.splits)
    define f where "f = (\<lambda>p :: job. p\<lparr>jb_status := if jb_attempts q \<ge> jb_max q then Job_dead_letter else Job_queued, jb_expires := None,
      jb_error := Some (take 500 (if err = [] then ''unknown'' else err)), jb_updated := isoformat (env_clock V (w_reads db))\<rparr>)"
    have "j \<in> set (update_rows (fenced jid t) f (jq_jobs db))"
      using assms(3) unfolding db' fail_run Some [unfolded kt] f_def by simp
    moreover have "jb_status (f p) \<noteq> Job_running" for p by (simp add: f_def)
    ultimately show ?thesis by (rule fenced_rows [OF _ assms(4)])
  qed
next
  case (Q_cancel k)
  have k: "k = jid" using assms(2) Q_cancel by (cases r) auto
  define hit where "hit = (\<lambda>p :: job. jb_id p = jid \<and> jb_status p \<in> {Job_queued, Job_running})"
  define f where "f = (\<lambda>p :: job. p\<lparr>jb_status := Job_cancelled, jb_expires := None, jb_updated := isoformat (env_clock V (w_reads db))\<rparr>)"
  have "jq_jobs db' = update_rows hit f (jq_jobs db)"
    using assms(1) unfolding Q_cancel hit_def f_def k
    by (auto simp: request_job_cancellation_def reply_with_def prog_defs utc_now_def now_text_def Let_def)
  then have "j \<in> set (update_rows hit f (jq_jobs db))" using assms(3) by simp
  then obtain p where "j = (if hit p then f p else p)" unfolding set_update_rows by blast
  then show ?thesis using assms(4) by (cases "hit p") (auto simp: hit_def f_def holds_token_def)
next
  case Q_expire
  obtain ids where r: "r = R_ids ids" "jid \<in> set ids" using assms(2) Q_expire by (cases r) auto
  define f where "f = (\<lambda>p :: job. p\<lparr>jb_status := Job_queued, jb_token := None, jb_expires := None, jb_updated := isoformat (env_clock V (w_reads db))\<rparr>)"
  have "jq_jobs db' = update_rows (\<lambda>p. jb_id p \<in> set ids) f (jq_jobs db)"
    using assms(1) r unfolding Q_expire f_def
    by (auto simp: expire_stale_leases_def reply_with_def prog_defs utc_now_def now_text_def Let_def split: if_splits)
  then have "j \<in> set (update_rows (\<lambda>p. jb_id p \<in> set ids) f (jq_jobs db))" using assms(3) by simp
  then obtain p where "j = (if jb_id p \<in> set ids then f p else p)" unfolding set_update_rows by blast
  then show ?thesis using assms(4) r(2) by (cases "jb_id p \<in> set ids") (auto simp: f_def holds_token_def)
qed (use assms in auto)

text \<open>
  C16. Once a claim of a job was settled, withdrawn by a cancellation or a lease that ran out, or followed
  by another claim of the job, its token settles and renews nothing ever after.
\<close>

theorem stale_token_fenced:
  assumes "inj (env_uuid V)" and "queue_start db0" and "queue_run V C db0 (a @ x # b) db" and "g \<in> set a" and "grants t jid g"
    and "settles t jid x \<or> withdraws jid x \<or> grants u jid x"
  shows "list_all (\<lambda>y. \<not> settles t k y \<and> \<not> renews t k y) b"
proof -
  obtain m where m: "queue_run V C db0 (a @ [x]) m" "queue_run V C m b db"
    using queue_run_append [OF assms(3), of "a @ [x]" b] by auto
  from m(1) obtain m0 e r where m0: "queue_run V C db0 a m0" "x = (e, r)" "queue_perform V C e m0 = (r, m)"
    by (cases rule: queue_run.cases) auto
  have ok: "queue_ok V a m0" using m0(1) assms(1,2) by (rule queue_run_ok)
  have ch: "queue_change V m0 m" using m0(3) ok by (intro queue_perform_change) (simp_all add: queue_ok_def)
  have t: "issued V t m0" "\<forall>j\<in>set (jq_jobs m0). jb_token j = Some t \<longrightarrow> jb_id j = jid" using ok assms(4,5) by (auto simp: queue_ok_def)
  have only: "jb_id j = jid" if "j \<in> set (jq_jobs m)" "jb_token j = Some t" for j
    using issued_token_back [OF assms(1) ch t(1) that] t(2) by auto
  have "\<not> holds_token t j" if "j \<in> set (jq_jobs m)" "jb_id j = jid" for j
  proof (cases "grants u jid x")
    case True
    then show ?thesis using claim_new_token [OF assms(1) m0(3) _ ok, of u jid] m0(2) that t(1) by (auto simp: holds_token_def)
  next
    case False
    then show ?thesis using settled_row [OF m0(3) _ that] assms(6) m0(2) by auto
  qed
  then have "spent V t m" using only t(1) ch issued_mono by (auto simp: spent_def holds_token_def queue_change_def)
  moreover have "distinct (map jb_id (jq_jobs m))" using ch ok queue_change_ids by (auto simp: queue_ok_def)
  ultimately have "list_all (\<lambda>y. \<not> settles t k y \<and> \<not> renews t k y) b \<and> spent V t db \<and> distinct (map jb_id (jq_jobs db))"
    using m(2)
  proof (induction rule: queue_run.induct [OF m(2)])
    case (2 tr h e r h')
    then have IH: "list_all (\<lambda>y. \<not> settles t k y \<and> \<not> renews t k y) tr" "spent V t h" "distinct (map jb_id (jq_jobs h))" by auto
    have ch: "queue_change V h h'" using 2(2) IH(3) by (rule queue_perform_change)
    have "\<not> settles t k (e, r) \<and> \<not> renews t k (e, r)" using settle_needs_token [OF 2(2)] IH(2) unfolding spent_def by blast
    then show ?case using IH spent_event [OF assms(1) ch] queue_change_ids [OF ch] by simp
  qed simp
  then show ?thesis by blast
qed

subsection \<open>Terminal jobs\<close>

text \<open>
  A completed, dead-lettered or cancelled job is final: whatever happens to the queue, its row stays
  as it is.
\<close>

theorem terminal_job_final:
  assumes "queue_run V C m b db" and "distinct (map jb_id (jq_jobs m))" and "row_by jb_id jid (jq_jobs m) = Some j"
    and "jb_status j \<in> terminal_jobs"
  shows "row_by jb_id jid (jq_jobs db) = Some j"
proof -
  have "j \<in> set (jq_jobs db) \<and> distinct (map jb_id (jq_jobs db))"
    using assms(1)
  proof (induction rule: queue_run.induct)
    case start
    then show ?case using assms(2,3) row_by_SomeD by fastforce
  next
    case (event tr h e r h')
    then have ch: "queue_change V h h'" and j: "j \<in> set (jq_jobs h)" by (auto intro: queue_perform_change)
    obtain js where js: "list_all2 (row_moves V (w_uuids h) (w_uuids h')) (jq_jobs h) js" "set js \<subseteq> set (jq_jobs h')"
      using ch unfolding queue_change_def by (metis order_refl set_append Un_upper1)
    obtain i where "i < length (jq_jobs h)" "j = jq_jobs h ! i" using j by (auto simp: in_set_conv_nth)
    then obtain j' where "j' \<in> set js" "row_moves V (w_uuids h) (w_uuids h') j j'"
      using js(1) by (metis list_all2_lengthD list_all2_nthD nth_mem)
    moreover have "job_moves (jb_status j) = {}" "jb_status j \<noteq> Job_running" using assms(4) job_matrix.terminal_iff by (auto simp: terminal_jobs_def)
    ultimately have "j \<in> set js" by (auto simp: row_moves_def)
    then show ?case using js(2) queue_change_ids [OF ch] event.IH by auto
  qed
  then show ?thesis using row_by_SomeD [OF assms(3)] by (auto simp: row_by_distinct)
qed

subsection \<open>A worker that lost its lease\<close>

primrec run_queue :: "env \<Rightarrow> queue_config \<Rightarrow> queue_event list \<Rightarrow> 'x queue_db_scheme \<Rightarrow> queue_log \<times> 'x queue_db_scheme" where
  "run_queue V C [] db = ([], db)"
| "run_queue V C (e # es) db =
    (let (r, db1) = queue_perform V C e db; (tr, db2) = run_queue V C es db1 in ((e, r) # tr, db2))"

lemma queue_run_run:
  "queue_run V C db0 tr db \<Longrightarrow> queue_run V C db0 (tr @ fst (run_queue V C es db)) (snd (run_queue V C es db))"
proof (induction es arbitrary: tr db)
  case (Cons e es)
  obtain r db1 where "queue_perform V C e db = (r, db1)" by (rule prod.exhaust)
  then show ?case using Cons.IH [OF queue_run.event [OF Cons.prems]] by (simp add: split_beta)
qed simp

definition numbered_env :: env where
  "numbered_env = \<lparr>env_hash = id, env_clock = (\<lambda>n. 1000000000 * int n), env_uuid = (\<lambda>n. replicate n (CHR ''u'')), env_dt_json = iso\<rparr>"

definition short_lease :: queue_config where
  "short_lease = \<lparr>qc_max_attempts = 3, qc_lease = 900\<rparr>"

definition queue_empty :: queue_db where
  "queue_empty = \<lparr>w_reads = 0, w_uuids = 0, jq_jobs = []\<rparr>"

text \<open>The first attempt fails, another worker claims the job, and the first reports again.\<close>

definition lost_worker :: "queue_event list" where
  "lost_worker = [Q_enqueue ''agency.create'' ''t'' ''p'' JNull None None, Q_claim None None, Q_fail ''job_'' ''lease_u'' ''E'',
     Q_claim None None, Q_complete ''job_'' ''lease_u'' JNull, Q_complete ''job_'' ''lease_uu'' JNull]"

lemma numbered_inj: "inj (env_uuid numbered_env)"
  by (rule injI) (metis env.simps(3) length_replicate numbered_env_def)

lemmas queue_runs = reply_with_def split_beta enqueue_job_def claim_job_def fail_run complete_job_def fenced_update_run prog_defs uuid4_hex_def
  utc_now_def now_text_def Let_def job_by_id_def given_or_def valid_job_kinds_def oldest_queued_def queued_row_def leased_row_def count_rows_def
  fenced_def numbered_env_def short_lease_def

lemma first_claim:
  "\<exists>st j r. run_queue numbered_env short_lease (take 2 lost_worker) queue_empty = ([r, (Q_claim None None, R_job (Some j))], st) \<and>
    jq_jobs st = [j] \<and> w_uuids st = Suc (Suc 0) \<and> jb_id j = ''job_'' \<and> jb_token j = Some ''lease_u'' \<and> jb_status j = Job_running \<and>
    jb_attempts j = 1 \<and> jb_max j = 3"
  by (simp add: lost_worker_def queue_empty_def queue_runs)

lemma late_report:
  assumes "jq_jobs st = [j]" "w_uuids st = Suc (Suc 0)" "jb_id j = ''job_''" "jb_token j = Some ''lease_u''" "jb_status j = Job_running"
    "jb_attempts j = 1" "jb_max j = 3"
  shows "\<exists>r. fst (run_queue numbered_env short_lease (drop 2 lost_worker) st) =
    (Q_fail ''job_'' ''lease_u'' ''E'', R_text ''queued'') # [(Q_claim None None, r), (Q_complete ''job_'' ''lease_u'' JNull, R_bool False),
      (Q_complete ''job_'' ''lease_uu'' JNull, R_bool True)]"
  using assms by (simp add: lost_worker_def queue_runs)

theorem stale_token_fenced_witness:
  "\<exists>a x b db. queue_run numbered_env short_lease queue_empty (a @ x # b) db \<and> settles ''lease_u'' ''job_'' x \<and> length b = 3 \<and>
    list_all (\<lambda>y. \<not> settles ''lease_u'' ''job_'' y \<and> \<not> renews ''lease_u'' ''job_'' y) b"
proof -
  obtain st j r where st: "run_queue numbered_env short_lease (take 2 lost_worker) queue_empty = ([r, (Q_claim None None, R_job (Some j))], st)"
    "jq_jobs st = [j]" "w_uuids st = Suc (Suc 0)" "jb_id j = ''job_''" "jb_token j = Some ''lease_u''" "jb_status j = Job_running"
    "jb_attempts j = 1" "jb_max j = 3"
    using first_claim by blast
  let ?a = "[r, (Q_claim None None, R_job (Some j))]" and ?x = "(Q_fail ''job_'' ''lease_u'' ''E'', R_text ''queued'')"
  have "queue_run numbered_env short_lease queue_empty ?a st"
    using queue_run_run [OF queue_run.start, of numbered_env short_lease queue_empty "take 2 lost_worker"] by (simp only: st(1) fst_conv snd_conv append_Nil)
  then have run: "queue_run numbered_env short_lease queue_empty (?a @ fst (run_queue numbered_env short_lease (drop 2 lost_worker) st))
      (snd (run_queue numbered_env short_lease (drop 2 lost_worker) st))"
    by (rule queue_run_run)
  obtain q where b: "fst (run_queue numbered_env short_lease (drop 2 lost_worker) st) =
      ?x # [(Q_claim None None, q), (Q_complete ''job_'' ''lease_u'' JNull, R_bool False), (Q_complete ''job_'' ''lease_uu'' JNull, R_bool True)]"
    using late_report [OF st(2-)] by blast
  let ?b = "[(Q_claim None None, q), (Q_complete ''job_'' ''lease_u'' JNull, R_bool False), (Q_complete ''job_'' ''lease_uu'' JNull, R_bool True)]"
  have "settles ''lease_u'' ''job_'' ?x" by simp
  moreover have "list_all (\<lambda>y. \<not> settles ''lease_u'' ''job_'' y \<and> \<not> renews ''lease_u'' ''job_'' y) ?b"
    by (rule stale_token_fenced [OF numbered_inj _ run [unfolded b], where g = "(Q_claim None None, R_job (Some j))" and jid = "''job_''"])
      (simp_all add: queue_start_def queue_empty_def st(4,5))
  ultimately show ?thesis using run [unfolded b] by (intro exI conjI) (assumption | simp)+
qed

definition finished_job :: job where
  "finished_job = \<lparr>jb_id = ''job_'', jb_kind = ''agency.create'', jb_tenant = ''t'', jb_project = ''p'', jb_run = None, jb_status = Job_completed,
     jb_attempts = 1, jb_max = 3, jb_payload = JNull, jb_result = Some JNull, jb_error = None, jb_token = Some ''lease_u'', jb_expires = None,
     jb_queued = isoformat 0, jb_claimed = None, jb_updated = isoformat 0\<rparr>"

theorem terminal_job_final_witness:
  "row_by jb_id ''job_'' (jq_jobs (snd (run_queue numbered_env short_lease [Q_cancel ''job_'', Q_complete ''job_'' ''lease_u'' JNull, Q_claim None None]
    (queue_empty\<lparr>jq_jobs := [finished_job]\<rparr>)))) = Some finished_job"
  by (rule terminal_job_final [OF queue_run_run [OF queue_run.start]])
    (simp_all add: queue_empty_def finished_job_def terminal_jobs_def)

end
