(* ===== verification/Idempotency.thy ===== *)
theory Idempotency
  imports Release Safety Frames
begin

section \<open>Idempotent requests\<close>

text \<open>
  Models \<^verbatim>\<open>persistence/idempotency.py\<close>: the reservation of a request key, its completion and
  failure. A record's moments are kept as moments: the code stores \<open>datetime.isoformat\<close> text and
  reads the expiry back with \<open>fromisoformat\<close>, which returns the moment. Each operation is one
  transaction, and it is the row lock that makes it one on the server database.
\<close>

subsection \<open>Keys\<close>

text \<open>\<open>json.dumps\<close> with sorted keys, without spaces and with \<open>ensure_ascii=False\<close>.\<close>

definition raw_char :: "char \<Rightarrow> string" where
  "raw_char c = (if 127 \<le> (of_char c :: nat) then [c] else json_char c)"

definition raw_string :: "string \<Rightarrow> string" where
  "raw_string s = [CHR 0x22] @ concat (map raw_char s) @ [CHR 0x22]"

fun raw_json :: "json \<Rightarrow> string" where
  "raw_json JNull = ''null''"
| "raw_json (JBool b) = (if b then ''true'' else ''false'')"
| "raw_json (JInt i) = str_int i"
| "raw_json (JStr s) = raw_string s"
| "raw_json (JList xs) = ''['' @ join '','' (map raw_json xs) @ '']''"
| "raw_json (JDict kvs) = ''{'' @ join '','' (map (\<lambda>(k, t). raw_string k @ '':'' @ t)
     (sort_key fst (map (\<lambda>(k, v). (k, raw_json v)) kvs))) @ ''}''"
| "raw_json _ = []"

definition hash_payload :: "(bytes \<Rightarrow> string) \<Rightarrow> json \<Rightarrow> string" where
  "hash_payload H payload = H (utf8 (raw_json payload))"

definition generate_idempotency_key :: "(bytes \<Rightarrow> string) \<Rightarrow> string \<Rightarrow> string \<Rightarrow> json \<Rightarrow> int \<Rightarrow> string" where
  "generate_idempotency_key H project node input tries =
    H (utf8 (project @ '':'' @ node @ '':'' @ hash_payload H input @ '':'' @ str_int tries))"

subsection \<open>Records\<close>

datatype idem_status = Idem_executing | Idem_completed | Idem_failed

record idem =
  im_scope :: string
  im_key :: string
  im_hash :: string
  im_status :: idem_status
  im_result :: "json option"
  im_error :: "string option"
  im_attempts :: int
  im_created :: int
  im_updated :: int
  im_expires :: int

record idem_db = world +
  im_rows :: "idem list"

datatype reservation = Reserved_new idem | Reserved_conflict idem | Reserved_replay idem | Reserved_in_progress idem

type_synonym ('x, 'a) idempotent = "('x idem_db_scheme, string, 'a) prog"

definition im_at :: "idem \<Rightarrow> string \<times> string" where
  "im_at r = (im_scope r, im_key r)"

definition idem_record :: "string \<Rightarrow> string \<Rightarrow> ('x, idem option) idempotent" where
  "idem_record scope key = gets (\<lambda>db. row_by im_at (scope, key) (im_rows db))"

definition failed_row :: "string \<Rightarrow> string \<Rightarrow> idem \<Rightarrow> bool" where
  "failed_row scope key q = (im_at q = (scope, key) \<and> im_status q = Idem_failed)"

definition revived_row :: "int \<Rightarrow> int \<Rightarrow> idem \<Rightarrow> idem" where
  "revived_row now expires q = q\<lparr>im_status := Idem_executing, im_result := None, im_error := None, im_attempts := im_attempts q + 1,
     im_updated := now, im_expires := expires\<rparr>"

definition new_row :: "string \<Rightarrow> string \<Rightarrow> string \<Rightarrow> int \<Rightarrow> int \<Rightarrow> idem" where
  "new_row scope key hash now expires = \<lparr>im_scope = scope, im_key = key, im_hash = hash, im_status = Idem_executing,
     im_result = None, im_error = None, im_attempts = 1, im_created = now, im_updated = now, im_expires = expires\<rparr>"

text \<open>A row the reservation found that has not expired.\<close>

definition reserve_known :: "string \<Rightarrow> string \<Rightarrow> string \<Rightarrow> int \<Rightarrow> int \<Rightarrow> idem \<Rightarrow> ('x, reservation) idempotent" where
  "reserve_known scope key hash now expires r =
    (if im_hash r \<noteq> hash then ret (Reserved_conflict r)
     else if im_status r = Idem_completed then ret (Reserved_replay r)
     else if im_status r = Idem_executing then ret (Reserved_in_progress r)
     else
       bnd (modify (im_rows_update (update_rows (failed_row scope key) (revived_row now expires)))) (\<lambda>_.
       bnd (idem_record scope key) (\<lambda>q. case q of None \<Rightarrow> raise ''TypeError'' | Some q \<Rightarrow> ret (Reserved_new q))))"

definition reserve_idempotency :: "env \<Rightarrow> string \<Rightarrow> string \<Rightarrow> string \<Rightarrow> int \<Rightarrow> ('x, reservation) idempotent" where
  "reserve_idempotency V scope key hash ttl =
    bnd (guard (strip key \<noteq> []) ''idempotency key must be non-empty'') (\<lambda>_.
    bnd (guard (ttl > 0) ''ttl_seconds must be positive'') (\<lambda>_.
    bnd (utc_now V) (\<lambda>now.
    let expires = now + seconds ttl in
    bnd (idem_record scope key) (\<lambda>row.
    bnd (case row of
        None \<Rightarrow> ret None
      | Some r \<Rightarrow>
          if im_expires r \<le> now
          then bnd (modify (im_rows_update (filter (\<lambda>q. im_at q \<noteq> (scope, key))))) (\<lambda>_. ret None)
          else ret (Some r)) (\<lambda>live. case live of
      Some r \<Rightarrow> reserve_known scope key hash now expires r
    | None \<Rightarrow>
        bnd (modify (im_rows_update (\<lambda>rs. rs @ [new_row scope key hash now expires]))) (\<lambda>_.
        bnd (idem_record scope key) (\<lambda>q. case q of None \<Rightarrow> raise ''TypeError'' | Some q \<Rightarrow> ret (Reserved_new q))))))))"

definition executing_row :: "string \<Rightarrow> string \<Rightarrow> idem \<Rightarrow> bool" where
  "executing_row scope key q = (im_at q = (scope, key) \<and> im_status q = Idem_executing)"

definition complete_idempotency :: "env \<Rightarrow> string \<Rightarrow> string \<Rightarrow> json \<Rightarrow> ('x, bool) idempotent" where
  "complete_idempotency V scope key result =
    bnd (utc_now V) (\<lambda>now.
    bnd (gets (\<lambda>db. count_rows (executing_row scope key) (im_rows db))) (\<lambda>n.
    bnd (modify (im_rows_update (update_rows (executing_row scope key)
      (\<lambda>q. q\<lparr>im_status := Idem_completed, im_result := Some result, im_error := None, im_updated := now\<rparr>)))) (\<lambda>_. ret (n = 1))))"

definition fail_idempotency :: "env \<Rightarrow> string \<Rightarrow> string \<Rightarrow> string \<Rightarrow> ('x, bool) idempotent" where
  "fail_idempotency V scope key err =
    bnd (utc_now V) (\<lambda>now.
    bnd (gets (\<lambda>db. count_rows (executing_row scope key) (im_rows db))) (\<lambda>n.
    bnd (modify (im_rows_update (update_rows (executing_row scope key)
      (\<lambda>q. q\<lparr>im_status := Idem_failed, im_error := Some (take 500 err), im_updated := now\<rparr>)))) (\<lambda>_. ret (n = 1))))"

subsection \<open>Histories\<close>

datatype idem_event = I_reserve string string string int | I_complete string string json | I_fail string string string

datatype idem_reply = I_reserved reservation | I_done bool | I_error string

text \<open>An entry of a history: what was asked, the answer, and the moment the operation read.\<close>

type_synonym idem_entry = "idem_event \<times> idem_reply \<times> int"

fun idem_perform :: "env \<Rightarrow> idem_event \<Rightarrow> 'x idem_db_scheme \<Rightarrow> idem_reply \<times> 'x idem_db_scheme" where
  "idem_perform V (I_reserve scope key hash ttl) db =
     (case reserve_idempotency V scope key hash ttl db of (Inl e, s) \<Rightarrow> (I_error e, s) | (Inr a, s) \<Rightarrow> (I_reserved a, s))"
| "idem_perform V (I_complete scope key result) db =
     (case complete_idempotency V scope key result db of (Inl e, s) \<Rightarrow> (I_error e, s) | (Inr a, s) \<Rightarrow> (I_done a, s))"
| "idem_perform V (I_fail scope key err) db =
     (case fail_idempotency V scope key err db of (Inl e, s) \<Rightarrow> (I_error e, s) | (Inr a, s) \<Rightarrow> (I_done a, s))"

inductive idem_run :: "env \<Rightarrow> 'x idem_db_scheme \<Rightarrow> idem_entry list \<Rightarrow> 'x idem_db_scheme \<Rightarrow> bool" for V db0 where
  start: "idem_run V db0 [] db0"
| event: "idem_run V db0 tr db \<Longrightarrow> idem_perform V e db = (r, db') \<Longrightarrow> idem_run V db0 (tr @ [(e, r, env_clock V (w_reads db))]) db'"

text \<open>The answer a reservation of a key must get while its record is \<open>r\<close>.\<close>

definition answer :: "idem \<Rightarrow> string \<Rightarrow> reservation" where
  "answer r hash = (if im_hash r \<noteq> hash then Reserved_conflict r else if im_status r = Idem_completed then Reserved_replay r else Reserved_in_progress r)"

lemma reserve_live:
  assumes "row_by im_at (scope, key) (im_rows db) = Some r" "env_clock V (w_reads db) < im_expires r" "im_status r \<noteq> Idem_failed"
    "idem_perform V (I_reserve scope key hash ttl) db = (reply, db')"
  shows "im_rows db' = im_rows db \<and> (\<forall>a. reply = I_reserved a \<longrightarrow> a = answer r hash)"
proof -
  have "im_status r = Idem_completed \<or> im_status r = Idem_executing" using assms(3) by (cases "im_status r") auto
  then show ?thesis using assms
    by (auto simp: reserve_idempotency_def reserve_known_def idem_record_def answer_def prog_defs utc_now_def Let_def split: if_splits)
qed

lemma im_at_simps [simp]:
  "im_at (revived_row now expires q) = im_at q" "im_at (new_row scope key hash now expires) = (scope, key)"
  by (simp_all add: im_at_def revived_row_def new_row_def)

text \<open>A reservation of another key leaves the record alone.\<close>

lemma other_key:
  assumes "row_by im_at k (im_rows db) = Some r" "k \<noteq> (scope, key)" "idem_perform V (I_reserve scope key hash ttl) db = (reply, db')"
  shows "row_by im_at k (im_rows db') = Some r"
proof -
  have keep: "row_by im_at k (filter (\<lambda>q. im_at q \<noteq> (scope, key)) rows) = row_by im_at k rows" for rows
    using assms(2) by (induction rows) auto
  have same: "row_by im_at k (update_rows (failed_row scope key) (revived_row n e) rows) = row_by im_at k rows" for n e rows
    using assms(2) by (induction rows) (auto simp: failed_row_def)
  show ?thesis
    using assms(1,3)
    by (auto simp: reserve_idempotency_def reserve_known_def idem_record_def prog_defs utc_now_def Let_def keep same row_by_append
      split: if_splits option.splits)
qed

lemma finish_rows:
  assumes "row_by im_at k (im_rows db) = Some r" "idem_perform V e db = (reply, db')" "\<And>scope key hash ttl. e \<noteq> I_reserve scope key hash ttl"
  obtains "row_by im_at k (im_rows db') = Some r"
  | r' scope key where "row_by im_at k (im_rows db') = Some r'" "im_status r = Idem_executing" "k = (scope, key)" "im_hash r' = im_hash r"
      "im_expires r' = im_expires r" "reply = I_done True \<or> count_rows (executing_row scope key) (im_rows db) \<noteq> 1"
      "im_status r' = Idem_completed \<and> (\<exists>result. e = I_complete scope key result) \<or> im_status r' = Idem_failed \<and> (\<exists>err. e = I_fail scope key err)"
proof (cases e)
  case (I_complete scope key result)
  have "row_by im_at k (im_rows db') = Some (if executing_row scope key r then
      r\<lparr>im_status := Idem_completed, im_result := Some result, im_error := None, im_updated := env_clock V (w_reads db)\<rparr> else r)"
    using assms(1,2) I_complete by (auto simp: complete_idempotency_def prog_defs utc_now_def row_by_update_rows im_at_def)
  moreover have "reply = I_done (count_rows (executing_row scope key) (im_rows db) = 1)"
    using assms(2) I_complete by (auto simp: complete_idempotency_def prog_defs utc_now_def)
  moreover have "im_at r = k" using row_by_SomeD [OF assms(1)] by simp
  ultimately show thesis using that(1) that(2) [of _ scope key] I_complete
    by (cases "executing_row scope key r") (auto simp: executing_row_def)
next
  case (I_fail scope key err)
  have "row_by im_at k (im_rows db') = Some (if executing_row scope key r then
      r\<lparr>im_status := Idem_failed, im_error := Some (take 500 err), im_updated := env_clock V (w_reads db)\<rparr> else r)"
    using assms(1,2) I_fail by (auto simp: fail_idempotency_def prog_defs utc_now_def row_by_update_rows im_at_def)
  moreover have "reply = I_done (count_rows (executing_row scope key) (im_rows db) = 1)"
    using assms(2) I_fail by (auto simp: fail_idempotency_def prog_defs utc_now_def)
  moreover have "im_at r = k" using row_by_SomeD [OF assms(1)] by simp
  ultimately show thesis using that(1) that(2) [of _ scope key] I_fail
    by (cases "executing_row scope key r") (auto simp: executing_row_def)
qed (use assms(3) in auto)

subsection \<open>One execution per request\<close>

text \<open>
  How an entry of the history agrees with a record of its key: never a new execution, a conflict exactly
  for another request, and for a completed record its own result again.
\<close>

fun agrees :: "idem \<Rightarrow> idem_entry \<Rightarrow> bool" where
  "agrees r (I_reserve scope key hash ttl, I_reserved a, t) = (if im_at r \<noteq> (scope, key) then True else case a of
     Reserved_new q \<Rightarrow> False
   | Reserved_conflict q \<Rightarrow> im_hash r \<noteq> hash
   | Reserved_replay q \<Rightarrow> im_hash r = hash \<and> (if im_status r = Idem_completed then q = r else im_hash q = hash)
   | Reserved_in_progress q \<Rightarrow> im_hash r = hash \<and> im_status r = Idem_executing)"
| "agrees r _ = True"

fun fails_key :: "string \<times> string \<Rightarrow> idem_entry \<Rightarrow> bool" where
  "fails_key k (I_fail scope key err, _, _) = (k = (scope, key))"
| "fails_key _ _ = False"

text \<open>The record as it may have become: the same request and expiry, and the same row once completed.\<close>

definition carried :: "string \<times> string \<Rightarrow> idem \<Rightarrow> 'x idem_db_scheme \<Rightarrow> bool" where
  "carried k r db = (\<exists>q. row_by im_at k (im_rows db) = Some q \<and> im_hash q = im_hash r \<and> im_expires q = im_expires r \<and>
     im_status q \<noteq> Idem_failed \<and> (q = r \<or> im_status r = Idem_executing))"

lemma agrees_answer:
  assumes "im_at r = (scope, key)" "im_hash q = im_hash r" "im_status q \<noteq> Idem_failed" "q = r \<or> im_status r = Idem_executing" "im_status r \<noteq> Idem_failed"
  shows "agrees r (I_reserve scope key hash ttl, I_reserved (answer q hash), t)"
  using assms by (cases "im_status q"; cases "im_status r") (auto simp: answer_def)

lemma carried_event:
  assumes "carried k r db" "im_at r = k" "im_status r \<noteq> Idem_failed" "idem_perform V e db = (reply, db')" "env_clock V (w_reads db) < im_expires r"
    "\<not> fails_key k (e, reply, t)"
  shows "carried k r db' \<and> agrees r (e, reply, t)"
proof -
  obtain q where q: "row_by im_at k (im_rows db) = Some q" "im_hash q = im_hash r" "im_expires q = im_expires r" "im_status q \<noteq> Idem_failed"
    "q = r \<or> im_status r = Idem_executing"
    using assms(1) by (auto simp: carried_def)
  show ?thesis
  proof (cases "\<exists>scope key hash ttl. e = I_reserve scope key hash ttl")
    case True
    then obtain scope key hash ttl where e: "e = I_reserve scope key hash ttl" by blast
    show ?thesis
    proof (cases "k = (scope, key)")
      case True
      have "im_rows db' = im_rows db \<and> (\<forall>a. reply = I_reserved a \<longrightarrow> a = answer q hash)"
        using q assms(4,5) unfolding e True by (intro reserve_live) auto
      then show ?thesis using assms(2,3) q e True agrees_answer by (cases reply) (auto simp: carried_def)
    next
      case False
      have "row_by im_at k (im_rows db') = Some q" using q(1) False assms(4) unfolding e by (rule other_key)
      then show ?thesis using q False assms(2) e by (cases reply) (auto simp: carried_def)
    qed
  next
    case False
    then have other: "agrees r (e, reply, t)" by (cases e) auto
    have "carried k r db'"
    proof (rule finish_rows [OF q(1) assms(4)])
      show "e \<noteq> I_reserve scope key hash ttl" for scope key hash ttl using False by blast
    next
      fix r' scope key
      assume "row_by im_at k (im_rows db') = Some r'" "im_status q = Idem_executing" "im_hash r' = im_hash q" "im_expires r' = im_expires q"
        "im_status r' = Idem_completed \<and> (\<exists>result. e = I_complete scope key result) \<or> im_status r' = Idem_failed \<and> (\<exists>err. e = I_fail scope key err)"
        "k = (scope, key)"
      then show ?thesis using q assms(6) by (auto simp: carried_def)
    qed (use q in \<open>auto simp: carried_def\<close>)
    with other show ?thesis by blast
  qed
qed

text \<open>
  C20. While a request key's record is executing or completed and not expired, and no failure of it is
  reported, every reservation of the key is answered from the record: never a new execution, a conflict
  exactly when the request differs, and once completed the stored result.
\<close>

theorem one_execution_per_key:
  assumes "idem_run V m b db" and "row_by im_at k (im_rows m) = Some r" and "im_status r \<noteq> Idem_failed"
    and "list_all (\<lambda>(_, _, t). t < im_expires r) b" and "list_all (\<lambda>x. \<not> fails_key k x) b"
  shows "list_all (agrees r) b"
proof -
  have k: "im_at r = k" using row_by_SomeD [OF assms(2)] by simp
  have "carried k r db \<and> list_all (agrees r) b"
    using assms(1,4,5)
  proof (induction rule: idem_run.induct)
    case start
    then show ?case using assms(2,3) by (auto simp: carried_def)
  next
    case (event tr h e reply h')
    then have "carried k r h" "list_all (agrees r) tr" by auto
    moreover have "carried k r h' \<and> agrees r (e, reply, env_clock V (w_reads h))"
      using event \<open>carried k r h\<close> by (intro carried_event [OF _ k assms(3)]) auto
    ultimately show ?case by simp
  qed
  then show ?thesis by blast
qed

definition request_env :: env where
  "request_env = \<lparr>env_hash = id, env_clock = int, env_uuid = (\<lambda>_. []), env_dt_json = iso\<rparr>"

definition request_start :: idem_db where
  "request_start = \<lparr>w_reads = 0, w_uuids = 0, im_rows = [new_row ''s'' ''k'' ''h'' 0 100]\<rparr>"

theorem one_execution_per_key_witness:
  "\<exists>r1 r2 r3 db. idem_run request_env request_start [(I_reserve ''s'' ''k'' ''h'' 9, r1, 0), (I_complete ''s'' ''k'' JNull, r2, 1),
      (I_reserve ''s'' ''k'' ''h'' 9, r3, 2)] db \<and>
    list_all (agrees (new_row ''s'' ''k'' ''h'' 0 100)) [(I_reserve ''s'' ''k'' ''h'' 9, r1, 0), (I_complete ''s'' ''k'' JNull, r2, 1),
      (I_reserve ''s'' ''k'' ''h'' 9, r3, 2)]"
proof -
  let ?V = request_env and ?e = "I_reserve ''s'' ''k'' ''h'' 9"
  obtain r1 d1 where 1: "idem_perform ?V ?e request_start = (r1, d1)" by (rule prod.exhaust)
  obtain r2 d2 where 2: "idem_perform ?V (I_complete ''s'' ''k'' JNull) d1 = (r2, d2)" by (rule prod.exhaust)
  obtain r3 d3 where 3: "idem_perform ?V ?e d2 = (r3, d3)" by (rule prod.exhaust)
  have "w_reads d1 = 1"
    using 1 by (auto simp: request_start_def request_env_def reserve_idempotency_def reserve_known_def idem_record_def prog_defs utc_now_def Let_def
      new_row_def im_at_def strip_def is_space_def)
  moreover from this have "w_reads d2 = 2" using 2 by (auto simp: complete_idempotency_def prog_defs utc_now_def)
  ultimately have run: "idem_run ?V request_start [(?e, r1, 0), (I_complete ''s'' ''k'' JNull, r2, 1), (?e, r3, 2)] d3"
    using idem_run.event [OF idem_run.event [OF idem_run.event [OF idem_run.start 1] 2] 3] by (simp add: request_env_def request_start_def)
  moreover have "list_all (agrees (new_row ''s'' ''k'' ''h'' 0 100)) [(?e, r1, 0), (I_complete ''s'' ''k'' JNull, r2, 1), (?e, r3, 2)]"
    by (rule one_execution_per_key [OF run, where k = "(''s'', ''k'')"]) (simp_all add: request_start_def new_row_def im_at_def)
  ultimately show ?thesis by blast
qed

end
