(* ===== verification/Ingress.thy ===== *)
theory Ingress
  imports Complex_Main Calendar
begin

section \<open>Authenticated ingress\<close>

text \<open>
  Models \<^verbatim>\<open>security/hmac_ingress.py\<close> and \<^verbatim>\<open>security/replay_store.py\<close>: the middleware that
  authenticates the raw bytes of a protected request and refuses replays, over a nonce store in memory
  or in the database. HMAC-SHA-256 is a parameter, a moment is a rational number of seconds, and a
  message stream that stops before the body is complete leaves the request waiting.
\<close>

subsection \<open>Nonce stores\<close>

datatype replay_error = Replay_detected | Replay_saturated

text \<open>\<open>MemoryReplayStore\<close>: a dict from a nonce to its expiry.\<close>

definition purge :: "rat \<Rightarrow> (string \<times> rat) list \<Rightarrow> (string \<times> rat) list" where
  "purge now s = filter (\<lambda>(_, e). \<not> e < now) s"

definition check_memory :: "int \<Rightarrow> nat \<Rightarrow> string \<Rightarrow> int \<Rightarrow> rat \<Rightarrow> (string \<times> rat) list \<Rightarrow> (replay_error + unit) \<times> (string \<times> rat) list" where
  "check_memory window cap nonce stamp now s =
    (let expires = of_int (stamp + window); s1 = purge now s in
     if nonce \<in> fst ` set s1 then (Inl Replay_detected, s1)
     else if length s1 \<ge> cap then (Inl Replay_saturated, s1)
     else (Inr (), s1 @ [(nonce, expires)]))"

text \<open>\<open>DatabaseReplayStore\<close>: rows of one table; a raise rolls the transaction back.\<close>

record nonce_row =
  nr_nonce :: string
  nr_expires :: int
  nr_recorded :: int

text \<open>\<open>int(now)\<close>.\<close>

definition trunc :: "rat \<Rightarrow> int" where
  "trunc r = (if 0 \<le> r then floor r else ceiling r)"

definition check_database :: "int \<Rightarrow> nat \<Rightarrow> string \<Rightarrow> int \<Rightarrow> rat \<Rightarrow> nonce_row list \<Rightarrow> (replay_error + unit) \<times> nonce_row list" where
  "check_database window cap nonce stamp now rows =
    (let now_s = trunc now; expires = stamp + window; rows1 = filter (\<lambda>r. \<not> nr_expires r < now_s) rows in
     if \<exists>r\<in>set rows1. nr_nonce r = nonce then (Inl Replay_detected, rows)
     else if length (filter (\<lambda>r. nr_expires r \<ge> now_s) rows1) \<ge> cap then (Inl Replay_saturated, rows)
     else (Inr (), rows1 @ [\<lparr>nr_nonce = nonce, nr_expires = expires, nr_recorded = now_s\<rparr>]))"

definition live_count :: "rat \<Rightarrow> nonce_row list \<Rightarrow> nat" where
  "live_count now rows = length (filter (\<lambda>r. nr_expires r \<ge> trunc now) rows)"

datatype replay_store = Memory_store "(string \<times> rat) list" | Database_store "nonce_row list"

definition build_replay_store :: "string \<Rightarrow> replay_store option" where
  "build_replay_store backend =
    (if backend = ''database'' then Some (Database_store []) else if backend = ''memory'' then Some (Memory_store []) else None)"

definition check_and_record :: "int \<Rightarrow> nat \<Rightarrow> string \<Rightarrow> int \<Rightarrow> rat \<Rightarrow> replay_store \<Rightarrow> (replay_error + unit) \<times> replay_store" where
  "check_and_record window cap nonce stamp now st = (case st of
     Memory_store s \<Rightarrow> map_prod id Memory_store (check_memory window cap nonce stamp now s)
   | Database_store rows \<Rightarrow> map_prod id Database_store (check_database window cap nonce stamp now rows))"

subsection \<open>The signature\<close>

datatype hmac_error = Hmac_value string | Hmac_refused string

definition newline :: string where "newline = [CHR 0x0A]"

definition signing_domain :: bytes where "signing_domain = ''AMC-HMAC-V2'' @ newline"

definition signed_material :: "string \<Rightarrow> string \<Rightarrow> bytes \<Rightarrow> bytes" where
  "signed_material timestamp nonce body = signing_domain @ timestamp @ newline @ nonce @ newline @ body"

definition sign_v2 :: "(bytes \<Rightarrow> bytes \<Rightarrow> string) \<Rightarrow> bytes \<Rightarrow> string \<Rightarrow> string \<Rightarrow> bytes \<Rightarrow> hmac_error + string" where
  "sign_v2 hmac body timestamp nonce secret =
    (if secret = [] then Inl (Hmac_value ''HMAC secret must be configured'') else Inr (hmac secret (signed_material timestamp nonce body)))"

text \<open>A pattern that ends in \<open>$\<close>, which also matches before a newline at the end.\<close>

definition dollar :: "(string \<Rightarrow> bool) \<Rightarrow> string \<Rightarrow> bool" where
  "dollar p s = (p s \<or> s \<noteq> [] \<and> [last s] = newline \<and> p (butlast s))"

definition is_digit :: "char \<Rightarrow> bool" where
  "is_digit c = (let n = of_char c :: nat in 48 \<le> n \<and> n \<le> 57)"

definition timestamp_re :: "string \<Rightarrow> bool" where
  "timestamp_re = dollar (\<lambda>s. 1 \<le> length s \<and> length s \<le> 11 \<and> list_all is_digit s)"

definition nonce_char :: "char \<Rightarrow> bool" where
  "nonce_char c = (let n = of_char c :: nat in
     65 \<le> n \<and> n \<le> 90 \<or> 97 \<le> n \<and> n \<le> 122 \<or> 48 \<le> n \<and> n \<le> 57 \<or> c = CHR ''_'' \<or> c = CHR ''-'')"

definition nonce_re :: "string \<Rightarrow> bool" where
  "nonce_re = dollar (\<lambda>s. 16 \<le> length s \<and> length s \<le> 128 \<and> list_all nonce_char s)"

text \<open>\<open>bytes.fromhex\<close> accepts pairs of hexadecimal digits and blanks between them.\<close>

definition is_hex :: "char \<Rightarrow> bool" where
  "is_hex c = (let n = of_char c :: nat in 48 \<le> n \<and> n \<le> 57 \<or> 65 \<le> n \<and> n \<le> 70 \<or> 97 \<le> n \<and> n \<le> 102)"

definition is_ascii_space :: "char \<Rightarrow> bool" where
  "is_ascii_space c = (let n = of_char c :: nat in n = 32 \<or> 9 \<le> n \<and> n \<le> 13)"

fun fromhex_ok :: "string \<Rightarrow> bool" where
  "fromhex_ok [] = True"
| "fromhex_ok [c] = is_ascii_space c"
| "fromhex_ok (c # d # s) = (if is_ascii_space c then fromhex_ok (d # s) else is_hex c \<and> is_hex d \<and> fromhex_ok s)"

definition signature_hex :: "string \<Rightarrow> hmac_error + string" where
  "signature_hex header =
    (let stripped = strip header;
         candidate = (if starts_with ''sha256='' (lower stripped) then drop 7 stripped else stripped) in
     if length candidate \<noteq> 64 then Inl (Hmac_refused ''invalid signature encoding'')
     else if \<not> fromhex_ok candidate then Inl (Hmac_refused ''invalid signature encoding'')
     else Inr (lower candidate))"

definition check_timestamp :: "string \<Rightarrow> rat \<Rightarrow> int \<Rightarrow> hmac_error + int" where
  "check_timestamp timestamp now window =
    (if \<not> timestamp_re timestamp then Inl (Hmac_refused ''invalid timestamp'')
     else let v = digits_value (strip timestamp) in
       if \<bar>now - of_int v\<bar> > of_int window then Inl (Hmac_refused ''timestamp outside the replay window'') else Inr v)"

definition verify_v2 :: "(bytes \<Rightarrow> bytes \<Rightarrow> string) \<Rightarrow> bytes \<Rightarrow> string \<Rightarrow> string \<Rightarrow> string \<Rightarrow> bytes \<Rightarrow> rat \<Rightarrow> int \<Rightarrow> hmac_error + int" where
  "verify_v2 hmac body header timestamp nonce secret now window =
    (if secret = [] then Inl (Hmac_value ''HMAC secret must be configured'')
     else if \<not> nonce_re nonce then Inl (Hmac_refused ''invalid nonce'')
     else case check_timestamp timestamp now window of
       Inl e \<Rightarrow> Inl e
     | Inr v \<Rightarrow> (case signature_hex header of
         Inl e \<Rightarrow> Inl e
       | Inr supplied \<Rightarrow> if supplied \<noteq> hmac secret (signed_material timestamp nonce body) then Inl (Hmac_refused ''signature mismatch'') else Inr v))"

definition verify_hmac_sha256 :: "(bytes \<Rightarrow> bytes \<Rightarrow> string) \<Rightarrow> bytes \<Rightarrow> string \<Rightarrow> bytes \<Rightarrow> hmac_error + bool" where
  "verify_hmac_sha256 hmac body header secret =
    (if secret = [] then Inl (Hmac_value ''HMAC secret must be configured'')
     else case signature_hex header of Inl e \<Rightarrow> Inl e | Inr supplied \<Rightarrow> Inr (supplied = hmac secret body))"

subsection \<open>The middleware\<close>

record ingress_config =
  ic_header :: string
  ic_secret :: bytes
  ic_paths :: "string list"
  ic_methods :: "string list"
  ic_max_body :: int
  ic_window :: int
  ic_max_nonces :: int
  ic_backend :: string

definition quoted :: "string \<Rightarrow> string" where "quoted s = [CHR 0x27] @ s @ [CHR 0x27]"

definition config_check :: "ingress_config \<Rightarrow> string + unit" where
  "config_check C =
    (if strip (ic_header C) = [] then Inl ''header_name is required''
     else if ic_secret C = [] then Inl ''secret is required''
     else if ic_paths C = [] then Inl ''at least one protected path is required''
     else if ic_max_body C \<le> 0 then Inl ''max_body_bytes must be positive''
     else if \<not> (1 \<le> ic_window C \<and> ic_window C \<le> 3600) then Inl ''replay_window_seconds must be between 1 and 3600''
     else if ic_max_nonces C \<le> 0 then Inl ''max_nonces must be positive''
     else if ic_backend C \<noteq> ''database'' \<and> ic_backend C \<noteq> ''memory'' then Inl (''replay_backend must be '' @ quoted ''database'' @ '' or '' @ quoted ''memory'')
     else Inr ())"

record asgi_scope =
  as_http :: bool
  as_path :: string
  as_method :: string
  as_headers :: "(bytes \<times> bytes) list"

datatype asgi_message = Http_request bytes bool | Http_disconnect | Other_message

text \<open>What reading the body comes to: the messages may run out with more to come.\<close>

datatype body_read = Body bytes | Body_too_large | Body_disconnected | Body_pending

fun read_body :: "int \<Rightarrow> bytes \<Rightarrow> asgi_message list \<Rightarrow> body_read" where
  "read_body limit sofar [] = Body_pending"
| "read_body limit sofar (m # ms) = (case m of
     Http_disconnect \<Rightarrow> Body_disconnected
   | Other_message \<Rightarrow> read_body limit sofar ms
   | Http_request chunk unfinished \<Rightarrow>
       if int (length (sofar @ chunk)) > limit then Body_too_large
       else if unfinished then read_body limit (sofar @ chunk) ms else Body (sofar @ chunk))"

text \<open>\<open>bytes.lower\<close> changes ASCII letters only; \<open>decode("ascii")\<close> fails beyond them.\<close>

definition ascii_lower :: "bytes \<Rightarrow> bytes" where
  "ascii_lower b = map (\<lambda>c. let n = of_char c :: nat in if 65 \<le> n \<and> n \<le> 90 then char_of (n + 32) else c) b"

definition get_header :: "(bytes \<times> bytes) list \<Rightarrow> bytes \<Rightarrow> string option" where
  "get_header headers key = (case map snd (filter (\<lambda>(k, _). ascii_lower k = key) headers) of
     [v] \<Rightarrow> if list_all (\<lambda>c. (of_char c :: nat) < 128) v then Some v else None
   | _ \<Rightarrow> None)"

text \<open>What becomes of a request: handed on as it came, handed on authenticated, or refused with a status.\<close>

datatype ingress_answer = Handed_on | Verified bytes | Refused nat | Waiting | Raised string

definition timestamp_header :: bytes where "timestamp_header = ''x-amc-timestamp''"
definition nonce_header :: bytes where "nonce_header = ''x-amc-nonce''"

definition is_protected :: "ingress_config \<Rightarrow> asgi_scope \<Rightarrow> bool" where
  "is_protected C sc = (as_http sc \<and> as_path sc \<in> set (ic_paths C) \<and> upper (as_method sc) \<in> upper ` set (ic_methods C))"

text \<open>After the body was read: verify, then record the nonce.\<close>

definition ingress_verify :: "ingress_config \<Rightarrow> (bytes \<Rightarrow> bytes \<Rightarrow> string) \<Rightarrow> string \<Rightarrow> string \<Rightarrow> string \<Rightarrow> bytes \<Rightarrow> rat \<Rightarrow> replay_store
    \<Rightarrow> ingress_answer \<times> replay_store" where
  "ingress_verify C hmac signature timestamp nonce body now st =
    (case verify_v2 hmac body signature timestamp nonce (ic_secret C) now (ic_window C) of
       Inl (Hmac_refused _) \<Rightarrow> (Refused 401, st)
     | Inl (Hmac_value e) \<Rightarrow> (Raised e, st)
     | Inr stamp \<Rightarrow>
         (case check_and_record (ic_window C) (nat (ic_max_nonces C)) nonce stamp now st of
            (Inl Replay_detected, st') \<Rightarrow> (Refused 401, st')
          | (Inl Replay_saturated, st') \<Rightarrow> (Refused 503, st')
          | (Inr _, st') \<Rightarrow> (Verified body, st')))"

text \<open>\<open>__call__\<close>; \<open>early\<close> and \<open>now\<close> are its two readings of the clock, before and after the body.\<close>

definition ingress :: "ingress_config \<Rightarrow> (bytes \<Rightarrow> bytes \<Rightarrow> string) \<Rightarrow> rat \<Rightarrow> rat \<Rightarrow> asgi_scope \<Rightarrow> asgi_message list \<Rightarrow> replay_store
    \<Rightarrow> ingress_answer \<times> replay_store" where
  "ingress C hmac early now sc messages st =
    (if \<not> is_protected C sc then (Handed_on, st)
     else case (get_header (as_headers sc) (lower (ic_header C)), get_header (as_headers sc) timestamp_header, get_header (as_headers sc) nonce_header) of
       (Some signature, Some timestamp, Some nonce) \<Rightarrow>
         (case check_timestamp timestamp early (ic_window C) of
            Inl _ \<Rightarrow> (Refused 401, st)
          | Inr _ \<Rightarrow>
              (case read_body (ic_max_body C) [] messages of
                 Body_pending \<Rightarrow> (Waiting, st)
               | Body_too_large \<Rightarrow> (Refused 413, st)
               | Body_disconnected \<Rightarrow> (Refused 401, st)
               | Body body \<Rightarrow> ingress_verify C hmac signature timestamp nonce body now st))
     | _ \<Rightarrow> (Refused 401, st))"

end
