(* ===== verification/Ingress_Safety.thy ===== *)
theory Ingress_Safety
  imports Ingress
begin

section \<open>What the ingress promises\<close>

text \<open>
  A protected request reaches the application as authenticated only with a fresh signature over its own
  timestamp, nonce and body, and unauthenticated traffic leaves the nonce store alone. The contract of
  a nonce store is a locale; the store in memory, the one in the database and the store the middleware
  builds satisfy it, and it excludes that a request is accepted twice.
\<close>

subsection \<open>The contract of a nonce store\<close>

locale nonce_store =
  fixes window :: int
    and check :: "string \<Rightarrow> int \<Rightarrow> rat \<Rightarrow> 's \<Rightarrow> (replay_error + unit) \<times> 's"
    and remembers :: "'s \<Rightarrow> string \<Rightarrow> int \<Rightarrow> bool"
  assumes accepts: "check n stamp now s = (Inr (), s') \<Longrightarrow> remembers s' n (stamp + window) \<and> (\<forall>e. remembers s n e \<longrightarrow> of_int e < now)"
    and keeps_live: "check n stamp now s = (out, s') \<Longrightarrow> remembers s m e \<Longrightarrow> now \<le> of_int e \<Longrightarrow> remembers s' m e"
begin

text \<open>
  A run of requests, each with its moment and, if it gets that far, the nonce and timestamp it is checked
  with; and what the checks answered.
\<close>

primrec outcomes :: "(rat \<times> (string \<times> int) option) list \<Rightarrow> 's \<Rightarrow> (replay_error + unit) option list" where
  "outcomes [] s = []"
| "outcomes (x # xs) s = (case x of
     (now, None) \<Rightarrow> None # outcomes xs s
   | (now, Some (n, stamp)) \<Rightarrow> case check n stamp now s of (out, s') \<Rightarrow> Some out # outcomes xs s')"

lemma refused_while_live:
  assumes "remembers s n e" "sorted (map fst xs)" "j < length xs" "xs ! j = (now, Some (n, stamp))" "now \<le> of_int e"
  shows "outcomes xs s ! j \<noteq> Some (Inr ())"
  using assms
proof (induction xs arbitrary: s j)
  case (Cons x xs)
  obtain t q where x: "x = (t, q)" by (cases x) auto
  show ?case
  proof (cases j)
    case 0
    then have q: "q = Some (n, stamp)" "t = now" using Cons.prems(4) x by auto
    obtain out s' where "check n stamp now s = (out, s')" by (rule prod.exhaust)
    then show ?thesis using Cons.prems(1,5) accepts [of n stamp now s s'] x q 0 by (cases out) (auto simp: not_less [symmetric])
  next
    case (Suc i)
    have t: "t \<le> now" using Cons.prems(2-4) x Suc by (force simp: in_set_conv_nth)
    show ?thesis
    proof (cases q)
      case None
      then show ?thesis using Cons.IH [of s i] Cons.prems Suc x by simp
    next
      case (Some m)
      obtain k u where m: "m = (k, u)" by (cases m) auto
      obtain out s' where c: "check k u t s = (out, s')" by (rule prod.exhaust)
      have "remembers s' n e" using keeps_live [OF c Cons.prems(1)] Cons.prems(5) t by simp
      then show ?thesis using Cons.IH [of s' i] Cons.prems Suc x c Some m by simp
    qed
  qed
qed simp

lemma accepted_once:
  assumes "sorted (map fst xs)" "i < j" "j < length xs" "xs ! i = (now, Some (n, stamp))" "xs ! j = (now', Some (n, stamp'))"
    and "outcomes xs s ! i = Some (Inr ())" "now' \<le> of_int (stamp + window)"
  shows "outcomes xs s ! j \<noteq> Some (Inr ())"
  using assms
proof (induction xs arbitrary: s i j)
  case (Cons x xs)
  obtain t q where x: "x = (t, q)" by (cases x) auto
  obtain k where k: "j = Suc k" using Cons.prems(2) by (cases j) auto
  show ?case
  proof (cases i)
    case 0
    then have q: "q = Some (n, stamp)" "t = now" using Cons.prems(4) x by auto
    obtain out s' where c: "check n stamp now s = (out, s')" by (rule prod.exhaust)
    then have "out = Inr ()" using Cons.prems(6) x q 0 by simp
    then have "remembers s' n (stamp + window)" using accepts c by blast
    then have "outcomes xs s' ! k \<noteq> Some (Inr ())"
      using Cons.prems k x by (intro refused_while_live [where n = n and e = "stamp + window" and now = now' and stamp = stamp']) simp_all
    then show ?thesis using k x c q by simp
  next
    case (Suc h)
    show ?thesis
    proof (cases q)
      case None
      then show ?thesis using Cons.IH [where i = h and j = k and s = s] Cons.prems k x Suc by simp
    next
      case (Some m)
      obtain l u where m: "m = (l, u)" by (cases m) auto
      obtain out s' where "check l u t s = (out, s')" by (rule prod.exhaust)
      then show ?thesis using Cons.IH [where i = h and j = k and s = s'] Cons.prems k x Suc Some m by simp
    qed
  qed
qed simp

end

subsection \<open>The stores\<close>

definition memory_remembers :: "(string \<times> rat) list \<Rightarrow> string \<Rightarrow> int \<Rightarrow> bool" where
  "memory_remembers s n e = ((n, of_int e) \<in> set s)"

definition database_remembers :: "nonce_row list \<Rightarrow> string \<Rightarrow> int \<Rightarrow> bool" where
  "database_remembers rows n e = (\<exists>r\<in>set rows. nr_nonce r = n \<and> nr_expires r = e)"

definition store_remembers :: "replay_store \<Rightarrow> string \<Rightarrow> int \<Rightarrow> bool" where
  "store_remembers st = (case st of Memory_store s \<Rightarrow> memory_remembers s | Database_store rows \<Rightarrow> database_remembers rows)"

lemma trunc_le: "now \<le> of_int e \<Longrightarrow> \<not> e < trunc now"
  unfolding trunc_def by (auto simp: ceiling_le_iff le_floor_iff not_less floor_le_iff intro: order_trans)

interpretation memory_nonces: nonce_store window "check_memory window cap" memory_remembers
proof
  show "memory_remembers s' n (stamp + window) \<and> (\<forall>e. memory_remembers s n e \<longrightarrow> of_int e < now)"
    if "check_memory window cap n stamp now s = (Inr (), s')" for n stamp now s s'
    using that by (force simp: check_memory_def Let_def purge_def memory_remembers_def split: if_splits)
  show "memory_remembers s' m e"
    if "check_memory window cap n stamp now s = (out, s')" "memory_remembers s m e" "now \<le> of_int e" for n stamp now s out s' m e
    using that by (auto simp: check_memory_def Let_def purge_def memory_remembers_def split: if_splits)
qed

interpretation database_nonces: nonce_store window "check_database window cap" database_remembers
proof
  show "database_remembers s' n (stamp + window) \<and> (\<forall>e. database_remembers s n e \<longrightarrow> of_int e < now)"
    if c: "check_database window cap n stamp now s = (Inr (), s')" for n stamp now s s'
  proof -
    have "of_int e < now" if "database_remembers s n e" for e
    proof (rule ccontr)
      assume "\<not> of_int e < now"
      then have "\<not> e < trunc now" by (simp add: trunc_le)
      then show False using c that by (auto simp: check_database_def Let_def database_remembers_def split: if_splits)
    qed
    then show ?thesis using c by (auto simp: check_database_def Let_def database_remembers_def split: if_splits)
  qed
  show "database_remembers s' m e"
    if "check_database window cap n stamp now s = (out, s')" "database_remembers s m e" "now \<le> of_int e" for n stamp now s out s' m e
    using that trunc_le [of now e] by (auto simp: check_database_def Let_def database_remembers_def split: if_splits)
qed

interpretation nonces: nonce_store window "check_and_record window cap" store_remembers
proof
  show "store_remembers s' n (stamp + window) \<and> (\<forall>e. store_remembers s n e \<longrightarrow> of_int e < now)"
    if "check_and_record window cap n stamp now s = (Inr (), s')" for n stamp now s s'
    using that memory_nonces.accepts database_nonces.accepts
    by (cases s) (auto simp: check_and_record_def store_remembers_def map_prod_def split: prod.splits)
  show "store_remembers s' m e"
    if "check_and_record window cap n stamp now s = (out, s')" "store_remembers s m e" "now \<le> of_int e" for n stamp now s out s' m e
    using that memory_nonces.keeps_live database_nonces.keeps_live
    by (cases s) (auto simp: check_and_record_def store_remembers_def map_prod_def split: prod.splits)
qed

subsection \<open>Requests\<close>

record request =
  rq_early :: rat
  rq_now :: rat
  rq_scope :: asgi_scope
  rq_messages :: "asgi_message list"

primrec ingress_run :: "ingress_config \<Rightarrow> (bytes \<Rightarrow> bytes \<Rightarrow> string) \<Rightarrow> request list \<Rightarrow> replay_store \<Rightarrow> ingress_answer list \<times> replay_store" where
  "ingress_run C hmac [] st = ([], st)"
| "ingress_run C hmac (q # qs) st =
    (let (ans, st1) = ingress C hmac (rq_early q) (rq_now q) (rq_scope q) (rq_messages q) st; (rest, st2) = ingress_run C hmac qs st1
     in (ans # rest, st2))"

text \<open>The timestamp and nonce a request is checked with, if it gets that far.\<close>

definition checked_with :: "ingress_config \<Rightarrow> (bytes \<Rightarrow> bytes \<Rightarrow> string) \<Rightarrow> request \<Rightarrow> (string \<times> int \<times> bytes) option" where
  "checked_with C hmac q =
    (if \<not> is_protected C (rq_scope q) then None
     else case (get_header (as_headers (rq_scope q)) (lower (ic_header C)), get_header (as_headers (rq_scope q)) timestamp_header,
         get_header (as_headers (rq_scope q)) nonce_header, read_body (ic_max_body C) [] (rq_messages q)) of
       (Some signature, Some timestamp, Some nonce, Body body) \<Rightarrow>
         (case check_timestamp timestamp (rq_early q) (ic_window C) of
            Inl _ \<Rightarrow> None
          | Inr _ \<Rightarrow> (case verify_v2 hmac body signature timestamp nonce (ic_secret C) (rq_now q) (ic_window C) of
              Inl _ \<Rightarrow> None | Inr stamp \<Rightarrow> Some (nonce, stamp, body)))
     | _ \<Rightarrow> None)"

text \<open>The middleware is its check: whatever gets there is answered by the store, all else leaves it alone.\<close>

lemma ingress_checked:
  "ingress C hmac (rq_early q) (rq_now q) (rq_scope q) (rq_messages q) st = (ans, st') \<Longrightarrow>
    (case checked_with C hmac q of
       None \<Rightarrow> st' = st \<and> (\<forall>b. ans \<noteq> Verified b)
     | Some (n, stamp, body) \<Rightarrow> \<exists>out. check_and_record (ic_window C) (nat (ic_max_nonces C)) n stamp (rq_now q) st = (out, st') \<and>
         (\<forall>b. ans = Verified b \<longleftrightarrow> out = Inr () \<and> b = body))"
  by (auto simp: ingress_def ingress_verify_def checked_with_def split: option.splits sum.splits body_read.splits hmac_error.splits prod.splits
      replay_error.splits if_splits)

lemma verified_fresh:
  assumes "verify_v2 hmac body header timestamp nonce secret now window = Inr stamp"
  shows "nonce_re nonce \<and> timestamp_re timestamp \<and> stamp = digits_value (strip timestamp) \<and> \<bar>now - of_int stamp\<bar> \<le> of_int window \<and>
    signature_hex header = Inr (hmac secret (signed_material timestamp nonce body))"
  using assms by (auto simp: verify_v2_def check_timestamp_def Let_def split: if_splits sum.splits)

subsection \<open>Authentication\<close>

lemma read_body_bound: "read_body limit sofar ms = Body b \<Longrightarrow> int (length b) \<le> limit"
  by (induction limit sofar ms rule: read_body.induct) (auto split: asgi_message.splits if_splits)

text \<open>A protected request with a fresh signature over its timestamp, its nonce and its body, within the limit.\<close>

definition authentic :: "ingress_config \<Rightarrow> (bytes \<Rightarrow> bytes \<Rightarrow> string) \<Rightarrow> request \<Rightarrow> bool" where
  "authentic C hmac q =
    (case (get_header (as_headers (rq_scope q)) (lower (ic_header C)), get_header (as_headers (rq_scope q)) timestamp_header,
        get_header (as_headers (rq_scope q)) nonce_header, read_body (ic_max_body C) [] (rq_messages q)) of
       (Some signature, Some timestamp, Some nonce, Body body) \<Rightarrow>
         is_protected C (rq_scope q) \<and> nonce_re nonce \<and> timestamp_re timestamp \<and>
         \<bar>rq_now q - of_int (digits_value (strip timestamp))\<bar> \<le> of_int (ic_window C) \<and> int (length body) \<le> ic_max_body C \<and>
         signature_hex signature = Inr (hmac (ic_secret C) (signed_material timestamp nonce body))
     | _ \<Rightarrow> False)"

lemma checked_authentic: "checked_with C hmac q = Some x \<Longrightarrow> authentic C hmac q"
  using read_body_bound
  by (auto simp: checked_with_def authentic_def split: if_splits option.splits sum.splits body_read.splits dest!: verified_fresh)

text \<open>
  C21. A request reaches the application as authenticated, or changes the nonce store, only if it carries a
  fresh signature under the secret over its own timestamp, nonce and body, and its body is within the
  limit.
\<close>

theorem ingress_authenticates:
  assumes "ingress C hmac (rq_early q) (rq_now q) (rq_scope q) (rq_messages q) st = (ans, st')"
    and "ans = Verified b \<or> st' \<noteq> st"
  shows "authentic C hmac q"
proof (cases "checked_with C hmac q")
  case None
  then show ?thesis using ingress_checked [OF assms(1)] assms(2) by simp
qed (rule checked_authentic)

subsection \<open>Replays\<close>

definition check_event :: "ingress_config \<Rightarrow> (bytes \<Rightarrow> bytes \<Rightarrow> string) \<Rightarrow> request \<Rightarrow> rat \<times> (string \<times> int) option" where
  "check_event C hmac q = (rq_now q, map_option (\<lambda>(n, stamp, _). (n, stamp)) (checked_with C hmac q))"

lemma length_ingress_run [simp]: "length (fst (ingress_run C hmac qs st)) = length qs"
  by (induction qs arbitrary: st) (auto simp: split_beta)

lemma run_outcomes:
  "j < length qs \<Longrightarrow> (\<exists>b. fst (ingress_run C hmac qs st) ! j = Verified b) \<longleftrightarrow>
    nonces.outcomes (ic_window C) (nat (ic_max_nonces C)) (map (check_event C hmac) qs) st ! j = Some (Inr ())"
proof (induction qs arbitrary: st j)
  case (Cons q qs)
  obtain ans st1 where i: "ingress C hmac (rq_early q) (rq_now q) (rq_scope q) (rq_messages q) st = (ans, st1)" by (rule prod.exhaust)
  note c = ingress_checked [OF i]
  show ?case
  proof (cases "checked_with C hmac q")
    case None
    then show ?thesis using c i Cons.IH [of _ st1] Cons.prems by (cases j) (auto simp: check_event_def split_beta)
  next
    case (Some x)
    then show ?thesis using c i Cons.IH [of _ st1] Cons.prems by (cases x; cases j) (auto simp: check_event_def split_beta)
  qed
qed simp

text \<open>Two requests with the same nonce and timestamp headers, as every replay of a request has.\<close>

definition same_credentials :: "request \<Rightarrow> request \<Rightarrow> bool" where
  "same_credentials q q' = (get_header (as_headers (rq_scope q)) timestamp_header = get_header (as_headers (rq_scope q')) timestamp_header \<and>
     get_header (as_headers (rq_scope q)) nonce_header = get_header (as_headers (rq_scope q')) nonce_header)"

lemma checked_credentials:
  assumes "checked_with C hmac q = Some (n, stamp, b)" "checked_with C hmac q' = Some (n', stamp', b')" "same_credentials q q'"
  shows "n' = n \<and> stamp' = stamp \<and> rq_now q' \<le> of_int (stamp + ic_window C)"
  using assms
  by (auto simp: checked_with_def same_credentials_def split: if_splits option.splits sum.splits body_read.splits dest!: verified_fresh)

text \<open>
  C22. A request is accepted once: of two requests with the same timestamp and nonce, whatever else they
  carry and whatever comes between them, the second is never authenticated, as long as the requests are
  checked in the order of their moments.
\<close>

theorem replay_refused:
  assumes "sorted (map rq_now qs)" and "i < j" and "j < length qs" and "same_credentials (qs ! i) (qs ! j)"
    and "fst (ingress_run C hmac qs st) ! i = Verified b"
  shows "fst (ingress_run C hmac qs st) ! j \<noteq> Verified b'"
proof
  let ?xs = "map (check_event C hmac) qs"
  assume "fst (ingress_run C hmac qs st) ! j = Verified b'"
  then have oj: "nonces.outcomes (ic_window C) (nat (ic_max_nonces C)) ?xs st ! j = Some (Inr ())" using run_outcomes assms(3) by blast
  have oi: "nonces.outcomes (ic_window C) (nat (ic_max_nonces C)) ?xs st ! i = Some (Inr ())"
    using run_outcomes [of i qs C hmac st] assms(2,3,5) by auto
  have some: "checked_with C hmac (qs ! k) \<noteq> None"
    if "k < length qs" "nonces.outcomes (ic_window C) (nat (ic_max_nonces C)) ?xs st ! k = Some (Inr ())" for k
    using that
  proof (induction qs arbitrary: st k)
    case (Cons q qs)
    then show ?case
      by (cases k; cases "checked_with C hmac q") (auto simp: check_event_def split: prod.splits)
  qed simp
  obtain n stamp c where i: "checked_with C hmac (qs ! i) = Some (n, stamp, c)" using some [OF _ oi] assms(2,3) by fastforce
  obtain n' stamp' c' where j: "checked_with C hmac (qs ! j) = Some (n', stamp', c')" using some [OF _ oj] assms(3) by fastforce
  note same = checked_credentials [OF i j assms(4)]
  have "nonces.outcomes (ic_window C) (nat (ic_max_nonces C)) ?xs st ! j \<noteq> Some (Inr ())"
    using assms(1-3) i j same oi
    by (intro nonces.accepted_once [where i = i and n = n and stamp = stamp and stamp' = stamp and now = "rq_now (qs ! i)" and now' = "rq_now (qs ! j)"])
      (simp_all add: check_event_def comp_def)
  then show False using oj by simp
qed

subsection \<open>What the signature binds\<close>

text \<open>
  Without a newline in timestamp and nonce, which their patterns exclude except at the end, the signed
  bytes determine all three parts. With one the parts can be told apart in two ways.
\<close>

lemma material_binds:
  assumes "CHR 0x0A \<notin> set t" "CHR 0x0A \<notin> set t'" "CHR 0x0A \<notin> set n" "CHR 0x0A \<notin> set n'" "signed_material t n b = signed_material t' n' b'"
  shows "t = t' \<and> n = n' \<and> b = b'"
proof -
  have "t @ CHR 0x0A # (n @ CHR 0x0A # b) = t' @ CHR 0x0A # (n' @ CHR 0x0A # b')"
    using assms(5) by (simp add: signed_material_def newline_def)
  then have "t = t'" "n @ CHR 0x0A # b = n' @ CHR 0x0A # b'" using assms(1,2) by (auto dest: split_at_char)
  then show ?thesis using assms(3,4) by (auto dest: split_at_char)
qed

lemma material_ambiguous: "signed_material t (n @ newline) b = signed_material t n (newline @ b)"
  by (simp add: signed_material_def)

subsection \<open>A request and its replay\<close>

definition ingress_sample :: ingress_config where
  "ingress_sample = \<lparr>ic_header = ''X-Sig'', ic_secret = ''k'', ic_paths = [''/in''], ic_methods = [''POST''], ic_max_body = 9, ic_window = 300,
     ic_max_nonces = 9, ic_backend = ''database''\<rparr>"

definition sample_mac :: "bytes \<Rightarrow> bytes \<Rightarrow> string" where
  "sample_mac k m = replicate 64 (CHR ''a'')"

definition signed_request :: "rat \<Rightarrow> request" where
  "signed_request now = \<lparr>rq_early = now, rq_now = now, rq_scope = \<lparr>as_http = True, as_path = ''/in'', as_method = ''post'',
     as_headers = [(''X-Sig'', ''sha256='' @ replicate 64 (CHR ''A'')), (timestamp_header, ''100''), (nonce_header, replicate 16 (CHR ''n''))]\<rparr>,
     rq_messages = [Other_message, Http_request ''b'' False]\<rparr>"

lemma sample_answer:
  "fst (ingress ingress_sample sample_mac (rq_early (signed_request 100)) (rq_now (signed_request 100)) (rq_scope (signed_request 100))
     (rq_messages (signed_request 100)) (Memory_store [])) = Verified ''b''"
  by code_simp

theorem ingress_authenticates_witness: "authentic ingress_sample sample_mac (signed_request 100)"
  using ingress_authenticates [OF prod.collapse [symmetric], of ingress_sample sample_mac "signed_request 100" "Memory_store []" "''b''"]
    sample_answer by blast

theorem replay_refused_witness:
  "(let answers = fst (ingress_run ingress_sample sample_mac [signed_request 100, signed_request 200] (Memory_store [])) in
    answers ! 0 = Verified ''b'' \<and> answers ! 1 \<noteq> Verified ''b'')"
proof -
  let ?qs = "[signed_request 100, signed_request 200]"
  have head: "fst (ingress_run C h (q # qs) st) ! 0 = fst (ingress C h (rq_early q) (rq_now q) (rq_scope q) (rq_messages q) st)" for C h q qs st
    by (simp add: split_beta)
  have first: "fst (ingress_run ingress_sample sample_mac ?qs (Memory_store [])) ! 0 = Verified ''b''" unfolding head by (rule sample_answer)
  have creds: "same_credentials (?qs ! 0) (?qs ! 1)" unfolding same_credentials_def by (simp add: signed_request_def)
  have order: "sorted (map rq_now ?qs)" by (simp add: signed_request_def)
  have "fst (ingress_run ingress_sample sample_mac ?qs (Memory_store [])) ! 1 \<noteq> Verified ''b''"
    by (rule replay_refused [OF order _ _ creds first]) simp_all
  with first show ?thesis by (simp only: Let_def simp_thms)
qed

end
