(* ===== verification/Shared_Halts.thy ===== *)
theory Shared_Halts
  imports Ingress_Safety Adapters
begin

section \<open>Halts and one-time tokens shared by all workers\<close>

text \<open>
  Models \<^verbatim>\<open>security/distributed.py\<close>: the halts a scope can be put under and the memory of capability
  tokens, both in the database. Checking a halt that expired is two transactions, the read and the
  removal; they are separate definitions, so that other workers may run between them. The token memory
  is one more nonce store. Creating the tables never decides anything and is left out.
\<close>

record halt =
  ha_scope :: string
  ha_key :: string
  ha_reason :: string
  ha_issuer :: string
  ha_created :: string
  ha_expires :: "string option"

definition halt_id :: "string \<Rightarrow> string \<Rightarrow> string" where
  "halt_id scope key = scope @ '':'' @ key"

text \<open>The table is keyed by the halt's id; a second halt of the same scope and key replaces the first.\<close>

type_synonym halt_table = "(string \<times> halt) list"

definition set_halt :: "string \<Rightarrow> string \<Rightarrow> string \<Rightarrow> string \<Rightarrow> string option \<Rightarrow> int \<Rightarrow> halt_table \<Rightarrow> halt_table" where
  "set_halt scope key reason issuer expires now rows =
    filter (\<lambda>(k, h). k \<noteq> halt_id scope key \<and> \<not> (ha_scope h = scope \<and> ha_key h = key)) rows @
    [(halt_id scope key, \<lparr>ha_scope = scope, ha_key = key, ha_reason = reason, ha_issuer = issuer, ha_created = isoformat now, ha_expires = expires\<rparr>)]"

definition clear_halt_shared :: "string \<Rightarrow> string \<Rightarrow> halt_table \<Rightarrow> bool \<times> halt_table" where
  "clear_halt_shared scope key rows =
    (length (filter (\<lambda>(k, _). k = halt_id scope key) rows) > 0, filter (\<lambda>(k, _). k \<noteq> halt_id scope key) rows)"

text \<open>The read of \<open>check_halt\<close>: no halt, one in force, or one that expired and is to be removed.\<close>

datatype halt_read = No_halt | In_force halt | Expired

definition read_halt :: "string \<Rightarrow> string \<Rightarrow> int \<Rightarrow> halt_table \<Rightarrow> halt_read" where
  "read_halt scope key now rows = (case map_of rows (halt_id scope key) of
     None \<Rightarrow> No_halt
   | Some h \<Rightarrow> (case ha_expires h of
       None \<Rightarrow> In_force h
     | Some e \<Rightarrow> if e \<noteq> [] \<and> e < isoformat now then Expired else In_force h))"

definition check_halt :: "string \<Rightarrow> string \<Rightarrow> int \<Rightarrow> halt_table \<Rightarrow> halt option \<times> halt_table" where
  "check_halt scope key now rows = (case read_halt scope key now rows of
     No_halt \<Rightarrow> (None, rows)
   | In_force h \<Rightarrow> (Some h, rows)
   | Expired \<Rightarrow> (None, snd (clear_halt_shared scope key rows)))"

text \<open>An optional name counts when it is a non-empty text.\<close>

definition named :: "string \<Rightarrow> string option \<Rightarrow> (string \<times> string) list" where
  "named scope v = (case v of None \<Rightarrow> [] | Some s \<Rightarrow> if s = [] then [] else [(scope, s)])"

definition halt_scopes :: "string \<Rightarrow> string option \<Rightarrow> string option \<Rightarrow> string option \<Rightarrow> string option \<Rightarrow> (string \<times> string) list" where
  "halt_scopes global tenant agent job tool =
    [(''global'', global)] @ named ''tenant'' tenant @ named ''agent'' agent @ named ''job'' job @ named ''tool'' tool"

fun first_halt :: "(string \<times> string) list \<Rightarrow> (nat \<Rightarrow> int) \<Rightarrow> halt_table \<Rightarrow> halt option \<times> halt_table" where
  "first_halt [] clock rows = (None, rows)"
| "first_halt ((scope, key) # scopes) clock rows = (case check_halt scope key (clock 0) rows of
     (Some h, rows') \<Rightarrow> (Some h, rows')
   | (None, rows') \<Rightarrow> first_halt scopes (\<lambda>n. clock (Suc n)) rows')"

definition check_any_halt :: "string \<Rightarrow> string option \<Rightarrow> string option \<Rightarrow> string option \<Rightarrow> string option \<Rightarrow> (nat \<Rightarrow> int) \<Rightarrow> halt_table
    \<Rightarrow> halt option \<times> halt_table" where
  "check_any_halt global tenant agent job tool clock rows = first_halt (halt_scopes global tenant agent job tool) clock rows"

text \<open>\<open>ToolExecutionPolicy.check_halt\<close>: the text of the \<open>PermissionError\<close>, or nothing.\<close>

definition policy_check_halt :: "string \<Rightarrow> string option \<Rightarrow> string option \<Rightarrow> string option \<Rightarrow> (nat \<Rightarrow> int) \<Rightarrow> halt_table
    \<Rightarrow> (string + unit) \<times> halt_table" where
  "policy_check_halt tenant agent job tool clock rows = (case check_any_halt ''global'' (Some tenant) agent job tool clock rows of
     (Some h, rows') \<Rightarrow> (Inl (''HALTED:'' @ ha_scope h @ '':'' @ ha_key h @ '':'' @ ha_reason h), rows')
   | (None, rows') \<Rightarrow> (Inr (), rows'))"

definition validate_tenant_scope :: "string \<Rightarrow> string \<Rightarrow> string + unit" where
  "validate_tenant_scope principal_tenant resource_tenant =
    (if principal_tenant \<noteq> resource_tenant then Inl ''TENANT_ISOLATION_VIOLATION'' else Inr ())"

subsection \<open>Capability tokens\<close>

record jti_row =
  jr_jti :: string
  jr_issuer :: string
  jr_tenant :: "string option"
  jr_expires :: int
  jr_recorded :: int

definition max_jtis :: nat where "max_jtis = 10000"

text \<open>A raise rolls the transaction back.\<close>

definition check_and_record_jti :: "nat \<Rightarrow> string \<Rightarrow> string option \<Rightarrow> string \<Rightarrow> int \<Rightarrow> int \<Rightarrow> jti_row list \<Rightarrow> (replay_error + unit) \<times> jti_row list" where
  "check_and_record_jti cap issuer tenant jti expires now rows =
    (let rows1 = filter (\<lambda>r. \<not> jr_expires r < now) rows in
     if \<exists>r\<in>set rows1. jr_jti r = jti then (Inl Replay_detected, rows)
     else if length (filter (\<lambda>r. jr_expires r \<ge> now) rows1) \<ge> cap then (Inl Replay_saturated, rows)
     else (Inr (), rows1 @ [\<lparr>jr_jti = jti, jr_issuer = issuer, jr_tenant = tenant, jr_expires = expires, jr_recorded = now\<rparr>]))"

definition jti_remembers :: "jti_row list \<Rightarrow> string \<Rightarrow> int \<Rightarrow> bool" where
  "jti_remembers rows j e = (\<exists>r\<in>set rows. jr_jti r = j \<and> jr_expires r = e)"

text \<open>\<open>validate_replay\<close> reads the clock and keeps its whole seconds.\<close>

definition validate_replay :: "string \<Rightarrow> string option \<Rightarrow> string \<Rightarrow> int \<Rightarrow> rat \<Rightarrow> jti_row list \<Rightarrow> (replay_error + unit) \<times> jti_row list" where
  "validate_replay issuer tenant jti expires now rows = check_and_record_jti max_jtis issuer tenant jti expires \<lfloor>now\<rfloor> rows"

text \<open>The token memory keeps the contract of a nonce store.\<close>

interpretation jtis: nonce_store 0 "validate_replay issuer tenant" jti_remembers
proof
  show "jti_remembers s' n (stamp + 0) \<and> (\<forall>e. jti_remembers s n e \<longrightarrow> of_int e < now)"
    if "validate_replay issuer tenant n stamp now s = (Inr (), s')" for n stamp now s s'
    using that by (auto simp: validate_replay_def check_and_record_jti_def Let_def jti_remembers_def less_floor_iff split: if_splits)
  show "jti_remembers s' m e"
    if "validate_replay issuer tenant n stamp now s = (out, s')" "jti_remembers s m e" "now \<le> of_int e"
    for n stamp now s out s' m e
    using that by (auto simp: validate_replay_def check_and_record_jti_def Let_def jti_remembers_def less_floor_iff split: if_splits)
qed

subsection \<open>Halts\<close>

lemma read_set_halt: "read_halt scope key now (set_halt scope key reason issuer None moment rows) =
    In_force \<lparr>ha_scope = scope, ha_key = key, ha_reason = reason, ha_issuer = issuer, ha_created = isoformat moment, ha_expires = None\<rparr>"
proof -
  have "map_of (filter (\<lambda>(k, h). k \<noteq> halt_id scope key \<and> \<not> (ha_scope h = scope \<and> ha_key h = key)) rows) (halt_id scope key) = None"
    by (auto simp: map_of_eq_None_iff)
  then show ?thesis by (simp add: read_halt_def set_halt_def map_add_def)
qed

text \<open>
  The removal of an expired halt names its key alone: a halt set between the read and the removal is
  lost with it.
\<close>

lemma new_halt_lost:
  "read_halt scope key now (snd (clear_halt_shared scope key (set_halt scope key reason issuer None moment rows))) = No_halt"
proof -
  have "map_of (filter (\<lambda>(k, _). k \<noteq> halt_id scope key) rs) (halt_id scope key) = None" for rs :: halt_table
    by (auto simp: map_of_eq_None_iff)
  then show ?thesis by (simp add: read_halt_def clear_halt_shared_def)
qed

end
