(* ===== verification/Spec2Isabelle.thy ===== *)
theory Spec2Isabelle
  imports Trust_Safety Action_Safety Approval_Safety Adapter_Safety Gateway_Witness Tick_Safety Build_Order Lifecycle Bounds_Safety Queue_Safety Idempotency Shared_Halts
begin

text \<open>
  Agent Mission Control OS: the action plane, the trust kernel and the durable runtime of
  \<^verbatim>\<open>src/services/langgraph/\<close>, paths below being relative to that directory.

  The program. An agent proposes an action on an outside system. The gateway
  (\<^verbatim>\<open>agency/actions/gateway.py\<close>) screens its arguments (\<^verbatim>\<open>safety.py\<close>), looks its descriptor up
  (\<^verbatim>\<open>catalog.py\<close>), lets the risk engine (\<^verbatim>\<open>risk.py\<close>) class it, asks for a human approval where the
  class needs one (\<^verbatim>\<open>persistence/approvals.py\<close>, \<^verbatim>\<open>security/approval_authority.py\<close>,
  \<^verbatim>\<open>security/approval_framing.py\<close>), obtains a permit from the broker (\<^verbatim>\<open>broker.py\<close>), reserves the
  budget and dispatches to an adapter (\<^verbatim>\<open>adapters.py\<close>) under a lease, observes the effect and commits,
  compensates or leaves it UNKNOWN for reconciliation. Every state change is a compare-and-set on a
  versioned row with an entry in a hash-chained history (\<^verbatim>\<open>persistence/actions.py\<close>,
  \<^verbatim>\<open>execution/canonical.py\<close>). The trust kernel (\<^verbatim>\<open>agency/reliability/\<close>) keeps missions, idempotent
  requests, budgets, an outbox and an audit chain over a store that is in memory or in SQLite. The
  durable runtime (\<^verbatim>\<open>agency/durable/\<close>, \<^verbatim>\<open>persistence/durable_runs.py\<close>) runs scheduled jobs as ticks
  under leases and fence tokens with a write-ahead intent log. \<^verbatim>\<open>agency/durable/build_dag.py\<close> orders
  the build, \<^verbatim>\<open>agency/kernel/lifecycle.py\<close> moves engagements, workstreams and artifacts.
  \<^verbatim>\<open>agency/reliability/execution_bounds.py\<close> limits what one session may call; \<^verbatim>\<open>persistence/jobs.py\<close> leases
  jobs to workers, \<^verbatim>\<open>persistence/idempotency.py\<close> replays recorded answers, and
  \<^verbatim>\<open>security/hmac_ingress.py\<close> with its nonce stores authenticates requests.

  Shared theories. \<open>AMC_Prelude\<close> has the row-table and text lemmas and the collections every component
  uses; \<open>Prog_Monad\<close> the programs: a function from the state to \<open>Inl\<close> an exception or \<open>Inr\<close> a value, and
  the state it leaves, so an exception keeps the writes before it, and \<open>atomic\<close> undoes them as
  \<^verbatim>\<open>with transaction(write=True)\<close> does; \<open>Frames\<close> two judgements with a rule per construct (what a
  program leaves alone, what it keeps true); \<open>Runtime\<close> the environment; \<open>Hash_Chain\<close> the locale of every
  tamper-evident history; \<open>Regex\<close> the patterns of Python's \<^verbatim>\<open>re\<close> with a matcher proved equal to their
  meaning; \<open>Calendar\<close> the timestamps and that printing and parsing are inverse.
\<close>

text \<open>
  Theories and what they model.
  \<open>Vocabulary\<close>, \<open>Risk\<close>, \<open>Action_Fsm\<close>, \<open>Action_Models\<close>, \<open>Canonical\<close>: \<^verbatim>\<open>actions/vocabulary.py\<close>, \<^verbatim>\<open>risk.py\<close>,
  \<^verbatim>\<open>fsm.py\<close>, \<^verbatim>\<open>models.py\<close> and \<^verbatim>\<open>execution/canonical.py\<close>: the classification is monotone and fails
  closed, the encoding is injective and independent of the order of keys.
  \<open>Action_Store\<close>, \<open>Action_History\<close>, \<open>Action_Safety\<close>: \<^verbatim>\<open>persistence/actions.py\<close>: compare-and-set, chained
  histories, budgets within their ceilings, no lost update.
  \<open>Approval_Framing\<close>, \<open>Approvals\<close>, \<open>Approval_Safety\<close>: framing, decisions and who may take them.
  \<open>Catalog\<close>, \<open>Safety\<close>, \<open>Adapters\<close>, \<open>Adapter_Safety\<close>: descriptors, argument screens, the sandbox adapters
  and that one effect key has at most one effect.
  \<open>Proof_Store\<close>, \<open>Broker\<close>, \<open>Release\<close>, \<open>Governance\<close>: permits and receipts, promotion, freezes, autonomy.
  \<open>Gateway\<close> is \<^verbatim>\<open>gateway.py\<close> operation by operation; \<open>Gateway_Frames\<close> what each leaves alone;
  \<open>Gateway_Machine\<close> the inductive relation of any sequence of operations by any principals, its invariant
  and the safety of a dispatch; \<open>Gateway_Safety\<close> the lemmas per operation; \<open>Gateway_Witness\<close> one run evaluated
  from the proposal to the committed effect.
  \<open>Trust_Store\<close>, \<open>Trust_Kernel\<close>, \<open>Outbox\<close>, \<open>Trust_Safety\<close>: the kernel over the locale
  \<open>reliability_store\<close>, interpreted for the in-memory and the SQLite store, and the refinement between them.
  \<open>Durable_Fsm\<close>, \<open>Durable_Store\<close>, \<open>Durable_Safety\<close>: the durable tables and the interleavings of the
  transactions of any number of workers; \<open>Durable_Ticks\<close>, \<open>Tick_Safety\<close>: \<open>run_tick\<close> and its write-ahead rule.
  \<open>Build_Dag\<close>, \<open>Build_Order\<close>: the sort, the closures, the critical path and the waves of the build.
  \<open>Lifecycle\<close>: the matrices, guards and checks of the kernel's lifecycles.
  \<open>Execution_Bounds\<close>, \<open>Bounds_Safety\<close>: budgets, breakers, the anomaly window and the halt of a session, and
  what holds after any sequence of calls.
  \<open>Job_Queue\<close>, \<open>Queue_Safety\<close>: the job queue: a worker whose lease passed on can no longer write.
  \<open>Idempotency\<close>: reservations by key: one execution at a time, the answer replayed.
  \<open>Ingress\<close>, \<open>Ingress_Safety\<close>: the HMAC middleware over memory or database: nothing unsigned passes, nothing
  passes twice. \<open>Shared_Halts\<close>: \<^verbatim>\<open>security/distributed.py\<close>, halts and capability tokens.

  Interfaces. \<open>transition_matrix\<close> (states, edges, terminal states) is interpreted by every state machine of
  the code; \<open>hash_chain\<close> and \<open>rooted_chain\<close> by the audit log and the action histories;
  \<open>effect_adapter\<close> by the sandbox adapters; \<open>reliability_store\<close> by both stores; \<open>nonce_store\<close> by the memory,
  the database, the store the configuration builds, and the token memory.

  Bounds and termination. Integers are Python's, hence \<open>int\<close>; strings are character lists. Loops over
  data recurse on the data. The loops that need more are \<open>function\<close>s with a measure: the worklist of
  reachable run states (states not yet seen), Kahn's sort (nodes not yet emitted), the eviction of
  anomaly slots (slots left), the printing of numbers. Two matchers of \<open>Regex\<close> count down instead: the
  closure of a starred pattern and the scan of \<^verbatim>\<open>findall\<close> both start from the length of the text, which is
  enough because every round consumes a character.

  Parameters. SHA-256 and HMAC are functions the properties assume injective, or nothing at all, by name;
  the clock, \<^verbatim>\<open>uuid4\<close>, \<^verbatim>\<open>int()\<close> of a setting, URL, IP and base64 parsing, adapters beyond the sandbox, job handlers and outbox
  handlers are arguments of the definitions that call them. Moments that Python keeps as floats are
  integers of a fixed unit or rationals; rounding is not modelled.
\<close>

text \<open>
  Not modelled. SQL is a state of row lists and one transaction is one step: the database's isolation is
  assumed, not shown, so interleavings are of whole transactions. Metric counters, log lines and
  telemetry documents decide nothing and are left out. In a tick, a job handler touches the outside
  world only; the result that the render handler writes is a step of its own among the interleavings, and
  the run status it writes is left out. Routes, start-up, LangGraph nodes, prompts and
  council deliberation pass on what a model answers. The creative, media, layout and video packages are
  tables, string templates and floating-point scores around external engines. The remaining persistence
  modules read and write single rows without a state machine. The manifest lists each with its reason.
\<close>

end
